(* ===== verification/Kaf_Prelude.thy ===== *)
theory Kaf_Prelude
  imports Main "HOL-Library.Word"
begin

unbundle bit_operations_syntax

text \<open>
  Shared vocabulary of the development: Go's machine integers as words, byte slices as
  lists of 8-bit words, the three outcomes of a Go call (a value, an error, a panic),
  big-endian integers as \<^verbatim>\<open>encoding/binary\<close> lays them out, slicing with Go's bounds
  checks, and the generic list and arithmetic lemmas the components use.
\<close>

section \<open>Types\<close>

type_synonym byte = "8 word"
type_synonym bytes = "byte list"
type_synonym i8 = "8 word"
type_synonym i16 = "16 word"
type_synonym i32 = "32 word"
type_synonym i64 = "64 word"
type_synonym u16 = "16 word"
type_synonym u32 = "32 word"
type_synonym u64 = "64 word"

text \<open>A Go string is a sequence of bytes; \<open>str\<close> turns an ASCII literal into one.\<close>

type_synonym gostring = bytes

definition str :: "string \<Rightarrow> gostring" where
  "str s = map of_char s"

text \<open>
  The error values the modelled code returns: the two sentinel errors of package
  \<^verbatim>\<open>io\<close>, an error made by \<^verbatim>\<open>constant.CreateError\<close> (a protocol error code), an error
  of the operating system and any other error.
\<close>

datatype go_err =
    EOF
  | UnexpectedEOF
  | KafErr i16
  | OSErr
  | GoErr string

datatype 'a res = Ok 'a | Err go_err | Panic

fun res_bind :: "'a res \<Rightarrow> ('a \<Rightarrow> 'b res) \<Rightarrow> 'b res" where
  "res_bind (Ok a) f = f a"
| "res_bind (Err e) f = Err e"
| "res_bind Panic f = Panic"

named_theorems kaf_defs \<open>definitions that the component proofs unfold together\<close>
named_theorems decodes_intros \<open>introduction rules for successful decoding\<close>
named_theorems appends_simps \<open>every writer appends to its buffer\<close>

lemma res_bind_Ok_iff: "res_bind m f = Ok y \<longleftrightarrow> (\<exists>x. m = Ok x \<and> f x = Ok y)"
  by (cases m) auto

section \<open>Machine integers\<close>

text \<open>Go's \<^verbatim>\<open>int\<close> and \<^verbatim>\<open>int64\<close> arithmetic wraps around at 64 bits.\<close>

definition wrap64 :: "int \<Rightarrow> int" where
  "wrap64 n = sint (word_of_int n :: 64 word)"

lemma wrap64_id [simp]: "- (2 ^ 63) \<le> n \<Longrightarrow> n < 2 ^ 63 \<Longrightarrow> wrap64 n = n"
  by (simp add: wrap64_def sint_sbintrunc' signed_take_bit_int_eq_self)

lemma wrap64_nat [simp]: "int n < 9223372036854775808 \<Longrightarrow> wrap64 (int n) = int n"
  by (rule wrap64_id) auto

lemma wrap64_range: "- (2 ^ 63) \<le> wrap64 n" "wrap64 n < 2 ^ 63"
  using sint_range_size [of "word_of_int n :: 64 word"]
  by (simp_all add: wrap64_def word_size)

lemma uint_sint_nonneg:
  assumes "0 \<le> sint (x :: 'a::len word)"
  shows "uint x = sint x"
proof -
  have "sint x < 2 ^ (LENGTH('a) - 1)" by (rule sint_lt)
  also have "\<dots> \<le> (2::int) ^ LENGTH('a)" by (rule power_increasing) auto
  finally have "take_bit LENGTH('a) (sint x) = sint x"
    using assms by (simp add: take_bit_int_eq_self)
  then show ?thesis by (simp add: uint_sint)
qed

lemma uint32_word_of_int: "0 \<le> n \<Longrightarrow> n < 2 ^ 32 \<Longrightarrow> uint (word_of_int n :: u32) = n"
  by (simp add: uint_word_of_int take_bit_int_eq_self)

section \<open>Big-endian integers\<close>

text \<open>
  \<open>be_enc k w\<close> is what \<^verbatim>\<open>PutUint16\<close>, \<^verbatim>\<open>PutUint32\<close>, \<^verbatim>\<open>PutUint64\<close> and their
  \<^verbatim>\<open>Append\<close> variants store (\<open>k\<close> is 2, 4 or 8); \<open>be_dec\<close> is \<^verbatim>\<open>Uint16\<close>,
  \<^verbatim>\<open>Uint32\<close>, \<^verbatim>\<open>Uint64\<close> on a slice of exactly that many bytes.
\<close>

primrec be_enc :: "nat \<Rightarrow> 'a::len word \<Rightarrow> bytes" where
  "be_enc 0 w = []"
| "be_enc (Suc k) w = ucast (drop_bit (8 * k) w) # be_enc k w"

definition be_dec :: "bytes \<Rightarrow> 'a::len word" where
  "be_dec bs = foldl (\<lambda>acc b. push_bit 8 acc OR ucast b) 0 bs"

lemma length_be_enc [simp]: "length (be_enc k w) = k"
  by (induction k) auto

lemma foldl_be_enc:
  "foldl (\<lambda>acc b. push_bit 8 acc OR ucast b) acc (be_enc k w) =
     push_bit (8 * k) acc OR take_bit (8 * k) (w :: 'a::len word)"
proof (induction k arbitrary: acc)
  case 0
  show ?case by simp
next
  case (Suc k)
  have "push_bit (8 * k) (push_bit 8 acc OR ucast (ucast (drop_bit (8 * k) w) :: byte))
          OR take_bit (8 * k) w
        = push_bit (8 * Suc k) acc OR take_bit (8 * Suc k) w"
    by (rule bit_word_eqI) (auto simp: bit_simps ac_simps)
  with Suc show ?case by simp
qed

lemma be_dec_be_enc:
  "be_dec (be_enc k w) = take_bit (8 * k) (w :: 'a::len word)"
  by (simp add: be_dec_def foldl_be_enc)

lemma be_dec_enc16 [simp]: "be_dec (be_enc 2 (w :: 16 word)) = w"
  by (rule trans [OF be_dec_be_enc]) (simp add: take_bit_word_eq_self)

lemma be_dec_enc32 [simp]: "be_dec (be_enc 4 (w :: 32 word)) = w"
  by (rule trans [OF be_dec_be_enc]) (simp add: take_bit_word_eq_self)

lemma be_dec_enc64 [simp]: "be_dec (be_enc 8 (w :: 64 word)) = w"
  by (rule trans [OF be_dec_be_enc]) (simp add: take_bit_word_eq_self)

lemma be_enc_snoc: "be_enc (Suc k) w = be_enc k (drop_bit 8 w) @ [ucast w]"
  by (induction k) (simp_all add: add.commute)

lemma be_dec_snoc: "be_dec (bs @ [b]) = push_bit 8 (be_dec bs) OR ucast b"
  by (simp add: be_dec_def)

lemma be_dec_bits: "bit (be_dec bs :: 'a::len word) n \<Longrightarrow> n < 8 * length bs"
proof (induction bs arbitrary: n rule: rev_induct)
  case Nil
  then show ?case by (simp add: be_dec_def)
next
  case (snoc b bs)
  then have "bit (push_bit 8 (be_dec bs :: 'a word)) n \<or> bit (ucast b :: 'a word) n" by (simp add: be_dec_snoc bit_or_iff)
  then show ?case
    using snoc.IH [of "n - 8"] by (auto simp: bit_simps dest: bit_imp_le_length)
qed

lemma be_enc_dec: "8 * length bs \<le> LENGTH('a) \<Longrightarrow> be_enc (length bs) (be_dec bs :: 'a::len word) = bs"
proof (induction bs rule: rev_induct)
  case (snoc b bs)
  let ?w = "be_dec bs :: 'a word"
  have "drop_bit 8 (push_bit 8 ?w OR ucast b) = ?w"
    using snoc.prems by (intro bit_eqI) (auto simp: bit_simps dest: bit_imp_le_length be_dec_bits)
  moreover have "ucast (push_bit 8 ?w OR ucast b) = b"
    using snoc.prems by (intro bit_eqI) (auto simp: bit_simps dest: bit_imp_le_length)
  ultimately show ?case using snoc by (simp add: be_enc_snoc be_dec_snoc del: be_enc.simps drop_bit_or)
qed simp

section \<open>Slices\<close>

text \<open>\<open>slice bs i j\<close> is Go's \<^verbatim>\<open>bs[i:j]\<close>, which panics when the bounds are out of range.\<close>

definition slice :: "bytes \<Rightarrow> int \<Rightarrow> int \<Rightarrow> bytes res" where
  "slice bs i j =
     (if 0 \<le> i \<and> i \<le> j \<and> j \<le> int (length bs)
      then Ok (take (nat (j - i)) (drop (nat i) bs)) else Panic)"

lemma slice_append [simp]:
  "slice (pre @ bs @ post) (int (length pre)) (int (length pre) + int (length bs)) = Ok bs"
  by (simp add: slice_def)

text \<open>\<open>sub i n bs\<close> is the \<open>n\<close>-byte field at byte \<open>i\<close> of a buffer known to hold it.\<close>

definition sub :: "nat \<Rightarrow> nat \<Rightarrow> bytes \<Rightarrow> bytes" where
  "sub i n bs = take n (drop i bs)"

lemma length_sub [simp]: "i + n \<le> length bs \<Longrightarrow> length (sub i n bs) = n"
  by (simp add: sub_def)

lemma sub_append_left: "i + n \<le> length bs \<Longrightarrow> sub i n (bs @ cs) = sub i n bs"
  by (simp add: sub_def)

lemma sub_append_right [simp]: "sub (length pre + i) n (pre @ bs) = sub i n bs"
  by (simp add: sub_def)

text \<open>\<open>overwrite i d bs\<close> stores \<open>d\<close> into \<open>bs\<close> from index \<open>i\<close> on (in range).\<close>

definition overwrite :: "nat \<Rightarrow> bytes \<Rightarrow> bytes \<Rightarrow> bytes" where
  "overwrite i d bs = take i bs @ d @ drop (i + length d) bs"

lemma length_overwrite [simp]:
  "i + length d \<le> length bs \<Longrightarrow> length (overwrite i d bs) = length bs"
  by (simp add: overwrite_def)

lemma sub_overwrite_same [simp]:
  "i + length d \<le> length bs \<Longrightarrow> n = length d \<Longrightarrow> sub i n (overwrite i d bs) = d"
  by (simp add: sub_def overwrite_def)

lemma sub_overwrite_before:
  "i + length d \<le> length bs \<Longrightarrow> j + n \<le> i \<Longrightarrow> sub j n (overwrite i d bs) = sub j n bs"
  by (simp add: sub_def overwrite_def drop_take)

lemma sub_overwrite_after:
  assumes "i + length d \<le> length bs" and "i + length d \<le> j"
  shows "sub j n (overwrite i d bs) = sub j n bs"
proof -
  have "drop j (overwrite i d bs) = drop (j - (i + length d)) (drop (i + length d) bs)"
    using assms by (simp add: overwrite_def)
  also have "\<dots> = drop j bs"
    using assms by simp
  finally show ?thesis by (simp add: sub_def)
qed

end
