(* ===== verification/Kaf_Idempotence.thy ===== *)
theory Kaf_Idempotence
  imports Kaf_Prelude "HOL-Library.AList"
begin

text \<open>
  Per-partition duplicate detection for idempotent producers
  (\<^verbatim>\<open>coordinator/idempotence_state.go\<close>). Sequence numbers and epochs keep their Go widths,
  because the comparison with \<^verbatim>\<open>LastSeq+1\<close> is made after the addition has wrapped around.
  The map of producers is an association list, whose order stands for the unspecified
  order of a Go map iteration. The ring of a producer refines the queue of its last five
  batches.
\<close>

section \<open>State\<close>

definition IdempotenceRingSize :: nat where "IdempotenceRingSize = 5"
definition producerIdExpirationMs :: int where "producerIdExpirationMs = 60 * 60 * 1000"

definition ErrDuplicateSequenceNumber :: i16 where "ErrDuplicateSequenceNumber = 45"
definition ErrInvalidProducerEpoch :: i16 where "ErrInvalidProducerEpoch = 46"
definition ErrUnknownProducerId :: i16 where "ErrUnknownProducerId = 59"
definition ErrOutOfOrderSequenceNumber :: i16 where "ErrOutOfOrderSequenceNumber = 90"

record ProducerRingSlot =
  rs_FirstSeq :: i32
  rs_LastSeq :: i32
  rs_BaseOffset :: i64
  rs_LeaderEpoch :: i32

record ProducerBatchLog =
  pl_LastSeq :: i32
  pl_LastOffset :: i64
  pl_LastEpoch :: i16
  pl_LastLeaderEpoch :: i32
  pl_LastTimestamp :: i64
  pl_Ring :: "ProducerRingSlot list"
  pl_RingHead :: nat

type_synonym IdempotenceState = "(i64 \<times> ProducerBatchLog) list"

definition NewIdempotenceState :: IdempotenceState where
  "NewIdempotenceState = []"

definition empty_slot :: ProducerRingSlot where
  "empty_slot = \<lparr>rs_FirstSeq = -1, rs_LastSeq = 0, rs_BaseOffset = 0, rs_LeaderEpoch = 0\<rparr>"

definition newProducerBatchLog :: "i16 \<Rightarrow> ProducerBatchLog" where
  "newProducerBatchLog epoch =
     \<lparr>pl_LastSeq = -1, pl_LastOffset = 0, pl_LastEpoch = epoch, pl_LastLeaderEpoch = -1,
      pl_LastTimestamp = 0, pl_Ring = replicate IdempotenceRingSize empty_slot, pl_RingHead = 0\<rparr>"

section \<open>Validation and recording\<close>

fun lookup_slots :: "ProducerRingSlot list \<Rightarrow> i32 \<Rightarrow> i32 \<Rightarrow> i64 option" where
  "lookup_slots [] firstSeq lastSeq = None"
| "lookup_slots (e # es) firstSeq lastSeq =
     (if sint (rs_FirstSeq e) < 0 then lookup_slots es firstSeq lastSeq
      else if rs_FirstSeq e = firstSeq \<and> rs_LastSeq e = lastSeq then Some (rs_BaseOffset e)
      else lookup_slots es firstSeq lastSeq)"

definition lookupRing :: "ProducerBatchLog \<Rightarrow> i32 \<Rightarrow> i32 \<Rightarrow> i64 option" where
  "lookupRing pb firstSeq lastSeq = lookup_slots (pl_Ring pb) firstSeq lastSeq"

text \<open>\<open>now\<close> is the clock in milliseconds; an expired producer is forgotten first.\<close>

definition expire :: "int \<Rightarrow> i64 \<Rightarrow> IdempotenceState \<Rightarrow> IdempotenceState" where
  "expire now pid st =
     (case map_of st pid of
        Some pb \<Rightarrow>
          if now - sint (pl_LastTimestamp pb) > producerIdExpirationMs then AList.delete pid st else st
      | None \<Rightarrow> st)"

definition Validate ::
  "int \<Rightarrow> i64 \<Rightarrow> i16 \<Rightarrow> i32 \<Rightarrow> i32 \<Rightarrow> IdempotenceState \<Rightarrow> (i64 \<times> bool) res \<times> IdempotenceState" where
  "Validate now pid epoch firstSeq lastSeq st =
     (let st = expire now pid st in
      case map_of st pid of
        None \<Rightarrow>
          if firstSeq \<noteq> 0 then (Err (KafErr ErrUnknownProducerId), st) else (Ok (0, False), st)
      | Some pb \<Rightarrow>
          if sint epoch < sint (pl_LastEpoch pb) then (Err (KafErr ErrInvalidProducerEpoch), st)
          else if sint epoch > sint (pl_LastEpoch pb) then
            if firstSeq \<noteq> 0 then (Err (KafErr ErrOutOfOrderSequenceNumber), st)
            else (Ok (0, False), AList.delete pid st)
          else if firstSeq = pl_LastSeq pb + 1 then (Ok (0, False), st)
          else if firstSeq = 0 \<and> pl_LastSeq pb = 0x7fffffff then (Ok (0, False), st)
          else if sint firstSeq > sint (pl_LastSeq pb + 1) then
            (Err (KafErr ErrOutOfOrderSequenceNumber), st)
          else (case lookupRing pb firstSeq lastSeq of
                  Some cached \<Rightarrow> (Ok (cached, True), st)
                | None \<Rightarrow> (Err (KafErr ErrDuplicateSequenceNumber), st)))"

definition record_batch :: "int \<Rightarrow> i16 \<Rightarrow> i32 \<Rightarrow> i32 \<Rightarrow> i64 \<Rightarrow> ProducerBatchLog \<Rightarrow> ProducerBatchLog" where
  "record_batch now epoch firstSeq lastSeq baseOff pb =
     pb\<lparr>pl_LastEpoch := epoch, pl_LastSeq := lastSeq,
          pl_LastOffset := baseOff + scast (lastSeq - firstSeq),
          pl_LastTimestamp := word_of_int now,
          pl_Ring := (pl_Ring pb)[pl_RingHead pb :=
            \<lparr>rs_FirstSeq = firstSeq, rs_LastSeq = lastSeq, rs_BaseOffset = baseOff, rs_LeaderEpoch = -1\<rparr>],
          pl_RingHead := (pl_RingHead pb + 1) mod IdempotenceRingSize\<rparr>"

definition Record ::
  "int \<Rightarrow> i64 \<Rightarrow> i16 \<Rightarrow> i32 \<Rightarrow> i32 \<Rightarrow> i64 \<Rightarrow> IdempotenceState \<Rightarrow> IdempotenceState" where
  "Record now pid epoch firstSeq lastSeq baseOff st =
     (let pb = (case map_of st pid of Some p \<Rightarrow> p | None \<Rightarrow> newProducerBatchLog epoch)
      in AList.update pid (record_batch now epoch firstSeq lastSeq baseOff pb) st)"

section \<open>Snapshots\<close>

record ProducerSnapshotEntry =
  pe_ProducerId :: i64
  pe_Log :: ProducerBatchLog

definition Snapshot :: "IdempotenceState \<Rightarrow> ProducerSnapshotEntry list" where
  "Snapshot st = map (\<lambda>(pid, pb). \<lparr>pe_ProducerId = pid, pe_Log = pb\<rparr>) st"

definition Restore :: "ProducerSnapshotEntry list \<Rightarrow> IdempotenceState" where
  "Restore entries = fold (\<lambda>e st. AList.update (pe_ProducerId e) (pe_Log e) st) entries []"

section \<open>The ring as a queue\<close>

text \<open>The slots from the oldest to the newest, empty ones first.\<close>

definition ring_order :: "ProducerBatchLog \<Rightarrow> ProducerRingSlot list" where
  "ring_order p = rotate (pl_RingHead p) (pl_Ring p)"

definition filled :: "ProducerRingSlot \<Rightarrow> bool" where
  "filled e \<longleftrightarrow> 0 \<le> sint (rs_FirstSeq e)"

text \<open>The batches a producer's log remembers, oldest first.\<close>

definition remembered :: "ProducerBatchLog \<Rightarrow> ProducerRingSlot list" where
  "remembered p = filter filled (ring_order p)"

definition ring_inv :: "ProducerBatchLog \<Rightarrow> bool" where
  "ring_inv p \<longleftrightarrow> length (pl_Ring p) = 5 \<and> pl_RingHead p < 5 \<and>
     (\<exists>k \<le> 5. ring_order p = replicate k empty_slot @ drop k (ring_order p) \<and>
        list_all filled (drop k (ring_order p)))"

lemma ring_inv_new: "ring_inv (newProducerBatchLog epoch)"
  by (auto simp: ring_inv_def newProducerBatchLog_def ring_order_def IdempotenceRingSize_def intro!: exI [of _ 5])

lemma remembered_new: "remembered (newProducerBatchLog epoch) = []"
  by (simp add: remembered_def newProducerBatchLog_def ring_order_def filled_def empty_slot_def)

lemma rotate_update:
  assumes "h < length xs"
  shows "rotate ((h + 1) mod length xs) (xs[h := x]) = tl (rotate h xs) @ [x]"
proof -
  have r: "rotate h xs = drop h xs @ take h xs" using assms by (simp add: rotate_drop_take)
  have d: "drop h xs = xs ! h # drop (Suc h) xs" using assms by (rule Cons_nth_drop_Suc [symmetric])
  have u: "xs[h := x] = take h xs @ x # drop (Suc h) xs" using assms by (rule upd_conv_take_nth_drop)
  have len: "length (take h xs) = h" using assms by simp
  show ?thesis
  proof (cases "Suc h = length xs")
    case True
    then show ?thesis using assms by (simp add: u r d)
  next
    case False
    with assms have "Suc h < length xs" by simp
    then show ?thesis using assms by (simp add: r d rotate_drop_take) (simp add: u len)
  qed
qed

text \<open>Overwriting the slot at the head drops the oldest slot and adds the newest.\<close>

lemma ring_order_record:
  assumes "length (pl_Ring p) = 5" "pl_RingHead p < 5"
  shows "ring_order (record_batch now e f l b p) = tl (ring_order p) @
    [\<lparr>rs_FirstSeq = f, rs_LastSeq = l, rs_BaseOffset = b, rs_LeaderEpoch = -1\<rparr>]"
  using rotate_update [of "pl_RingHead p" "pl_Ring p"] assms
  by (simp add: ring_order_def record_batch_def IdempotenceRingSize_def)

lemma filled_new_slot: "filled \<lparr>rs_FirstSeq = f, rs_LastSeq = l, rs_BaseOffset = b, rs_LeaderEpoch = -1\<rparr> \<longleftrightarrow> 0 \<le> sint f"
  by (simp add: filled_def)

lemma not_filled_empty: "\<not> filled empty_slot"
  by (simp add: filled_def empty_slot_def)

lemma ring_inv_split:
  assumes "ring_inv p"
  obtains k where "k \<le> 5" "ring_order p = replicate k empty_slot @ remembered p"
    "length (remembered p) = 5 - k" "list_all filled (remembered p)"
proof -
  obtain k where k: "k \<le> 5" "ring_order p = replicate k empty_slot @ drop k (ring_order p)"
      "list_all filled (drop k (ring_order p))"
    using assms by (auto simp: ring_inv_def)
  have "remembered p = filter filled (replicate k empty_slot @ drop k (ring_order p))"
    unfolding remembered_def using k(2) by simp
  also have "\<dots> = drop k (ring_order p)"
    using k(3) not_filled_empty by (simp add: filter_id_conv list_all_iff)
  finally have r: "remembered p = drop k (ring_order p)" .
  show thesis
    using k assms unfolding r [symmetric] by (intro that [of k]) (auto simp: r ring_order_def ring_inv_def)
qed

text \<open>A queue bounded to five elements.\<close>

definition push5 :: "'a \<Rightarrow> 'a list \<Rightarrow> 'a list" where
  "push5 x xs = (if length xs < 5 then xs @ [x] else tl xs @ [x])"

lemma record_batch_refines:
  assumes inv: "ring_inv p" and f: "0 \<le> sint f"
  shows "ring_inv (record_batch now e f l b p)"
    "remembered (record_batch now e f l b p) =
       push5 \<lparr>rs_FirstSeq = f, rs_LastSeq = l, rs_BaseOffset = b, rs_LeaderEpoch = -1\<rparr> (remembered p)"
proof -
  let ?s = "\<lparr>rs_FirstSeq = f, rs_LastSeq = l, rs_BaseOffset = b, rs_LeaderEpoch = -1\<rparr>"
  let ?p = "record_batch now e f l b p"
  obtain k where k: "k \<le> 5" "ring_order p = replicate k empty_slot @ remembered p"
      "length (remembered p) = 5 - k" "list_all filled (remembered p)"
    using ring_inv_split [OF inv] by blast
  have len: "length (pl_Ring p) = 5" "pl_RingHead p < 5" using inv by (auto simp: ring_inv_def)
  have ord: "ring_order ?p = tl (ring_order p) @ [?s]" by (rule ring_order_record [OF len])
  have s: "filled ?s" using f by (simp add: filled_new_slot)
  define k' where "k' = k - 1"
  have ord': "ring_order ?p = replicate k' empty_slot @ push5 ?s (remembered p)"
    using k by (cases k) (auto simp: ord push5_def k'_def)
  have fl: "list_all filled (push5 ?s (remembered p))"
    using k(4) s by (cases "remembered p") (auto simp: push5_def)
  show "remembered ?p = push5 ?s (remembered p)"
    unfolding remembered_def [of ?p] ord' using fl not_filled_empty by (simp add: list_all_iff filter_id_conv)
  have "length (pl_Ring ?p) = 5" "pl_RingHead ?p < 5"
    using len by (auto simp: record_batch_def IdempotenceRingSize_def)
  then show "ring_inv ?p"
    using fl k k'_def by (auto simp: ring_inv_def ord' intro!: exI [of _ k'])
qed

text \<open>The ring lookup finds a batch exactly when it is remembered.\<close>

lemma lookup_slots_None:
  "lookup_slots es f l = None \<longleftrightarrow> (\<forall>e\<in>set es. filled e \<longrightarrow> (rs_FirstSeq e, rs_LastSeq e) \<noteq> (f, l))"
  by (induction es) (auto simp: filled_def)

lemma lookup_slots_Some:
  "lookup_slots es f l = Some b \<Longrightarrow>
     \<exists>e\<in>set es. filled e \<and> rs_FirstSeq e = f \<and> rs_LastSeq e = l \<and> rs_BaseOffset e = b"
  by (induction es) (auto simp: filled_def split: if_splits)

lemma set_remembered: "set (remembered p) = {e \<in> set (pl_Ring p). filled e}"
  by (auto simp: remembered_def ring_order_def)

lemma lookupRing_remembered:
  assumes "e \<in> set (remembered p)"
    and "\<And>e'. e' \<in> set (remembered p) \<Longrightarrow> rs_FirstSeq e' = rs_FirstSeq e \<Longrightarrow> rs_BaseOffset e' = rs_BaseOffset e"
  shows "lookupRing p (rs_FirstSeq e) (rs_LastSeq e) = Some (rs_BaseOffset e)"
proof -
  have e: "e \<in> set (pl_Ring p)" "filled e" using assms(1) by (auto simp: set_remembered)
  then obtain b where b: "lookup_slots (pl_Ring p) (rs_FirstSeq e) (rs_LastSeq e) = Some b"
    using lookup_slots_None [of "pl_Ring p" "rs_FirstSeq e" "rs_LastSeq e"]
    by (cases "lookup_slots (pl_Ring p) (rs_FirstSeq e) (rs_LastSeq e)") auto
  then show ?thesis
    using lookup_slots_Some [OF b] assms(2) by (auto simp: lookupRing_def set_remembered)
qed

section \<open>Duplicate detection\<close>

text \<open>
  \<open>seq_run f0 bs\<close>: batches with consecutive sequence numbers that do not reach the largest
  sequence number, from \<open>f0\<close> on. A batch is (first, last, base offset).
\<close>

fun seq_run :: "i32 \<Rightarrow> (i32 \<times> i32 \<times> i64) list \<Rightarrow> bool" where
  "seq_run f0 [] = True"
| "seq_run f0 ((f, l, b) # bs) =
     (f = f0 \<and> 0 \<le> sint f \<and> sint f \<le> sint l \<and> sint l < 2 ^ 31 - 1 \<and> seq_run (l + 1) bs)"

definition record_run :: "int \<Rightarrow> i16 \<Rightarrow> (i32 \<times> i32 \<times> i64) list \<Rightarrow> ProducerBatchLog \<Rightarrow> ProducerBatchLog" where
  "record_run now e bs p = fold (\<lambda>(f, l, b) p. record_batch now e f l b p) bs p"

definition slot_of :: "i32 \<times> i32 \<times> i64 \<Rightarrow> ProducerRingSlot" where
  "slot_of x = (case x of (f, l, b) \<Rightarrow> \<lparr>rs_FirstSeq = f, rs_LastSeq = l, rs_BaseOffset = b, rs_LeaderEpoch = -1\<rparr>)"

definition last5 :: "'a list \<Rightarrow> 'a list" where
  "last5 xs = drop (length xs - 5) xs"

lemma slot_of_simp [simp]:
  "slot_of (f, l, b) = \<lparr>rs_FirstSeq = f, rs_LastSeq = l, rs_BaseOffset = b, rs_LeaderEpoch = -1\<rparr>"
  by (simp add: slot_of_def)

lemma push5_last5: "push5 x (last5 xs) = last5 (xs @ [x])"
proof (cases "length xs < 5")
  case False
  then have "length xs - 4 = Suc (length xs - 5)" by simp
  with False show ?thesis by (simp add: push5_def last5_def drop_Suc tl_drop)
qed (simp add: push5_def last5_def)

lemma seq_run_append: "seq_run f (xs @ ys) \<Longrightarrow> seq_run f xs"
  by (induction f xs rule: seq_run.induct) auto

lemma seq_run_nonneg: "seq_run f xs \<Longrightarrow> x \<in> set xs \<Longrightarrow> 0 \<le> sint (fst x)"
  by (induction f xs rule: seq_run.induct) auto

lemma record_run_remembered:
  assumes "seq_run f bs"
  shows "ring_inv (record_run now e bs (newProducerBatchLog e))"
    "remembered (record_run now e bs (newProducerBatchLog e)) = map slot_of (last5 bs)"
proof -
  have "ring_inv (record_run now e bs (newProducerBatchLog e)) \<and>
    remembered (record_run now e bs (newProducerBatchLog e)) = last5 (map slot_of bs)"
    using assms
  proof (induction bs rule: rev_induct)
    case Nil
    show ?case by (simp add: record_run_def ring_inv_new remembered_new last5_def)
  next
    case (snoc x bs)
    obtain g l b where x: "x = (g, l, b)" by (cases x)
    have "0 \<le> sint g" using seq_run_nonneg [OF snoc.prems, of x] x by simp
    moreover have "ring_inv (record_run now e bs (newProducerBatchLog e))"
      "remembered (record_run now e bs (newProducerBatchLog e)) = last5 (map slot_of bs)"
      using snoc.IH seq_run_append [OF snoc.prems] by auto
    ultimately show ?case
      using record_batch_refines [of "record_run now e bs (newProducerBatchLog e)" g now e l b]
      by (simp add: record_run_def x push5_last5)
  qed
  then show "ring_inv (record_run now e bs (newProducerBatchLog e))"
    "remembered (record_run now e bs (newProducerBatchLog e)) = map slot_of (last5 bs)"
    by (auto simp: last5_def drop_map)
qed

lemma sint_succ:
  assumes "sint (l :: i32) < 2 ^ 31 - 1"
  shows "sint (l + 1) = sint l + 1"
proof -
  have "l + 1 = word_of_int (sint l + 1)" by simp
  moreover have "- (2 ^ 31) \<le> sint l" using sint_ge [of l] by simp
  ultimately show ?thesis
    using assms by (simp only: sint_sbintrunc') (simp add: signed_take_bit_int_eq_self)
qed

lemma seq_run_sorted:
  assumes "seq_run f0 bs"
  shows "sorted_wrt (\<lambda>x y. sint (fst (snd x)) < sint (fst y)) bs" "\<forall>x\<in>set bs. sint f0 \<le> sint (fst x)"
proof -
  have "sorted_wrt (\<lambda>x y. sint (fst (snd x)) < sint (fst y)) bs \<and> (\<forall>x\<in>set bs. sint f0 \<le> sint (fst x))"
    using assms
  proof (induction f0 bs rule: seq_run.induct)
    case (2 f0 f l b bs)
    then have "sint (l + 1) = sint l + 1" by (intro sint_succ) simp
    with 2 show ?case by force
  qed simp
  then show "sorted_wrt (\<lambda>x y. sint (fst (snd x)) < sint (fst y)) bs"
    "\<forall>x\<in>set bs. sint f0 \<le> sint (fst x)" by auto
qed

lemma seq_run_bounds:
  "seq_run f0 bs \<Longrightarrow> (f, l, b) \<in> set bs \<Longrightarrow> 0 \<le> sint f \<and> sint f \<le> sint l \<and> sint l < 2 ^ 31 - 1"
  by (induction f0 bs rule: seq_run.induct) auto

lemma seq_run_last:
  assumes "seq_run f0 (bs @ [(g, m, c)])" "(f, l, b) \<in> set (bs @ [(g, m, c)])"
  shows "sint f \<le> sint m"
  using seq_run_sorted(1) [OF assms(1)] seq_run_bounds [OF assms] seq_run_bounds [OF assms(1), of g m c] assms(2)
  by (auto simp: sorted_wrt_append)

lemma seq_run_unique:
  assumes "seq_run f0 bs" "(f, l, b) \<in> set bs" "(f, l', b') \<in> set bs"
  shows "b = b'"
proof -
  obtain i j where ij: "i < length bs" "bs ! i = (f, l, b)" "j < length bs" "bs ! j = (f, l', b')"
    using assms by (auto simp: in_set_conv_nth)
  have s: "sint (fst (snd (bs ! i))) < sint (fst (bs ! j))" if "i < j" "j < length bs" for i j
    using seq_run_sorted(1) [OF assms(1)] that by (auto simp: sorted_wrt_iff_nth_less)
  have "i = j"
    using s [of i j] s [of j i] ij seq_run_bounds [OF assms(1,2)] seq_run_bounds [OF assms(1,3)]
    by (metis fst_conv snd_conv linorder_neqE_nat not_less)
  then show ?thesis using ij by simp
qed

lemma set_last5: "set (last5 xs) \<subseteq> set xs"
  by (auto simp: last5_def dest: in_set_dropD)

lemma record_run_snoc: "record_run now e (bs @ [(f, l, b)]) p = record_batch now e f l b (record_run now e bs p)"
  by (simp add: record_run_def)

lemma lookup_run:
  assumes "seq_run f0 bs" "(f, l, b) \<in> set (last5 bs)"
  shows "lookupRing (record_run now e bs (newProducerBatchLog e)) f l = Some b"
proof -
  let ?p = "record_run now e bs (newProducerBatchLog e)"
  note r = record_run_remembered(2) [OF assms(1), of now e]
  have "slot_of (f, l, b) \<in> set (remembered ?p)" unfolding r using assms(2) by force
  moreover have "rs_BaseOffset e' = b" if e': "e' \<in> set (remembered ?p)" "rs_FirstSeq e' = f" for e'
  proof -
    obtain l' b' where "e' = slot_of (f, l', b')" "(f, l', b') \<in> set (last5 bs)"
      using e' unfolding r by auto
    then show ?thesis using seq_run_unique [OF assms(1)] assms(2) set_last5 by fastforce
  qed
  ultimately show ?thesis
    using lookupRing_remembered [of "slot_of (f, l, b)" ?p] by simp
qed

lemma Validate_duplicate:
  assumes run: "seq_run f0 bs" "(f, l, b) \<in> set (last5 bs)"
    and st: "map_of st pid = Some (record_run now e bs (newProducerBatchLog e))"
    and time: "0 \<le> now" "now < 2 ^ 63" "now' - now \<le> producerIdExpirationMs"
  shows "Validate now' pid e f l st = (Ok (b, True), st)"
proof -
  obtain cs g m c where bs: "bs = cs @ [(g, m, c)]"
    using run(2) by (cases bs rule: rev_cases) (auto simp: last5_def)
  let ?p = "record_run now e bs (newProducerBatchLog e)"
  have p: "pl_LastSeq ?p = m" "pl_LastEpoch ?p = e" "pl_LastTimestamp ?p = word_of_int now"
    by (simp_all add: bs record_run_snoc record_batch_def)
  have ts: "sint (word_of_int now :: i64) = now"
    using time by (simp add: sint_sbintrunc' signed_take_bit_int_eq_self)
  have live: "expire now' pid st = st"
    using st time(3) p(3) ts by (simp add: expire_def)
  have m: "sint m < 2 ^ 31 - 1" using seq_run_bounds [OF run(1), of g m c] bs by simp
  have le: "sint f \<le> sint m"
    using seq_run_last [of f0 cs g m c f l b] run set_last5 [of bs] bs by auto
  have succ: "sint (m + 1) = sint m + 1" using sint_succ [OF m] .
  then have ne: "f \<noteq> m + 1" "\<not> sint (m + 1) < sint f" "m \<noteq> 0x7fffffff" using le m by auto
  show ?thesis
    unfolding Validate_def Let_def live using st p ne lookup_run [OF run, of now e] by simp
qed

text \<open>After the largest sequence number the comparison base has wrapped around.\<close>

lemma Validate_at_max:
  assumes "map_of (expire now pid st) pid = Some p" "pl_LastEpoch p = e" "pl_LastSeq p = 0x7fffffff" "0 < sint f"
  shows "Validate now pid e f l st = (Err (KafErr ErrOutOfOrderSequenceNumber), expire now pid st)"
  using assms by (auto simp: Validate_def Let_def)

lemma map_of_Record:
  "map_of (Record now pid e f l b st) =
     (map_of st)(pid \<mapsto> record_batch now e f l b
        (case map_of st pid of Some p \<Rightarrow> p | None \<Rightarrow> newProducerBatchLog e))"
  by (simp add: Record_def Let_def update_conv')

lemma Record_run:
  assumes "map_of st pid = None" "bs \<noteq> []"
  shows "map_of (fold (\<lambda>(f, l, b). Record now pid e f l b) bs st) pid =
    Some (record_run now e bs (newProducerBatchLog e))"
  using assms
proof (induction bs rule: rev_induct)
  case (snoc x bs)
  then show ?case
    by (cases "bs = []") (auto simp: map_of_Record record_run_def split: prod.splits)
qed simp

section \<open>Properties\<close>

text \<open>What validation decides after an in-sequence run that ended with sequence number \<open>m\<close>.\<close>

lemma Validate_after_run:
  assumes run: "seq_run f0 (cs @ [(g, m, c)])"
    and st: "map_of st pid = Some (record_run now e (cs @ [(g, m, c)]) (newProducerBatchLog e))"
    and time: "0 \<le> now" "now < 2 ^ 63" "now' - now \<le> producerIdExpirationMs"
  shows "Validate now' pid e (m + 1) l st = (Ok (0, False), st)"
    "sint m + 1 < sint f \<Longrightarrow> Validate now' pid e f l st = (Err (KafErr ErrOutOfOrderSequenceNumber), st)"
    "sint e' < sint e \<Longrightarrow> Validate now' pid e' f l st = (Err (KafErr ErrInvalidProducerEpoch), st)"
proof -
  let ?p = "record_run now e (cs @ [(g, m, c)]) (newProducerBatchLog e)"
  have p: "pl_LastSeq ?p = m" "pl_LastEpoch ?p = e" "pl_LastTimestamp ?p = word_of_int now"
    by (simp_all add: record_run_snoc record_batch_def)
  have ts: "sint (word_of_int now :: i64) = now"
    using time by (simp add: sint_sbintrunc' signed_take_bit_int_eq_self)
  have live: "expire now' pid st = st"
    using st time(3) p(3) ts by (simp add: expire_def)
  have m: "sint m < 2 ^ 31 - 1" using seq_run_bounds [OF run, of g m c] by simp
  then have mx: "m \<noteq> 0x7fffffff" by auto
  have succ: "sint (m + 1) = sint m + 1" using sint_succ [OF m] .
  show "Validate now' pid e (m + 1) l st = (Ok (0, False), st)"
    unfolding Validate_def Let_def live using st p by simp
  show "Validate now' pid e f l st = (Err (KafErr ErrOutOfOrderSequenceNumber), st)" if "sint m + 1 < sint f"
  proof -
    have "f \<noteq> m + 1" "sint (m + 1) < sint f" using that succ by auto
    then show ?thesis unfolding Validate_def Let_def live using st p mx by simp
  qed
  show "Validate now' pid e' f l st = (Err (KafErr ErrInvalidProducerEpoch), st)" if "sint e' < sint e"
    unfolding Validate_def Let_def live using st p that by simp
qed

text \<open>
  C9. Idempotence of a producer: once a run of batches with consecutive sequence numbers is
  recorded, a retry of any of the last five is recognised and answered with the offset the batch
  got the first time, the next batch in sequence is accepted as new, a batch after a gap is
  refused as out of order and one of an older epoch as fenced; none of this changes the state.
\<close>

theorem idempotent_producer:
  assumes "map_of st pid = None" "seq_run f0 (cs @ [(g, m, c)])"
    and "0 \<le> now" "now < 2 ^ 63" "now' - now \<le> producerIdExpirationMs"
    and st': "st' = fold (\<lambda>(f, l, b). Record now pid e f l b) (cs @ [(g, m, c)]) st"
  shows "((f, l, b) \<in> set (last5 (cs @ [(g, m, c)])) \<longrightarrow> Validate now' pid e f l st' = (Ok (b, True), st')) \<and>
    Validate now' pid e (m + 1) l st' = (Ok (0, False), st') \<and>
    (sint m + 1 < sint f \<longrightarrow> Validate now' pid e f l st' = (Err (KafErr ErrOutOfOrderSequenceNumber), st')) \<and>
    (sint e' < sint e \<longrightarrow> Validate now' pid e' f l st' = (Err (KafErr ErrInvalidProducerEpoch), st'))"
proof -
  have s: "map_of st' pid = Some (record_run now e (cs @ [(g, m, c)]) (newProducerBatchLog e))"
    unfolding st' by (rule Record_run [OF assms(1)]) simp
  show ?thesis
    using Validate_duplicate [OF assms(2) _ s assms(3-5)] Validate_after_run [OF assms(2) s assms(3-5)] by blast
qed

theorem idempotent_producer_witness:
  "let st' = fold (\<lambda>(f, l, b). Record 1000 7 0 f l b) [(0, 2, 40), (3, 3, 43)] NewIdempotenceState in
   Validate 2000 7 0 0 2 st' = (Ok (40, True), st') \<and> Validate 2000 7 0 4 9 st' = (Ok (0, False), st')"
proof -
  have run: "seq_run 0 ([(0, 2, 40)] @ [(3, 3, 43)])" by simp
  have new: "map_of NewIdempotenceState 7 = None" by (simp add: NewIdempotenceState_def)
  have t: "2000 - 1000 \<le> producerIdExpirationMs" by (simp add: producerIdExpirationMs_def)
  have i: "(0, 2, 40) \<in> set (last5 ([(0, 2, 40)] @ [(3 :: i32, 3 :: i32, 43 :: i64)]))" by (simp add: last5_def)
  show ?thesis
    unfolding Let_def
    using idempotent_producer [OF new run _ _ t refl, where e = 0 and f = 0 and l = 2 and b = 40]
      idempotent_producer [OF new run _ _ t refl, where e = 0 and l = 9] i
    by simp
qed

text \<open>
  The five-slot ring refines a queue: recording a batch keeps the ring well formed and
  appends the batch to the remembered ones, dropping the oldest once there are five.
\<close>

theorem ring_refines_queue:
  assumes "ring_inv p" "0 \<le> sint f"
  shows "ring_inv (record_batch now e f l b p) \<and>
    remembered (record_batch now e f l b p) =
      push5 \<lparr>rs_FirstSeq = f, rs_LastSeq = l, rs_BaseOffset = b, rs_LeaderEpoch = -1\<rparr> (remembered p)"
  using record_batch_refines [OF assms] by blast

theorem ring_refines_queue_witness:
  "remembered (record_batch 5 0 3 4 9 (newProducerBatchLog 0)) =
    [\<lparr>rs_FirstSeq = 3, rs_LastSeq = 4, rs_BaseOffset = 9, rs_LeaderEpoch = -1\<rparr>]"
  using ring_refines_queue [OF ring_inv_new, of 3 5 0 4 9 0] by (simp add: remembered_new push5_def)

text \<open>
  C37. Once a producer has reached the largest sequence number, the successor of that number has
  wrapped around to the smallest one, and a retry of any batch with a positive first sequence
  number is refused as out of order instead of being recognised.
\<close>

theorem retry_refused_at_max:
  assumes "map_of (expire now pid st) pid = Some p" "pl_LastEpoch p = e" "pl_LastSeq p = 0x7fffffff" "0 < sint f"
  shows "Validate now pid e f l st = (Err (KafErr ErrOutOfOrderSequenceNumber), expire now pid st)"
  using Validate_at_max [OF assms] .

theorem retry_refused_at_max_witness:
  "let st = Record 1000 7 0 0x7ffffffe 0x7fffffff 40 NewIdempotenceState in
   fst (Validate 2000 7 0 0x7ffffffe 0x7fffffff st) = Err (KafErr ErrOutOfOrderSequenceNumber)"
proof -
  let ?st = "Record 1000 7 0 0x7ffffffe 0x7fffffff 40 NewIdempotenceState"
  let ?p = "record_batch 1000 0 0x7ffffffe 0x7fffffff 40 (newProducerBatchLog 0)"
  have st: "map_of ?st 7 = Some ?p" by (simp add: map_of_Record NewIdempotenceState_def)
  have "pl_LastTimestamp ?p = 1000" by (simp add: record_batch_def)
  then have "expire 2000 7 ?st = ?st" using st by (simp add: expire_def producerIdExpirationMs_def)
  then show ?thesis
    using retry_refused_at_max [of 2000 7 ?st ?p 0 "0x7ffffffe" "0x7fffffff"] st
    by (simp add: record_batch_def Let_def)
qed

end
