(* ===== verification/Kaf_Index.thy ===== *)
theory Kaf_Index
  imports Kaf_Prelude
begin

text \<open>
  The offset index and the time index of a segment (\<^verbatim>\<open>storage/commitlog/index.go\<close>):
  memory-mapped files of fixed-size entries, appended at the end and searched by bisection.
  The mapping is shared, so mapped bytes and file bytes are the same bytes: the state holds
  the file and how many of its bytes are mapped (\<open>None\<close> for the nil mapping a failed
  \<^verbatim>\<open>grow\<close> leaves behind). The abstract view of an index is the list of its entries.
\<close>

section \<open>State\<close>

definition entrySize :: int where "entrySize = 8"
definition timeEntrySize :: int where "timeEntrySize = 12"

text \<open>Which system calls fail during one operation.\<close>

record os_faults =
  f_stat :: bool
  f_truncate :: bool
  f_mmap :: bool
  f_munmap :: bool
  f_msync :: bool
  f_close :: bool

definition no_faults :: os_faults where
  "no_faults = \<lparr>f_stat = False, f_truncate = False, f_mmap = False, f_munmap = False,
     f_msync = False, f_close = False\<rparr>"

record mmap_index =
  ix_file :: bytes
  ix_mmap :: "nat option"
  ix_baseOffset :: int
  ix_size :: int
  ix_entryCount :: nat

type_synonym OffsetIndex = mmap_index
type_synonym TimeIndex = mmap_index

text \<open>\<^verbatim>\<open>file.Truncate\<close> cuts the file or extends it with zero bytes.\<close>

definition truncate_file :: "nat \<Rightarrow> bytes \<Rightarrow> bytes" where
  "truncate_file n bs = take n bs @ replicate (n - length bs) 0"

definition mapped :: "mmap_index \<Rightarrow> bytes" where
  "mapped idx = (case ix_mmap idx of None \<Rightarrow> [] | Some n \<Rightarrow> take n (ix_file idx))"

text \<open>\<^verbatim>\<open>PutUint32\<close>, \<^verbatim>\<open>PutUint64\<close> into the mapping, which panic when the slice is out of range.\<close>

definition mmap_put :: "int \<Rightarrow> bytes \<Rightarrow> mmap_index \<Rightarrow> mmap_index res" where
  "mmap_put p d idx =
     (case slice (mapped idx) p (p + int (length d)) of
        Ok _ \<Rightarrow> Ok (idx\<lparr>ix_file := overwrite (nat p) d (ix_file idx)\<rparr>)
      | Err e \<Rightarrow> Err e
      | Panic \<Rightarrow> Panic)"

text \<open>
  The constructors of both indexes are the same code but for the messages: an empty file
  is extended to 1 MB, the whole file is mapped, and the entry count starts at 0.
\<close>

definition new_index :: "os_faults \<Rightarrow> bytes \<Rightarrow> int \<Rightarrow> mmap_index res" where
  "new_index fl file baseOffset =
     (if f_stat fl then Err OSErr
      else let fileSize = (if length file = 0 then 1024 * 1024 else length file) in
        if length file = 0 \<and> f_truncate fl then Err OSErr
        else let file = (if length file = 0 then truncate_file fileSize file else file) in
          if f_mmap fl then Err OSErr
          else Ok \<lparr>ix_file = file, ix_mmap = Some fileSize, ix_baseOffset = baseOffset,
                   ix_size = int fileSize, ix_entryCount = 0\<rparr>)"

definition NewOffsetIndex :: "os_faults \<Rightarrow> bytes \<Rightarrow> int \<Rightarrow> OffsetIndex res" where
  "NewOffsetIndex fl file baseOffset = new_index fl file baseOffset"

definition NewTimeIndex :: "os_faults \<Rightarrow> bytes \<Rightarrow> int \<Rightarrow> TimeIndex res" where
  "NewTimeIndex fl file baseOffset = new_index fl file baseOffset"

text \<open>
  \<^verbatim>\<open>grow\<close>, again the same for both indexes. Unmapping the nil mapping fails with
  \<^verbatim>\<open>EINVAL\<close>; a failed remapping leaves the mapping nil and the size unchanged.
\<close>

definition grow :: "os_faults \<Rightarrow> mmap_index \<Rightarrow> unit res \<times> mmap_index" where
  "grow fl idx =
     (let newSize = ix_size idx * 2 in
      if f_truncate fl then (Err OSErr, idx)
      else let idx = idx\<lparr>ix_file := truncate_file (nat newSize) (ix_file idx)\<rparr> in
        if f_munmap fl \<or> mapped idx = [] then (Err OSErr, idx)
        else let idx = idx\<lparr>ix_mmap := None\<rparr> in
          if f_mmap fl then (Err OSErr, idx)
          else (Ok (), idx\<lparr>ix_mmap := Some (nat newSize), ix_size := newSize\<rparr>))"

text \<open>Both appends first make room for one more entry.\<close>

definition ensure_room :: "os_faults \<Rightarrow> int \<Rightarrow> mmap_index \<Rightarrow> unit res \<times> mmap_index" where
  "ensure_room fl esize idx =
     (let requiredSize = (int (ix_entryCount idx) + 1) * esize in
      if requiredSize > ix_size idx then grow fl idx else (Ok (), idx))"

text \<open>\<^verbatim>\<open>Close\<close>: sync, unmap, cut the file to the entries in use, close. The result is the file.\<close>

definition close_index :: "os_faults \<Rightarrow> int \<Rightarrow> mmap_index \<Rightarrow> unit res \<times> bytes" where
  "close_index fl esize idx =
     (if ix_mmap idx = None then (Err (GoErr ''index is in invalid state''), ix_file idx)
      else if f_msync fl then (Err OSErr, ix_file idx)
      else if f_munmap fl then (Err OSErr, ix_file idx)
      else if f_truncate fl then (Err OSErr, ix_file idx)
      else (if f_close fl then Err OSErr else Ok (),
            truncate_file (nat (int (ix_entryCount idx) * esize)) (ix_file idx)))"

section \<open>The offset index\<close>

definition OffsetIndex_Append ::
  "os_faults \<Rightarrow> int \<Rightarrow> int \<Rightarrow> OffsetIndex \<Rightarrow> unit res \<times> OffsetIndex" where
  "OffsetIndex_Append fl offset position idx =
     (case ensure_room fl entrySize idx of
        (Err e, idx) \<Rightarrow> (Err e, idx)
      | (Panic, idx) \<Rightarrow> (Panic, idx)
      | (Ok _, idx) \<Rightarrow>
          let relativeOffset = (word_of_int (offset - ix_baseOffset idx) :: i32);
              entryPosition = int (ix_entryCount idx) * entrySize in
          case mmap_put entryPosition (be_enc 4 relativeOffset) idx of
            Ok idx \<Rightarrow>
              (case mmap_put (entryPosition + 4) (be_enc 4 (word_of_int position :: u32)) idx of
                 Ok idx \<Rightarrow> (Ok (), idx\<lparr>ix_entryCount := ix_entryCount idx + 1\<rparr>)
               | _ \<Rightarrow> (Panic, idx))
          | _ \<Rightarrow> (Panic, idx))"

text \<open>\<^verbatim>\<open>int(binary.BigEndian.Uint32(idx.mmap[p : p+4]))\<close>\<close>

definition get_uint32 :: "mmap_index \<Rightarrow> int \<Rightarrow> int res" where
  "get_uint32 idx p = res_bind (slice (mapped idx) p (p + 4)) (\<lambda>b. Ok (uint (be_dec b :: u32)))"

definition get_int64 :: "mmap_index \<Rightarrow> int \<Rightarrow> int res" where
  "get_int64 idx p = res_bind (slice (mapped idx) p (p + 8)) (\<lambda>b. Ok (sint (be_dec b :: i64)))"

text \<open>The loop of \<^verbatim>\<open>Lookup\<close> with its two exits: an exact hit, or the floor entry \<open>result\<close>.\<close>

function offset_search :: "OffsetIndex \<Rightarrow> int \<Rightarrow> int \<Rightarrow> int \<Rightarrow> int \<Rightarrow> int res" where
  "offset_search idx relativeOffset left right result =
     (if left \<le> right then
        let mid = left + (right - left) div 2; entryPosition = mid * entrySize in
        res_bind (get_uint32 idx entryPosition) (\<lambda>entryRelativeOffset.
          if entryRelativeOffset = relativeOffset then get_uint32 idx (entryPosition + 4)
          else if entryRelativeOffset < relativeOffset
          then offset_search idx relativeOffset (mid + 1) right mid
          else offset_search idx relativeOffset left (mid - 1) result)
      else if result \<ge> 0 then get_uint32 idx (result * entrySize + 4)
      else Ok 0)"
  by pat_completeness auto
termination
  by (relation "measure (\<lambda>(_, _, left, right, _). nat (right - left + 1))") auto

declare offset_search.simps [simp del]

definition OffsetIndex_Lookup :: "int \<Rightarrow> OffsetIndex \<Rightarrow> int res" where
  "OffsetIndex_Lookup offset idx =
     (if ix_entryCount idx = 0 then Ok 0
      else offset_search idx (offset - ix_baseOffset idx) 0 (int (ix_entryCount idx) - 1) (-1))"

definition EntryCount :: "OffsetIndex \<Rightarrow> nat" where
  "EntryCount idx = ix_entryCount idx"

definition FindLastOffset :: "OffsetIndex \<Rightarrow> int res" where
  "FindLastOffset idx =
     (if ix_entryCount idx = 0 then Err (GoErr ''index is empty'')
      else res_bind (get_uint32 idx ((int (ix_entryCount idx) - 1) * entrySize))
             (\<lambda>relativeOffset. Ok (ix_baseOffset idx + relativeOffset)))"

definition OffsetIndex_Close :: "os_faults \<Rightarrow> OffsetIndex \<Rightarrow> unit res \<times> bytes" where
  "OffsetIndex_Close fl idx = close_index fl entrySize idx"

section \<open>The time index\<close>

definition TimeIndex_Append ::
  "os_faults \<Rightarrow> int \<Rightarrow> int \<Rightarrow> TimeIndex \<Rightarrow> unit res \<times> TimeIndex" where
  "TimeIndex_Append fl offset timestamp idx =
     (case ensure_room fl timeEntrySize idx of
        (Err e, idx) \<Rightarrow> (Err e, idx)
      | (Panic, idx) \<Rightarrow> (Panic, idx)
      | (Ok _, idx) \<Rightarrow>
          let entryPosition = int (ix_entryCount idx) * timeEntrySize in
          case mmap_put entryPosition (be_enc 8 (word_of_int timestamp :: u64)) idx of
            Ok idx \<Rightarrow>
              (case mmap_put (entryPosition + 8)
                      (be_enc 4 (word_of_int (offset - ix_baseOffset idx) :: u32)) idx of
                 Ok idx \<Rightarrow> (Ok (), idx\<lparr>ix_entryCount := ix_entryCount idx + 1\<rparr>)
               | _ \<Rightarrow> (Panic, idx))
          | _ \<Rightarrow> (Panic, idx))"

function time_search :: "TimeIndex \<Rightarrow> int \<Rightarrow> int \<Rightarrow> int \<Rightarrow> int res" where
  "time_search idx timestamp left right =
     (if left \<le> right then
        let mid = left + (right - left) div 2; entryPosition = mid * timeEntrySize in
        res_bind (get_int64 idx entryPosition) (\<lambda>entryTimestamp.
          if entryTimestamp = timestamp
          then res_bind (get_uint32 idx (entryPosition + 8)) (\<lambda>result. Ok (ix_baseOffset idx + result))
          else if entryTimestamp < timestamp then time_search idx timestamp (mid + 1) right
          else time_search idx timestamp left (mid - 1))
      else Err (GoErr ''timestamp not found in index''))"
  by pat_completeness auto
termination
  by (relation "measure (\<lambda>(_, _, left, right). nat (right - left + 1))") auto

declare time_search.simps [simp del]

definition TimeIndex_Lookup :: "int \<Rightarrow> TimeIndex \<Rightarrow> int res" where
  "TimeIndex_Lookup timestamp idx = time_search idx timestamp 0 (int (ix_entryCount idx) - 1)"

definition TimeIndex_Close :: "os_faults \<Rightarrow> TimeIndex \<Rightarrow> unit res \<times> bytes" where
  "TimeIndex_Close fl idx = close_index fl timeEntrySize idx"

section \<open>Entries and invariant\<close>

definition ix_inv :: "int \<Rightarrow> mmap_index \<Rightarrow> bool" where
  "ix_inv esize idx \<longleftrightarrow> ix_mmap idx = Some (nat (ix_size idx)) \<and>
     ix_size idx \<le> int (length (ix_file idx)) \<and> esize \<le> ix_size idx \<and>
     int (ix_entryCount idx) * esize \<le> ix_size idx"

text \<open>The entries as (relative offset, position) and as (timestamp, relative offset) pairs.\<close>

definition offset_entry :: "bytes \<Rightarrow> nat \<Rightarrow> int \<times> int" where
  "offset_entry file i = (uint (be_dec (sub (8 * i) 4 file) :: u32),
                          uint (be_dec (sub (8 * i + 4) 4 file) :: u32))"

definition offset_entries :: "OffsetIndex \<Rightarrow> (int \<times> int) list" where
  "offset_entries idx = map (offset_entry (ix_file idx)) [0..<ix_entryCount idx]"

definition time_entry :: "bytes \<Rightarrow> nat \<Rightarrow> int \<times> int" where
  "time_entry file i = (sint (be_dec (sub (12 * i) 8 file) :: i64),
                        uint (be_dec (sub (12 * i + 8) 4 file) :: u32))"

definition time_entries :: "TimeIndex \<Rightarrow> (int \<times> int) list" where
  "time_entries idx = map (time_entry (ix_file idx)) [0..<ix_entryCount idx]"

lemma length_offset_entries [simp]: "length (offset_entries idx) = ix_entryCount idx"
  by (simp add: offset_entries_def)

lemma length_time_entries [simp]: "length (time_entries idx) = ix_entryCount idx"
  by (simp add: time_entries_def)

text \<open>What a search for the last entry at or before an offset is meant to return.\<close>

definition floor_pos :: "(int \<times> int) list \<Rightarrow> int \<Rightarrow> int" where
  "floor_pos es rel =
     (case filter (\<lambda>(r, p). r \<le> rel) es of [] \<Rightarrow> 0 | e # es' \<Rightarrow> snd (last (e # es')))"

section \<open>Reading and writing the mapping\<close>

lemma slice_mapped:
  assumes "ix_inv e idx" "0 \<le> p" "p + int n \<le> ix_size idx"
  shows "slice (mapped idx) p (p + int n) = Ok (sub (nat p) n (ix_file idx))"
proof -
  have "n \<le> nat (ix_size idx) - nat p" using assms by linarith
  with assms show ?thesis
    by (simp add: slice_def mapped_def ix_inv_def sub_def drop_take min_def)
qed

lemma get_uint32_mapped:
  assumes "ix_inv e idx" "0 \<le> p" "p + 4 \<le> ix_size idx"
  shows "get_uint32 idx p = Ok (uint (be_dec (sub (nat p) 4 (ix_file idx)) :: u32))"
  using slice_mapped [OF assms(1,2), of 4] assms(3) by (simp add: get_uint32_def)

lemma get_int64_mapped:
  assumes "ix_inv e idx" "0 \<le> p" "p + 8 \<le> ix_size idx"
  shows "get_int64 idx p = Ok (sint (be_dec (sub (nat p) 8 (ix_file idx)) :: i64))"
  using slice_mapped [OF assms(1,2), of 8] assms(3) by (simp add: get_int64_def)

lemma mmap_put_mapped:
  assumes "ix_inv e idx" "0 \<le> p" "p + int (length d) \<le> ix_size idx"
  shows "mmap_put p d idx = Ok (idx\<lparr>ix_file := overwrite (nat p) d (ix_file idx)\<rparr>)"
  using slice_mapped [OF assms] by (simp add: mmap_put_def)

lemma ix_inv_overwrite:
  assumes "ix_inv e idx" "0 \<le> p" "p + int (length d) \<le> ix_size idx"
  shows "ix_inv e (idx\<lparr>ix_file := overwrite (nat p) d (ix_file idx)\<rparr>)"
proof -
  have "nat p + length d \<le> length (ix_file idx)"
    using assms unfolding ix_inv_def by linarith
  with assms(1) show ?thesis by (simp add: ix_inv_def)
qed

lemma sub_truncate_file:
  "i + n \<le> m \<Longrightarrow> i + n \<le> length bs \<Longrightarrow> sub i n (truncate_file m bs) = sub i n bs"
  by (simp add: sub_def truncate_file_def drop_take min_def)

lemma length_truncate_file [simp]: "length (truncate_file m bs) = m"
  by (simp add: truncate_file_def)

text \<open>After a successful \<^verbatim>\<open>grow\<close> there is room for one more entry and the old ones are kept.\<close>

lemma grow_room:
  assumes "ix_inv e idx" "0 < e" "grow fl idx = (Ok u, idx')"
  shows "ix_inv e idx'" "(int (ix_entryCount idx') + 1) * e \<le> ix_size idx'"
    "ix_entryCount idx' = ix_entryCount idx" "ix_baseOffset idx' = ix_baseOffset idx"
    "\<And>i n. int (i + n) \<le> ix_size idx \<Longrightarrow> sub i n (ix_file idx') = sub i n (ix_file idx)"
proof -
  have idx': "idx' = idx\<lparr>ix_file := truncate_file (nat (ix_size idx * 2)) (ix_file idx),
      ix_mmap := Some (nat (ix_size idx * 2)), ix_size := ix_size idx * 2\<rparr>"
    using assms(3) by (auto simp: grow_def Let_def split: if_splits)
  show "ix_inv e idx'" "(int (ix_entryCount idx') + 1) * e \<le> ix_size idx'"
    "ix_entryCount idx' = ix_entryCount idx" "ix_baseOffset idx' = ix_baseOffset idx"
    using assms(1,2) unfolding idx' ix_inv_def by (auto simp: algebra_simps)
  show "sub i n (ix_file idx') = sub i n (ix_file idx)" if "int (i + n) \<le> ix_size idx" for i n
    using assms(1) that unfolding idx' ix_inv_def by (simp add: sub_truncate_file)
qed

lemma grow_ok:
  assumes "ix_inv e idx" "0 < e"
  shows "\<exists>idx'. grow no_faults idx = (Ok (), idx')"
  using assms by (auto simp: grow_def Let_def no_faults_def mapped_def ix_inv_def truncate_file_def)

lemma mod_entry_bytes:
  assumes "ix_inv e idx" "i < ix_entryCount idx" "0 < e" "k + n \<le> nat e"
  shows "int (nat e * i + k + n) \<le> int (ix_entryCount idx) * e"
proof -
  have "(int i + 1) * e \<le> int (ix_entryCount idx) * e"
    using assms(2,3) by (intro mult_right_mono) auto
  moreover have "int (nat e * i + k + n) \<le> (int i + 1) * e"
    using assms(3,4) by (simp add: algebra_simps)
  ultimately show ?thesis by linarith
qed
text \<open>Both appends store two adjacent fields behind the last entry.\<close>

lemma put_entry:
  assumes inv: "ix_inv e idx" and e: "0 < e" "int (length d1) + int (length d2) = e"
    and room: "(int (ix_entryCount idx) + 1) * e \<le> ix_size idx"
  defines "p \<equiv> int (ix_entryCount idx) * e"
  obtains idx1 idx2 where
    "mmap_put p d1 idx = Ok idx1" "mmap_put (p + int (length d1)) d2 idx1 = Ok idx2"
    "ix_entryCount idx1 = ix_entryCount idx" "ix_baseOffset idx1 = ix_baseOffset idx"
    "ix_entryCount idx2 = ix_entryCount idx" "ix_baseOffset idx2 = ix_baseOffset idx"
    "ix_inv e (idx2\<lparr>ix_entryCount := ix_entryCount idx + 1\<rparr>)"
    "sub (nat p) (length d1) (ix_file idx2) = d1"
    "sub (nat p + length d1) (length d2) (ix_file idx2) = d2"
    "\<And>i n. int (i + n) \<le> p \<Longrightarrow> sub i n (ix_file idx2) = sub i n (ix_file idx)"
proof -
  let ?f1 = "overwrite (nat p) d1 (ix_file idx)"
  let ?idx1 = "idx\<lparr>ix_file := ?f1\<rparr>"
  let ?f2 = "overwrite (nat (p + int (length d1))) d2 ?f1"
  let ?idx2 = "?idx1\<lparr>ix_file := ?f2\<rparr>"
  have p: "0 \<le> p" "p + e \<le> ix_size idx"
    using e room unfolding p_def by (auto simp: algebra_simps)
  have len: "ix_size idx \<le> int (length (ix_file idx))" using inv by (simp add: ix_inv_def)
  have inv1: "ix_inv e ?idx1"
    using ix_inv_overwrite [OF inv p(1)] p e by simp
  have np: "nat (p + int (length d1)) = nat p + length d1" using p(1) by simp
  have inv2: "ix_inv e ?idx2"
    using ix_inv_overwrite [OF inv1, of "p + int (length d1)" d2] p e by simp
  have b: "nat p + length d1 + length d2 \<le> length (ix_file idx)" using p e len by linarith
  have l1: "length ?f1 = length (ix_file idx)" using b by simp
  show thesis
  proof (rule that [of ?idx1 ?idx2])
    show "mmap_put p d1 idx = Ok ?idx1"
      using mmap_put_mapped [OF inv p(1)] p e by simp
    show "mmap_put (p + int (length d1)) d2 ?idx1 = Ok ?idx2"
      using mmap_put_mapped [OF inv1, of "p + int (length d1)" d2] p e by simp
    show "ix_inv e (?idx2\<lparr>ix_entryCount := ix_entryCount idx + 1\<rparr>)"
      using inv2 p by (simp add: ix_inv_def p_def algebra_simps)
    show "sub (nat p) (length d1) (ix_file ?idx2) = d1"
      using b l1 by (simp add: np sub_overwrite_before)
    show "sub (nat p + length d1) (length d2) (ix_file ?idx2) = d2"
      using b l1 by (simp add: np)
    show "sub i n (ix_file ?idx2) = sub i n (ix_file idx)" if "int (i + n) \<le> p" for i n
      using that b l1 by (simp add: np sub_overwrite_before)
  qed auto
qed

lemma offset_entries_cong:
  assumes "ix_entryCount idx' = ix_entryCount idx"
    and "\<And>i n. int (i + n) \<le> int (ix_entryCount idx) * 8 \<Longrightarrow>
           sub i n (ix_file idx') = sub i n (ix_file idx)"
  shows "offset_entries idx' = offset_entries idx"
  using assms(1) by (simp add: offset_entries_def offset_entry_def) (simp add: assms(2))

lemma time_entries_cong:
  assumes "ix_entryCount idx' = ix_entryCount idx"
    and "\<And>i n. int (i + n) \<le> int (ix_entryCount idx) * 12 \<Longrightarrow>
           sub i n (ix_file idx') = sub i n (ix_file idx)"
  shows "time_entries idx' = time_entries idx"
  using assms(1) by (simp add: time_entries_def time_entry_def) (simp add: assms(2))

text \<open>The state in which an append stores its entry: the old one, grown when it was full.\<close>

lemma ensure_room_ok:
  assumes "ix_inv e idx" "0 < e"
    and "ensure_room fl e idx = (Ok u, idx')"
  shows "ix_inv e idx'" "(int (ix_entryCount idx') + 1) * e \<le> ix_size idx'"
    "ix_entryCount idx' = ix_entryCount idx" "ix_baseOffset idx' = ix_baseOffset idx"
    "\<And>i n. int (i + n) \<le> int (ix_entryCount idx) * e \<Longrightarrow> sub i n (ix_file idx') = sub i n (ix_file idx)"
proof -
  have *: "int (ix_entryCount idx) * e \<le> ix_size idx" using assms(1) by (simp add: ix_inv_def)
  consider "idx' = idx" "(int (ix_entryCount idx) + 1) * e \<le> ix_size idx" | "grow fl idx = (Ok u, idx')"
    using assms(3) by (fastforce simp: ensure_room_def Let_def split: if_splits)
  then have "ix_inv e idx' \<and> (int (ix_entryCount idx') + 1) * e \<le> ix_size idx' \<and>
    ix_entryCount idx' = ix_entryCount idx \<and> ix_baseOffset idx' = ix_baseOffset idx \<and>
    (\<forall>i n. int (i + n) \<le> int (ix_entryCount idx) * e \<longrightarrow>
       sub i n (ix_file idx') = sub i n (ix_file idx))"
  proof cases
    case 1
    then show ?thesis using assms(1) by simp
  next
    case 2
    note g = grow_room [OF assms(1,2) 2]
    have "sub i n (ix_file idx') = sub i n (ix_file idx)"
      if "int (i + n) \<le> int (ix_entryCount idx) * e" for i n
      by (rule g(5)) (use that * in linarith)
    with g(1-4) show ?thesis by blast
  qed
  then show "ix_inv e idx'" "(int (ix_entryCount idx') + 1) * e \<le> ix_size idx'"
    "ix_entryCount idx' = ix_entryCount idx" "ix_baseOffset idx' = ix_baseOffset idx"
    "\<And>i n. int (i + n) \<le> int (ix_entryCount idx) * e \<Longrightarrow> sub i n (ix_file idx') = sub i n (ix_file idx)"
    by blast+
qed

lemma OffsetIndex_Append_ok:
  assumes inv: "ix_inv entrySize idx"
    and step: "OffsetIndex_Append fl offset position idx = (r, idx')" "r = Ok u"
  shows "ix_inv entrySize idx'" "ix_baseOffset idx' = ix_baseOffset idx"
    "offset_entries idx' = offset_entries idx @
       [(uint (word_of_int (offset - ix_baseOffset idx) :: u32), uint (word_of_int position :: u32))]"
proof -
  obtain idxg where gq: "ensure_room fl entrySize idx = (Ok (), idxg)"
    using step by (auto simp: OffsetIndex_Append_def split: prod.splits res.splits)
  note room = ensure_room_ok [OF inv _ gq, unfolded entrySize_def, simplified]
  let ?d1 = "be_enc 4 (word_of_int (offset - ix_baseOffset idxg) :: i32)"
  let ?d2 = "be_enc 4 (word_of_int position :: u32)"
  obtain idx1 idx2 where E:
    "mmap_put (int (ix_entryCount idxg) * 8) ?d1 idxg = Ok idx1"
    "mmap_put (int (ix_entryCount idxg) * 8 + int (length ?d1)) ?d2 idx1 = Ok idx2"
    "ix_entryCount idx1 = ix_entryCount idxg" "ix_baseOffset idx1 = ix_baseOffset idxg"
    "ix_entryCount idx2 = ix_entryCount idxg" "ix_baseOffset idx2 = ix_baseOffset idxg"
    "ix_inv 8 (idx2\<lparr>ix_entryCount := ix_entryCount idxg + 1\<rparr>)"
    "sub (nat (int (ix_entryCount idxg) * 8)) (length ?d1) (ix_file idx2) = ?d1"
    "sub (nat (int (ix_entryCount idxg) * 8) + length ?d1) (length ?d2) (ix_file idx2) = ?d2"
    "\<And>i n. int (i + n) \<le> int (ix_entryCount idxg) * 8 \<Longrightarrow>
       sub i n (ix_file idx2) = sub i n (ix_file idxg)"
    by (rule put_entry [of 8 idxg ?d1 ?d2]) (use room in auto)
  have idx': "idx' = idx2\<lparr>ix_entryCount := ix_entryCount idxg + 1\<rparr>"
    using step E(1-6) gq by (simp add: OffsetIndex_Append_def Let_def entrySize_def)
  show "ix_inv entrySize idx'" "ix_baseOffset idx' = ix_baseOffset idx"
    using E room by (auto simp: idx' entrySize_def)
  have n: "nat (int (ix_entryCount idx) * 8) = 8 * ix_entryCount idx" by simp
  have old: "offset_entries (idx2\<lparr>ix_entryCount := ix_entryCount idx\<rparr>) = offset_entries idx"
    by (rule offset_entries_cong) (use E room in auto)
  show "offset_entries idx' = offset_entries idx @
       [(uint (word_of_int (offset - ix_baseOffset idx) :: u32), uint (word_of_int position :: u32))]"
    unfolding old [symmetric] using E(8,9) room
    by (simp add: offset_entries_def idx' offset_entry_def n)
qed

lemma TimeIndex_Append_ok:
  assumes inv: "ix_inv timeEntrySize idx"
    and step: "TimeIndex_Append fl offset timestamp idx = (r, idx')" "r = Ok u"
  shows "ix_inv timeEntrySize idx'" "ix_baseOffset idx' = ix_baseOffset idx"
    "time_entries idx' = time_entries idx @
       [(sint (word_of_int timestamp :: i64), uint (word_of_int (offset - ix_baseOffset idx) :: u32))]"
proof -
  obtain idxg where gq: "ensure_room fl timeEntrySize idx = (Ok (), idxg)"
    using step by (auto simp: TimeIndex_Append_def split: prod.splits res.splits)
  note room = ensure_room_ok [OF inv _ gq, unfolded timeEntrySize_def, simplified]
  let ?d1 = "be_enc 8 (word_of_int timestamp :: u64)"
  let ?d2 = "be_enc 4 (word_of_int (offset - ix_baseOffset idxg) :: u32)"
  obtain idx1 idx2 where E:
    "mmap_put (int (ix_entryCount idxg) * 12) ?d1 idxg = Ok idx1"
    "mmap_put (int (ix_entryCount idxg) * 12 + int (length ?d1)) ?d2 idx1 = Ok idx2"
    "ix_entryCount idx1 = ix_entryCount idxg" "ix_baseOffset idx1 = ix_baseOffset idxg"
    "ix_entryCount idx2 = ix_entryCount idxg" "ix_baseOffset idx2 = ix_baseOffset idxg"
    "ix_inv 12 (idx2\<lparr>ix_entryCount := ix_entryCount idxg + 1\<rparr>)"
    "sub (nat (int (ix_entryCount idxg) * 12)) (length ?d1) (ix_file idx2) = ?d1"
    "sub (nat (int (ix_entryCount idxg) * 12) + length ?d1) (length ?d2) (ix_file idx2) = ?d2"
    "\<And>i n. int (i + n) \<le> int (ix_entryCount idxg) * 12 \<Longrightarrow>
       sub i n (ix_file idx2) = sub i n (ix_file idxg)"
    by (rule put_entry [of 12 idxg ?d1 ?d2]) (use room in auto)
  have idx': "idx' = idx2\<lparr>ix_entryCount := ix_entryCount idxg + 1\<rparr>"
    using step E(1-6) gq by (simp add: TimeIndex_Append_def Let_def timeEntrySize_def)
  show "ix_inv timeEntrySize idx'" "ix_baseOffset idx' = ix_baseOffset idx"
    using E room by (auto simp: idx' timeEntrySize_def)
  have n: "nat (int (ix_entryCount idx) * 12) = 12 * ix_entryCount idx" by simp
  have old: "time_entries (idx2\<lparr>ix_entryCount := ix_entryCount idx\<rparr>) = time_entries idx"
    by (rule time_entries_cong) (use E room in auto)
  show "time_entries idx' = time_entries idx @
       [(sint (word_of_int timestamp :: i64), uint (word_of_int (offset - ix_baseOffset idx) :: u32))]"
    unfolding old [symmetric] using E(8,9) room
    by (simp add: time_entries_def idx' time_entry_def n)
qed

text \<open>Without system-call failures an append succeeds.\<close>

lemma OffsetIndex_Append_total:
  assumes inv: "ix_inv entrySize idx"
  shows "fst (OffsetIndex_Append no_faults offset position idx) = Ok ()"
proof -
  obtain idxg where gq: "ensure_room no_faults 8 idx = (Ok (), idxg)"
    using grow_ok [OF inv] by (fastforce simp: ensure_room_def Let_def entrySize_def)
  note room = ensure_room_ok [OF inv [unfolded entrySize_def] _ gq, simplified]
  show ?thesis
    using put_entry [of 8 idxg "be_enc 4 (word_of_int (offset - ix_baseOffset idxg) :: i32)"
        "be_enc 4 (word_of_int position :: u32)"] room gq
    by (fastforce simp: OffsetIndex_Append_def entrySize_def Let_def)
qed

lemma TimeIndex_Append_total:
  assumes inv: "ix_inv timeEntrySize idx"
  shows "fst (TimeIndex_Append no_faults offset timestamp idx) = Ok ()"
proof -
  obtain idxg where gq: "ensure_room no_faults 12 idx = (Ok (), idxg)"
    using grow_ok [OF inv] by (fastforce simp: ensure_room_def Let_def timeEntrySize_def)
  note room = ensure_room_ok [OF inv [unfolded timeEntrySize_def] _ gq, simplified]
  show ?thesis
    using put_entry [of 12 idxg "be_enc 8 (word_of_int timestamp :: u64)"
        "be_enc 4 (word_of_int (offset - ix_baseOffset idxg) :: u32)"] room gq
    by (fastforce simp: TimeIndex_Append_def timeEntrySize_def Let_def)
qed

section \<open>Searching\<close>

lemma entry_fields:
  assumes "ix_inv entrySize idx" "0 \<le> m" "m < int (ix_entryCount idx)"
  shows "get_uint32 idx (m * entrySize) = Ok (fst (offset_entries idx ! nat m))"
    "get_uint32 idx (m * entrySize + 4) = Ok (snd (offset_entries idx ! nat m))"
proof -
  have "(m + 1) * 8 \<le> int (ix_entryCount idx) * 8" using assms by simp
  also have "\<dots> \<le> ix_size idx" using assms(1) by (simp add: ix_inv_def entrySize_def)
  finally have "m * 8 + 8 \<le> ix_size idx" by simp
  moreover have "nat (m * 8) = 8 * nat m" "nat (m * 8 + 4) = 8 * nat m + 4"
    using assms(2) by linarith+
  moreover have "offset_entries idx ! nat m = offset_entry (ix_file idx) (nat m)"
    using assms by (simp add: offset_entries_def nat_less_iff)
  ultimately show "get_uint32 idx (m * entrySize) = Ok (fst (offset_entries idx ! nat m))"
    "get_uint32 idx (m * entrySize + 4) = Ok (snd (offset_entries idx ! nat m))"
    using get_uint32_mapped [OF assms(1), of "m * 8"] get_uint32_mapped [OF assms(1), of "m * 8 + 4"]
      assms(2) by (simp_all add: entrySize_def offset_entry_def)
qed

lemma floor_pos_split:
  assumes "k \<le> length es" "\<And>i. i < k \<Longrightarrow> fst (es ! i) \<le> rel"
    and "\<And>i. k \<le> i \<Longrightarrow> i < length es \<Longrightarrow> rel < fst (es ! i)"
  shows "floor_pos es rel = (if k = 0 then 0 else snd (es ! (k - 1)))"
proof -
  have "fst x \<le> rel" if x: "x \<in> set (take k es)" for x
  proof -
    obtain i where "i < k" "x = es ! i" using x assms(1) by (auto simp: in_set_conv_nth)
    then show ?thesis using assms(2) by simp
  qed
  then have 1: "filter (\<lambda>(r, p). r \<le> rel) (take k es) = take k es"
    by (simp add: filter_id_conv case_prod_beta)
  have "rel < fst x" if x: "x \<in> set (drop k es)" for x
  proof -
    obtain i where "i < length es - k" "x = es ! (k + i)"
      using x assms(1) by (auto simp: in_set_conv_nth)
    then show ?thesis using assms(3) [of "k + i"] by simp
  qed
  then have "filter (\<lambda>(r, p). r \<le> rel) (drop k es) = []"
    by (simp add: filter_empty_conv case_prod_beta not_le)
  with 1 have f: "filter (\<lambda>(r, p). r \<le> rel) es = take k es"
    by (metis append_Nil2 append_take_drop_id filter_append)
  show ?thesis
  proof (cases "k = 0")
    case False
    then have ne: "take k es \<noteq> []" using assms(1) by auto
    then have "last (take k es) = es ! (k - 1)"
      using False assms(1) by (simp add: last_conv_nth min_def)
    with False ne show ?thesis unfolding floor_pos_def f by (cases "take k es") simp_all
  qed (simp add: floor_pos_def f)
qed

lemma offset_search_floor:
  assumes inv: "ix_inv entrySize idx"
    and "0 \<le> left" "right < int (ix_entryCount idx)" "left \<le> right + 1" "result = left - 1"
    and sorted: "sorted_wrt (<) (map fst (offset_entries idx))"
    and low: "\<And>i. int i < left \<Longrightarrow> fst (offset_entries idx ! i) < rel"
    and high: "\<And>i. right < int i \<Longrightarrow> i < ix_entryCount idx \<Longrightarrow> rel < fst (offset_entries idx ! i)"
  shows "offset_search idx rel left right result = Ok (floor_pos (offset_entries idx) rel)"
  using assms(2-5) low high
proof (induction "nat (right - left + 1)" arbitrary: left right result rule: less_induct)
  case less
  let ?es = "offset_entries idx"
  show ?case
  proof (cases "left \<le> right")
    case False
    then have r: "right = left - 1" using less.prems by simp
    have "floor_pos ?es rel = (if nat left = 0 then 0 else snd (?es ! (nat left - 1)))"
    proof (rule floor_pos_split)
      show "fst (?es ! i) \<le> rel" if "i < nat left" for i
        using less.prems(5) [of i] that by linarith
    qed (use less.prems r in auto)
    moreover have "nat left - 1 = nat (left - 1)" using less.prems(1) by simp
    ultimately show ?thesis
      using False less.prems r entry_fields(2) [OF inv, of "left - 1"]
      by (subst offset_search.simps) auto
  next
    case True
    define mid where "mid = left + (right - left) div 2"
    have mid: "left \<le> mid" "mid \<le> right" using True unfolding mid_def by auto
    have m: "0 \<le> mid" "mid < int (ix_entryCount idx)" using less.prems mid by auto
    note f = entry_fields [OF inv m]
    have mono: "fst (?es ! i) < fst (?es ! j)" if "i < j" "j < ix_entryCount idx" for i j
      using sorted that by (auto simp: sorted_wrt_iff_nth_less)
    consider (eq) "fst (?es ! nat mid) = rel" | (lt) "fst (?es ! nat mid) < rel"
      | (gt) "rel < fst (?es ! nat mid)" by linarith
    then show ?thesis
    proof cases
      case eq
      have "floor_pos ?es rel = (if nat mid + 1 = 0 then 0 else snd (?es ! (nat mid + 1 - 1)))"
      proof (rule floor_pos_split)
        show "fst (?es ! i) \<le> rel" if "i < nat mid + 1" for i
          using mono [of i "nat mid"] that eq m by (cases "i = nat mid") (auto simp: nat_less_iff)
        show "rel < fst (?es ! i)" if "nat mid + 1 \<le> i" "i < length ?es" for i
          using mono [of "nat mid" i] that eq by simp
      qed (use m in auto)
      then show ?thesis
        using True eq f by (subst offset_search.simps) (simp add: Let_def mid_def [symmetric])
    next
      case lt
      have "fst (?es ! i) < rel" if "int i < mid + 1" for i
      proof (cases "i = nat mid")
        case False
        then have "i < nat mid" using that m by linarith
        then show ?thesis using mono [of i "nat mid"] lt m by (simp add: nat_less_iff)
      qed (simp add: lt)
      then have "offset_search idx rel (mid + 1) right mid = Ok (floor_pos ?es rel)"
        using less.prems mid by (intro less.hyps) auto
      then show ?thesis
        using True lt f by (subst offset_search.simps) (simp add: Let_def mid_def [symmetric])
    next
      case gt
      have "rel < fst (?es ! i)" if "mid - 1 < int i" "i < ix_entryCount idx" for i
      proof (cases "i = nat mid")
        case False
        then have "nat mid < i" using that m by linarith
        then show ?thesis using mono [of "nat mid" i] gt that by simp
      qed (simp add: gt)
      then have "offset_search idx rel left (mid - 1) result = Ok (floor_pos ?es rel)"
        using less.prems mid by (intro less.hyps) auto
      then show ?thesis
        using True gt f by (subst offset_search.simps) (simp add: Let_def mid_def [symmetric])
    qed
  qed
qed

lemma OffsetIndex_Lookup_floor:
  assumes "ix_inv entrySize idx" "sorted_wrt (<) (map fst (offset_entries idx))"
  shows "OffsetIndex_Lookup offset idx = Ok (floor_pos (offset_entries idx) (offset - ix_baseOffset idx))"
proof (cases "ix_entryCount idx = 0")
  case True
  then show ?thesis by (simp add: OffsetIndex_Lookup_def floor_pos_def offset_entries_def)
next
  case False
  then show ?thesis
    unfolding OffsetIndex_Lookup_def
    by (simp, intro offset_search_floor [OF assms(1) _ _ _ _ assms(2)]) auto
qed

text \<open>Where the floor search starts: at 0, or at an indexed batch not behind the offset.\<close>

lemma floor_pos_cases:
  obtains "floor_pos es rel = 0" "\<And>r p. (r, p) \<in> set es \<Longrightarrow> rel < r"
  | r where "(r, floor_pos es rel) \<in> set es" "r \<le> rel"
proof (cases "filter (\<lambda>(r, p). r \<le> rel) es")
  case Nil
  then have "rel < r" if "(r, p) \<in> set es" for r p
    using that by (auto simp: filter_empty_conv not_le)
  with Nil show ?thesis using that(1) by (simp add: floor_pos_def)
next
  case (Cons e fs)
  obtain r p where l: "last (e # fs) = (r, p)" by fastforce
  moreover have "last (e # fs) \<in> set (filter (\<lambda>(r, p). r \<le> rel) es)"
    using Cons by (metis last_in_set list.distinct(1))
  ultimately have "(r, p) \<in> set es" "r \<le> rel" by auto
  moreover have "floor_pos es rel = p" using l by (simp add: floor_pos_def Cons)
  ultimately show ?thesis using that(2) by blast
qed

lemma time_entry_fields:
  assumes "ix_inv timeEntrySize idx" "0 \<le> m" "m < int (ix_entryCount idx)"
  shows "get_int64 idx (m * timeEntrySize) = Ok (fst (time_entries idx ! nat m))"
    "get_uint32 idx (m * timeEntrySize + 8) = Ok (snd (time_entries idx ! nat m))"
proof -
  have "(m + 1) * 12 \<le> int (ix_entryCount idx) * 12" using assms by simp
  also have "\<dots> \<le> ix_size idx" using assms(1) by (simp add: ix_inv_def timeEntrySize_def)
  finally have "m * 12 + 12 \<le> ix_size idx" by simp
  moreover have "nat (m * 12) = 12 * nat m" "nat (m * 12 + 8) = 12 * nat m + 8"
    using assms(2) by linarith+
  moreover have "time_entries idx ! nat m = time_entry (ix_file idx) (nat m)"
    using assms by (simp add: time_entries_def nat_less_iff)
  ultimately show "get_int64 idx (m * timeEntrySize) = Ok (fst (time_entries idx ! nat m))"
    "get_uint32 idx (m * timeEntrySize + 8) = Ok (snd (time_entries idx ! nat m))"
    using get_int64_mapped [OF assms(1), of "m * 12"] get_uint32_mapped [OF assms(1), of "m * 12 + 8"]
      assms(2) by (simp_all add: timeEntrySize_def time_entry_def)
qed

text \<open>The time search finds exactly the indexed timestamps when they increase.\<close>

definition time_lookup_spec :: "(int \<times> int) list \<Rightarrow> int \<Rightarrow> int \<Rightarrow> int res" where
  "time_lookup_spec es base ts =
     (case map_of es ts of Some rel \<Rightarrow> Ok (base + rel) | None \<Rightarrow> Err (GoErr ''timestamp not found in index''))"

lemma time_search_spec:
  assumes inv: "ix_inv timeEntrySize idx"
    and "0 \<le> left" "right < int (ix_entryCount idx)"
    and sorted: "sorted_wrt (<) (map fst (time_entries idx))"
    and low: "\<And>i. int i < left \<Longrightarrow> i < ix_entryCount idx \<Longrightarrow> fst (time_entries idx ! i) < ts"
    and high: "\<And>i. right < int i \<Longrightarrow> i < ix_entryCount idx \<Longrightarrow> ts < fst (time_entries idx ! i)"
  shows "time_search idx ts left right = time_lookup_spec (time_entries idx) (ix_baseOffset idx) ts"
  using assms(2-3) low high
proof (induction "nat (right - left + 1)" arbitrary: left right rule: less_induct)
  case less
  let ?es = "time_entries idx"
  show ?case
  proof (cases "left \<le> right")
    case False
    have "fst (?es ! i) \<noteq> ts" if "i < ix_entryCount idx" for i
      using less.prems(3) [of i] less.prems(4) [of i] False that by (cases "int i < left") auto
    then have "map_of ?es ts = None" by (fastforce simp: map_of_eq_None_iff in_set_conv_nth)
    then show ?thesis
      using False by (subst time_search.simps) (simp add: time_lookup_spec_def)
  next
    case True
    define mid where "mid = left + (right - left) div 2"
    have mid: "left \<le> mid" "mid \<le> right" using True unfolding mid_def by auto
    have m: "0 \<le> mid" "mid < int (ix_entryCount idx)" using less.prems mid by auto
    then have nm: "nat mid < ix_entryCount idx" by (simp add: nat_less_iff)
    note f = time_entry_fields [OF inv m]
    have mono: "fst (?es ! i) < fst (?es ! j)" if "i < j" "j < ix_entryCount idx" for i j
      using sorted that by (auto simp: sorted_wrt_iff_nth_less)
    consider (eq) "fst (?es ! nat mid) = ts" | (lt) "fst (?es ! nat mid) < ts"
      | (gt) "ts < fst (?es ! nat mid)" by linarith
    then show ?thesis
    proof cases
      case eq
      have "distinct (map fst ?es)"
        using sorted strict_sorted_iff by blast
      moreover have "(ts, snd (?es ! nat mid)) \<in> set ?es"
        using eq nm by (metis length_time_entries nth_mem prod.collapse)
      ultimately have "map_of ?es ts = Some (snd (?es ! nat mid))" by simp
      then show ?thesis
        using True eq f
        by (subst time_search.simps) (simp add: Let_def mid_def [symmetric] time_lookup_spec_def)
    next
      case lt
      have "fst (?es ! i) < ts" if "int i < mid + 1" "i < ix_entryCount idx" for i
      proof (cases "i = nat mid")
        case False
        then have "i < nat mid" using that m by linarith
        then show ?thesis using mono [of i "nat mid"] lt nm by simp
      qed (simp add: lt)
      then have "time_search idx ts (mid + 1) right = time_lookup_spec ?es (ix_baseOffset idx) ts"
        using less.prems mid by (intro less.hyps) auto
      then show ?thesis
        using True lt f by (subst time_search.simps) (simp add: Let_def mid_def [symmetric])
    next
      case gt
      have "ts < fst (?es ! i)" if "mid - 1 < int i" "i < ix_entryCount idx" for i
      proof (cases "i = nat mid")
        case False
        then have "nat mid < i" using that m by linarith
        then show ?thesis using mono [of "nat mid" i] gt that by simp
      qed (simp add: gt)
      then have "time_search idx ts left (mid - 1) = time_lookup_spec ?es (ix_baseOffset idx) ts"
        using less.prems mid by (intro less.hyps) auto
      then show ?thesis
        using True gt f by (subst time_search.simps) (simp add: Let_def mid_def [symmetric])
    qed
  qed
qed

lemma TimeIndex_Lookup_spec:
  assumes "ix_inv timeEntrySize idx" "sorted_wrt (<) (map fst (time_entries idx))"
  shows "TimeIndex_Lookup ts idx = time_lookup_spec (time_entries idx) (ix_baseOffset idx) ts"
  unfolding TimeIndex_Lookup_def
  by (rule time_search_spec [OF assms(1) _ _ assms(2)]) auto

section \<open>Opening, closing and failed growth\<close>

lemma new_index_inv:
  assumes "new_index fl file base = Ok idx" "file = [] \<or> e \<le> int (length file)" "e \<le> 1024 * 1024"
  shows "ix_inv e idx" "ix_entryCount idx = 0" "ix_baseOffset idx = base"
proof -
  have z: "0 * e \<le> int (length file)" by simp
  show "ix_inv e idx" "ix_entryCount idx = 0" "ix_baseOffset idx = base"
    using assms z by (auto simp: new_index_def ix_inv_def Let_def split: if_splits)
qed

lemma new_index_total: "\<exists>idx. new_index no_faults file base = Ok idx"
  by (simp add: new_index_def no_faults_def Let_def)

text \<open>
  When remapping fails inside \<^verbatim>\<open>grow\<close>, the mapping is nil and stays nil: every later lookup
  of a non-empty index panics and every later growth fails.
\<close>

lemma nil_mapping_lookup_panics:
  assumes "ix_mmap idx = None" "0 < ix_entryCount idx"
  shows "OffsetIndex_Lookup offset idx = Panic"
proof -
  have "get_uint32 idx p = Panic" for p
    using assms(1) by (simp add: get_uint32_def mapped_def slice_def)
  with assms(2) show ?thesis
    by (simp add: OffsetIndex_Lookup_def offset_search.simps Let_def)
qed


section \<open>Properties\<close>

text \<open>
  Appending to an offset index succeeds when the operating system does, growing the file if
  need be, and adds the pair of relative offset and position, both at 32 bits, after the
  entries that are there.
\<close>

theorem offset_index_append:
  assumes "ix_inv entrySize idx"
  shows "\<exists>idx'. OffsetIndex_Append no_faults offset position idx = (Ok (), idx') \<and> ix_inv entrySize idx' \<and>
    offset_entries idx' = offset_entries idx @
      [(uint (word_of_int (offset - ix_baseOffset idx) :: u32), uint (word_of_int position :: u32))]"
proof -
  obtain idx' where i: "OffsetIndex_Append no_faults offset position idx = (Ok (), idx')"
    using OffsetIndex_Append_total [OF assms] by (metis prod.collapse)
  from OffsetIndex_Append_ok [OF assms this refl] i show ?thesis by blast
qed

lemma new_offset_index: "\<exists>idx. NewOffsetIndex no_faults [] base = Ok idx \<and> ix_inv entrySize idx \<and> offset_entries idx = [] \<and> ix_baseOffset idx = base"
proof -
  obtain idx where "new_index no_faults [] base = Ok idx" using new_index_total by blast
  with new_index_inv [OF this, of entrySize] show ?thesis
    by (auto simp: NewOffsetIndex_def entrySize_def offset_entries_def)
qed

theorem offset_index_append_witness:
  "\<exists>idx idx'. NewOffsetIndex no_faults [] 100 = Ok idx \<and>
     OffsetIndex_Append no_faults 105 4096 idx = (Ok (), idx') \<and> offset_entries idx' = [(5, 4096)]"
proof -
  obtain idx where "NewOffsetIndex no_faults [] 100 = Ok idx" "ix_inv entrySize idx" "offset_entries idx = []" "ix_baseOffset idx = 100"
    using new_offset_index by blast
  then show ?thesis using offset_index_append [of idx 105 4096] by auto
qed

text \<open>
  C31. On strictly increasing entries the binary search of an offset index returns the position of
  the last entry at or before the offset, and 0 when there is none.
\<close>

theorem offset_index_lookup:
  assumes "ix_inv entrySize idx" "sorted_wrt (<) (map fst (offset_entries idx))"
  shows "OffsetIndex_Lookup offset idx = Ok (floor_pos (offset_entries idx) (offset - ix_baseOffset idx))"
  using OffsetIndex_Lookup_floor [OF assms] .

lemma one_offset_entry:
  "\<exists>idx. ix_inv entrySize idx \<and> offset_entries idx = [(5, 4096)] \<and> ix_baseOffset idx = 100"
proof -
  obtain idx where i: "ix_inv entrySize idx" "offset_entries idx = []" "ix_baseOffset idx = 100"
    using new_offset_index by blast
  obtain idx' where "OffsetIndex_Append no_faults 105 4096 idx = (Ok (), idx')"
    using OffsetIndex_Append_total [OF i(1)] by (metis prod.collapse)
  from OffsetIndex_Append_ok [OF i(1) this refl] i show ?thesis by auto
qed

theorem offset_index_lookup_witness:
  "\<exists>idx. offset_entries idx = [(5, 4096)] \<and> OffsetIndex_Lookup 107 idx = Ok 4096 \<and> OffsetIndex_Lookup 104 idx = Ok 0"
proof -
  obtain idx where i: "ix_inv entrySize idx" "offset_entries idx = [(5, 4096)]" "ix_baseOffset idx = 100"
    using one_offset_entry by blast
  show ?thesis
    using offset_index_lookup [OF i(1), of 107] offset_index_lookup [OF i(1), of 104] i by (auto simp: floor_pos_def)
qed

text \<open>
  The time index answers a timestamp that was indexed with its offset, and any other one
  with an error.
\<close>

theorem time_index_lookup:
  assumes "ix_inv timeEntrySize idx" "sorted_wrt (<) (map fst (time_entries idx))"
  shows "TimeIndex_Lookup ts idx = time_lookup_spec (time_entries idx) (ix_baseOffset idx) ts"
  using TimeIndex_Lookup_spec [OF assms] .

theorem time_index_lookup_witness:
  "\<exists>idx. TimeIndex_Lookup 77 idx = Ok 105 \<and> TimeIndex_Lookup 78 idx = Err (GoErr ''timestamp not found in index'')"
proof -
  obtain idx0 where 0: "new_index no_faults [] 100 = Ok idx0" using new_index_total by blast
  have i0: "ix_inv timeEntrySize idx0" "time_entries idx0 = []" "ix_baseOffset idx0 = 100"
    using new_index_inv [OF 0, of timeEntrySize] by (auto simp: timeEntrySize_def time_entries_def)
  obtain idx where "TimeIndex_Append no_faults 105 77 idx0 = (Ok (), idx)"
    using TimeIndex_Append_total [OF i0(1)] by (metis prod.collapse)
  from TimeIndex_Append_ok [OF i0(1) this refl] i0
  have i: "ix_inv timeEntrySize idx" "time_entries idx = [(77, 5)]" "ix_baseOffset idx = 100" by auto
  show ?thesis
    using time_index_lookup [OF i(1), of 77] time_index_lookup [OF i(1), of 78] i
    by (auto simp: time_lookup_spec_def)
qed

end
