(* ===== verification/Kaf_Segment.thy ===== *)
theory Kaf_Segment
  imports Kaf_Index
begin

text \<open>
  One log segment (\<^verbatim>\<open>storage/commitlog/segment.go\<close>): its log file, its two indexes, the
  raw append, the scans over batch headers, and the region search of a fetch. The log file
  holds record batches back to back; \<open>seg_rep\<close> relates a segment to the list of batches it
  stores. Scans that a corrupt batch length can keep from ending are
  \<^theory_text>\<open>partial_function\<close>s, with \<open>None\<close> for a call that never returns.
\<close>

section \<open>State\<close>

definition headerSizeUpToMagic :: int where "headerSizeUpToMagic = 17"
definition headerSizeWithDelta :: int where "headerSizeWithDelta = 27"
definition headerSizeWithProducerInfo :: int where "headerSizeWithProducerInfo = 57"

record CommitLogConfig =
  cfg_SegmentMaxBytes :: int
  cfg_IndexInterval :: int

text \<open>
  The three files of a segment are part of its state. \<open>seg_newestTimestamp\<close> is in nanoseconds
  from the epoch; a new segment has the zero \<^verbatim>\<open>time.Time\<close>, the start of the year 1.
\<close>

definition zero_time :: int where "zero_time = - 62135596800 * 1000000000"

record Segment =
  seg_BaseOffset :: int
  seg_logFile :: bytes
  seg_offsetIndex :: OffsetIndex
  seg_timeIndex :: TimeIndex
  seg_maxBytes :: int
  seg_currentSize :: int
  seg_indexInterval :: int
  seg_lastIndexedPosition :: int
  seg_newestTimestamp :: int

record batchMeta =
  bm_filePos :: int
  bm_baseOffset :: int
  bm_totalLen :: int
  bm_lastOffset :: int

text \<open>Failures of one segment operation; \<open>sf_write = Some k\<close> writes \<open>k\<close> bytes and fails.\<close>

record seg_faults =
  sf_open :: bool
  sf_stat :: bool
  sf_seek :: bool
  sf_write :: "nat option"
  sf_sync :: bool
  sf_close :: bool
  sf_offsetIndex :: os_faults
  sf_timeIndex :: os_faults

definition no_seg_faults :: seg_faults where
  "no_seg_faults = \<lparr>sf_open = False, sf_stat = False, sf_seek = False, sf_write = None,
     sf_sync = False, sf_close = False, sf_offsetIndex = no_faults, sf_timeIndex = no_faults\<rparr>"

text \<open>The files of a segment on disk: the log, the offset index, the time index.\<close>

type_synonym seg_files = "bytes \<times> bytes \<times> bytes"

definition NewSegment :: "seg_faults \<Rightarrow> seg_files \<Rightarrow> int \<Rightarrow> CommitLogConfig \<Rightarrow> Segment res" where
  "NewSegment fl files baseOffset cfg =
     (case files of (logFile, offsetIndexFile, timeIndexFile) \<Rightarrow>
      if sf_open fl then Err OSErr
      else res_bind (NewOffsetIndex (sf_offsetIndex fl) offsetIndexFile baseOffset) (\<lambda>offsetIndex.
           res_bind (NewTimeIndex (sf_timeIndex fl) timeIndexFile baseOffset) (\<lambda>timeIndex.
           if sf_stat fl then Err OSErr
           else Ok \<lparr>seg_BaseOffset = baseOffset, seg_logFile = logFile,
                    seg_offsetIndex = offsetIndex, seg_timeIndex = timeIndex,
                    seg_maxBytes = cfg_SegmentMaxBytes cfg, seg_currentSize = int (length logFile),
                    seg_indexInterval = cfg_IndexInterval cfg, seg_lastIndexedPosition = 0,
                    seg_newestTimestamp = zero_time\<rparr>)))"

text \<open>\<^verbatim>\<open>os.File.ReadAt\<close>: exactly \<open>n\<close> bytes, or an error.\<close>

definition file_ReadAt :: "bytes \<Rightarrow> nat \<Rightarrow> int \<Rightarrow> bytes res" where
  "file_ReadAt file n p =
     (if p < 0 then Err (GoErr ''negative offset'')
      else if p + int n \<le> int (length file) then Ok (sub (nat p) n file) else Err EOF)"

section \<open>Appending\<close>

text \<open>\<^verbatim>\<open>binary.BigEndian.PutUint64(data[0:8], uint64(baseOffset))\<close>\<close>

definition patch_base :: "int \<Rightarrow> bytes \<Rightarrow> bytes" where
  "patch_base baseOffset data = overwrite 0 (be_enc 8 (word_of_int baseOffset :: u64)) data"

text \<open>
  The log file is opened with \<^verbatim>\<open>O_APPEND\<close>, so a write goes to its end; a failing write may
  leave a part of the batch there. \<open>now\<close> is the clock reading taken for the time index.
\<close>

definition index_batch :: "seg_faults \<Rightarrow> int \<Rightarrow> int \<Rightarrow> int \<Rightarrow> Segment \<Rightarrow> unit res \<times> Segment" where
  "index_batch fl now baseOffset position s =
     (case OffsetIndex_Append (sf_offsetIndex fl) baseOffset position (seg_offsetIndex s) of
        (Ok _, oi) \<Rightarrow>
          (case TimeIndex_Append (sf_timeIndex fl) baseOffset now (seg_timeIndex s) of
             (Ok _, ti) \<Rightarrow>
               (Ok (), s\<lparr>seg_offsetIndex := oi, seg_timeIndex := ti, seg_lastIndexedPosition := position\<rparr>)
           | (Err e, ti) \<Rightarrow> (Err e, s\<lparr>seg_offsetIndex := oi, seg_timeIndex := ti\<rparr>)
           | (Panic, ti) \<Rightarrow> (Panic, s\<lparr>seg_offsetIndex := oi, seg_timeIndex := ti\<rparr>))
      | (Err e, oi) \<Rightarrow> (Err e, s\<lparr>seg_offsetIndex := oi\<rparr>)
      | (Panic, oi) \<Rightarrow> (Panic, s\<lparr>seg_offsetIndex := oi\<rparr>))"

definition Segment_AppendRaw :: "seg_faults \<Rightarrow> int \<Rightarrow> int \<Rightarrow> bytes \<Rightarrow> Segment \<Rightarrow> unit res \<times> Segment" where
  "Segment_AppendRaw fl now baseOffset data s =
     (if length data < 8 then (Err (GoErr ''Record Batch data too short to contain BaseOffset''), s)
      else let data = patch_base baseOffset data in
        if sf_seek fl then (Err OSErr, s)
        else let position = int (length (seg_logFile s)) in
          case sf_write fl of
            Some k \<Rightarrow> (Err OSErr, s\<lparr>seg_logFile := seg_logFile s @ take k data\<rparr>)
          | None \<Rightarrow>
              let s = s\<lparr>seg_logFile := seg_logFile s @ data,
                        seg_currentSize := seg_currentSize s + int (length data)\<rparr> in
              if EntryCount (seg_offsetIndex s) = 0
                 \<or> position - seg_lastIndexedPosition s \<ge> seg_indexInterval s
              then index_batch fl now baseOffset position s
              else (Ok (), s))"

section \<open>Reading batch headers\<close>

definition readBatchMeta17 :: "bytes \<Rightarrow> int \<Rightarrow> batchMeta res" where
  "readBatchMeta17 file p =
     res_bind (file_ReadAt file 17 p) (\<lambda>buf.
       let baseOffset = sint (be_dec (sub 0 8 buf) :: i64);
           batchLength = sint (be_dec (sub 8 4 buf) :: i32)
       in Ok \<lparr>bm_filePos = p, bm_baseOffset = baseOffset, bm_totalLen = 12 + batchLength,
              bm_lastOffset = -1\<rparr>)"

definition readLastOffset :: "bytes \<Rightarrow> batchMeta \<Rightarrow> int res" where
  "readLastOffset file m =
     res_bind (file_ReadAt file 10 (bm_filePos m + headerSizeUpToMagic)) (\<lambda>buf.
       let lastOffsetDelta = sint (be_dec (sub 6 4 buf) :: i32)
       in Ok (bm_baseOffset m + lastOffsetDelta))"

section \<open>Finding the region of a fetch\<close>

text \<open>
  The first loop of \<^verbatim>\<open>FindRawRegion\<close>: it yields \<^verbatim>\<open>startPos\<close> (\<open>-1\<close> when the file ended
  first) and \<^verbatim>\<open>preMeta\<close>.
\<close>

partial_function (option) find_start ::
  "bytes \<Rightarrow> int \<Rightarrow> int \<Rightarrow> batchMeta option \<Rightarrow> (int \<times> batchMeta option) res option" where
  "find_start file fetchOffset p preMeta =
     (if p + headerSizeUpToMagic \<le> int (length file) then
        (case readBatchMeta17 file p of
           Err e \<Rightarrow> Some (Err e)
         | Panic \<Rightarrow> Some Panic
         | Ok cur \<Rightarrow>
             if bm_baseOffset cur \<ge> fetchOffset then
               Some (Ok (case preMeta of Some m \<Rightarrow> bm_filePos m | None \<Rightarrow> bm_filePos cur, preMeta))
             else (case readLastOffset file cur of
                 Err e \<Rightarrow> Some (Err e)
               | Panic \<Rightarrow> Some Panic
               | Ok lastOffset \<Rightarrow>
                   if lastOffset \<ge> fetchOffset then Some (Ok (bm_filePos cur, preMeta))
                   else find_start file fetchOffset (bm_filePos cur + bm_totalLen cur)
                          (Some (cur\<lparr>bm_lastOffset := lastOffset\<rparr>))))
      else Some (Ok (-1, preMeta)))"

text \<open>The second loop: it adds up whole batches from \<^verbatim>\<open>startPos\<close> on.\<close>

partial_function (option) accumulate :: "bytes \<Rightarrow> int \<Rightarrow> int \<Rightarrow> int \<Rightarrow> int res option" where
  "accumulate file maxBytes p accumulated =
     (if p + headerSizeUpToMagic \<le> int (length file) then
        (case readBatchMeta17 file p of
           Err e \<Rightarrow> Some (Err e)
         | Panic \<Rightarrow> Some Panic
         | Ok cur \<Rightarrow>
             if maxBytes > 0 \<and> accumulated > 0 \<and> accumulated + bm_totalLen cur > maxBytes
             then Some (Ok accumulated)
             else if maxBytes > 0 \<and> accumulated + bm_totalLen cur > maxBytes
             then Some (Ok (accumulated + bm_totalLen cur))
             else accumulate file maxBytes (p + bm_totalLen cur) (accumulated + bm_totalLen cur))
      else Some (Ok accumulated))"

definition FindRawRegion :: "bool \<Rightarrow> int \<Rightarrow> int \<Rightarrow> Segment \<Rightarrow> (int \<times> int) res option" where
  "FindRawRegion stat_fails fetchOffset maxBytes s =
     (case OffsetIndex_Lookup fetchOffset (seg_offsetIndex s) of
        Err e \<Rightarrow> Some (Err e)
      | Panic \<Rightarrow> Some Panic
      | Ok indexPos \<Rightarrow>
          if stat_fails then Some (Err OSErr)
          else (case find_start (seg_logFile s) fetchOffset indexPos None of
              None \<Rightarrow> None
            | Some (Err e) \<Rightarrow> Some (Err e)
            | Some Panic \<Rightarrow> Some Panic
            | Some (Ok (startPos, preMeta)) \<Rightarrow>
                if startPos < 0 \<and> preMeta = None then Some (Ok (0, 0))
                else let startPos = (if startPos < 0 then bm_filePos (the preMeta) else startPos) in
                  (case accumulate (seg_logFile s) maxBytes startPos 0 of
                     None \<Rightarrow> None
                   | Some (Err e) \<Rightarrow> Some (Err e)
                   | Some Panic \<Rightarrow> Some Panic
                   | Some (Ok accumulated) \<Rightarrow>
                       if accumulated = 0 then Some (Ok (0, 0)) else Some (Ok (startPos, accumulated)))))"

section \<open>The next offset\<close>

text \<open>
  The first loop of \<^verbatim>\<open>NextOffset\<close> reads the batch length unsigned, the second,
  \<^verbatim>\<open>scanLastOffset\<close>, signed. Each ends because every round moves past at least one byte.
\<close>

function next_base_loop :: "bytes \<Rightarrow> int \<Rightarrow> int \<Rightarrow> int" where
  "next_base_loop file p lastBaseOffset =
     (if p + headerSizeUpToMagic \<le> int (length file) then
        (case file_ReadAt file 27 p of
           Ok buf \<Rightarrow>
             let baseOffset = sint (be_dec (sub 0 8 buf) :: i64);
                 totalLen = 12 + uint (be_dec (sub 8 4 buf) :: u32)
             in if totalLen \<le> 0 \<or> p + totalLen > int (length file) then lastBaseOffset
                else next_base_loop file (p + totalLen) baseOffset
         | _ \<Rightarrow> lastBaseOffset)
      else lastBaseOffset)"
  by pat_completeness auto
termination
  by (relation "measure (\<lambda>(file, p, _). nat (int (length file) - p))")
     (auto simp: headerSizeUpToMagic_def)

declare next_base_loop.simps [simp del]

function scan_last_loop :: "bytes \<Rightarrow> int \<Rightarrow> int \<Rightarrow> int" where
  "scan_last_loop file p nextOffset =
     (if p + headerSizeWithDelta \<le> int (length file) then
        (case file_ReadAt file 27 p of
           Ok buf \<Rightarrow>
             let baseOffset = sint (be_dec (sub 0 8 buf) :: i64);
                 batchLength = sint (be_dec (sub 8 4 buf) :: i32);
                 lastOffsetDelta = sint (be_dec (sub 23 4 buf) :: i32);
                 totalLen = 12 + batchLength
             in if totalLen \<le> 0 \<or> p + totalLen > int (length file) then nextOffset
                else scan_last_loop file (p + totalLen) (baseOffset + lastOffsetDelta + 1)
         | _ \<Rightarrow> nextOffset)
      else nextOffset)"
  by pat_completeness auto
termination
  by (relation "measure (\<lambda>(file, p, _). nat (int (length file) - p))")
     (auto simp: headerSizeWithDelta_def)

declare scan_last_loop.simps [simp del]

definition scanLastOffset :: "Segment \<Rightarrow> int" where
  "scanLastOffset s = scan_last_loop (seg_logFile s) 0 (seg_BaseOffset s)"

definition NextOffset :: "bool \<Rightarrow> Segment \<Rightarrow> int" where
  "NextOffset stat_fails s =
     (if stat_fails then seg_BaseOffset s
      else if next_base_loop (seg_logFile s) 0 (-1) < 0 then seg_BaseOffset s
      else scanLastOffset s)"

definition IsFull :: "Segment \<Rightarrow> bool" where
  "IsFull s \<longleftrightarrow> seg_currentSize s \<ge> seg_maxBytes s"

definition NewestTimestamp :: "Segment \<Rightarrow> int" where
  "NewestTimestamp s = seg_newestTimestamp s"

definition Segment_Sync :: "seg_faults \<Rightarrow> Segment \<Rightarrow> unit res" where
  "Segment_Sync fl s = (if sf_sync fl then Err OSErr else Ok ())"

text \<open>\<^verbatim>\<open>Close\<close> leaves the three files on disk.\<close>

definition Segment_Close :: "seg_faults \<Rightarrow> Segment \<Rightarrow> unit res \<times> seg_files" where
  "Segment_Close fl s =
     (if sf_sync fl
      then (Err OSErr, seg_logFile s, ix_file (seg_offsetIndex s), ix_file (seg_timeIndex s))
      else (case OffsetIndex_Close (sf_offsetIndex fl) (seg_offsetIndex s) of
          (Ok _, of') \<Rightarrow>
            (case TimeIndex_Close (sf_timeIndex fl) (seg_timeIndex s) of
               (Ok _, tf) \<Rightarrow> (if sf_close fl then Err OSErr else Ok (), seg_logFile s, of', tf)
             | (r, tf) \<Rightarrow> (r, seg_logFile s, of', tf))
        | (r, of') \<Rightarrow> (r, seg_logFile s, of', ix_file (seg_timeIndex s))))"

section \<open>Walking batch headers\<close>

record BatchHeader =
  bh_BaseOffset :: int
  bh_LastOffsetDelta :: i32
  bh_ProducerId :: i64
  bh_ProducerEpoch :: i16
  bh_BaseSequence :: i32

text \<open>The callback \<open>fn\<close> is a step on the caller's state that may fail.\<close>

function walkBatchHeaders_loop ::
  "bytes \<Rightarrow> int \<Rightarrow> (BatchHeader \<Rightarrow> 's \<Rightarrow> unit res \<times> 's) \<Rightarrow> int \<Rightarrow> 's \<Rightarrow> unit res \<times> 's" where
  "walkBatchHeaders_loop file fromOffset fn p st =
     (if p + headerSizeWithProducerInfo \<le> int (length file) then
        (case file_ReadAt file 57 p of
           Ok buf \<Rightarrow>
             let baseOffset = sint (be_dec (sub 0 8 buf) :: i64);
                 batchLength = sint (be_dec (sub 8 4 buf) :: i32);
                 totalLen = 12 + batchLength
             in if totalLen \<le> 0 \<or> p + totalLen > int (length file) then (Ok (), st)
                else let bh = \<lparr>bh_BaseOffset = baseOffset,
                               bh_LastOffsetDelta = be_dec (sub 23 4 buf),
                               bh_ProducerId = be_dec (sub 43 8 buf),
                               bh_ProducerEpoch = be_dec (sub 51 2 buf),
                               bh_BaseSequence = be_dec (sub 53 4 buf)\<rparr>
                  in (case (if baseOffset \<ge> fromOffset then fn bh st else (Ok (), st)) of
                        (Ok _, st) \<Rightarrow> walkBatchHeaders_loop file fromOffset fn (p + totalLen) st
                      | (r, st) \<Rightarrow> (r, st))
         | _ \<Rightarrow> (Ok (), st))
      else (Ok (), st))"
  by pat_completeness auto
termination
  by (relation "measure (\<lambda>(file, _, _, p, _). nat (int (length file) - p))")
     (auto simp: headerSizeWithProducerInfo_def)

declare walkBatchHeaders_loop.simps [simp del]

definition walkBatchHeaders ::
  "bool \<Rightarrow> int \<Rightarrow> (BatchHeader \<Rightarrow> 's \<Rightarrow> unit res \<times> 's) \<Rightarrow> Segment \<Rightarrow> 's \<Rightarrow> unit res \<times> 's" where
  "walkBatchHeaders stat_fails fromOffset fn s st =
     (if stat_fails then (Err OSErr, st)
      else walkBatchHeaders_loop (seg_logFile s) fromOffset fn 0 st)"

section \<open>Record batches\<close>

text \<open>The header fields of a version-2 record batch that the storage layer reads.\<close>

definition batch_base :: "bytes \<Rightarrow> int" where
  "batch_base b = sint (be_dec (sub 0 8 b) :: i64)"

definition batch_delta :: "bytes \<Rightarrow> int" where
  "batch_delta b = sint (be_dec (sub 23 4 b) :: i32)"

definition batch_last :: "bytes \<Rightarrow> int" where
  "batch_last b = batch_base b + batch_delta b"

definition batch_count :: "bytes \<Rightarrow> int" where
  "batch_count b = uint (be_dec (sub 57 4 b) :: u32)"

text \<open>A batch whose length field and record count agree with its bytes and its offset delta.\<close>

definition wf_batch :: "bytes \<Rightarrow> bool" where
  "wf_batch b \<longleftrightarrow> 61 \<le> length b \<and> sint (be_dec (sub 8 4 b) :: i32) = int (length b) - 12 \<and>
     0 \<le> batch_delta b \<and> batch_count b = batch_delta b + 1"

text \<open>Batches that take up the offsets from \<open>o'\<close> on without a gap, and where they end.\<close>

fun contiguous :: "int \<Rightarrow> bytes list \<Rightarrow> bool" where
  "contiguous o' [] = True"
| "contiguous o' (b # bs) = (wf_batch b \<and> batch_base b = o' \<and> contiguous (batch_last b + 1) bs)"

fun log_end :: "int \<Rightarrow> bytes list \<Rightarrow> int" where
  "log_end o' [] = o'"
| "log_end o' (b # bs) = log_end (batch_last b + 1) bs"

lemma contiguous_append [simp]:
  "contiguous o' (as @ bs) \<longleftrightarrow> contiguous o' as \<and> contiguous (log_end o' as) bs"
  by (induction as arbitrary: o') auto

lemma log_end_append [simp]: "log_end o' (as @ bs) = log_end (log_end o' as) bs"
  by (induction as arbitrary: o') auto

lemma contiguous_wf: "contiguous o' bs \<Longrightarrow> b \<in> set bs \<Longrightarrow> wf_batch b"
  by (induction bs arbitrary: o') auto

lemma wf_batch_last: "wf_batch b \<Longrightarrow> batch_base b \<le> batch_last b"
  by (simp add: wf_batch_def batch_last_def)

lemma contiguous_log_end: "contiguous o' bs \<Longrightarrow> o' \<le> log_end o' bs"
proof (induction bs arbitrary: o')
  case (Cons b bs)
  then have "batch_last b + 1 \<le> log_end (batch_last b + 1) bs" "batch_base b = o'" by auto
  with Cons.prems wf_batch_last [of b] show ?case by simp
qed simp

lemma contiguous_before_end:
  assumes "contiguous o' bs" "b \<in> set bs"
  shows "o' \<le> batch_base b" "batch_last b < log_end o' bs"
proof -
  obtain as cs where bs: "bs = as @ b # cs" using assms(2) by (meson split_list)
  show "o' \<le> batch_base b" "batch_last b < log_end o' bs"
    using assms(1) contiguous_log_end [of o' as] contiguous_log_end [of "batch_last b + 1" cs]
    unfolding bs by auto
qed

section \<open>Reading the headers of stored batches\<close>

lemma file_ReadAt_at:
  "n \<le> length b \<Longrightarrow> file_ReadAt (pre @ b @ post) n (int (length pre)) = Ok (take n b)"
  by (simp add: file_ReadAt_def sub_def)

lemma sub_take: "i + n \<le> m \<Longrightarrow> sub i n (take m b) = sub i n b"
  by (simp add: sub_def drop_take min_def)

lemma readBatchMeta17_at:
  assumes "wf_batch b"
  shows "readBatchMeta17 (pre @ b @ post) (int (length pre)) =
    Ok \<lparr>bm_filePos = int (length pre), bm_baseOffset = batch_base b,
        bm_totalLen = int (length b), bm_lastOffset = -1\<rparr>"
  using assms by (simp add: readBatchMeta17_def file_ReadAt_at sub_take wf_batch_def batch_base_def)

lemma readLastOffset_long:
  assumes "27 \<le> length b" "bm_filePos m = int (length pre)" "bm_baseOffset m = batch_base b"
  shows "readLastOffset (pre @ b @ post) m = Ok (batch_last b)"
proof -
  have "file_ReadAt ((pre @ take 17 b) @ (drop 17 b) @ post) 10 (int (length (pre @ take 17 b))) =
      Ok (take 10 (drop 17 b))"
    by (rule file_ReadAt_at) (use assms(1) in auto)
  moreover have "int (length (pre @ take 17 b)) = int (length pre) + 17"
    using assms(1) by simp
  moreover have "(pre @ take 17 b) @ (drop 17 b) @ post = pre @ b @ post"
    by (metis append.assoc append_take_drop_id)
  ultimately have "file_ReadAt (pre @ b @ post) 10 (int (length pre) + 17) = Ok (take 10 (drop 17 b))"
    by (simp only:)
  moreover have "sub 6 4 (take 10 (drop 17 b)) = sub 23 4 b"
    by (simp add: sub_def drop_take)
  ultimately show ?thesis
    using assms(2,3)
    by (simp add: readLastOffset_def headerSizeUpToMagic_def batch_last_def batch_delta_def)
qed

lemma readLastOffset_at:
  assumes "wf_batch b" "bm_filePos m = int (length pre)" "bm_baseOffset m = batch_base b"
  shows "readLastOffset (pre @ b @ post) m = Ok (batch_last b)"
  using assms by (intro readLastOffset_long) (auto simp: wf_batch_def)

lemma batch_fits: "wf_batch b \<Longrightarrow> int (length pre) + 17 \<le> int (length (pre @ b @ post))"
  by (simp add: wf_batch_def)

lemma find_start_at:
  assumes "wf_batch b"
  shows "find_start (pre @ b @ post) f (int (length pre)) pm =
    (if batch_base b \<ge> f
     then Some (Ok (case pm of Some m \<Rightarrow> bm_filePos m | None \<Rightarrow> int (length pre), pm))
     else if batch_last b \<ge> f then Some (Ok (int (length pre), pm))
     else find_start (pre @ b @ post) f (int (length (pre @ b)))
       (Some \<lparr>bm_filePos = int (length pre), bm_baseOffset = batch_base b,
              bm_totalLen = int (length b), bm_lastOffset = batch_last b\<rparr>))"
  using batch_fits [OF assms, of pre post]
  by (subst find_start.simps)
     (simp add: headerSizeUpToMagic_def readBatchMeta17_at [OF assms] readLastOffset_at [OF assms]
        split: option.split)

lemma find_start_skip:
  assumes "\<forall>a\<in>set as. wf_batch a \<and> batch_last a < f" "wf_batch b" "f \<le> batch_last b"
  shows "find_start (pre @ concat as @ b @ post) f (int (length pre)) pm =
    (let prev = (if as = [] then map_option bm_filePos pm
                 else Some (int (length (pre @ concat (butlast as)))));
         here = int (length (pre @ concat as)) in
     Some (Ok (if batch_base b \<ge> f then (case prev of Some q \<Rightarrow> q | None \<Rightarrow> here) else here,
               if as = [] then pm
               else let l = last as in
                 Some \<lparr>bm_filePos = int (length (pre @ concat (butlast as))), bm_baseOffset = batch_base l,
                       bm_totalLen = int (length l), bm_lastOffset = batch_last l\<rparr>)))"
  using assms(1)
proof (induction as arbitrary: pre pm)
  case Nil
  show ?case using assms(3) by (simp add: find_start_at [OF assms(2)] split: option.splits)
next
  case (Cons a as)
  then have "\<not> f \<le> batch_base a" using wf_batch_last [of a] by auto
  with Cons.prems have "find_start (pre @ a @ (concat as @ b @ post)) f (int (length pre)) pm =
      find_start ((pre @ a) @ concat as @ b @ post) f (int (length (pre @ a)))
       (Some \<lparr>bm_filePos = int (length pre), bm_baseOffset = batch_base a,
              bm_totalLen = int (length a), bm_lastOffset = batch_last a\<rparr>)"
    by (simp add: find_start_at)
  also have "\<dots> = Some (Ok (if batch_base b \<ge> f
      then int (length (pre @ concat (butlast (a # as)))) else int (length (pre @ concat (a # as))),
      Some \<lparr>bm_filePos = int (length (pre @ concat (butlast (a # as)))),
        bm_baseOffset = batch_base (last (a # as)), bm_totalLen = int (length (last (a # as))),
        bm_lastOffset = batch_last (last (a # as))\<rparr>))"
    using Cons.prems by (subst Cons.IH) (auto simp: Let_def)
  finally show ?case by (simp add: Let_def)
qed
text \<open>How many batches the second loop of \<^verbatim>\<open>FindRawRegion\<close> takes.\<close>

fun region_count :: "int \<Rightarrow> int \<Rightarrow> bytes list \<Rightarrow> nat" where
  "region_count maxBytes acc [] = 0"
| "region_count maxBytes acc (b # bs) =
     (if maxBytes > 0 \<and> acc > 0 \<and> acc + int (length b) > maxBytes then 0
      else if maxBytes > 0 \<and> acc + int (length b) > maxBytes then 1
      else Suc (region_count maxBytes (acc + int (length b)) bs))"

lemma accumulate_batches:
  assumes "\<forall>b\<in>set bs. wf_batch b"
  shows "accumulate (pre @ concat bs) mb (int (length pre)) acc =
    Some (Ok (acc + int (length (concat (take (region_count mb acc bs) bs)))))"
  using assms
proof (induction bs arbitrary: pre acc)
  case Nil
  show ?case by (subst accumulate.simps) (simp add: headerSizeUpToMagic_def)
next
  case (Cons b bs)
  have wf: "wf_batch b" using Cons.prems by simp
  have IH: "accumulate ((pre @ b) @ concat bs) mb (int (length (pre @ b))) (acc + int (length b)) =
    Some (Ok (acc + int (length b) +
      int (length (concat (take (region_count mb (acc + int (length b)) bs) bs)))))"
    by (rule Cons.IH) (use Cons.prems in simp)
  show ?case
    using IH batch_fits [OF wf, of pre "concat bs"]
    by (subst accumulate.simps)
       (simp add: headerSizeUpToMagic_def readBatchMeta17_at [OF wf])
qed

lemma region_count_le: "region_count mb acc bs \<le> length bs"
  by (induction bs arbitrary: acc) auto

lemma region_count_pos: "bs \<noteq> [] \<Longrightarrow> 1 \<le> region_count mb 0 bs"
  by (cases bs) auto

lemma region_count_all: "mb \<le> 0 \<Longrightarrow> region_count mb acc bs = length bs"
  by (induction bs arbitrary: acc) auto

lemma region_count_bound:
  assumes "0 < mb" "0 < acc" "acc \<le> mb"
  shows "acc + int (length (concat (take (region_count mb acc bs) bs))) \<le> mb"
  using assms(2,3)
proof (induction bs arbitrary: acc)
  case (Cons b bs)
  show ?case
  proof (cases "acc + int (length b) > mb")
    case False
    then show ?thesis using Cons.IH [of "acc + int (length b)"] Cons.prems assms(1) by simp
  qed (use Cons.prems assms(1) in simp)
qed simp

lemma region_count_bound0:
  assumes "0 < mb" "\<forall>b\<in>set bs. wf_batch b"
  shows "region_count mb 0 bs = 1 \<or>
    int (length (concat (take (region_count mb 0 bs) bs))) \<le> mb"
proof (cases bs)
  case (Cons b cs)
  then have "0 < int (length b)" using assms(2) by (auto simp: wf_batch_def)
  then show ?thesis
    using Cons assms(1) region_count_bound [of mb "int (length b)" cs] by auto
qed (use assms(1) in simp)

lemma region_count_one:
  assumes "region_count mb 0 (b # c # bs) = 1"
  shows "0 < mb \<and> mb < int (length b) + int (length c)"
  using assms by (auto split: if_splits)

section \<open>Segments as lists of batches\<close>

text \<open>Every index entry points at the start of a stored batch.\<close>

definition index_points :: "int \<Rightarrow> bytes list \<Rightarrow> (int \<times> int) list \<Rightarrow> bool" where
  "index_points base bs es \<longleftrightarrow> (\<forall>(r, p)\<in>set es. \<exists>i < length bs.
     r = batch_base (bs ! i) - base \<and> p = int (length (concat (take i bs))))"

definition seg_rep :: "Segment \<Rightarrow> bytes list \<Rightarrow> bool" where
  "seg_rep s bs \<longleftrightarrow>
     seg_logFile s = concat bs \<and> 0 \<le> seg_BaseOffset s \<and> contiguous (seg_BaseOffset s) bs \<and>
     seg_currentSize s = int (length (concat bs)) \<and>
     ix_inv entrySize (seg_offsetIndex s) \<and> ix_inv timeEntrySize (seg_timeIndex s) \<and>
     ix_baseOffset (seg_offsetIndex s) = seg_BaseOffset s \<and>
     sorted_wrt (<) (map fst (offset_entries (seg_offsetIndex s))) \<and>
     index_points (seg_BaseOffset s) bs (offset_entries (seg_offsetIndex s))"

lemma next_base_loop_batches:
  assumes "\<forall>b\<in>set bs. wf_batch b"
  shows "next_base_loop (pre @ concat bs) (int (length pre)) lb =
    (if bs = [] then lb else batch_base (last bs))"
  using assms
proof (induction bs arbitrary: pre lb)
  case Nil
  show ?case by (subst next_base_loop.simps) (simp add: headerSizeUpToMagic_def)
next
  case (Cons b bs)
  have wf: "wf_batch b" using Cons.prems by simp
  then have len: "uint (be_dec (sub 8 4 b) :: u32) = int (length b) - 12"
    by (simp add: wf_batch_def uint_sint_nonneg)
  have IH: "next_base_loop ((pre @ b) @ concat bs) (int (length (pre @ b))) (batch_base b) =
    (if bs = [] then batch_base b else batch_base (last bs))"
    by (rule Cons.IH) (use Cons.prems in simp)
  have "file_ReadAt (pre @ b @ concat bs) 27 (int (length pre)) = Ok (take 27 b)"
    by (rule file_ReadAt_at) (use wf in \<open>simp add: wf_batch_def\<close>)
  moreover have "61 \<le> length b" "b \<noteq> []" using wf by (auto simp: wf_batch_def)
  ultimately show ?case
    using IH len by (subst next_base_loop.simps)
      (simp add: headerSizeUpToMagic_def sub_take Let_def batch_base_def)
qed
lemma scan_last_loop_batches:
  assumes "\<forall>b\<in>set bs. wf_batch b"
  shows "scan_last_loop (pre @ concat bs) (int (length pre)) n =
    (if bs = [] then n else batch_last (last bs) + 1)"
  using assms
proof (induction bs arbitrary: pre n)
  case Nil
  show ?case by (subst scan_last_loop.simps) (simp add: headerSizeWithDelta_def)
next
  case (Cons b bs)
  have wf: "wf_batch b" using Cons.prems by simp
  then have len: "sint (be_dec (sub 8 4 b) :: i32) = int (length b) - 12" "61 \<le> length b" "b \<noteq> []"
    by (auto simp: wf_batch_def)
  have IH: "scan_last_loop ((pre @ b) @ concat bs) (int (length (pre @ b))) (batch_last b + 1) =
    (if bs = [] then batch_last b + 1 else batch_last (last bs) + 1)"
    by (rule Cons.IH) (use Cons.prems in simp)
  have "file_ReadAt (pre @ b @ concat bs) 27 (int (length pre)) = Ok (take 27 b)"
    by (rule file_ReadAt_at) (use len in simp)
  then show ?case
    using IH len by (subst scan_last_loop.simps)
      (simp add: headerSizeWithDelta_def sub_take Let_def batch_base_def batch_last_def batch_delta_def)
qed

lemma log_end_last: "bs \<noteq> [] \<Longrightarrow> log_end o' bs = batch_last (last bs) + 1"
  by (induction bs arbitrary: o') auto

lemma NextOffset_rep:
  assumes "seg_rep s bs"
  shows "NextOffset False s = log_end (seg_BaseOffset s) bs"
proof -
  have wf: "\<forall>b\<in>set bs. wf_batch b" and c: "contiguous (seg_BaseOffset s) bs"
    using assms contiguous_wf by (auto simp: seg_rep_def)
  have "0 \<le> batch_base (last bs)" if "bs \<noteq> []"
    using contiguous_before_end(1) [OF c, of "last bs"] that assms by (simp add: seg_rep_def)
  then show ?thesis
    using assms next_base_loop_batches [OF wf, of "[]"] scan_last_loop_batches [OF wf, of "[]"]
    by (auto simp: NextOffset_def scanLastOffset_def seg_rep_def log_end_last)
qed

section \<open>Appending keeps the representation\<close>

lemma patch_base_fields:
  assumes "8 \<le> length d"
  shows "length (patch_base o' d) = length d" "drop 8 (patch_base o' d) = drop 8 d"
    "\<And>i n. 8 \<le> i \<Longrightarrow> sub i n (patch_base o' d) = sub i n d"
    "0 \<le> o' \<Longrightarrow> o' < 2 ^ 63 \<Longrightarrow> batch_base (patch_base o' d) = o'"
proof -
  let ?w = "word_of_int o' :: u64"
  show "length (patch_base o' d) = length d" using assms by (simp add: patch_base_def)
  show "drop 8 (patch_base o' d) = drop 8 d" by (simp add: patch_base_def overwrite_def)
  show "sub i n (patch_base o' d) = sub i n d" if "8 \<le> i" for i n
    unfolding patch_base_def by (rule sub_overwrite_after) (use assms that in auto)
  have "sub 0 8 (patch_base o' d) = be_enc 8 ?w"
    unfolding patch_base_def using assms by (intro sub_overwrite_same) auto
  then show "batch_base (patch_base o' d) = o'" if "0 \<le> o'" "o' < 2 ^ 63"
    using that by (simp add: batch_base_def sint_sbintrunc' signed_take_bit_int_eq_self)
qed

lemma patch_base_same:
  assumes "8 \<le> length d"
  shows "patch_base (batch_base d) d = d"
proof -
  have "be_enc (length (sub 0 8 d)) (be_dec (sub 0 8 d) :: i64) = sub 0 8 d"
    by (rule be_enc_dec) (use assms in \<open>simp add: sub_def\<close>)
  moreover have "length (sub 0 8 d) = 8" using assms by (simp add: sub_def)
  ultimately have "be_enc 8 (word_of_int (batch_base d) :: i64) = sub 0 8 d" by (simp add: batch_base_def)
  then show ?thesis using assms by (simp add: patch_base_def overwrite_def sub_def)
qed

lemma patch_base_wf: "wf_batch d \<Longrightarrow> wf_batch (patch_base o' d)"
  by (simp add: wf_batch_def patch_base_fields batch_delta_def batch_count_def)

lemma patch_base_last:
  assumes "wf_batch d" "0 \<le> o'" "o' < 2 ^ 63"
  shows "batch_last (patch_base o' d) = o' + batch_delta d"
  using assms by (simp add: batch_last_def patch_base_fields wf_batch_def batch_delta_def)

lemma index_points_append: "index_points base bs es \<Longrightarrow> index_points base (bs @ [b]) es"
  unfolding index_points_def by (fastforce simp: nth_append)
text \<open>The index entry an append makes names the new batch, when offset and position fit in 32 bits.\<close>

lemma index_points_snoc:
  assumes "index_points base bs es" "batch_base b = o'" "p = int (length (concat bs))"
    and "0 \<le> o' - base" "o' - base < 2 ^ 32" "p < 2 ^ 32"
  shows "index_points base (bs @ [b])
    (es @ [(uint (word_of_int (o' - base) :: u32), uint (word_of_int p :: u32))])"
proof -
  have "uint (word_of_int (o' - base) :: u32) = o' - base" "uint (word_of_int p :: u32) = p"
    by (rule uint32_word_of_int; use assms in simp)+
  moreover have "\<exists>i<length (bs @ [b]). o' - base = batch_base ((bs @ [b]) ! i) - base \<and>
      p = int (length (concat (take i (bs @ [b]))))"
    by (rule exI [of _ "length bs"]) (simp add: assms(2,3))
  ultimately show ?thesis
    using index_points_append [OF assms(1), of b] by (simp add: index_points_def)
qed

lemma index_points_less:
  assumes "contiguous base bs" "index_points base bs es" "e \<in> set (map fst es)"
  shows "e < log_end base bs - base"
proof -
  obtain i where i: "i < length bs" "e = batch_base (bs ! i) - base"
    using assms(2,3) by (fastforce simp: index_points_def)
  then have "batch_last (bs ! i) < log_end base bs" "batch_base (bs ! i) \<le> batch_last (bs ! i)"
    using contiguous_before_end(2) [OF assms(1)] contiguous_wf [OF assms(1)] wf_batch_last by auto
  with i show ?thesis by simp
qed

lemma index_batch_rep:
  assumes rep: "seg_rep s bs" and b: "batch_base b = log_end (seg_BaseOffset s) bs"
    and bound: "log_end (seg_BaseOffset s) bs - seg_BaseOffset s < 2 ^ 32"
      "int (length (concat bs)) < 2 ^ 32"
    and wf: "wf_batch b"
    and s1: "s1 = s\<lparr>seg_logFile := concat (bs @ [b]), seg_currentSize := int (length (concat (bs @ [b])))\<rparr>"
  shows "\<exists>s'. index_batch no_seg_faults now (batch_base b) (int (length (concat bs))) s1 = (Ok (), s') \<and>
    seg_rep s' (bs @ [b]) \<and> seg_BaseOffset s' = seg_BaseOffset s \<and> seg_maxBytes s' = seg_maxBytes s"
proof -
  let ?base = "seg_BaseOffset s" and ?p = "int (length (concat bs))"
  note r = rep [unfolded seg_rep_def]
  obtain oi where oi: "OffsetIndex_Append no_faults (batch_base b) ?p (seg_offsetIndex s) = (Ok (), oi)"
    using OffsetIndex_Append_total r by (metis prod.collapse)
  obtain ti where ti: "TimeIndex_Append no_faults (batch_base b) now (seg_timeIndex s) = (Ok (), ti)"
    using TimeIndex_Append_total r by (metis prod.collapse)
  have inv: "ix_inv entrySize oi" "ix_baseOffset oi = ?base"
    and es: "offset_entries oi = offset_entries (seg_offsetIndex s) @
       [(uint (word_of_int (batch_base b - ?base) :: u32), uint (word_of_int ?p :: u32))]"
    using OffsetIndex_Append_ok [OF _ oi] r by auto
  have inv2: "ix_inv timeEntrySize ti" using TimeIndex_Append_ok [OF _ ti] r by auto
  have o0: "0 \<le> batch_base b - ?base" using contiguous_log_end r b by simp
  have pts: "index_points ?base (bs @ [b]) (offset_entries oi)"
    unfolding es by (rule index_points_snoc) (use r b o0 bound in auto)
  have "uint (word_of_int (batch_base b - ?base) :: u32) = batch_base b - ?base"
    by (rule uint32_word_of_int) (use o0 bound b in auto)
  then have sorted: "sorted_wrt (<) (map fst (offset_entries oi))"
    using r b index_points_less [of ?base bs "offset_entries (seg_offsetIndex s)"]
    by (auto simp: es sorted_wrt_append)
  show ?thesis
    using oi ti inv inv2 pts sorted r b wf
    by (simp add: index_batch_def no_seg_faults_def s1 seg_rep_def)
qed

lemma Segment_AppendRaw_no_faults:
  "8 \<le> length d \<Longrightarrow> Segment_AppendRaw no_seg_faults now o' d s =
     (let s1 = s\<lparr>seg_logFile := seg_logFile s @ patch_base o' d,
                 seg_currentSize := seg_currentSize s + int (length (patch_base o' d))\<rparr> in
      if EntryCount (seg_offsetIndex s1) = 0 \<or>
         int (length (seg_logFile s)) - seg_lastIndexedPosition s1 \<ge> seg_indexInterval s1
      then index_batch no_seg_faults now o' (int (length (seg_logFile s))) s1 else (Ok (), s1))"
  by (simp add: Segment_AppendRaw_def Let_def no_seg_faults_def)

lemma Segment_AppendRaw_rep:
  assumes rep: "seg_rep s bs" and wf: "wf_batch d"
    and o': "o' = log_end (seg_BaseOffset s) bs" "o' < 2 ^ 63"
    and bound: "o' - seg_BaseOffset s < 2 ^ 32" "int (length (seg_logFile s)) < 2 ^ 32"
  shows "\<exists>s'. Segment_AppendRaw no_seg_faults now o' d s = (Ok (), s') \<and>
    seg_rep s' (bs @ [patch_base o' d]) \<and> seg_BaseOffset s' = seg_BaseOffset s \<and>
    seg_maxBytes s' = seg_maxBytes s"
proof -
  let ?b = "patch_base o' d"
  note r = rep [unfolded seg_rep_def]
  have "0 \<le> o'" using r contiguous_log_end [of "seg_BaseOffset s" bs] o'(1) by linarith
  then have b: "wf_batch ?b" "batch_base ?b = o'"
    using wf o' patch_base_fields(4) [of d o'] by (simp_all add: patch_base_wf) (simp add: wf_batch_def)
  define s1 where "s1 = s\<lparr>seg_logFile := concat (bs @ [?b]),
    seg_currentSize := int (length (concat (bs @ [?b])))\<rparr>"
  have s1': "s\<lparr>seg_logFile := seg_logFile s @ ?b, seg_currentSize := seg_currentSize s + int (length ?b)\<rparr> = s1"
    using r by (simp add: s1_def)
  have plain: "seg_rep s1 (bs @ [?b])"
    using r b o' index_points_append by (auto simp: s1_def seg_rep_def)
  have "8 \<le> length d" using wf by (simp add: wf_batch_def)
  note step = Segment_AppendRaw_no_faults [OF this, of now o' s, unfolded Let_def s1']
  show ?thesis
  proof (cases "EntryCount (seg_offsetIndex s1) = 0 \<or>
      int (length (seg_logFile s)) - seg_lastIndexedPosition s1 \<ge> seg_indexInterval s1")
    case True
    obtain s' where "index_batch no_seg_faults now o' (int (length (concat bs))) s1 = (Ok (), s')"
        "seg_rep s' (bs @ [?b])" "seg_BaseOffset s' = seg_BaseOffset s" "seg_maxBytes s' = seg_maxBytes s"
      using index_batch_rep [OF rep, of ?b s1 now] b o' bound r s1_def by auto
    with True show ?thesis
      using r unfolding step by simp
  next
    case False
    with plain show ?thesis
      unfolding step by (simp add: s1_def)
  qed
qed
section \<open>The region of a fetch\<close>

text \<open>The number of stored batches that end before offset \<open>f\<close>.\<close>

definition locate :: "int \<Rightarrow> bytes list \<Rightarrow> nat" where
  "locate f bs = length (takeWhile (\<lambda>b. batch_last b < f) bs)"

lemma locate_props:
  assumes "contiguous o' bs" "o' \<le> f" "f < log_end o' bs"
  shows "locate f bs < length bs" "\<And>i. i < locate f bs \<Longrightarrow> batch_last (bs ! i) < f"
    "f \<le> batch_last (bs ! locate f bs)" "batch_base (bs ! locate f bs) \<le> f"
proof -
  have "locate f bs < length bs \<and> (\<forall>i < locate f bs. batch_last (bs ! i) < f) \<and>
      f \<le> batch_last (bs ! locate f bs) \<and> batch_base (bs ! locate f bs) \<le> f"
    using assms
  proof (induction bs arbitrary: o')
    case (Cons b bs)
    show ?case
    proof (cases "batch_last b < f")
      case True
      then have "locate f (b # bs) = Suc (locate f bs)" by (simp add: locate_def)
      moreover have "locate f bs < length bs \<and> (\<forall>i < locate f bs. batch_last (bs ! i) < f) \<and>
          f \<le> batch_last (bs ! locate f bs) \<and> batch_base (bs ! locate f bs) \<le> f"
        using Cons True by (intro Cons.IH [of "batch_last b + 1"]) auto
      ultimately show ?thesis using True by (auto simp: nth_Cons split: nat.splits)
    qed (use Cons.prems in \<open>simp add: locate_def\<close>)
  qed simp
  then show "locate f bs < length bs" "\<And>i. i < locate f bs \<Longrightarrow> batch_last (bs ! i) < f"
    "f \<le> batch_last (bs ! locate f bs)" "batch_base (bs ! locate f bs) \<le> f" by blast+
qed

lemma contiguous_mono:
  assumes "contiguous o' bs" "i < j" "j < length bs"
  shows "batch_last (bs ! i) < batch_base (bs ! j)"
proof -
  have "bs = take j bs @ bs ! j # drop (Suc j) bs" using assms(3) by (rule id_take_nth_drop)
  then have "contiguous o' (take j bs)" "batch_base (bs ! j) = log_end o' (take j bs)"
    using assms(1) contiguous_append [of o' "take j bs" "bs ! j # drop (Suc j) bs"] by simp_all
  moreover have "bs ! i \<in> set (take j bs)"
    using assms(2,3) by (auto simp: in_set_conv_nth)
  ultimately show ?thesis using contiguous_before_end(2) by metis
qed

lemma locate_ge:
  assumes "contiguous o' bs" "o' \<le> f" "f < log_end o' bs" "i < length bs" "batch_base (bs ! i) \<le> f"
  shows "i \<le> locate f bs"
proof (rule ccontr)
  assume "\<not> i \<le> locate f bs"
  then have "batch_last (bs ! locate f bs) < batch_base (bs ! i)"
    using contiguous_mono [OF assms(1)] assms(4) by simp
  then show False using locate_props(3) [OF assms(1-3)] assms(5) by simp
qed

text \<open>The index search starts the scan at a stored batch no later than the one wanted.\<close>

lemma Lookup_rep:
  assumes "seg_rep s bs" "seg_BaseOffset s \<le> f" "f < log_end (seg_BaseOffset s) bs"
  obtains i where "i \<le> locate f bs"
    "OffsetIndex_Lookup f (seg_offsetIndex s) = Ok (int (length (concat (take i bs))))"
proof -
  note r = assms(1) [unfolded seg_rep_def]
  let ?es = "offset_entries (seg_offsetIndex s)" and ?rel = "f - seg_BaseOffset s"
  have l: "OffsetIndex_Lookup f (seg_offsetIndex s) = Ok (floor_pos ?es ?rel)"
    using OffsetIndex_Lookup_floor r by metis
  show thesis
  proof (cases rule: floor_pos_cases [of ?es ?rel])
    case 1
    then show thesis using that [of 0] l by simp
  next
    case (2 q)
    then obtain i where "i < length bs" "q = batch_base (bs ! i) - seg_BaseOffset s"
        "floor_pos ?es ?rel = int (length (concat (take i bs)))"
      using r by (fastforce simp: index_points_def)
    then show thesis using that [of i] l 2 locate_ge [of "seg_BaseOffset s" bs f i] r assms(2,3) by simp
  qed
qed

text \<open>Where the region starts, given where the index search started.\<close>

definition start_batch :: "nat \<Rightarrow> int \<Rightarrow> bytes list \<Rightarrow> nat" where
  "start_batch i f bs =
     (let k = locate f bs in if batch_base (bs ! k) = f \<and> i < k then k - 1 else k)"

lemma find_start_rep:
  assumes c: "contiguous o' bs" "o' \<le> f" "f < log_end o' bs" and i: "i \<le> locate f bs"
  shows "\<exists>pm. find_start (concat bs) f (int (length (concat (take i bs)))) None =
    Some (Ok (int (length (concat (take (start_batch i f bs) bs))), pm))"
proof -
  define k where "k = locate f bs"
  note k = locate_props [OF c, folded k_def]
  let ?as = "take (k - i) (drop i bs)"
  have tk: "take k bs = take i bs @ ?as"
    using take_add [of i "k - i" bs] i k_def by simp
  have split: "bs = take i bs @ ?as @ bs ! k # drop (Suc k) bs"
    using id_take_nth_drop [OF k(1)] unfolding tk by simp
  have as: "\<forall>a\<in>set ?as. wf_batch a \<and> batch_last a < f"
  proof
    fix a assume a: "a \<in> set ?as"
    then obtain j where "j < k - i" "a = bs ! (i + j)"
      using k(1) i k_def by (auto simp: in_set_conv_nth)
    then show "wf_batch a \<and> batch_last a < f"
      using k contiguous_wf [OF c(1)] by auto
  qed
  have wf: "wf_batch (bs ! k)" using k(1) contiguous_wf [OF c(1)] by simp
  have here: "concat (take i bs) @ concat ?as = concat (take k bs)"
    by (simp add: tk)
  have prev: "concat (take i bs) @ concat (butlast ?as) = concat (take (k - 1) bs)" if "i < k"
  proof -
    have "butlast ?as = take (k - 1 - i) (drop i bs)" using k(1) by (simp add: butlast_take)
    moreover have "take (k - 1) bs = take i bs @ take (k - 1 - i) (drop i bs)"
      using take_add [of i "k - 1 - i" bs] that by simp
    ultimately show ?thesis by simp
  qed
  have whole: "find_start (concat (take i bs) @ concat ?as @ bs ! k @ concat (drop (Suc k) bs)) f
      (int (length (concat (take i bs)))) None =
    find_start (concat bs) f (int (length (concat (take i bs)))) None"
    using arg_cong [OF split, of concat] by simp
  have e: "?as = [] \<longleftrightarrow> i = k" using k(1) i k_def by auto
  have st: "(if f \<le> batch_base (bs ! k)
      then (case (if ?as = [] then map_option bm_filePos None
                  else Some (int (length (concat (take i bs) @ concat (butlast ?as))))) of
              Some q \<Rightarrow> q | None \<Rightarrow> int (length (concat (take i bs) @ concat ?as)))
      else int (length (concat (take i bs) @ concat ?as))) =
    int (length (concat (take (start_batch i f bs) bs)))"
  proof (cases "i = k")
    case True
    then show ?thesis unfolding here e start_batch_def k_def [symmetric] by simp
  next
    case False
    then have "i < k" using i k_def by simp
    then show ?thesis
      using k(4) unfolding here e prev [OF \<open>i < k\<close>] start_batch_def k_def [symmetric] by simp
  qed
  show ?thesis
    using find_start_skip [OF as wf k(3), of "concat (take i bs)" "concat (drop (Suc k) bs)" None]
    unfolding Let_def whole st by blast
qed

lemma FindRawRegion_from:
  fixes mb :: int
  assumes rep: "seg_rep s bs" "seg_BaseOffset s \<le> f" "f < log_end (seg_BaseOffset s) bs"
    and i: "i \<le> locate f bs"
      "OffsetIndex_Lookup f (seg_offsetIndex s) = Ok (int (length (concat (take i bs))))"
  defines "j \<equiv> start_batch i f bs"
  defines "n \<equiv> region_count mb 0 (drop j bs)"
  shows "FindRawRegion False f mb s =
    Some (Ok (int (length (concat (take j bs))), int (length (concat (take n (drop j bs))))))"
proof -
  note r = rep(1) [unfolded seg_rep_def]
  have c: "contiguous (seg_BaseOffset s) bs" using r by blast
  have k: "locate f bs < length bs" using locate_props(1) [OF c] rep by simp
  then have j: "j < length bs" unfolding j_def start_batch_def Let_def by auto
  obtain pm where fs: "find_start (seg_logFile s) f (int (length (concat (take i bs)))) None =
      Some (Ok (int (length (concat (take j bs))), pm))"
    using find_start_rep [OF c rep(2,3) i(1)] r j_def by auto
  have wf: "\<forall>b\<in>set (drop j bs). wf_batch b"
    using contiguous_wf [OF c] by (meson in_set_dropD)
  have "concat bs = concat (take j bs) @ concat (drop j bs)"
    by (metis append_take_drop_id concat_append)
  then have ac: "accumulate (seg_logFile s) mb (int (length (concat (take j bs)))) 0 =
      Some (Ok (int (length (concat (take n (drop j bs))))))"
    using accumulate_batches [OF wf, of "concat (take j bs)" mb 0] r n_def by simp
  have "bs ! j \<in> set (take n (drop j bs))"
    using j region_count_pos [of "drop j bs" mb] unfolding n_def
    by (auto simp: in_set_conv_nth intro!: exI [of _ 0])
  moreover have "61 \<le> length (bs ! j)"
    using contiguous_wf [OF c, of "bs ! j"] j by (simp add: wf_batch_def)
  ultimately have "concat (take n (drop j bs)) \<noteq> []" by fastforce
  then show ?thesis
    using i(2) fs ac by (auto simp add: FindRawRegion_def)
qed

lemma FindRawRegion_rep:
  assumes "seg_rep s bs" "seg_BaseOffset s \<le> f" "f < log_end (seg_BaseOffset s) bs"
  shows "\<exists>j n. FindRawRegion False f mb s =
      Some (Ok (int (length (concat (take j bs))), int (length (concat (take n (drop j bs)))))) \<and>
    j \<le> locate f bs \<and> locate f bs \<le> j + 1 \<and> (j < locate f bs \<longrightarrow> batch_base (bs ! locate f bs) = f) \<and>
    1 \<le> n \<and> n \<le> length bs - j \<and>
    (0 < mb \<longrightarrow> n = 1 \<or> int (length (concat (take n (drop j bs)))) \<le> mb) \<and>
    (mb \<le> 0 \<longrightarrow> n = length bs - j) \<and>
    (j < locate f bs \<and> n = 1 \<longrightarrow> 0 < mb \<and> mb < int (length (bs ! j)) + int (length (bs ! locate f bs)))"
proof -
  obtain i where i: "i \<le> locate f bs"
      "OffsetIndex_Lookup f (seg_offsetIndex s) = Ok (int (length (concat (take i bs))))"
    using Lookup_rep [OF assms] by blast
  have c: "contiguous (seg_BaseOffset s) bs" using assms(1) by (simp add: seg_rep_def)
  let ?j = "start_batch i f bs"
  let ?n = "region_count mb 0 (drop ?j bs)"
  have k: "locate f bs < length bs" using locate_props(1) [OF c] assms by simp
  have j: "?j \<le> locate f bs" "locate f bs \<le> ?j + 1"
      "?j < locate f bs \<longrightarrow> batch_base (bs ! locate f bs) = f"
    by (auto simp: start_batch_def Let_def)
  have wf: "\<forall>b\<in>set (drop ?j bs). wf_batch b"
    using contiguous_wf [OF c] by (meson in_set_dropD)
  have "1 \<le> ?n" "?n \<le> length bs - ?j"
    using region_count_pos [of "drop ?j bs" mb] region_count_le [of mb 0 "drop ?j bs"] j k by auto
  moreover have "0 < mb \<longrightarrow> ?n = 1 \<or> int (length (concat (take ?n (drop ?j bs)))) \<le> mb"
    using region_count_bound0 [OF _ wf] by blast
  moreover have "mb \<le> 0 \<longrightarrow> ?n = length bs - ?j"
    using region_count_all [of mb 0 "drop ?j bs"] by simp
  moreover have "0 < mb \<and> mb < int (length (bs ! ?j)) + int (length (bs ! locate f bs))" if "?j < locate f bs" "?n = 1"
  proof -
    have l: "locate f bs = Suc ?j" using that(1) j(2) by simp
    have "drop ?j bs = bs ! ?j # bs ! Suc ?j # drop (Suc (Suc ?j)) bs" using k l by (simp add: Cons_nth_drop_Suc)
    then show ?thesis unfolding l using that(2) by (intro region_count_one [where bs = "drop (Suc (Suc ?j)) bs"]) argo
  qed
  ultimately show ?thesis
    using FindRawRegion_from [OF assms i, of mb] j by blast
qed
section \<open>Opening and closing\<close>

lemma NewSegment_rep:
  assumes "0 \<le> base" "contiguous base bs" "of' = [] \<or> 8 \<le> length of'" "tf = [] \<or> 12 \<le> length tf"
  shows "\<exists>s. NewSegment no_seg_faults (concat bs, of', tf) base cfg = Ok s \<and> seg_rep s bs \<and>
    seg_BaseOffset s = base \<and> seg_maxBytes s = cfg_SegmentMaxBytes cfg \<and>
    seg_indexInterval s = cfg_IndexInterval cfg"
proof -
  obtain oi where oi: "new_index no_faults of' base = Ok oi" using new_index_total by blast
  obtain ti where ti: "new_index no_faults tf base = Ok ti" using new_index_total by blast
  have "ix_inv 8 oi" "ix_entryCount oi = 0" "ix_baseOffset oi = base"
    using new_index_inv [OF oi, of 8] assms(3) by auto
  moreover have "ix_inv 12 ti" using new_index_inv(1) [OF ti, of 12] assms(4) by auto
  ultimately show ?thesis
    using oi ti assms(1,2)
    by (simp add: NewSegment_def NewOffsetIndex_def NewTimeIndex_def no_seg_faults_def seg_rep_def
        entrySize_def timeEntrySize_def offset_entries_def index_points_def)
qed

lemma Segment_Close_rep:
  assumes "seg_rep s bs"
  shows "\<exists>of' tf. Segment_Close no_seg_faults s = (Ok (), concat bs, of', tf) \<and>
    (of' = [] \<or> 8 \<le> length of') \<and> (tf = [] \<or> 12 \<le> length tf)"
proof -
  have "ix_mmap (seg_offsetIndex s) \<noteq> None" "ix_mmap (seg_timeIndex s) \<noteq> None"
    using assms by (auto simp: seg_rep_def ix_inv_def)
  moreover have "truncate_file 0 xs = []" for xs by (simp add: truncate_file_def)
  moreover have "nat (int n * 8) = 0 \<or> 8 \<le> nat (int n * 8)" "nat (int n * 12) = 0 \<or> 12 \<le> nat (int n * 12)" for n
    by (cases n; simp)+
  ultimately show ?thesis
    using assms
    by (auto simp: Segment_Close_def OffsetIndex_Close_def TimeIndex_Close_def close_index_def
        no_seg_faults_def no_faults_def seg_rep_def entrySize_def timeEntrySize_def
        simp flip: length_0_conv)
qed

section \<open>Walking the headers of stored batches\<close>

definition header_of :: "bytes \<Rightarrow> BatchHeader" where
  "header_of b = \<lparr>bh_BaseOffset = batch_base b, bh_LastOffsetDelta = be_dec (sub 23 4 b),
     bh_ProducerId = be_dec (sub 43 8 b), bh_ProducerEpoch = be_dec (sub 51 2 b),
     bh_BaseSequence = be_dec (sub 53 4 b)\<rparr>"

fun walk_batches :: "int \<Rightarrow> (BatchHeader \<Rightarrow> 's \<Rightarrow> unit res \<times> 's) \<Rightarrow> bytes list \<Rightarrow> 's \<Rightarrow> unit res \<times> 's" where
  "walk_batches from fn [] st = (Ok (), st)"
| "walk_batches from fn (b # bs) st =
     (case (if batch_base b \<ge> from then fn (header_of b) st else (Ok (), st)) of
        (Ok _, st) \<Rightarrow> walk_batches from fn bs st
      | (r, st) \<Rightarrow> (r, st))"

lemma walkBatchHeaders_loop_batches:
  assumes "\<forall>b\<in>set bs. wf_batch b"
  shows "walkBatchHeaders_loop (pre @ concat bs) from fn (int (length pre)) st = walk_batches from fn bs st"
  using assms
proof (induction bs arbitrary: pre st)
  case Nil
  show ?case by (subst walkBatchHeaders_loop.simps) (simp add: headerSizeWithProducerInfo_def)
next
  case (Cons b bs)
  then have len: "sint (be_dec (sub 8 4 b) :: i32) = int (length b) - 12" "61 \<le> length b" "b \<noteq> []"
    by (auto simp: wf_batch_def)
  have IH: "walkBatchHeaders_loop ((pre @ b) @ concat bs) from fn (int (length (pre @ b))) st' =
      walk_batches from fn bs st'" for st'
    by (rule Cons.IH) (use Cons.prems in simp)
  have "file_ReadAt (pre @ b @ concat bs) 57 (int (length pre)) = Ok (take 57 b)"
    by (rule file_ReadAt_at) (use len in simp)
  then show ?case
    using IH len by (subst walkBatchHeaders_loop.simps)
      (simp add: headerSizeWithProducerInfo_def sub_take Let_def batch_base_def header_of_def
        split: prod.splits res.splits)
qed

lemma walkBatchHeaders_rep:
  assumes "seg_rep s bs"
  shows "walkBatchHeaders False from fn s st = walk_batches from fn bs st"
proof -
  have "\<forall>b\<in>set bs. wf_batch b" "seg_logFile s = concat bs"
    using assms contiguous_wf by (auto simp: seg_rep_def)
  then show ?thesis
    using walkBatchHeaders_loop_batches [of bs "[]" "from" fn st] by (simp add: walkBatchHeaders_def)
qed

section \<open>A batch length that stops the scan from moving\<close>

text \<open>
  A stored header whose length field is \<open>-12\<close> makes the batch zero bytes long: a search
  that reaches it reads the same header forever.
\<close>

lemma find_start_stuck:
  assumes meta: "readBatchMeta17 file p = Ok m" "bm_totalLen m = 0" "bm_filePos m = p" "bm_baseOffset m < f"
    and fits: "p + 17 \<le> int (length file)"
    and last: "readLastOffset file m = Ok l" "l < f"
  shows "find_start file f p pm = None"
proof -
  have "\<not> (file' = file \<and> f' = f \<and> p' = p)" if "find_start file' f' p' pm' = Some y" for file' f' p' pm' y
  proof (rule find_start.raw_induct
      [where P = "\<lambda>file' f' p' pm' y. \<not> (file' = file \<and> f' = f \<and> p' = p)", OF _ that])
    fix rec file' f' p' pm' y
    assume IH: "\<And>file' f' p' pm' y. rec file' f' p' pm' = Some y \<Longrightarrow> \<not> (file' = file \<and> f' = f \<and> p' = p)"
      and eq: "(if p' + headerSizeUpToMagic \<le> int (length file') then
        (case readBatchMeta17 file' p' of
           Err e \<Rightarrow> Some (Err e)
         | Panic \<Rightarrow> Some Panic
         | Ok cur \<Rightarrow>
             if bm_baseOffset cur \<ge> f' then
               Some (Ok (case pm' of Some m \<Rightarrow> bm_filePos m | None \<Rightarrow> bm_filePos cur, pm'))
             else (case readLastOffset file' cur of
                 Err e \<Rightarrow> Some (Err e)
               | Panic \<Rightarrow> Some Panic
               | Ok lastOffset \<Rightarrow>
                   if lastOffset \<ge> f' then Some (Ok (bm_filePos cur, pm'))
                   else rec file' f' (bm_filePos cur + bm_totalLen cur)
                          (Some (cur\<lparr>bm_lastOffset := lastOffset\<rparr>))))
      else Some (Ok (-1, pm'))) = Some y"
    show "\<not> (file' = file \<and> f' = f \<and> p' = p)"
      using eq IH [of "file" f p "Some (m\<lparr>bm_lastOffset := l\<rparr>)" y] meta fits last
      by (auto simp: headerSizeUpToMagic_def)
  qed
  then show ?thesis by (metis option.exhaust)
qed

lemma find_start_skip_stuck:
  assumes "\<forall>a\<in>set as. wf_batch a \<and> batch_last a < f"
    and "61 \<le> length b" "sint (be_dec (sub 8 4 b) :: i32) = -12" "batch_base b < f" "batch_last b < f"
  shows "find_start (pre @ concat as @ b @ post) f (int (length pre)) pm = None"
  using assms(1)
proof (induction as arbitrary: pre pm)
  case Nil
  let ?m = "\<lparr>bm_filePos = int (length pre), bm_baseOffset = batch_base b, bm_totalLen = 0, bm_lastOffset = -1\<rparr>"
  have "file_ReadAt (pre @ b @ post) 17 (int (length pre)) = Ok (take 17 b)"
    by (rule file_ReadAt_at) (use assms in simp)
  then have "readBatchMeta17 (pre @ b @ post) (int (length pre)) = Ok ?m"
    using assms by (simp add: readBatchMeta17_def sub_take batch_base_def)
  moreover have "readLastOffset (pre @ b @ post) ?m = Ok (batch_last b)"
    using assms(2) by (intro readLastOffset_long) auto
  ultimately show ?case
    using assms(2-) by (simp, intro find_start_stuck [of _ _ ?m _ "batch_last b"]) auto
next
  case (Cons a as)
  then have "\<not> f \<le> batch_base a" using wf_batch_last [of a] by auto
  with Cons.prems have "find_start (pre @ a @ (concat as @ b @ post)) f (int (length pre)) pm =
      find_start ((pre @ a) @ concat as @ b @ post) f (int (length (pre @ a)))
       (Some \<lparr>bm_filePos = int (length pre), bm_baseOffset = batch_base a,
              bm_totalLen = int (length a), bm_lastOffset = batch_last a\<rparr>)"
    by (simp add: find_start_at)
  also have "\<dots> = None" by (rule Cons.IH) (use Cons.prems in simp)
  finally show ?case by simp
qed
section \<open>Fetching at a batch boundary\<close>

text \<open>
  When the batch that starts at the fetch offset is not in the index, the region starts one
  batch early; a fetch whose byte limit has no room for both then gets only the batch before.
\<close>

lemma FindRawRegion_stale:
  assumes rep: "seg_rep s bs" and k: "0 < k" "k < length bs"
    and noindex: "batch_base (bs ! k) - seg_BaseOffset s \<notin> set (map fst (offset_entries (seg_offsetIndex s)))"
    and mb: "0 < mb" "mb < int (length (bs ! (k - 1))) + int (length (bs ! k))"
  shows "FindRawRegion False (batch_base (bs ! k)) mb s =
    Some (Ok (int (length (concat (take (k - 1) bs))), int (length (bs ! (k - 1)))))"
proof -
  note r = rep [unfolded seg_rep_def]
  have c: "contiguous (seg_BaseOffset s) bs" using r by blast
  let ?f = "batch_base (bs ! k)"
  have f: "seg_BaseOffset s \<le> ?f" "?f < log_end (seg_BaseOffset s) bs"
    using contiguous_before_end [OF c, of "bs ! k"] wf_batch_last contiguous_wf [OF c, of "bs ! k"] k
    by (auto intro: le_less_trans)
  have lk: "locate ?f bs = k"
  proof (rule antisym)
    show "k \<le> locate ?f bs" by (rule locate_ge [OF c f k(2)]) simp
    show "locate ?f bs \<le> k"
    proof (rule ccontr)
      assume "\<not> locate ?f bs \<le> k"
      then have "batch_last (bs ! k) < ?f" using locate_props(2) [OF c f, of k] by simp
      then show False using wf_batch_last contiguous_wf [OF c, of "bs ! k"] k by force
    qed
  qed
  let ?es = "offset_entries (seg_offsetIndex s)" and ?rel = "?f - seg_BaseOffset s"
  have l: "OffsetIndex_Lookup ?f (seg_offsetIndex s) = Ok (floor_pos ?es ?rel)"
    using OffsetIndex_Lookup_floor r by metis
  obtain i where i: "i < k" "OffsetIndex_Lookup ?f (seg_offsetIndex s) = Ok (int (length (concat (take i bs))))"
  proof (cases rule: floor_pos_cases [of ?es ?rel])
    case 1
    then show thesis using that [of 0] l k by simp
  next
    case (2 q)
    then obtain i where i: "i < length bs" "q = batch_base (bs ! i) - seg_BaseOffset s"
        "floor_pos ?es ?rel = int (length (concat (take i bs)))"
      using r by (fastforce simp: index_points_def)
    have "i \<noteq> k" using noindex 2(1) i(2) by force
    moreover have "i \<le> k" using locate_ge [OF c f i(1)] 2(2) i(2) lk by simp
    ultimately show thesis using that [of i] l i(3) by simp
  qed
  have j: "start_batch i ?f bs = k - 1" using i(1) lk by (simp add: start_batch_def Let_def)
  have d: "drop (k - 1) bs = bs ! (k - 1) # bs ! k # drop (Suc k) bs"
    using k by (metis Cons_nth_drop_Suc Suc_diff_1 diff_less less_trans zero_less_one)
  have "0 < length (bs ! (k - 1))"
    using contiguous_wf [OF c, of "bs ! (k - 1)"] k by (auto simp: wf_batch_def)
  then have "region_count mb 0 (drop (k - 1) bs) = 1"
    using mb unfolding d by simp
  then have "concat (take (region_count mb 0 (drop (k - 1) bs)) (drop (k - 1) bs)) = bs ! (k - 1)"
    using d by simp
  then show ?thesis
    using FindRawRegion_from [OF rep f, of i mb] i lk j by simp
qed

section \<open>Properties\<close>

text \<open>A batch of one record, and a configuration, for the examples.\<close>

definition sample_batch :: bytes where
  "sample_batch = replicate 8 0 @ be_enc 4 (49 :: u32) @ replicate 45 0 @ be_enc 4 (1 :: u32)"

definition sample_config :: CommitLogConfig where
  "sample_config = \<lparr>cfg_SegmentMaxBytes = 1048576, cfg_IndexInterval = 4096\<rparr>"

lemma sample_batch_wf: "wf_batch sample_batch"
  by code_simp
lemma sample_batch_delta: "batch_delta sample_batch = 0"
  by code_simp
lemma sample_batch_len: "length sample_batch = 61"
  by code_simp
lemma sample_batch_count: "batch_count sample_batch = 1"
  by code_simp
lemma sample_batch_base: "batch_base sample_batch = 0"
  by code_simp

text \<open>
  C21. Appending a well-formed batch at the end of a segment that represents the batches
  \<open>bs\<close> succeeds, assigns the batch the next offset and leaves a segment that represents
  \<open>bs\<close> followed by the patched batch, indexes included.
\<close>

theorem segment_append_refines:
  assumes "seg_rep s bs" "wf_batch d" "o' = log_end (seg_BaseOffset s) bs" "o' < 2 ^ 63"
    "o' - seg_BaseOffset s < 2 ^ 32" "int (length (seg_logFile s)) < 2 ^ 32"
  shows "\<exists>s'. Segment_AppendRaw no_seg_faults now o' d s = (Ok (), s') \<and>
    seg_rep s' (bs @ [patch_base o' d]) \<and> seg_BaseOffset s' = seg_BaseOffset s \<and>
    NextOffset False s' = o' + batch_delta d + 1"
proof -
  have o0: "0 \<le> o'" using assms(1,3) contiguous_log_end [of "seg_BaseOffset s" bs] by (auto simp: seg_rep_def)
  obtain s' where s': "Segment_AppendRaw no_seg_faults now o' d s = (Ok (), s')"
    "seg_rep s' (bs @ [patch_base o' d])" "seg_BaseOffset s' = seg_BaseOffset s"
    using Segment_AppendRaw_rep [OF assms] by blast
  then show ?thesis
    using NextOffset_rep [OF s'(2)] patch_base_last [OF assms(2) o0 assms(4)] by simp
qed

lemma empty_segment_rep:
  "\<exists>s. NewSegment no_seg_faults ([], [], []) 0 sample_config = Ok s \<and> seg_rep s [] \<and> seg_BaseOffset s = 0"
  using NewSegment_rep [of 0 "[]" "[]" "[]" sample_config] by auto

theorem segment_append_refines_witness:
  "\<exists>s s'. NewSegment no_seg_faults ([], [], []) 0 sample_config = Ok s \<and>
     Segment_AppendRaw no_seg_faults 7 0 sample_batch s = (Ok (), s') \<and>
     seg_rep s' [patch_base 0 sample_batch] \<and> NextOffset False s' = 1"
proof -
  obtain s where s: "NewSegment no_seg_faults ([], [], []) 0 sample_config = Ok s" "seg_rep s []" "seg_BaseOffset s = 0"
    using empty_segment_rep by blast
  then have "seg_logFile s = []" by (simp add: seg_rep_def)
  then show ?thesis
    using segment_append_refines [OF s(2) sample_batch_wf, of 0 7] s by (auto simp: sample_batch_delta)
qed

text \<open>
  C22. For an offset inside a segment the region search returns, and returns whole batches: it
  starts at the batch that holds the offset, or one batch earlier when the offset is that
  batch's first, takes at least one batch and, unless that is a single batch, no more than
  \<open>maxBytes\<close>. It misses the batch that holds the offset only when that batch and the one before
  it do not fit into \<open>maxBytes\<close>.
\<close>

theorem segment_region_whole_batches:
  assumes "seg_rep s bs" "seg_BaseOffset s \<le> f" "f < log_end (seg_BaseOffset s) bs"
  shows "\<exists>j n. FindRawRegion False f mb s =
      Some (Ok (int (length (concat (take j bs))), int (length (concat (take n (drop j bs)))))) \<and>
    j \<le> locate f bs \<and> locate f bs \<le> j + 1 \<and> (j < locate f bs \<longrightarrow> batch_base (bs ! locate f bs) = f) \<and>
    1 \<le> n \<and> n \<le> length bs - j \<and>
    (0 < mb \<longrightarrow> n = 1 \<or> int (length (concat (take n (drop j bs)))) \<le> mb) \<and>
    (mb \<le> 0 \<longrightarrow> n = length bs - j) \<and>
    (j < locate f bs \<and> n = 1 \<longrightarrow> 0 < mb \<and> mb < int (length (bs ! j)) + int (length (bs ! locate f bs)))"
  using FindRawRegion_rep [OF assms] .

text \<open>Two batches on disk, reopened: the indexes are empty again.\<close>

lemma sample_batches: "contiguous 0 [sample_batch, patch_base 1 sample_batch]"
  by code_simp

lemma reopened_segment:
  "\<exists>s. NewSegment no_seg_faults (concat [sample_batch, patch_base 1 sample_batch], [], []) 0 sample_config = Ok s \<and>
     seg_rep s [sample_batch, patch_base 1 sample_batch] \<and> seg_BaseOffset s = 0 \<and>
     offset_entries (seg_offsetIndex s) = []"
proof -
  obtain s where s: "NewSegment no_seg_faults (concat [sample_batch, patch_base 1 sample_batch], [], []) 0 sample_config = Ok s"
     "seg_rep s [sample_batch, patch_base 1 sample_batch]" "seg_BaseOffset s = 0"
    using NewSegment_rep [OF _ sample_batches, of "[]" "[]" sample_config] by auto
  have "ix_entryCount (seg_offsetIndex s) = 0"
    using s(1) new_index_inv(2) [of no_faults "[]" 0 _ 8]
    by (auto simp: NewSegment_def NewOffsetIndex_def no_seg_faults_def res_bind_Ok_iff)
  then show ?thesis using s by (auto simp: offset_entries_def)
qed

theorem segment_region_whole_batches_witness:
  "\<exists>s. seg_rep s [sample_batch, patch_base 1 sample_batch] \<and> (\<exists>j n. FindRawRegion False 1 500 s =
      Some (Ok (int (length (concat (take j [sample_batch, patch_base 1 sample_batch]))),
        int (length (concat (take n (drop j [sample_batch, patch_base 1 sample_batch])))))) \<and> 1 \<le> n)"
proof -
  obtain s where s: "seg_rep s [sample_batch, patch_base 1 sample_batch]" "seg_BaseOffset s = 0"
    using reopened_segment by blast
  have "1 < log_end 0 [sample_batch, patch_base 1 sample_batch]" by code_simp
  then show ?thesis using segment_region_whole_batches [OF s(1), of 1 500] s by auto
qed

text \<open>
  At the first offset of a batch that has no index entry the search starts at the batch
  before it. With a byte limit below the size of the two batches it returns that earlier
  batch alone, every time: a reader at this offset gets no new record.
\<close>

theorem segment_region_stale:
  assumes "seg_rep s bs" "0 < k" "k < length bs"
    "batch_base (bs ! k) - seg_BaseOffset s \<notin> set (map fst (offset_entries (seg_offsetIndex s)))"
    "0 < mb" "mb < int (length (bs ! (k - 1))) + int (length (bs ! k))"
  shows "FindRawRegion False (batch_base (bs ! k)) mb s =
    Some (Ok (int (length (concat (take (k - 1) bs))), int (length (bs ! (k - 1)))))"
  using FindRawRegion_stale [OF assms] .

theorem segment_region_stale_witness:
  "\<exists>s. NewSegment no_seg_faults (concat [sample_batch, patch_base 1 sample_batch], [], []) 0 sample_config = Ok s \<and>
     FindRawRegion False 1 100 s = Some (Ok (0, 61))"
proof -
  obtain s where s: "NewSegment no_seg_faults (concat [sample_batch, patch_base 1 sample_batch], [], []) 0 sample_config = Ok s"
    "seg_rep s [sample_batch, patch_base 1 sample_batch]" "offset_entries (seg_offsetIndex s) = []"
    using reopened_segment by blast
  have "batch_base (patch_base 1 sample_batch) = 1" "length (patch_base 1 sample_batch) = 61" by code_simp+
  then show ?thesis
    using segment_region_stale [OF s(2), of 1 100] s(1,3) by (simp add: sample_batch_len)
qed

text \<open>
  C36. A stored batch whose length field is -12 stops every search for a later offset: the scan
  never returns.
\<close>

theorem segment_scan_diverges:
  assumes "\<forall>a\<in>set as. wf_batch a \<and> batch_last a < f"
    and "61 \<le> length b" "sint (be_dec (sub 8 4 b) :: i32) = -12" "batch_base b < f" "batch_last b < f"
  shows "find_start (concat as @ b @ post) f 0 None = None"
  using find_start_skip_stuck [OF assms, of "[]" post None] by simp

definition hostile_batch :: bytes where
  "hostile_batch = replicate 8 0 @ be_enc 4 (-12 :: i32) @ replicate 49 0"

theorem segment_scan_diverges_witness:
  "find_start (concat [sample_batch] @ hostile_batch @ []) 5 0 None = None"
proof (rule segment_scan_diverges)
  show "\<forall>a\<in>set [sample_batch]. wf_batch a \<and> batch_last a < 5" by code_simp
  show "61 \<le> length hostile_batch" by code_simp
  show "sint (be_dec (sub 8 4 hostile_batch) :: i32) = -12" by code_simp
  show "batch_base hostile_batch < 5" by code_simp
  show "batch_last hostile_batch < 5" by code_simp
qed

end
