(* ===== verification/Kaf_CommitLog.thy ===== *)
theory Kaf_CommitLog
  imports Kaf_Segment
begin

text \<open>
  The commit log of one partition (\<^verbatim>\<open>storage/commitlog/commitlog.go\<close>): a list of
  segments of which the last is active, recovered from a directory, appended to with
  rolling, and searched for the region a fetch reads; and the clipping of such a region to
  the visible offsets (\<^verbatim>\<open>storage/commitlog/clip.go\<close>). \<open>cl_rep\<close> relates a log to the
  batches of its segments.
\<close>

section \<open>State\<close>

text \<open>A region names its file by the bytes it has at the time; \<^verbatim>\<open>File == nil\<close> is \<open>None\<close>.\<close>

record RecordsRegion =
  rr_File :: "bytes option"
  rr_FileOffset :: int
  rr_Size :: int
  rr_LEO :: int
  rr_LogStart :: int

text \<open>The active segment is always the last one.\<close>

record commitLog =
  cl_segments :: "Segment list"
  cl_config :: CommitLogConfig
  cl_isClosed :: bool
  cl_nextOffset :: int
  cl_onSegmentRoll :: bool

definition cl_activeSegment :: "commitLog \<Rightarrow> Segment" where
  "cl_activeSegment c = last (cl_segments c)"

text \<open>Failures of one operation: opening a segment, writing to it, asking for a file's size.\<close>

record cl_faults =
  clf_new :: seg_faults
  clf_append :: seg_faults
  clf_stat :: bool

definition no_cl_faults :: cl_faults where
  "no_cl_faults = \<lparr>clf_new = no_seg_faults, clf_append = no_seg_faults, clf_stat = False\<rparr>"

section \<open>File names\<close>

text \<open>\<^verbatim>\<open>%020d\<close> and \<^verbatim>\<open>strconv.ParseInt(s, 10, 64)\<close>\<close>

fun dec_digits :: "nat \<Rightarrow> bytes" where
  "dec_digits n = (if n < 10 then [48 + of_nat n] else dec_digits (n div 10) @ [48 + of_nat (n mod 10)])"

declare dec_digits.simps [simp del]

definition fmt020 :: "int \<Rightarrow> gostring" where
  "fmt020 n =
     (let d = dec_digits (nat \<bar>n\<bar>) in
      if n < 0 then 45 # replicate (19 - length d) 48 @ d else replicate (20 - length d) 48 @ d)"

fun parse_digits :: "nat \<Rightarrow> gostring \<Rightarrow> nat option" where
  "parse_digits acc [] = Some acc"
| "parse_digits acc (c # cs) =
     (if 48 \<le> c \<and> c \<le> 57 then parse_digits (10 * acc + unat (c - 48)) cs else None)"

definition ParseInt :: "gostring \<Rightarrow> int res" where
  "ParseInt s =
     (let neg = (s \<noteq> [] \<and> hd s = 45);
          ds = (if s \<noteq> [] \<and> (hd s = 45 \<or> hd s = 43) then tl s else s)
      in if ds = [] then Err (GoErr ''invalid syntax'')
         else (case parse_digits 0 ds of
                 None \<Rightarrow> Err (GoErr ''invalid syntax'')
               | Some n \<Rightarrow>
                   if neg then (if n \<le> 2 ^ 63 then Ok (- int n) else Err (GoErr ''value out of range''))
                   else if n < 2 ^ 63 then Ok (int n) else Err (GoErr ''value out of range'')))"

definition HasSuffix :: "gostring \<Rightarrow> gostring \<Rightarrow> bool" where
  "HasSuffix s suffix \<longleftrightarrow> length suffix \<le> length s \<and> drop (length s - length suffix) s = suffix"

definition TrimSuffix :: "gostring \<Rightarrow> gostring \<Rightarrow> gostring" where
  "TrimSuffix s suffix = (if HasSuffix s suffix then take (length s - length suffix) s else s)"

text \<open>A directory: the names and contents of its files, in the order \<^verbatim>\<open>os.ReadDir\<close> lists them.\<close>

type_synonym dir = "(gostring \<times> bytes) list"

text \<open>Opening with \<^verbatim>\<open>O_CREATE\<close>: a file that does not exist is empty.\<close>

definition dir_open :: "dir \<Rightarrow> gostring \<Rightarrow> bytes" where
  "dir_open d name = (case map_of d name of Some b \<Rightarrow> b | None \<Rightarrow> [])"

definition segment_files :: "dir \<Rightarrow> int \<Rightarrow> seg_files" where
  "segment_files d baseOffset =
     (dir_open d (fmt020 baseOffset @ str ''.log''),
      dir_open d (fmt020 baseOffset @ str ''.offsetIndex''),
      dir_open d (fmt020 baseOffset @ str ''.timeindex''))"

section \<open>Recovery\<close>

fun load_loop :: "cl_faults \<Rightarrow> CommitLogConfig \<Rightarrow> dir \<Rightarrow> gostring list \<Rightarrow> Segment list res" where
  "load_loop fl cfg d [] = Ok []"
| "load_loop fl cfg d (name # names) =
     (if HasSuffix name (str ''.log'') then
        res_bind (ParseInt (TrimSuffix name (str ''.log''))) (\<lambda>baseOffset.
        res_bind (NewSegment (clf_new fl) (segment_files d baseOffset) baseOffset cfg) (\<lambda>segment.
        res_bind (load_loop fl cfg d names) (\<lambda>segments. Ok (segment # segments))))
      else load_loop fl cfg d names)"

definition loadSegments :: "cl_faults \<Rightarrow> CommitLogConfig \<Rightarrow> dir \<Rightarrow> Segment list res" where
  "loadSegments fl cfg d =
     (if clf_stat fl then Err OSErr
      else res_bind (load_loop fl cfg d (map fst d)) (\<lambda>segments.
        if segments = []
        then res_bind (NewSegment (clf_new fl) (segment_files d 0) 0 cfg) (\<lambda>newSegment. Ok [newSegment])
        else Ok (sort_key seg_BaseOffset segments)))"

definition NewCommitLog :: "cl_faults \<Rightarrow> CommitLogConfig \<Rightarrow> dir \<Rightarrow> commitLog res" where
  "NewCommitLog fl cfg d =
     res_bind (loadSegments fl cfg d) (\<lambda>segments.
       Ok \<lparr>cl_segments = segments, cl_config = cfg, cl_isClosed = False,
           cl_nextOffset = NextOffset (clf_stat fl) (last segments), cl_onSegmentRoll = False\<rparr>)"

section \<open>Appending\<close>

text \<open>
  Rolling opens the files named after the new base offset; they exist already only when a
  segment with that base is in the log.
\<close>

definition roll_files :: "commitLog \<Rightarrow> int \<Rightarrow> seg_files" where
  "roll_files c baseOffset =
     (case filter (\<lambda>s. seg_BaseOffset s = baseOffset) (cl_segments c) of
        [] \<Rightarrow> ([], [], [])
      | s # _ \<Rightarrow> (seg_logFile s, ix_file (seg_offsetIndex s), ix_file (seg_timeIndex s)))"

definition roll :: "cl_faults \<Rightarrow> commitLog \<Rightarrow> (commitLog \<times> int option) res" where
  "roll fl c =
     (if IsFull (cl_activeSegment c) then
        let base = NextOffset (clf_stat fl) (cl_activeSegment c) in
        res_bind (NewSegment (clf_new fl) (roll_files c base) base (cl_config c)) (\<lambda>newSegment.
          Ok (c\<lparr>cl_segments := cl_segments c @ [newSegment]\<rparr>, Some (seg_BaseOffset newSegment)))
      else Ok (c, None))"

text \<open>
  The outcome is the base offset given to the batch, the log, and the base offset the roll
  hook is called with, if it is.
\<close>

definition commitLog_AppendRaw ::
  "cl_faults \<Rightarrow> int \<Rightarrow> bytes \<Rightarrow> i32 \<Rightarrow> commitLog \<Rightarrow> int res \<times> commitLog \<times> int option" where
  "commitLog_AppendRaw fl now data recordCount c =
     (if cl_isClosed c then (Err (GoErr ''commitLog is already closed''), c, None)
      else if cl_segments c = [] then (Ok 0, c, None)
      else (case roll fl c of
          Err e \<Rightarrow> (Err e, c, None)
        | Panic \<Rightarrow> (Panic, c, None)
        | Ok (c, rolled) \<Rightarrow>
            let startOffset = cl_nextOffset c in
            case Segment_AppendRaw (clf_append fl) now startOffset data (cl_activeSegment c) of
              (Ok _, s) \<Rightarrow>
                (Ok startOffset,
                 c\<lparr>cl_segments := butlast (cl_segments c) @ [s],
                   cl_nextOffset := cl_nextOffset c + sint recordCount\<rparr>,
                 if cl_onSegmentRoll c then rolled else None)
            | (Err e, s) \<Rightarrow> (Err e, c\<lparr>cl_segments := butlast (cl_segments c) @ [s]\<rparr>, None)
            | (Panic, s) \<Rightarrow> (Panic, c\<lparr>cl_segments := butlast (cl_segments c) @ [s]\<rparr>, None)))"

section \<open>Searching\<close>

function segment_search :: "Segment list \<Rightarrow> int \<Rightarrow> int \<Rightarrow> int \<Rightarrow> int \<Rightarrow> int" where
  "segment_search segs offset left right result =
     (if left \<le> right then
        let mid = (left + right) div 2 in
        if seg_BaseOffset (segs ! nat mid) \<le> offset
        then segment_search segs offset (mid + 1) right mid
        else segment_search segs offset left (mid - 1) result
      else result)"
  by pat_completeness auto
termination
  by (relation "measure (\<lambda>(_, _, left, right, _). nat (right - left + 1))") auto

declare segment_search.simps [simp del]

definition findSegmentByOffset :: "int \<Rightarrow> commitLog \<Rightarrow> int" where
  "findSegmentByOffset offset c =
     segment_search (cl_segments c) offset 0 (int (length (cl_segments c)) - 1) (-1)"

text \<open>\<open>None\<close> when the region search does not return; the nil region is \<open>Ok None\<close>.\<close>

definition FindRecords :: "bool \<Rightarrow> int \<Rightarrow> int \<Rightarrow> commitLog \<Rightarrow> RecordsRegion option res option" where
  "FindRecords stat_fails fetchOffset maxBytes c =
     (if cl_isClosed c then Some (Ok None)
      else if fetchOffset \<ge> cl_nextOffset c then Some (Ok None)
      else let segIdx = findSegmentByOffset fetchOffset c in
        if segIdx < 0 then Some (Ok None)
        else let seg = cl_segments c ! nat segIdx in
          (case FindRawRegion stat_fails fetchOffset maxBytes seg of
             None \<Rightarrow> None
           | Some (Err e) \<Rightarrow> Some (Err e)
           | Some Panic \<Rightarrow> Some Panic
           | Some (Ok (filePos, sz)) \<Rightarrow>
               Some (Ok (Some \<lparr>rr_File = Some (seg_logFile seg), rr_FileOffset = filePos, rr_Size = sz,
                 rr_LEO = cl_nextOffset c, rr_LogStart = seg_BaseOffset (cl_segments c ! 0)\<rparr>))))"

definition OldestOffset :: "commitLog \<Rightarrow> int" where
  "OldestOffset c = (if cl_segments c = [] then 0 else seg_BaseOffset (cl_segments c ! 0))"

definition NewestOffset :: "commitLog \<Rightarrow> int" where
  "NewestOffset c = cl_nextOffset c - 1"

definition ActiveSegmentBaseOffset :: "commitLog \<Rightarrow> int" where
  "ActiveSegmentBaseOffset c =
     (if cl_segments c = [] then 0 else seg_BaseOffset (cl_activeSegment c))"

definition NumSegments :: "commitLog \<Rightarrow> nat" where
  "NumSegments c = length (cl_segments c)"

definition SetSegmentRollHook :: "bool \<Rightarrow> commitLog \<Rightarrow> commitLog" where
  "SetSegmentRollHook hook c = c\<lparr>cl_onSegmentRoll := hook\<rparr>"

definition TruncateTo :: "int \<Rightarrow> commitLog \<Rightarrow> unit res" where
  "TruncateTo offset c = Panic"

text \<open>The segment the walk starts in: the last one that starts at or before the offset.\<close>

fun walk_start :: "Segment list \<Rightarrow> int \<Rightarrow> nat \<Rightarrow> nat" where
  "walk_start segs fromOffset 0 = 0"
| "walk_start segs fromOffset (Suc i) =
     (if seg_BaseOffset (segs ! i) \<le> fromOffset then i else walk_start segs fromOffset i)"

fun walk_segments ::
  "bool \<Rightarrow> int \<Rightarrow> (BatchHeader \<Rightarrow> 's \<Rightarrow> unit res \<times> 's) \<Rightarrow> Segment list \<Rightarrow> 's \<Rightarrow> unit res \<times> 's" where
  "walk_segments stat_fails fromOffset fn [] st = (Ok (), st)"
| "walk_segments stat_fails fromOffset fn (s # ss) st =
     (case walkBatchHeaders stat_fails fromOffset fn s st of
        (Ok _, st) \<Rightarrow> walk_segments stat_fails fromOffset fn ss st
      | (r, st) \<Rightarrow> (r, st))"

definition WalkBatchHeadersFrom ::
  "bool \<Rightarrow> int \<Rightarrow> (BatchHeader \<Rightarrow> 's \<Rightarrow> unit res \<times> 's) \<Rightarrow> commitLog \<Rightarrow> 's \<Rightarrow> unit res \<times> 's" where
  "WalkBatchHeadersFrom stat_fails fromOffset fn c st =
     (let segments = cl_segments c; startIdx = walk_start segments fromOffset (length segments)
      in walk_segments stat_fails fromOffset fn (drop startIdx segments) st)"

text \<open>Closing: each segment in turn, up to the first that fails; the files stay on disk.\<close>

fun close_segments :: "seg_faults \<Rightarrow> Segment list \<Rightarrow> unit res \<times> (int \<times> seg_files) list" where
  "close_segments fl [] = (Ok (), [])"
| "close_segments fl (s # ss) =
     (case Segment_Close fl s of
        (Ok _, files) \<Rightarrow>
          (case close_segments fl ss of (r, rest) \<Rightarrow> (r, (seg_BaseOffset s, files) # rest))
      | (r, files) \<Rightarrow>
          (r, (seg_BaseOffset s, files) #
              map (\<lambda>s. (seg_BaseOffset s, seg_logFile s, ix_file (seg_offsetIndex s), ix_file (seg_timeIndex s))) ss))"

definition commitLog_Close :: "seg_faults \<Rightarrow> commitLog \<Rightarrow> unit res \<times> commitLog \<times> (int \<times> seg_files) list" where
  "commitLog_Close fl c =
     (if cl_isClosed c then (Ok (), c, [])
      else case close_segments fl (cl_segments c) of (r, files) \<Rightarrow> (r, c\<lparr>cl_isClosed := True\<rparr>, files))"

section \<open>Clipping a region\<close>

definition batchLogOverhead :: int where "batchLogOverhead = 12"
definition batchHeaderReadSize :: int where "batchHeaderReadSize = 61"

text \<open>The loop of \<^verbatim>\<open>ClipRegionToOffset\<close>; a batch that is not refused is at least 24 bytes long.\<close>

function clip_loop :: "bytes \<Rightarrow> int \<Rightarrow> int \<Rightarrow> int \<Rightarrow> int \<Rightarrow> int \<Rightarrow> int res" where
  "clip_loop file fileOffset sz maxVisible p visibleSize =
     (if p < sz then
        if sz - p < batchHeaderReadSize then Err UnexpectedEOF
        else (case file_ReadAt file 61 (fileOffset + p) of
            Err e \<Rightarrow> Err e
          | Panic \<Rightarrow> Panic
          | Ok hdr \<Rightarrow>
              let baseOffset = sint (be_dec (sub 0 8 hdr) :: i64);
                  batchLen = uint (be_dec (sub 8 4 hdr) :: u32);
                  recordCount = uint (be_dec (sub 57 4 hdr) :: u32)
              in if batchLen < batchLogOverhead \<or> recordCount \<le> 0 then Err UnexpectedEOF
                 else if baseOffset + recordCount - 1 \<ge> maxVisible then Ok visibleSize
                 else let batchTotal = batchLogOverhead + batchLen in
                   if p + batchTotal > sz then Ok visibleSize
                   else clip_loop file fileOffset sz maxVisible (p + batchTotal) (p + batchTotal))
      else Ok visibleSize)"
  by pat_completeness auto
termination
  by (relation "measure (\<lambda>(_, _, sz, _, p, _). nat (sz - p))") (auto simp: batchLogOverhead_def)

declare clip_loop.simps [simp del]

definition ClipRegionToOffset :: "RecordsRegion option \<Rightarrow> int \<Rightarrow> RecordsRegion option res" where
  "ClipRegionToOffset reg maxVisible =
     (case reg of
        None \<Rightarrow> Ok None
      | Some r \<Rightarrow>
          (case rr_File r of
             None \<Rightarrow> Ok (Some r)
           | Some file \<Rightarrow>
               if rr_Size r = 0 then Ok (Some r)
               else res_bind (clip_loop file (rr_FileOffset r) (rr_Size r) maxVisible 0 0)
                      (\<lambda>visibleSize. Ok (Some (r\<lparr>rr_Size := visibleSize\<rparr>)))))"

section \<open>Logs as lists of batches\<close>

text \<open>Segments that follow each other without a gap; only the last may be empty.\<close>

fun chained :: "Segment list \<Rightarrow> bytes list list \<Rightarrow> bool" where
  "chained [] bss = (bss = [])"
| "chained [s] bss = (\<exists>bs. bss = [bs] \<and> seg_rep s bs)"
| "chained (s # t # ss) bss = (\<exists>bs rest. bss = bs # rest \<and> seg_rep s bs \<and> bs \<noteq> [] \<and>
     seg_BaseOffset t = log_end (seg_BaseOffset s) bs \<and> chained (t # ss) rest)"

definition cl_rep :: "commitLog \<Rightarrow> bytes list list \<Rightarrow> bool" where
  "cl_rep c bss \<longleftrightarrow> cl_segments c \<noteq> [] \<and> chained (cl_segments c) bss \<and>
     cl_nextOffset c = log_end (seg_BaseOffset (last (cl_segments c))) (last bss) \<and>
     0 < cfg_SegmentMaxBytes (cl_config c) \<and> (\<forall>s\<in>set (cl_segments c). 0 < seg_maxBytes s)"

lemma chained_length: "chained ss bss \<Longrightarrow> length bss = length ss"
  by (induction ss bss rule: chained.induct) auto

lemma chained_rep:
  assumes "chained ss bss" "i < length ss"
  shows "seg_rep (ss ! i) (bss ! i)"
  using assms
proof (induction ss bss arbitrary: i rule: chained.induct)
  case (3 s t ss bss)
  then show ?case by (cases i) auto
qed auto

text \<open>The whole log is one run of consecutive batches.\<close>

lemma chained_contiguous:
  assumes "chained ss bss" "ss \<noteq> []"
  shows "contiguous (seg_BaseOffset (hd ss)) (concat bss)"
    "log_end (seg_BaseOffset (hd ss)) (concat bss) = log_end (seg_BaseOffset (last ss)) (last bss)"
proof -
  have "contiguous (seg_BaseOffset (hd ss)) (concat bss) \<and>
    log_end (seg_BaseOffset (hd ss)) (concat bss) = log_end (seg_BaseOffset (last ss)) (last bss)"
    using assms
  proof (induction ss bss rule: chained.induct)
    case (2 s bss)
    then show ?case by (auto simp: seg_rep_def)
  next
    case (3 s t ss bss)
    then obtain bs rest where *: "bss = bs # rest" "seg_rep s bs" "chained (t # ss) rest"
        "seg_BaseOffset t = log_end (seg_BaseOffset s) bs" by auto
    moreover have "rest \<noteq> []" using chained_length [OF *(3)] by auto
    ultimately show ?case using 3 by (auto simp: seg_rep_def)
  qed simp
  then show "contiguous (seg_BaseOffset (hd ss)) (concat bss)"
    "log_end (seg_BaseOffset (hd ss)) (concat bss) = log_end (seg_BaseOffset (last ss)) (last bss)" by auto
qed

lemma chained_update_last:
  assumes "chained ss bss" "ss \<noteq> []" "seg_rep s' bs'" "seg_BaseOffset s' = seg_BaseOffset (last ss)"
  shows "chained (butlast ss @ [s']) (butlast bss @ [bs'])"
  using assms
proof (induction ss bss rule: chained.induct)
  case (3 s t ss bss)
  then obtain bs rest where *: "bss = bs # rest" "seg_rep s bs" "bs \<noteq> []" "chained (t # ss) rest"
      "seg_BaseOffset t = log_end (seg_BaseOffset s) bs" by auto
  have r: "rest \<noteq> []" using chained_length [OF *(4)] by auto
  have "chained (butlast (t # ss) @ [s']) (butlast rest @ [bs'])"
    using 3 * by auto
  moreover obtain u us where u: "butlast (t # ss) @ [s'] = u # us" by (cases "butlast (t # ss)") auto
  moreover have "seg_BaseOffset u = seg_BaseOffset t"
    using u 3(5) by (cases ss) auto
  ultimately have "chained (s # u # us) (bs # (butlast rest @ [bs']))" using * by auto
  then show ?case using u * r by (simp split: if_splits)
qed auto

lemma chained_snoc:
  assumes "chained ss bss" "ss \<noteq> []" "last bss \<noteq> []" "seg_rep s' bs'"
    "seg_BaseOffset s' = log_end (seg_BaseOffset (last ss)) (last bss)"
  shows "chained (ss @ [s']) (bss @ [bs'])"
  using assms
proof (induction ss bss rule: chained.induct)
  case (3 s t ss bss)
  then obtain bs rest where *: "bss = bs # rest" "seg_rep s bs" "bs \<noteq> []" "chained (t # ss) rest"
      "seg_BaseOffset t = log_end (seg_BaseOffset s) bs" by auto
  moreover have "rest \<noteq> []" using chained_length [OF *(4)] by auto
  ultimately show ?case using 3 by auto
qed auto

section \<open>Appending\<close>

lemma chained_bases:
  "chained ss bss \<Longrightarrow> \<forall>s\<in>set ss. seg_BaseOffset s \<le> seg_BaseOffset (last ss)"
proof (induction ss bss rule: chained.induct)
  case (3 s t ss bss)
  then obtain bs rest where *: "seg_rep s bs" "chained (t # ss) rest"
      "seg_BaseOffset t = log_end (seg_BaseOffset s) bs" "bss = bs # rest" by auto
  then have "seg_BaseOffset s \<le> seg_BaseOffset t"
    using contiguous_log_end by (simp add: seg_rep_def)
  moreover have IH: "\<forall>s\<in>set (t # ss). seg_BaseOffset s \<le> seg_BaseOffset (last (t # ss))"
    using 3 * by blast
  ultimately show ?case by force
qed auto

lemma log_end_less: "contiguous o' bs \<Longrightarrow> bs \<noteq> [] \<Longrightarrow> o' < log_end o' bs"
  using contiguous_before_end [of o' bs "hd bs"] contiguous_wf [of o' bs "hd bs"] wf_batch_last [of "hd bs"]
  by auto

lemma roll_rep:
  assumes rep: "cl_rep c bss"
  shows "\<exists>c' r bss'. roll no_cl_faults c = Ok (c', r) \<and> cl_rep c' bss' \<and> concat bss' = concat bss \<and>
    cl_nextOffset c' = cl_nextOffset c \<and> cl_isClosed c' = cl_isClosed c \<and>
    cl_onSegmentRoll c' = cl_onSegmentRoll c \<and> hd (cl_segments c') = hd (cl_segments c) \<and>
    cl_config c' = cl_config c \<and>
    (case r of None \<Rightarrow> c' = c \<and> bss' = bss \<and> \<not> IsFull (cl_activeSegment c)
     | Some b \<Rightarrow> b = cl_nextOffset c \<and> bss' = bss @ [[]] \<and> seg_BaseOffset (last (cl_segments c')) = b)"
proof (cases "IsFull (cl_activeSegment c)")
  case False
  then show ?thesis using rep by (intro exI [of _ c] exI [of _ None] exI [of _ bss]) (simp add: roll_def)
next
  case True
  let ?s = "last (cl_segments c)"
  note r = rep [unfolded cl_rep_def]
  have len: "length bss = length (cl_segments c)" using chained_length r by blast
  then have bne: "bss \<noteq> []" using r by auto
  have srep: "seg_rep ?s (last bss)"
    using chained_rep [of "cl_segments c" bss "length (cl_segments c) - 1"] r len bne
    by (simp add: last_conv_nth)
  have "0 < seg_maxBytes ?s" using r by simp
  then have ne: "last bss \<noteq> []"
    using True srep by (auto simp: IsFull_def cl_activeSegment_def seg_rep_def)
  have next': "NextOffset False ?s = cl_nextOffset c" using NextOffset_rep [OF srep] r by simp
  have lt: "seg_BaseOffset ?s < cl_nextOffset c"
    using log_end_less [OF _ ne] srep r by (simp add: seg_rep_def)
  then have "filter (\<lambda>s. seg_BaseOffset s = cl_nextOffset c) (cl_segments c) = []"
    using chained_bases r by (fastforce simp: filter_empty_conv)
  then have files: "roll_files c (cl_nextOffset c) = (concat [], [], [])" by (simp add: roll_files_def)
  have "0 \<le> cl_nextOffset c" using lt srep by (simp add: seg_rep_def)
  then obtain s' where s': "NewSegment no_seg_faults (roll_files c (cl_nextOffset c)) (cl_nextOffset c) (cl_config c) = Ok s'"
      "seg_rep s' []" "seg_BaseOffset s' = cl_nextOffset c" "seg_maxBytes s' = cfg_SegmentMaxBytes (cl_config c)"
    unfolding files using NewSegment_rep [of "cl_nextOffset c" "[]" "[]" "[]" "cl_config c"] by auto
  have "chained (cl_segments c @ [s']) (bss @ [[]])"
    by (rule chained_snoc) (use r ne s' in auto)
  then have "cl_rep (c\<lparr>cl_segments := cl_segments c @ [s']\<rparr>) (bss @ [[]])"
    using r s' by (auto simp: cl_rep_def)
  moreover have "roll no_cl_faults c = Ok (c\<lparr>cl_segments := cl_segments c @ [s']\<rparr>, Some (cl_nextOffset c))"
    using True s' next' by (simp add: roll_def no_cl_faults_def cl_activeSegment_def Let_def)
  ultimately show ?thesis using r s' by auto
qed

lemma AppendRaw_rep:
  assumes rep: "cl_rep c bss" and open': "\<not> cl_isClosed c" and wf: "wf_batch d"
    and count: "sint n = batch_count d"
    and bound: "cl_nextOffset c < 2 ^ 63" "cl_nextOffset c - ActiveSegmentBaseOffset c < 2 ^ 32"
      "seg_maxBytes (cl_activeSegment c) \<le> 2 ^ 32"
  shows "\<exists>c' h bss'. commitLog_AppendRaw no_cl_faults now d n c = (Ok (cl_nextOffset c), c', h) \<and>
    cl_rep c' bss' \<and> concat bss' = concat bss @ [patch_base (cl_nextOffset c) d] \<and>
    cl_nextOffset c' = cl_nextOffset c + sint n \<and> \<not> cl_isClosed c' \<and>
    seg_BaseOffset (hd (cl_segments c')) = seg_BaseOffset (hd (cl_segments c)) \<and>
    cl_config c' = cl_config c \<and>
    (if IsFull (cl_activeSegment c) then bss' = bss @ [[patch_base (cl_nextOffset c) d]]
     else bss' = butlast bss @ [last bss @ [patch_base (cl_nextOffset c) d]] \<and>
       seg_maxBytes (cl_activeSegment c') = seg_maxBytes (cl_activeSegment c))"
proof -
  obtain c1 r bss1 where roll: "roll no_cl_faults c = Ok (c1, r)" and rep1: "cl_rep c1 bss1"
    and eqs: "concat bss1 = concat bss" "cl_nextOffset c1 = cl_nextOffset c" "cl_isClosed c1 = cl_isClosed c"
      "hd (cl_segments c1) = hd (cl_segments c)" "cl_config c1 = cl_config c"
    and cases: "case r of None \<Rightarrow> c1 = c \<and> bss1 = bss \<and> \<not> IsFull (cl_activeSegment c)
     | Some b \<Rightarrow> b = cl_nextOffset c \<and> bss1 = bss @ [[]] \<and> seg_BaseOffset (last (cl_segments c1)) = b"
    using roll_rep [OF rep] by blast
  note r1 = rep1 [unfolded cl_rep_def]
  let ?s = "last (cl_segments c1)" and ?o = "cl_nextOffset c1"
  have len: "length bss1 = length (cl_segments c1)" using chained_length r1 by blast
  then have bne: "bss1 \<noteq> []" using r1 by auto
  have srep: "seg_rep ?s (last bss1)"
    using chained_rep [of "cl_segments c1" bss1 "length (cl_segments c1) - 1"] r1 len bne
    by (simp add: last_conv_nth)
  have b1: "?o - seg_BaseOffset ?s < 2 ^ 32"
    using cases bound(2) rep eqs
    by (auto simp: ActiveSegmentBaseOffset_def cl_activeSegment_def cl_rep_def split: option.splits)
  have b2: "int (length (seg_logFile ?s)) < 2 ^ 32"
    using cases bound(3) srep
    by (auto simp: IsFull_def cl_activeSegment_def seg_rep_def split: option.splits)
  obtain s' where s': "Segment_AppendRaw no_seg_faults now ?o d ?s = (Ok (), s')"
      "seg_rep s' (last bss1 @ [patch_base ?o d])" "seg_BaseOffset s' = seg_BaseOffset ?s"
      "seg_maxBytes s' = seg_maxBytes ?s"
    using Segment_AppendRaw_rep [OF srep wf, of ?o now] r1 bound(1) b1 b2 eqs(2) by auto
  let ?c' = "c1\<lparr>cl_segments := butlast (cl_segments c1) @ [s'], cl_nextOffset := ?o + sint n\<rparr>"
  let ?bss' = "butlast bss1 @ [last bss1 @ [patch_base ?o d]]"
  have "0 \<le> seg_BaseOffset ?s" "contiguous (seg_BaseOffset ?s) (last bss1)"
    using srep by (auto simp: seg_rep_def)
  then have "0 \<le> ?o" using r1 contiguous_log_end [of "seg_BaseOffset ?s" "last bss1"] by simp
  then have "batch_last (patch_base ?o d) + 1 = ?o + sint n"
    using wf bound(1) eqs(2) count by (simp add: patch_base_last wf_batch_def)
  moreover have "chained (cl_segments ?c') ?bss'"
    using chained_update_last [of "cl_segments c1" bss1 s'] r1 s' by simp
  moreover have "\<forall>s\<in>set (cl_segments ?c'). 0 < seg_maxBytes s"
    using r1 s'(4) by (auto dest: in_set_butlastD)
  ultimately have "cl_rep ?c' ?bss'"
    using r1 by (simp add: cl_rep_def)
  moreover have "concat ?bss' = concat bss @ [patch_base ?o d]"
  proof -
    have "concat bss1 = concat (butlast bss1 @ [last bss1])" using bne by simp
    then show ?thesis using eqs(1) by simp
  qed
  moreover have "seg_BaseOffset (hd (cl_segments ?c')) = seg_BaseOffset (hd (cl_segments c))"
    using eqs(4) s'(3) r1 by (cases "cl_segments c1") (auto split: if_splits)
  moreover have "if IsFull (cl_activeSegment c) then ?bss' = bss @ [[patch_base ?o d]]
     else ?bss' = butlast bss @ [last bss @ [patch_base ?o d]] \<and>
       seg_maxBytes (cl_activeSegment ?c') = seg_maxBytes (cl_activeSegment c)"
    using cases s'(4) roll by (auto simp: cl_activeSegment_def roll_def Let_def split: option.splits res.splits)
  moreover have "commitLog_AppendRaw no_cl_faults now d n c =
      (Ok (cl_nextOffset c), ?c', if cl_onSegmentRoll c1 then r else None)"
    using open' rep roll s'(1) eqs(2)
    by (simp add: commitLog_AppendRaw_def cl_rep_def Let_def cl_activeSegment_def)
       (simp add: no_cl_faults_def)
  ultimately show ?thesis using eqs open' by auto
qed
section \<open>Finding records\<close>

lemma segment_search_split:
  assumes "0 \<le> left" "right < int (length segs)" "left \<le> right + 1" "result = left - 1"
    and mono: "sorted_wrt (<) (map seg_BaseOffset segs)"
    and "\<And>i. int i < left \<Longrightarrow> seg_BaseOffset (segs ! i) \<le> offset"
    and "\<And>i. right < int i \<Longrightarrow> i < length segs \<Longrightarrow> offset < seg_BaseOffset (segs ! i)"
  shows "\<exists>k \<le> length segs. segment_search segs offset left right result = int k - 1 \<and>
    (\<forall>i<k. seg_BaseOffset (segs ! i) \<le> offset) \<and>
    (\<forall>i. k \<le> i \<longrightarrow> i < length segs \<longrightarrow> offset < seg_BaseOffset (segs ! i))"
  using assms(1-4,6,7)
proof (induction "nat (right - left + 1)" arbitrary: left right result rule: less_induct)
  case less
  show ?case
  proof (cases "left \<le> right")
    case False
    then show ?thesis
      using less.prems
      by (intro exI [of _ "nat left"]) (auto simp: segment_search.simps [of segs offset left])
  next
    case True
    define mid where "mid = (left + right) div 2"
    have mid: "left \<le> mid" "mid \<le> right" using True unfolding mid_def by auto
    have m: "0 \<le> mid" "nat mid < length segs" using less.prems mid by auto
    have lt: "seg_BaseOffset (segs ! i) < seg_BaseOffset (segs ! j)" if "i < j" "j < length segs" for i j
      using mono that by (auto simp: sorted_wrt_iff_nth_less)
    show ?thesis
    proof (cases "seg_BaseOffset (segs ! nat mid) \<le> offset")
      case le: True
      have "seg_BaseOffset (segs ! i) \<le> offset" if "int i < mid + 1" for i
      proof (cases "i = nat mid")
        case False
        then have "i < nat mid" using that m by linarith
        then show ?thesis using lt [of i "nat mid"] le m by simp
      qed (simp add: le)
      then have "\<exists>k \<le> length segs. segment_search segs offset (mid + 1) right mid = int k - 1 \<and>
          (\<forall>i<k. seg_BaseOffset (segs ! i) \<le> offset) \<and>
          (\<forall>i. k \<le> i \<longrightarrow> i < length segs \<longrightarrow> offset < seg_BaseOffset (segs ! i))"
        using less.prems mid by (intro less.hyps) auto
      then show ?thesis
        using True le by (subst segment_search.simps) (simp add: Let_def mid_def [symmetric])
    next
      case gt: False
      have "offset < seg_BaseOffset (segs ! i)" if "mid - 1 < int i" "i < length segs" for i
      proof (cases "i = nat mid")
        case False
        then have "nat mid < i" using that m by linarith
        then show ?thesis using lt [of "nat mid" i] gt that by simp
      qed (use gt in simp)
      then have "\<exists>k \<le> length segs. segment_search segs offset left (mid - 1) result = int k - 1 \<and>
          (\<forall>i<k. seg_BaseOffset (segs ! i) \<le> offset) \<and>
          (\<forall>i. k \<le> i \<longrightarrow> i < length segs \<longrightarrow> offset < seg_BaseOffset (segs ! i))"
        using less.prems mid by (intro less.hyps) auto
      then show ?thesis
        using True gt by (subst segment_search.simps) (simp add: Let_def mid_def [symmetric])
    qed
  qed
qed

lemma chained_next:
  assumes "chained ss bss" "Suc i < length ss"
  shows "seg_BaseOffset (ss ! Suc i) = log_end (seg_BaseOffset (ss ! i)) (bss ! i) \<and> bss ! i \<noteq> []"
  using assms
proof (induction ss bss arbitrary: i rule: chained.induct)
  case (3 s t ss bss)
  then show ?case by (cases i) auto
qed auto

lemma chained_sorted:
  assumes "chained ss bss"
  shows "sorted_wrt (<) (map seg_BaseOffset ss)"
proof -
  have "seg_BaseOffset (ss ! i) < seg_BaseOffset (ss ! Suc i)" if "Suc i < length ss" for i
  proof -
    have "seg_rep (ss ! i) (bss ! i)" using chained_rep [OF assms] that by simp
    then show ?thesis
      using chained_next [OF assms that] log_end_less by (simp add: seg_rep_def)
  qed
  then show ?thesis
    by (intro sorted_wrt_iff_nth_Suc_transp [THEN iffD2]) (auto simp: transp_def)
qed

lemma findSegment_rep:
  assumes rep: "cl_rep c bss" and f: "OldestOffset c \<le> f" "f < cl_nextOffset c"
  obtains i where "findSegmentByOffset f c = int i" "i < length (cl_segments c)"
    "seg_BaseOffset (cl_segments c ! i) \<le> f"
    "f < log_end (seg_BaseOffset (cl_segments c ! i)) (bss ! i)"
proof -
  note r = rep [unfolded cl_rep_def]
  let ?ss = "cl_segments c"
  have "\<exists>k \<le> length ?ss. findSegmentByOffset f c = int k - 1 \<and>
      (\<forall>i<k. seg_BaseOffset (?ss ! i) \<le> f) \<and>
      (\<forall>i. k \<le> i \<longrightarrow> i < length ?ss \<longrightarrow> f < seg_BaseOffset (?ss ! i))"
    unfolding findSegmentByOffset_def
    by (rule segment_search_split) (use chained_sorted r in auto)
  then obtain k where k: "k \<le> length ?ss" "findSegmentByOffset f c = int k - 1"
      "\<forall>i<k. seg_BaseOffset (?ss ! i) \<le> f"
      "\<forall>i. k \<le> i \<longrightarrow> i < length ?ss \<longrightarrow> f < seg_BaseOffset (?ss ! i)" by blast
  have len: "length bss = length ?ss" using chained_length r by blast
  have "k \<noteq> 0" using k(4) f(1) r by (auto simp: OldestOffset_def)
  then obtain i where i: "k = Suc i" by (cases k) auto
  have "f < log_end (seg_BaseOffset (?ss ! i)) (bss ! i)"
  proof (cases "Suc i < length ?ss")
    case True
    then have "f < seg_BaseOffset (?ss ! Suc i)" using k(4) i by simp
    then show ?thesis using chained_next [of ?ss bss i] True r by simp
  next
    case False
    then have "i = length ?ss - 1" using k(1) i by simp
    moreover have "bss \<noteq> []" using len r by auto
    ultimately have "last ?ss = ?ss ! i" "last bss = bss ! i"
      using len r by (simp_all add: last_conv_nth)
    then show ?thesis using f(2) r by simp
  qed
  then show thesis using that [of i] k i by simp
qed

lemma FindRecords_rep:
  assumes rep: "cl_rep c bss" and open': "\<not> cl_isClosed c"
    and f: "OldestOffset c \<le> f" "f < cl_nextOffset c"
  obtains i j n where
    "i < length bss" "j \<le> locate f (bss ! i)" "locate f (bss ! i) \<le> j + 1"
    "locate f (bss ! i) < length (bss ! i)"
    "batch_base (bss ! i ! locate f (bss ! i)) \<le> f" "f \<le> batch_last (bss ! i ! locate f (bss ! i))"
    "j < locate f (bss ! i) \<Longrightarrow> batch_base (bss ! i ! locate f (bss ! i)) = f"
    "1 \<le> n" "n \<le> length (bss ! i) - j"
    "0 < mb \<Longrightarrow> n = 1 \<or> int (length (concat (take n (drop j (bss ! i))))) \<le> mb"
    "j < locate f (bss ! i) \<Longrightarrow> n = 1 \<Longrightarrow>
       0 < mb \<and> mb < int (length (bss ! i ! j)) + int (length (bss ! i ! locate f (bss ! i)))"
    "FindRecords False f mb c = Some (Ok (Some \<lparr>rr_File = Some (concat (bss ! i)),
       rr_FileOffset = int (length (concat (take j (bss ! i)))),
       rr_Size = int (length (concat (take n (drop j (bss ! i))))),
       rr_LEO = cl_nextOffset c, rr_LogStart = OldestOffset c\<rparr>))"
proof -
  note r = rep [unfolded cl_rep_def]
  obtain i where i: "findSegmentByOffset f c = int i" "i < length (cl_segments c)"
      "seg_BaseOffset (cl_segments c ! i) \<le> f"
      "f < log_end (seg_BaseOffset (cl_segments c ! i)) (bss ! i)"
    using findSegment_rep [OF rep f] by blast
  let ?s = "cl_segments c ! i" and ?bs = "bss ! i"
  have srep: "seg_rep ?s ?bs" using chained_rep r i(2) by blast
  have len: "length bss = length (cl_segments c)" using chained_length r by blast
  obtain j n where jn: "FindRawRegion False f mb ?s =
      Some (Ok (int (length (concat (take j ?bs))), int (length (concat (take n (drop j ?bs))))))"
    "j \<le> locate f ?bs" "locate f ?bs \<le> j + 1" "j < locate f ?bs \<longrightarrow> batch_base (?bs ! locate f ?bs) = f"
    "1 \<le> n" "n \<le> length ?bs - j" "0 < mb \<longrightarrow> n = 1 \<or> int (length (concat (take n (drop j ?bs)))) \<le> mb"
    "j < locate f ?bs \<and> n = 1 \<longrightarrow> 0 < mb \<and> mb < int (length (?bs ! j)) + int (length (?bs ! locate f ?bs))"
    using FindRawRegion_rep [OF srep i(3,4), of mb] by blast
  have "FindRecords False f mb c = Some (Ok (Some \<lparr>rr_File = Some (concat ?bs),
       rr_FileOffset = int (length (concat (take j ?bs))),
       rr_Size = int (length (concat (take n (drop j ?bs)))),
       rr_LEO = cl_nextOffset c, rr_LogStart = OldestOffset c\<rparr>))"
    using open' f(2) i(1) jn(1) srep r
    by (simp add: FindRecords_def Let_def OldestOffset_def seg_rep_def)
  moreover have "locate f ?bs < length ?bs" "batch_base (?bs ! locate f ?bs) \<le> f" "f \<le> batch_last (?bs ! locate f ?bs)"
    using locate_props(1,3,4) [of "seg_BaseOffset ?s" ?bs f] srep i(3,4) by (simp_all add: seg_rep_def)
  ultimately show thesis using that [of i j n] jn i(2) len by auto
qed

text \<open>A fetch from the oldest offset with a large enough limit gets the first segment, and no more.\<close>

lemma region_count_fits: "acc + int (length (concat bs)) \<le> mb \<Longrightarrow> region_count mb acc bs = length bs"
  by (induction bs arbitrary: acc) (auto simp: algebra_simps)

lemma FindRecords_first:
  assumes rep: "cl_rep c bss" and open': "\<not> cl_isClosed c" and ne: "hd bss \<noteq> []"
    and mb: "int (length (concat (hd bss))) \<le> mb"
  shows "FindRecords False (OldestOffset c) mb c = Some (Ok (Some \<lparr>rr_File = Some (concat (hd bss)),
    rr_FileOffset = 0, rr_Size = int (length (concat (hd bss))), rr_LEO = cl_nextOffset c, rr_LogStart = OldestOffset c\<rparr>))"
proof -
  note r = rep [unfolded cl_rep_def]
  have ss: "cl_segments c \<noteq> []" "chained (cl_segments c) bss" using r by auto
  have len: "length bss = length (cl_segments c)" using chained_length ss by blast
  let ?s = "cl_segments c ! 0" and ?bs = "hd bss" and ?f = "OldestOffset c"
  have hd: "hd bss = bss ! 0" using len ss by (metis hd_conv_nth length_0_conv)
  have f: "?f = seg_BaseOffset ?s" using ss by (simp add: OldestOffset_def)
  have srep: "seg_rep ?s ?bs" using chained_rep [OF ss(2), of 0] ss hd by simp
  have base: "contiguous ?f ?bs" using srep f by (simp add: seg_rep_def)
  have lt: "?f < log_end ?f ?bs" by (rule log_end_less [OF base ne])
  have "concat bss \<noteq> []" using ne len ss(1) by (cases bss) auto
  then have "?f < cl_nextOffset c"
    using log_end_less chained_contiguous [OF ss(2,1)] r f ss(1) by (metis hd_conv_nth)
  then obtain i where i: "findSegmentByOffset ?f c = int i" "i < length (cl_segments c)"
      "seg_BaseOffset (cl_segments c ! i) \<le> ?f"
    using findSegment_rep [OF rep order.refl] by blast
  have "seg_BaseOffset ?s < seg_BaseOffset (cl_segments c ! i)" if "0 < i"
    using sorted_wrt_nth_less [OF chained_sorted [OF ss(2)] that] i(2) that ss(1) by (simp add: nth_map)
  then have "i = 0" using i(3) f by fastforce
  obtain k where k: "k \<le> locate ?f ?bs" "OffsetIndex_Lookup ?f (seg_offsetIndex ?s) = Ok (int (length (concat (take k ?bs))))"
    using Lookup_rep [OF srep] lt f by auto
  have l0: "locate ?f ?bs = 0"
    using locate_props(2) [OF base order.refl lt, of 0] base ne by (cases ?bs) (auto simp: batch_last_def wf_batch_def)
  have "FindRawRegion False ?f mb ?s = Some (Ok (0, int (length (concat ?bs))))"
    using FindRawRegion_from [OF srep _ _ k, of mb] lt f k(1) l0 region_count_fits [of 0 ?bs mb] mb
    by (simp add: start_batch_def)
  then show ?thesis using open' \<open>?f < cl_nextOffset c\<close> i(1) \<open>i = 0\<close> f srep by (simp add: FindRecords_def seg_rep_def)
qed

section \<open>Clipping\<close>

lemma clip_loop_batches:
  assumes "\<forall>b\<in>set cs. wf_batch b"
  shows "clip_loop (pre @ concat (as @ cs) @ post) (int (length pre)) (int (length (concat (as @ cs)))) mv
      (int (length (concat as))) (int (length (concat as))) =
    Ok (int (length (concat (as @ takeWhile (\<lambda>b. batch_last b < mv) cs))))"
  using assms
proof (induction cs arbitrary: as)
  case Nil
  show ?case by (subst clip_loop.simps) simp
next
  case (Cons b cs)
  then have wf: "wf_batch b" by simp
  then have len: "uint (be_dec (sub 8 4 b) :: u32) = int (length b) - 12" "61 \<le> length b" "b \<noteq> []"
    by (auto simp: wf_batch_def uint_sint_nonneg)
  have cnt: "uint (be_dec (sub 57 4 b) :: u32) = batch_delta b + 1" "0 \<le> batch_delta b"
    using wf by (auto simp: wf_batch_def batch_count_def)
  have "file_ReadAt ((pre @ concat as) @ b @ (concat cs @ post)) 61 (int (length (pre @ concat as))) =
      Ok (take 61 b)"
    by (rule file_ReadAt_at) (use len in simp)
  then have rd: "file_ReadAt (pre @ concat (as @ b # cs) @ post) 61
      (int (length pre) + int (length (concat as))) = Ok (take 61 b)" by simp
  have IH: "clip_loop (pre @ concat ((as @ [b]) @ cs) @ post) (int (length pre))
      (int (length (concat ((as @ [b]) @ cs)))) mv
      (int (length (concat (as @ [b])))) (int (length (concat (as @ [b])))) =
    Ok (int (length (concat ((as @ [b]) @ takeWhile (\<lambda>b. batch_last b < mv) cs))))"
    by (rule Cons.IH) (use Cons.prems in simp)
  show ?case
    using rd IH len cnt
    by (subst clip_loop.simps)
       (simp add: batchHeaderReadSize_def batchLogOverhead_def Let_def sub_take batch_last_def batch_base_def)
qed

lemma ClipRegion_batches:
  assumes "\<forall>b\<in>set bs. wf_batch b"
  shows "ClipRegionToOffset (Some \<lparr>rr_File = Some (pre @ concat bs @ post), rr_FileOffset = int (length pre),
      rr_Size = int (length (concat bs)), rr_LEO = leo, rr_LogStart = ls\<rparr>) mv =
    Ok (Some \<lparr>rr_File = Some (pre @ concat bs @ post), rr_FileOffset = int (length pre),
      rr_Size = int (length (concat (takeWhile (\<lambda>b. batch_last b < mv) bs))), rr_LEO = leo, rr_LogStart = ls\<rparr>)"
proof (cases "bs = []")
  case True
  then show ?thesis by (simp add: ClipRegionToOffset_def)
next
  case False
  then obtain b cs where "bs = b # cs" "61 \<le> length b" using assms by (cases bs) (auto simp: wf_batch_def)
  then have "int (length (concat bs)) \<noteq> 0" by auto
  then show ?thesis
    using clip_loop_batches [OF assms, of pre "[]" post mv] by (auto simp: ClipRegionToOffset_def)
qed
section \<open>File names round-trip\<close>

lemma unat_digit: "n < 10 \<Longrightarrow> unat (48 + of_nat n - 48 :: byte) = n"
  by (simp add: unsigned_of_nat take_bit_nat_eq_self)

lemma digit_range: "n < 10 \<Longrightarrow> 48 \<le> (48 + of_nat n :: byte) \<and> (48 + of_nat n :: byte) \<le> 57"
  by (simp add: word_le_nat_alt unat_word_ariths unsigned_of_nat take_bit_nat_eq_self)

lemma parse_digits_append:
  "parse_digits acc (xs @ ys) = (case parse_digits acc xs of None \<Rightarrow> None | Some a \<Rightarrow> parse_digits a ys)"
  by (induction xs arbitrary: acc) auto

lemma parse_dec_digits: "parse_digits acc (dec_digits n) = Some (acc * 10 ^ length (dec_digits n) + n)"
proof (induction n arbitrary: acc rule: dec_digits.induct)
  case (1 n)
  show ?case
  proof (cases "n < 10")
    case True
    then show ?thesis
      using unat_digit [OF True] digit_range [OF True] by (simp add: dec_digits.simps [of n])
  next
    case False
    have m: "n mod 10 < 10" by simp
    show ?thesis
      using False 1 [of acc] unat_digit [OF m] digit_range [OF m]
      by (simp add: dec_digits.simps [of n] parse_digits_append algebra_simps)
  qed
qed

lemma parse_zeros: "parse_digits 0 (replicate k 48 @ ds) = parse_digits 0 ds"
  by (induction k) auto

lemma length_dec_digits: "n < 10 ^ k \<Longrightarrow> 0 < k \<Longrightarrow> length (dec_digits n) \<le> k"
proof (induction n arbitrary: k rule: dec_digits.induct)
  case (1 n)
  show ?case
  proof (cases "n < 10")
    case False
    then have k1: "k \<noteq> 1" using 1(2) by auto
    then obtain k' where k: "k = Suc k'" "0 < k'" using 1(3) by (cases k) auto
    have "n div 10 < 10 ^ k'" using 1(2) k by (simp add: less_mult_imp_div_less mult.commute)
    then have "length (dec_digits (n div 10)) \<le> k'" using 1(1) False k by blast
    then show ?thesis using False k by (simp add: dec_digits.simps [of n])
  qed (use 1 in \<open>simp add: dec_digits.simps [of n]\<close>)
qed

lemma dec_digits_nonempty: "dec_digits n \<noteq> []"
  by (simp add: dec_digits.simps [of n])

lemma hd_dec_digits: "48 \<le> hd (dec_digits n) \<and> hd (dec_digits n) \<le> 57"
proof (induction n rule: dec_digits.induct)
  case (1 n)
  then show ?case
    using digit_range [of n] dec_digits_nonempty [of "n div 10"] by (simp add: dec_digits.simps [of n])
qed

lemma ParseInt_fmt020:
  assumes "0 \<le> n" "n < 2 ^ 63"
  shows "ParseInt (fmt020 n) = Ok n" "length (fmt020 n) = 20"
proof -
  let ?d = "dec_digits (nat n)"
  have s: "fmt020 n = replicate (20 - length ?d) 48 @ ?d" using assms by (simp add: fmt020_def Let_def)
  have "nat n < 10 ^ 20" using assms(2) by (simp add: nat_less_iff)
  then have "length ?d \<le> 20" by (rule length_dec_digits) simp
  then show "length (fmt020 n) = 20" unfolding s by simp
  have ne: "fmt020 n \<noteq> []" unfolding s using dec_digits_nonempty by simp
  have "48 \<le> hd (fmt020 n)"
    unfolding s using hd_dec_digits [of "nat n"] by (cases "20 - length ?d") auto
  then have "hd (fmt020 n) \<noteq> 45" "hd (fmt020 n) \<noteq> 43" by auto
  moreover have "parse_digits 0 (fmt020 n) = Some (nat n)"
    unfolding s by (simp add: parse_zeros parse_dec_digits)
  moreover have "nat n < 2 ^ 63" using assms(2) by (simp add: nat_less_iff)
  ultimately show "ParseInt (fmt020 n) = Ok n" using ne assms by (simp add: ParseInt_def Let_def)
qed

lemma fmt020_inj:
  "0 \<le> m \<Longrightarrow> m < 2 ^ 63 \<Longrightarrow> 0 \<le> n \<Longrightarrow> n < 2 ^ 63 \<Longrightarrow> fmt020 m = fmt020 n \<longleftrightarrow> m = n"
  using ParseInt_fmt020(1) by (metis res.inject(1))
section \<open>Closing and recovering\<close>

text \<open>The directory with the files of a list of segments.\<close>

definition dir_of :: "(int \<times> seg_files) list \<Rightarrow> dir" where
  "dir_of fs = concat (map (\<lambda>(b, l, of', tf).
     [(fmt020 b @ str ''.log'', l), (fmt020 b @ str ''.offsetIndex'', of'),
      (fmt020 b @ str ''.timeindex'', tf)]) fs)"

definition valid_base :: "int \<Rightarrow> bool" where
  "valid_base b \<longleftrightarrow> 0 \<le> b \<and> b < 2 ^ 63"

lemma fmt020_append_eq:
  assumes "valid_base a" "valid_base b"
  shows "fmt020 a @ x = fmt020 b @ y \<longleftrightarrow> a = b \<and> x = y"
  using assms ParseInt_fmt020(2) [of a] ParseInt_fmt020(2) [of b] fmt020_inj [of a b]
  by (auto simp: valid_base_def)

lemma suffix_facts [simp]:
  "HasSuffix (p @ str ''.log'') (str ''.log'')"
  "\<not> HasSuffix (p @ str ''.offsetIndex'') (str ''.log'')"
  "\<not> HasSuffix (p @ str ''.timeindex'') (str ''.log'')"
  "TrimSuffix (p @ str ''.log'') (str ''.log'') = p"
  by (simp_all add: HasSuffix_def TrimSuffix_def str_def)

lemma str_distinct [simp]:
  "str ''.log'' \<noteq> str ''.offsetIndex''" "str ''.log'' \<noteq> str ''.timeindex''"
  "str ''.offsetIndex'' \<noteq> str ''.timeindex''" "str ''.offsetIndex'' \<noteq> str ''.log''"
  "str ''.timeindex'' \<noteq> str ''.log''" "str ''.timeindex'' \<noteq> str ''.offsetIndex''"
  by (simp_all add: str_def)

lemma segment_files_dir_of:
  assumes "\<forall>(b, f)\<in>set fs. valid_base b" "distinct (map fst fs)" "(b, f) \<in> set fs"
  shows "segment_files (dir_of fs) b = f"
  using assms
proof (induction fs)
  case (Cons x fs)
  obtain b' l of' tf where x: "x = (b', l, of', tf)" by (cases x) auto
  have vb: "valid_base b'" "valid_base b" using Cons.prems x by auto
  show ?case
  proof (cases "b' = b")
    case True
    then have "(b, f) \<notin> set fs" using Cons.prems x by force
    then have "f = (l, of', tf)" using Cons.prems x True by auto
    then show ?thesis
      using vb True by (simp add: x dir_of_def segment_files_def dir_open_def fmt020_append_eq)
  next
    case False
    then have "segment_files (dir_of fs) b = f" using Cons x by auto
    moreover have "segment_files (dir_of (x # fs)) b = segment_files (dir_of fs) b"
      using vb False fmt020_append_eq [OF vb(2) vb(1), of "[]" "[]"] by (simp add: x dir_of_def segment_files_def dir_open_def fmt020_append_eq)
    ultimately show ?thesis by simp
  qed
qed simp

lemma load_loop_dir_of:
  assumes "list_all2 (\<lambda>(b, f) s. valid_base b \<and> NewSegment no_seg_faults (segment_files d b) b cfg = Ok s) fs ss"
  shows "load_loop no_cl_faults cfg d (map fst (dir_of fs)) = Ok ss"
  using assms
proof (induction fs ss rule: list_all2_induct)
  case (Cons x fs s ss)
  obtain b l of' tf where x: "x = (b, l, of', tf)" by (cases x) auto
  have b: "valid_base b" "NewSegment no_seg_faults (segment_files d b) b cfg = Ok s"
    using Cons x by auto
  have names: "map fst (dir_of (x # fs)) = (fmt020 b @ str ''.log'') # (fmt020 b @ str ''.offsetIndex'') #
      (fmt020 b @ str ''.timeindex'') # map fst (dir_of fs)"
    by (simp add: x dir_of_def)
  have "ParseInt (fmt020 b) = Ok b" using ParseInt_fmt020(1) [of b] b(1) by (simp add: valid_base_def)
  then show ?case
    unfolding names using b Cons by (simp add: no_cl_faults_def x)
qed (simp add: dir_of_def)

lemma close_segments_rep:
  assumes "chained ss bss"
  shows "\<exists>fs. close_segments no_seg_faults ss = (Ok (), fs) \<and> map fst fs = map seg_BaseOffset ss \<and>
    list_all2 (\<lambda>(b, l, of', tf) bs. l = concat bs \<and> (of' = [] \<or> 8 \<le> length of') \<and>
      (tf = [] \<or> 12 \<le> length tf)) fs bss"
  using assms
proof (induction ss bss rule: chained.induct)
  case (2 s bss)
  then obtain bs where bs: "bss = [bs]" "seg_rep s bs" by auto
  then show ?case using Segment_Close_rep [OF bs(2)] by auto
next
  case (3 s t ss bss)
  then obtain bs rest where *: "bss = bs # rest" "seg_rep s bs" "chained (t # ss) rest" by auto
  then obtain fs where "close_segments no_seg_faults (t # ss) = (Ok (), fs)"
      "map fst fs = map seg_BaseOffset (t # ss)"
      "list_all2 (\<lambda>(b, l, of', tf) bs. l = concat bs \<and> (of' = [] \<or> 8 \<le> length of') \<and>
        (tf = [] \<or> 12 \<le> length tf)) fs rest"
    using 3 by blast
  moreover obtain of' tf where "Segment_Close no_seg_faults s = (Ok (), concat bs, of', tf)"
      "of' = [] \<or> 8 \<le> length of'" "tf = [] \<or> 12 \<le> length tf"
    using Segment_Close_rep [OF *(2)] by blast
  ultimately show ?case using *(1) by (auto split: prod.splits)
qed simp

lemma chainedI:
  assumes "length bss = length ss" "\<And>i. i < length ss \<Longrightarrow> seg_rep (ss ! i) (bss ! i)"
    and "\<And>i. Suc i < length ss \<Longrightarrow>
      seg_BaseOffset (ss ! Suc i) = log_end (seg_BaseOffset (ss ! i)) (bss ! i) \<and> bss ! i \<noteq> []"
  shows "chained ss bss"
  using assms
proof (induction ss arbitrary: bss)
  case (Cons s ss)
  then obtain bs rest where bss: "bss = bs # rest" by (cases bss) auto
  have len: "length rest = length ss" using Cons.prems(1) bss by simp
  have r: "seg_rep (ss ! i) (rest ! i)" if "i < length ss" for i
    using Cons.prems(2) [of "Suc i"] that bss by simp
  have n: "seg_BaseOffset (ss ! Suc i) = log_end (seg_BaseOffset (ss ! i)) (rest ! i) \<and> rest ! i \<noteq> []"
    if "Suc i < length ss" for i
    using Cons.prems(3) [of "Suc i"] that bss by simp
  have c: "chained ss rest" by (rule Cons.IH [OF len r n])
  have s: "seg_rep s bs" using Cons.prems(2) [of 0] bss by simp
  show ?case
  proof (cases ss)
    case Nil
    then show ?thesis using s bss len by simp
  next
    case tl: (Cons t us)
    then show ?thesis using s c bss Cons.prems(3) [of 0] by simp
  qed
qed simp

lemma chained_last:
  assumes "chained ss bss" "ss \<noteq> []"
  shows "seg_rep (last ss) (last bss)"
proof -
  have "length bss = length ss" by (rule chained_length [OF assms(1)])
  moreover from this have "bss \<noteq> []" using assms(2) by auto
  ultimately show ?thesis
    using chained_rep [OF assms(1), of "length ss - 1"] assms(2) by (simp add: last_conv_nth)
qed

lemma chained_valid_bases:
  assumes "chained ss bss" "log_end (seg_BaseOffset (last ss)) (last bss) < 2 ^ 63" "s \<in> set ss"
  shows "valid_base (seg_BaseOffset s)"
proof -
  have ne: "ss \<noteq> []" using assms(3) by auto
  have "seg_BaseOffset s \<le> seg_BaseOffset (last ss)" using chained_bases [OF assms(1)] assms(3) by blast
  also have "\<dots> \<le> log_end (seg_BaseOffset (last ss)) (last bss)"
    using chained_last [OF assms(1) ne] contiguous_log_end by (simp add: seg_rep_def)
  finally have "seg_BaseOffset s < 2 ^ 63" using assms(2) by simp
  moreover obtain i where "i < length ss" "s = ss ! i" using assms(3) by (auto simp: in_set_conv_nth)
  ultimately show ?thesis
    using chained_rep [OF assms(1), of i] by (simp add: seg_rep_def valid_base_def)
qed

text \<open>Every segment is reopened with its batches.\<close>

lemma reopen_segment:
  assumes "seg_rep s bs" "valid_base (seg_BaseOffset s)"
    and "\<forall>(b, f)\<in>set fs. valid_base b" "distinct (map fst fs)" "(seg_BaseOffset s, l, of', tf) \<in> set fs"
    and "l = concat bs" "of' = [] \<or> 8 \<le> length of'" "tf = [] \<or> 12 \<le> length tf"
  shows "\<exists>s'. NewSegment no_seg_faults (segment_files (dir_of fs) (seg_BaseOffset s)) (seg_BaseOffset s) cfg = Ok s' \<and>
    seg_rep s' bs \<and> seg_BaseOffset s' = seg_BaseOffset s \<and> seg_maxBytes s' = cfg_SegmentMaxBytes cfg"
proof -
  have "segment_files (dir_of fs) (seg_BaseOffset s) = (l, of', tf)"
    by (rule segment_files_dir_of) (use assms in auto)
  moreover have "0 \<le> seg_BaseOffset s" "contiguous (seg_BaseOffset s) bs"
    using assms(1) by (auto simp: seg_rep_def)
  ultimately show ?thesis using NewSegment_rep assms(6-8) by metis
qed

lemma reopen_segments:
  assumes ch: "chained ss bss" and valid: "\<And>s. s \<in> set ss \<Longrightarrow> valid_base (seg_BaseOffset s)"
    and fs: "map fst fs = map seg_BaseOffset ss"
    and files: "list_all2 (\<lambda>(b, l, of', tf) bs. l = concat bs \<and> (of' = [] \<or> 8 \<le> length of') \<and>
      (tf = [] \<or> 12 \<le> length tf)) fs bss"
  shows "\<exists>ss'. load_loop no_cl_faults cfg (dir_of fs) (map fst (dir_of fs)) = Ok ss' \<and> chained ss' bss \<and>
    map seg_BaseOffset ss' = map seg_BaseOffset ss \<and> (\<forall>s\<in>set ss'. seg_maxBytes s = cfg_SegmentMaxBytes cfg)"
proof -
  let ?P = "\<lambda>i s'. NewSegment no_seg_faults (segment_files (dir_of fs) (seg_BaseOffset (ss ! i))) (seg_BaseOffset (ss ! i)) cfg = Ok s' \<and>
    seg_rep s' (bss ! i) \<and> seg_BaseOffset s' = seg_BaseOffset (ss ! i) \<and> seg_maxBytes s' = cfg_SegmentMaxBytes cfg"
  have len: "length fs = length ss" "length bss = length ss"
    using fs chained_length [OF ch] by (auto dest: map_eq_imp_length_eq)
  have base: "fst (fs ! i) = seg_BaseOffset (ss ! i)" if "i < length ss" for i
    using arg_cong [OF fs, of "\<lambda>xs. xs ! i"] that len by simp
  have vb: "\<forall>(b, f)\<in>set fs. valid_base b"
    using valid base len by (fastforce simp: in_set_conv_nth)
  have dist: "distinct (map fst fs)"
    unfolding fs using chained_sorted [OF ch] strict_sorted_iff by blast
  have "\<exists>s'. ?P i s'" if i: "i < length ss" for i
  proof -
    obtain l of' tf where e: "fs ! i = (seg_BaseOffset (ss ! i), l, of', tf)"
      using base [OF i] by (cases "fs ! i") auto
    have "(seg_BaseOffset (ss ! i), l, of', tf) \<in> set fs" using e i len by (metis nth_mem)
    moreover have "l = concat (bss ! i)" "of' = [] \<or> 8 \<le> length of'" "tf = [] \<or> 12 \<le> length tf"
      using list_all2_nthD [OF files, of i] e i len by auto
    ultimately show ?thesis
      using reopen_segment [OF chained_rep [OF ch i] _ vb dist] valid i by simp
  qed
  then obtain ss' where ss': "length ss' = length ss" "\<And>i. i < length ss \<Longrightarrow> ?P i (ss' ! i)"
    using Skolem_list_nth [of "length ss" ?P] by auto
  have "load_loop no_cl_faults cfg (dir_of fs) (map fst (dir_of fs)) = Ok ss'"
  proof (rule load_loop_dir_of, rule list_all2_all_nthI)
    fix i assume "i < length fs"
    then show "(case fs ! i of (b, f) \<Rightarrow> \<lambda>s. valid_base b \<and>
        NewSegment no_seg_faults (segment_files (dir_of fs) b) b cfg = Ok s) (ss' ! i)"
      using base [of i] ss'(2) [of i] valid [of "ss ! i"] len by (cases "fs ! i") auto
  qed (use ss' len in simp)
  moreover have "chained ss' bss"
    by (rule chainedI) (use ss' len chained_next [OF ch] in auto)
  moreover have "map seg_BaseOffset ss' = map seg_BaseOffset ss"
    by (rule nth_equalityI) (use ss' in auto)
  ultimately show ?thesis using ss' by (force simp: in_set_conv_nth)
qed

text \<open>
  What a restart finds: the log files of every segment, and index files of any content that are
  absent or hold at least one entry.\<close>

definition files_of :: "(int \<times> seg_files) list \<Rightarrow> bytes list list \<Rightarrow> bool" where
  "files_of fs bss \<longleftrightarrow> list_all2 (\<lambda>(b, l, of', tf) bs. l = concat bs \<and> (of' = [] \<or> 8 \<le> length of') \<and>
     (tf = [] \<or> 12 \<le> length tf)) fs bss"

lemma crash_rep:
  assumes rep: "cl_rep c bss" and bound: "cl_nextOffset c < 2 ^ 63" and cfg: "0 < cfg_SegmentMaxBytes cfg"
    and fs: "map fst fs = map seg_BaseOffset (cl_segments c)" "files_of fs bss"
  shows "\<exists>c2. NewCommitLog no_cl_faults cfg (dir_of fs) = Ok c2 \<and> cl_rep c2 bss \<and> \<not> cl_isClosed c2 \<and>
    cl_nextOffset c2 = cl_nextOffset c \<and> map seg_BaseOffset (cl_segments c2) = map seg_BaseOffset (cl_segments c) \<and>
    cl_config c2 = cfg \<and> (\<forall>s\<in>set (cl_segments c2). seg_maxBytes s = cfg_SegmentMaxBytes cfg)"
proof -
  note r = rep [unfolded cl_rep_def]
  let ?ss = "cl_segments c"
  have ch: "chained ?ss bss" using r by blast
  obtain ss' where ss': "load_loop no_cl_faults cfg (dir_of fs) (map fst (dir_of fs)) = Ok ss'"
      "chained ss' bss" "map seg_BaseOffset ss' = map seg_BaseOffset ?ss"
      "\<forall>s\<in>set ss'. seg_maxBytes s = cfg_SegmentMaxBytes cfg"
    using reopen_segments [OF ch _ fs(1) fs(2) [unfolded files_of_def], of cfg] chained_valid_bases [OF ch] r bound by auto
  have ne: "ss' \<noteq> []" using ss'(3) r by auto
  have "sorted (map seg_BaseOffset ss')"
    using chained_sorted [OF ss'(2)] strict_sorted_iff by blast
  then have sort: "sort_key seg_BaseOffset ss' = ss'" by (rule sort_key_id_if_sorted)
  have "seg_BaseOffset (last ss') = seg_BaseOffset (last ?ss)"
    using arg_cong [OF ss'(3), of last] ne r by (simp add: last_map)
  then have next': "NextOffset False (last ss') = cl_nextOffset c"
    using NextOffset_rep [OF chained_last [OF ss'(2) ne]] r by simp
  let ?c2 = "\<lparr>cl_segments = ss', cl_config = cfg, cl_isClosed = False,
     cl_nextOffset = cl_nextOffset c, cl_onSegmentRoll = False\<rparr>"
  have "NewCommitLog no_cl_faults cfg (dir_of fs) = Ok ?c2"
    using ss'(1) ne sort next' by (simp add: NewCommitLog_def loadSegments_def) (simp add: no_cl_faults_def)
  moreover have "cl_rep ?c2 bss"
    using ss' ne cfg next' NextOffset_rep [OF chained_last [OF ss'(2) ne]] by (simp add: cl_rep_def)
  ultimately show ?thesis using ss'(3,4) by simp
qed

lemma recover_rep:
  assumes rep: "cl_rep c bss" and open': "\<not> cl_isClosed c" and bound: "cl_nextOffset c < 2 ^ 63"
    and cfg: "0 < cfg_SegmentMaxBytes cfg"
  shows "\<exists>c1 fs c2. commitLog_Close no_seg_faults c = (Ok (), c1, fs) \<and>
    NewCommitLog no_cl_faults cfg (dir_of fs) = Ok c2 \<and> cl_rep c2 bss \<and>
    cl_nextOffset c2 = cl_nextOffset c \<and> map seg_BaseOffset (cl_segments c2) = map seg_BaseOffset (cl_segments c)"
proof -
  obtain fs where fs: "close_segments no_seg_faults (cl_segments c) = (Ok (), fs)"
      "map fst fs = map seg_BaseOffset (cl_segments c)" "files_of fs bss"
    using close_segments_rep [of "cl_segments c" bss] rep unfolding cl_rep_def files_of_def by blast
  then show ?thesis using crash_rep [OF rep bound cfg fs(2,3)] open' by (auto simp: commitLog_Close_def)
qed

section \<open>Walking the log\<close>

lemma walk_start_le: "walk_start ss f n \<le> n"
  by (induction n) auto

lemma walk_batches_append:
  "walk_batches f fn (xs @ ys) st =
     (case walk_batches f fn xs st of (Ok _, st) \<Rightarrow> walk_batches f fn ys st | (r, st) \<Rightarrow> (r, st))"
  by (induction xs arbitrary: st) (auto split: prod.splits res.splits)

lemma walk_segments_rep:
  assumes "length bss = length ss" "\<And>i. i < length ss \<Longrightarrow> seg_rep (ss ! i) (bss ! i)"
  shows "walk_segments False f fn ss st = walk_batches f fn (concat bss) st"
  using assms
proof (induction ss arbitrary: bss st)
  case (Cons s ss)
  then obtain bs rest where bss: "bss = bs # rest" by (cases bss) auto
  have s: "seg_rep s bs" using Cons.prems(2) [of 0] bss by simp
  have IH: "walk_segments False f fn ss st' = walk_batches f fn (concat rest) st'" for st'
    by (rule Cons.IH) (use Cons.prems(1) Cons.prems(2) [of "Suc _"] bss in auto)
  show ?case
    by (simp add: bss walk_batches_append walkBatchHeaders_rep [OF s] IH split: prod.splits res.splits)
qed simp

lemma walk_batches_skip: "\<forall>b\<in>set xs. batch_base b < f \<Longrightarrow> walk_batches f fn xs st = (Ok (), st)"
  by (induction xs) auto

lemma walk_start_spec: "0 < walk_start ss f n \<Longrightarrow> seg_BaseOffset (ss ! walk_start ss f n) \<le> f \<and> walk_start ss f n < n"
  by (induction n) (auto split: if_splits)

lemma chained_before:
  assumes ch: "chained ss bss" and ij: "i < j" "j < length ss" and b: "b \<in> set (bss ! i)"
  shows "batch_base b < seg_BaseOffset (ss ! j)"
proof -
  have rep: "seg_rep (ss ! i) (bss ! i)" using chained_rep [OF ch] ij by simp
  have "batch_base b \<le> batch_last b"
    using rep b contiguous_wf wf_batch_last by (auto simp: seg_rep_def)
  also have "batch_last b < seg_BaseOffset (ss ! Suc i)"
    using contiguous_before_end(2) rep b chained_next [OF ch, of i] ij by (simp add: seg_rep_def)
  also have "seg_BaseOffset (ss ! Suc i) \<le> seg_BaseOffset (ss ! j)"
    using sorted_wrt_nth_less [OF chained_sorted [OF ch], of "Suc i" j] ij
    by (cases "Suc i = j") (auto simp: less_imp_le)
  finally show ?thesis .
qed

lemma WalkBatchHeadersFrom_rep:
  assumes "cl_rep c bss"
  shows "WalkBatchHeadersFrom False f fn c st = walk_batches f fn (concat bss) st"
proof -
  let ?ss = "cl_segments c"
  let ?k = "walk_start ?ss f (length ?ss)"
  have ch: "chained ?ss bss" using assms by (simp add: cl_rep_def)
  have len: "length bss = length ?ss" by (rule chained_length [OF ch])
  have "batch_base b < f" if b: "b \<in> set (concat (take ?k bss))" for b
  proof -
    obtain i where i: "i < ?k" "i < length bss" "b \<in> set (bss ! i)"
      using b by (auto simp: in_set_conv_nth) (metis nth_mem)
    then have k: "seg_BaseOffset (?ss ! ?k) \<le> f" "?k < length ?ss"
      using walk_start_spec [of ?ss f "length ?ss"] by auto
    then show ?thesis using chained_before [OF ch i(1) k(2) i(3)] by simp
  qed
  then have skip: "walk_batches f fn (concat (take ?k bss)) st = (Ok (), st)"
    by (intro walk_batches_skip) blast
  have "walk_segments False f fn (drop ?k ?ss) st = walk_batches f fn (concat (drop ?k bss)) st"
    by (rule walk_segments_rep) (use len chained_rep [OF ch] in auto)
  moreover have "concat bss = concat (take ?k bss) @ concat (drop ?k bss)"
    by (metis append_take_drop_id concat_append)
  ultimately show ?thesis
    using skip by (simp add: WalkBatchHeadersFrom_def Let_def walk_batches_append)
qed

section \<open>What a region holds\<close>

text \<open>The bytes a reader of the region gets.\<close>

definition region_bytes :: "RecordsRegion \<Rightarrow> bytes" where
  "region_bytes r = (case rr_File r of None \<Rightarrow> [] | Some file \<Rightarrow> sub (nat (rr_FileOffset r)) (nat (rr_Size r)) file)"

lemma region_bytes_batches:
  assumes "j \<le> length bs" "n \<le> length bs - j"
  shows "region_bytes \<lparr>rr_File = Some (concat bs), rr_FileOffset = int (length (concat (take j bs))),
    rr_Size = int (length (concat (take n (drop j bs)))), rr_LEO = leo, rr_LogStart = ls\<rparr> =
    concat (take n (drop j bs))"
proof -
  have "concat bs = concat (take j bs) @ concat (take n (drop j bs)) @ concat (drop n (drop j bs))"
    by (metis append_take_drop_id concat_append)
  then show ?thesis by (simp add: region_bytes_def sub_def)
qed

lemma contiguous_next:
  assumes "contiguous o' bs" "Suc j < length bs"
  shows "batch_base (bs ! Suc j) = batch_last (bs ! j) + 1"
  using assms
proof (induction bs arbitrary: o' j)
  case (Cons b bs)
  then show ?case by (cases j; cases bs) auto
qed simp

lemma concat_infix:
  assumes "i < length bss"
  shows "\<exists>as ds. concat bss = as @ take n (drop j (bss ! i)) @ ds"
proof -
  have "concat bss = concat (take i bss) @ (bss ! i) @ concat (drop (Suc i) bss)"
    by (metis assms concat.simps(2) concat_append id_take_nth_drop)
  moreover have "bss ! i = take j (bss ! i) @ take n (drop j (bss ! i)) @ drop n (drop j (bss ! i))"
    by (metis append_take_drop_id)
  ultimately show ?thesis by (metis append.assoc)
qed

text \<open>
  The region of an offset inside the log: consecutive batches of the log, the first of which
  holds the offset or ends right before it.
\<close>

text \<open>
  The region has the batch that holds the offset, unless it is the single batch before it, because
  the two do not fit into the byte limit.
\<close>

definition found_at :: "int \<Rightarrow> int \<Rightarrow> bytes list \<Rightarrow> bytes list \<Rightarrow> bool" where
  "found_at mb f bs cs \<longleftrightarrow> (\<exists>b\<in>set cs. batch_base b \<le> f \<and> f \<le> batch_last b) \<or>
     (\<exists>b\<in>set bs. batch_base b = f \<and> length cs = 1 \<and> 0 < mb \<and> mb < int (length (hd cs)) + int (length b))"

lemma FindRecords_batches:
  assumes rep: "cl_rep c bss" "\<not> cl_isClosed c" and f: "OldestOffset c \<le> f" "f < cl_nextOffset c"
  obtains as cs ds pre post r where "FindRecords False f mb c = Some (Ok (Some r))" "concat bss = as @ cs @ ds"
    "region_bytes r = concat cs" "cs \<noteq> []" "batch_base (hd cs) \<le> f" "f \<le> batch_last (hd cs) + 1"
    "length cs = 1 \<or> mb \<le> 0 \<or> int (length (region_bytes r)) \<le> mb"
    "r = \<lparr>rr_File = Some (pre @ concat cs @ post), rr_FileOffset = int (length pre), rr_Size = int (length (concat cs)),
      rr_LEO = cl_nextOffset c, rr_LogStart = OldestOffset c\<rparr>" "\<forall>b\<in>set cs. wf_batch b" "found_at mb f (concat bss) cs"
proof -
  obtain i j n where i: "i < length bss" and loc: "j \<le> locate f (bss ! i)" "locate f (bss ! i) \<le> j + 1"
      "locate f (bss ! i) < length (bss ! i)"
    and at: "batch_base (bss ! i ! locate f (bss ! i)) \<le> f" "f \<le> batch_last (bss ! i ! locate f (bss ! i))"
    and first: "j < locate f (bss ! i) \<Longrightarrow> batch_base (bss ! i ! locate f (bss ! i)) = f"
    and n: "1 \<le> n" "n \<le> length (bss ! i) - j"
    and mb: "0 < mb \<Longrightarrow> n = 1 \<or> int (length (concat (take n (drop j (bss ! i))))) \<le> mb"
    and miss: "j < locate f (bss ! i) \<Longrightarrow> n = 1 \<Longrightarrow>
       0 < mb \<and> mb < int (length (bss ! i ! j)) + int (length (bss ! i ! locate f (bss ! i)))"
    and res: "FindRecords False f mb c = Some (Ok (Some \<lparr>rr_File = Some (concat (bss ! i)),
       rr_FileOffset = int (length (concat (take j (bss ! i)))),
       rr_Size = int (length (concat (take n (drop j (bss ! i))))),
       rr_LEO = cl_nextOffset c, rr_LogStart = OldestOffset c\<rparr>))"
    using FindRecords_rep [OF rep f] by metis
  let ?bs = "bss ! i" and ?l = "locate f (bss ! i)"
  let ?cs = "take n (drop j ?bs)"
  obtain as ds where parts: "concat bss = as @ ?cs @ ds" using concat_infix [OF i] by blast
  have ch: "chained (cl_segments c) bss" using rep(1) by (simp add: cl_rep_def)
  then have seg: "seg_rep (cl_segments c ! i) ?bs"
    using i chained_rep [OF ch] chained_length [OF ch] by simp
  then have cont: "contiguous (seg_BaseOffset (cl_segments c ! i)) ?bs" by (simp add: seg_rep_def)
  have hd: "hd ?cs = ?bs ! j" using n loc by (simp add: hd_drop_conv_nth hd_take)
  have "batch_base (?bs ! j) \<le> f \<and> f \<le> batch_last (?bs ! j) + 1"
  proof (cases "j < ?l")
    case True
    then have l: "?l = Suc j" using loc(2) by simp
    have "batch_last (?bs ! j) < f"
      using contiguous_mono [OF cont True loc(3)] first [OF True] by simp
    moreover have "batch_last (?bs ! j) + 1 = f"
      using contiguous_next [OF cont, of j] loc(3) first [OF True] l by simp
    ultimately show ?thesis using wf_batch_last [OF contiguous_wf [OF cont nth_mem, of j]] True loc(3) by simp
  next
    case False
    then have "j = ?l" using loc by simp
    then show ?thesis using at by simp
  qed
  moreover have "region_bytes \<lparr>rr_File = Some (concat ?bs), rr_FileOffset = int (length (concat (take j ?bs))),
       rr_Size = int (length (concat ?cs)), rr_LEO = cl_nextOffset c, rr_LogStart = OldestOffset c\<rparr> = concat ?cs"
    using n loc by (intro region_bytes_batches) auto
  moreover have "length ?cs = 1 \<or> mb \<le> 0 \<or> int (length (concat ?cs)) \<le> mb" using mb n by (cases "0 < mb") auto
  moreover have "?cs \<noteq> []" using n by auto
  moreover have "concat ?bs = concat (take j ?bs) @ concat ?cs @ concat (drop n (drop j ?bs))"
    by (metis append_take_drop_id concat_append)
  moreover have "\<forall>b\<in>set ?cs. wf_batch b" using contiguous_wf [OF cont] by (meson in_set_dropD in_set_takeD)
  moreover have "found_at mb f (concat bss) ?cs"
  proof (cases "j < ?l \<and> n = 1")
    case True
    have "?bs ! ?l \<in> set (concat bss)" using i loc(3) by (auto intro!: bexI [of _ ?bs])
    moreover have "length ?cs = 1" using n True by simp
    ultimately show ?thesis using True first miss unfolding found_at_def hd by blast
  next
    case False
    have "?l - j < n" "?l - j < length ?bs - j" using False loc n by auto
    then have "?cs ! (?l - j) = ?bs ! ?l" "?l - j < length ?cs" using loc(1) by auto
    then have "?bs ! ?l \<in> set ?cs" by (metis nth_mem)
    then show ?thesis using at by (auto simp: found_at_def)
  qed
  ultimately show ?thesis
    using that [OF res parts, of "concat (take j ?bs)" "concat (drop n (drop j ?bs))"] hd by simp
qed

section \<open>Properties\<close>

lemma empty_log:
  "\<exists>c. NewCommitLog no_cl_faults sample_config [] = Ok c \<and> cl_rep c [[]] \<and> \<not> cl_isClosed c \<and>
     cl_nextOffset c = 0 \<and> OldestOffset c = 0 \<and> ActiveSegmentBaseOffset c = 0 \<and> seg_maxBytes (cl_activeSegment c) = 1048576"
proof -
  obtain s where s: "NewSegment no_seg_faults ([], [], []) 0 sample_config = Ok s" "seg_rep s []" "seg_BaseOffset s = 0"
    "seg_maxBytes s = 1048576"
    using NewSegment_rep [of 0 "[]" "[]" "[]" sample_config] by (auto simp: sample_config_def)
  then show ?thesis
    using NextOffset_rep [OF s(2)]
    by (auto simp: NewCommitLog_def loadSegments_def no_cl_faults_def segment_files_def dir_open_def cl_rep_def
        sample_config_def OldestOffset_def ActiveSegmentBaseOffset_def cl_activeSegment_def)
qed

text \<open>
  C2. Appending a well-formed batch to an open log succeeds, hands out the next offset,
  advances it by the number of records and adds the batch, stamped with its offset, to the
  end of the log; whether the active segment is rolled makes no difference to the contents.
\<close>

theorem commit_log_append:
  assumes "cl_rep c bss" "\<not> cl_isClosed c" "wf_batch d" "sint n = batch_count d"
    "cl_nextOffset c < 2 ^ 63" "cl_nextOffset c - ActiveSegmentBaseOffset c < 2 ^ 32"
    "seg_maxBytes (cl_activeSegment c) \<le> 2 ^ 32"
  shows "\<exists>c' h bss'. commitLog_AppendRaw no_cl_faults now d n c = (Ok (cl_nextOffset c), c', h) \<and>
    cl_rep c' bss' \<and> concat bss' = concat bss @ [patch_base (cl_nextOffset c) d] \<and>
    cl_nextOffset c' = cl_nextOffset c + sint n \<and> \<not> cl_isClosed c' \<and> OldestOffset c' = OldestOffset c"
proof -
  obtain c' h bss' where a: "commitLog_AppendRaw no_cl_faults now d n c = (Ok (cl_nextOffset c), c', h)"
    "cl_rep c' bss'" "concat bss' = concat bss @ [patch_base (cl_nextOffset c) d]"
    "cl_nextOffset c' = cl_nextOffset c + sint n" "\<not> cl_isClosed c'"
    "seg_BaseOffset (hd (cl_segments c')) = seg_BaseOffset (hd (cl_segments c))"
    using AppendRaw_rep [OF assms] by blast
  moreover have "OldestOffset c' = OldestOffset c"
    using a(2,6) assms(1) by (simp add: OldestOffset_def cl_rep_def hd_conv_nth)
  ultimately show ?thesis by blast
qed

lemma patch_sample: "patch_base 0 sample_batch = sample_batch"
  by code_simp

lemma sint_one: "sint (1 :: i32) = 1"
  by simp

theorem commit_log_append_witness:
  "\<exists>c c' h bss'. NewCommitLog no_cl_faults sample_config [] = Ok c \<and>
     commitLog_AppendRaw no_cl_faults 7 sample_batch 1 c = (Ok 0, c', h) \<and>
     cl_rep c' bss' \<and> concat bss' = [sample_batch] \<and> cl_nextOffset c' = 1"
proof -
  obtain c where c: "NewCommitLog no_cl_faults sample_config [] = Ok c" "cl_rep c [[]]" "\<not> cl_isClosed c"
    "cl_nextOffset c = 0" "ActiveSegmentBaseOffset c = 0" "seg_maxBytes (cl_activeSegment c) = 1048576"
    using empty_log by blast
  show ?thesis
    using commit_log_append [OF c(2,3) sample_batch_wf, of 1 7] c
    by (auto simp: sample_batch_count patch_sample)
qed

text \<open>A log with one batch, for the examples.\<close>

lemma one_batch_log:
  "\<exists>c bss. cl_rep c bss \<and> \<not> cl_isClosed c \<and> concat bss = [sample_batch] \<and> cl_nextOffset c = 1 \<and> OldestOffset c = 0"
proof -
  obtain c where c: "cl_rep c [[]]" "\<not> cl_isClosed c" "cl_nextOffset c = 0" "OldestOffset c = 0"
    "ActiveSegmentBaseOffset c = 0" "seg_maxBytes (cl_activeSegment c) = 1048576"
    using empty_log by blast
  obtain c' h bss' where a: "cl_rep c' bss'" "concat bss' = [sample_batch]" "cl_nextOffset c' = 1"
    "\<not> cl_isClosed c'" "seg_BaseOffset (hd (cl_segments c')) = seg_BaseOffset (hd (cl_segments c))"
    using AppendRaw_rep [OF c(1,2) sample_batch_wf, of 1 7] c by (auto simp: sample_batch_count patch_sample)
  moreover have "OldestOffset c' = 0"
    using a(1,5) c(1,4) by (simp add: OldestOffset_def cl_rep_def hd_conv_nth)
  ultimately show ?thesis by blast
qed

text \<open>
  C3. Reading at an offset of the log finds a region, and the region is a run of whole
  consecutive batches of the log whose first batch holds the offset or ends right before it;
  more than one batch is returned only within the byte limit. The batch that holds the offset is in
  the region, unless it and the batch before it do not fit into the byte limit together.
\<close>

theorem commit_log_find:
  assumes "cl_rep c bss" "\<not> cl_isClosed c" "OldestOffset c \<le> f" "f < cl_nextOffset c"
  shows "\<exists>as cs ds r. FindRecords False f mb c = Some (Ok (Some r)) \<and> concat bss = as @ cs @ ds \<and>
    region_bytes r = concat cs \<and> cs \<noteq> [] \<and> batch_base (hd cs) \<le> f \<and> f \<le> batch_last (hd cs) + 1 \<and>
    (length cs = 1 \<or> mb \<le> 0 \<or> int (length (region_bytes r)) \<le> mb) \<and>
    ((\<exists>b\<in>set cs. batch_base b \<le> f \<and> f \<le> batch_last b) \<or>
     (\<exists>b\<in>set (concat bss). batch_base b = f \<and> length cs = 1 \<and> 0 < mb \<and> mb < int (length (hd cs)) + int (length b)))"
  unfolding found_at_def [symmetric] by (rule FindRecords_batches [OF assms, where mb = mb]) blast

theorem commit_log_find_witness:
  "\<exists>c r. cl_nextOffset c = 1 \<and> FindRecords False 0 1024 c = Some (Ok (Some r)) \<and> region_bytes r = sample_batch"
proof -
  obtain c bss where c: "cl_rep c bss" "\<not> cl_isClosed c" "concat bss = [sample_batch]" "cl_nextOffset c = 1" "OldestOffset c = 0"
    using one_batch_log by blast
  obtain as cs ds r where r: "FindRecords False 0 1024 c = Some (Ok (Some r))" "[sample_batch] = as @ cs @ ds"
    "region_bytes r = concat cs" "cs \<noteq> []"
    using commit_log_find [OF c(1,2), of 0 1024] c by auto
  then have "region_bytes r = sample_batch" by (auto simp: Cons_eq_append_conv)
  then show ?thesis using r(1) c(4) by blast
qed

text \<open>
  C4. Closing a log and opening its directory again gives a log with the same batches in the
  same segments and the same next offset.
\<close>

theorem commit_log_reopen:
  assumes "cl_rep c bss" "\<not> cl_isClosed c" "cl_nextOffset c < 2 ^ 63" "0 < cfg_SegmentMaxBytes cfg"
  shows "\<exists>c1 fs c2. commitLog_Close no_seg_faults c = (Ok (), c1, fs) \<and>
    NewCommitLog no_cl_faults cfg (dir_of fs) = Ok c2 \<and> cl_rep c2 bss \<and>
    cl_nextOffset c2 = cl_nextOffset c \<and> map seg_BaseOffset (cl_segments c2) = map seg_BaseOffset (cl_segments c)"
  using recover_rep [OF assms] .

theorem commit_log_reopen_witness:
  "\<exists>c c1 fs c2 bss. commitLog_Close no_seg_faults c = (Ok (), c1, fs) \<and>
     NewCommitLog no_cl_faults sample_config (dir_of fs) = Ok c2 \<and> cl_rep c2 bss \<and>
     concat bss = [sample_batch] \<and> cl_nextOffset c2 = 1"
proof -
  obtain c bss where c: "cl_rep c bss" "\<not> cl_isClosed c" "concat bss = [sample_batch]" "cl_nextOffset c = 1"
    using one_batch_log by blast
  have cfg: "0 < cfg_SegmentMaxBytes sample_config" by (simp add: sample_config_def)
  have "cl_nextOffset c < 2 ^ 63" using c(4) by simp
  from commit_log_reopen [OF c(1,2) this cfg] show ?thesis unfolding c(4) using c(3) by blast
qed



text \<open>
  Walking the batch headers from an offset visits, over all segments, exactly the headers of
  the stored batches that start at or after the offset, in order, until a visit fails.
\<close>

theorem walk_headers_equiv:
  assumes "cl_rep c bss"
  shows "WalkBatchHeadersFrom False f fn c st = walk_batches f fn (concat bss) st"
  using WalkBatchHeadersFrom_rep [OF assms] .

theorem walk_headers_equiv_witness:
  "\<exists>c. cl_nextOffset c = 1 \<and>
     WalkBatchHeadersFrom False 0 (\<lambda>h hs. (Ok (), hs @ [bh_BaseOffset h])) c [] = (Ok (), [0])"
proof -
  obtain c bss where c: "cl_rep c bss" "concat bss = [sample_batch]" "cl_nextOffset c = 1"
    using one_batch_log by blast
  show ?thesis
    using walk_headers_equiv [OF c(1), of 0 "\<lambda>h hs. (Ok (), hs @ [bh_BaseOffset h])" "[]"] c
    by (auto simp: sample_batch_base header_of_def)
qed

end
