(* ===== verification/Kaf_Snapshot.thy ===== *)
theory Kaf_Snapshot
  imports Kaf_Idempotence Kaf_CommitLog
begin

text \<open>
  Producer-state snapshots on disk (\<^verbatim>\<open>coordinator/producer_snapshot.go\<close>) and the manager
  that writes one whenever a segment rolls and rebuilds the state after a restart
  (\<^verbatim>\<open>coordinator/producer_state_manager.go\<close>). The checksum is the CRC-32 of package
  \<^verbatim>\<open>hash/crc32\<close> with the Castagnoli polynomial.
\<close>

section \<open>CRC-32\<close>

definition crc_bit :: "u32 \<Rightarrow> u32 \<Rightarrow> u32" where
  "crc_bit poly c = (if bit c 0 then drop_bit 1 c XOR poly else drop_bit 1 c)"

definition crc_byte :: "u32 \<Rightarrow> u32 \<Rightarrow> byte \<Rightarrow> u32" where
  "crc_byte poly c b = (crc_bit poly ^^ 8) (c XOR ucast b)"

definition crc32 :: "u32 \<Rightarrow> bytes \<Rightarrow> u32" where
  "crc32 poly bs = NOT (foldl (crc_byte poly) 0xffffffff bs)"

definition crcCastagnoli :: u32 where "crcCastagnoli = 0x82f63b78"

section \<open>Encoding\<close>

definition producerSnapshotMagic :: u32 where "producerSnapshotMagic = 0x4B41464B"
definition producerSnapshotVersion :: u16 where "producerSnapshotVersion = 1"
definition producerStateHeaderSize :: nat where "producerStateHeaderSize = 35"
definition producerStateRingSlotBytes :: nat where "producerStateRingSlotBytes = 20"

definition producerSnapshotSuffix :: gostring where
  "producerSnapshotSuffix = str ''.producer.snapshot''"

definition snapshotFileName :: "int \<Rightarrow> gostring" where
  "snapshotFileName snapshotOffset = fmt020 snapshotOffset @ producerSnapshotSuffix"

definition encode_slot :: "ProducerRingSlot \<Rightarrow> bytes" where
  "encode_slot slot =
     be_enc 4 (rs_FirstSeq slot) @ be_enc 4 (rs_LastSeq slot) @ be_enc 8 (rs_BaseOffset slot) @
     be_enc 4 (rs_LeaderEpoch slot)"

definition encodeProducerStateEntry :: "bytes \<Rightarrow> ProducerSnapshotEntry \<Rightarrow> bytes" where
  "encodeProducerStateEntry buf e =
     (let l = pe_Log e;
          ringLen = min 255 (length (filter (\<lambda>slot. sint (rs_FirstSeq slot) \<ge> 0) (pl_Ring l)))
      in buf @ be_enc 8 (pe_ProducerId e) @ be_enc 2 (pl_LastEpoch l) @ be_enc 4 (pl_LastSeq l) @
         be_enc 8 (pl_LastOffset l) @ be_enc 4 (pl_LastLeaderEpoch l) @ be_enc 8 (pl_LastTimestamp l) @
         [of_nat ringLen] @
         concat (map encode_slot (filter (\<lambda>slot. \<not> sint (rs_FirstSeq slot) < 0) (pl_Ring l))))"

definition snapshot_bytes :: "int \<Rightarrow> ProducerSnapshotEntry list \<Rightarrow> bytes" where
  "snapshot_bytes snapshotOffset entries =
     (let buf = be_enc 4 producerSnapshotMagic @ be_enc 2 producerSnapshotVersion @
                be_enc 8 (word_of_int snapshotOffset :: u64) @ be_enc 4 (of_nat (length entries) :: u32);
          buf = foldl encodeProducerStateEntry buf entries
      in buf @ be_enc 4 (crc32 crcCastagnoli buf))"

section \<open>Writing\<close>

text \<open>Failures of the file operations; \<open>pf_write = Some k\<close> writes \<open>k\<close> bytes and fails.\<close>

record snap_faults =
  pf_open :: bool
  pf_write :: "nat option"
  pf_sync :: bool
  pf_close :: bool
  pf_rename :: bool
  pf_remove :: bool
  pf_readdir :: bool

definition no_snap_faults :: snap_faults where
  "no_snap_faults = \<lparr>pf_open = False, pf_write = None, pf_sync = False, pf_close = False,
     pf_rename = False, pf_remove = False, pf_readdir = False\<rparr>"

definition remove_file :: "snap_faults \<Rightarrow> gostring \<Rightarrow> dir \<Rightarrow> dir" where
  "remove_file fl name d = (if pf_remove fl then d else AList.delete name d)"

text \<open>A manager without a directory has \<open>None\<close> for it.\<close>

definition WriteProducerSnapshot ::
  "snap_faults \<Rightarrow> int \<Rightarrow> ProducerSnapshotEntry list \<Rightarrow> dir option \<Rightarrow> unit res \<times> dir option" where
  "WriteProducerSnapshot fl snapshotOffset entries dir =
     (case dir of
        None \<Rightarrow> (Ok (), None)
      | Some d \<Rightarrow>
          let path = snapshotFileName snapshotOffset; tmp = path @ str ''.tmp'';
              buf = snapshot_bytes snapshotOffset entries in
          if pf_open fl then (Err OSErr, Some d)
          else let d = AList.update tmp [] d in
            case pf_write fl of
              Some k \<Rightarrow> (Err OSErr, Some (remove_file fl tmp (AList.update tmp (take k buf) d)))
            | None \<Rightarrow>
                let d = AList.update tmp buf d in
                if pf_sync fl then (Err OSErr, Some (remove_file fl tmp d))
                else if pf_close fl then (Err OSErr, Some (remove_file fl tmp d))
                else if pf_rename fl then (Err OSErr, Some d)
                else (Ok (), Some (AList.update path buf (AList.delete tmp d))))"

section \<open>Reading\<close>

fun decode_slots :: "nat \<Rightarrow> bytes \<Rightarrow> ProducerRingSlot list" where
  "decode_slots 0 raw = []"
| "decode_slots (Suc n) raw =
     \<lparr>rs_FirstSeq = be_dec (sub 0 4 raw), rs_LastSeq = be_dec (sub 4 4 raw),
      rs_BaseOffset = be_dec (sub 8 8 raw), rs_LeaderEpoch = be_dec (sub 16 4 raw)\<rparr>
     # decode_slots n (drop 20 raw)"

definition decodeProducerStateEntry :: "bytes \<Rightarrow> (ProducerSnapshotEntry \<times> nat) res" where
  "decodeProducerStateEntry raw =
     (if length raw < producerStateHeaderSize then Err UnexpectedEOF
      else let ringLen = unat (raw ! 34) in
        if ringLen > IdempotenceRingSize then Err (GoErr ''snapshot: ringLen exceeds capacity'')
        else if length raw - 35 < ringLen * producerStateRingSlotBytes then Err UnexpectedEOF
        else let slots = decode_slots ringLen (drop 35 raw) in
          Ok (\<lparr>pe_ProducerId = be_dec (sub 0 8 raw),
               pe_Log = \<lparr>pl_LastSeq = be_dec (sub 10 4 raw), pl_LastOffset = be_dec (sub 14 8 raw),
                 pl_LastEpoch = be_dec (sub 8 2 raw), pl_LastLeaderEpoch = be_dec (sub 22 4 raw),
                 pl_LastTimestamp = be_dec (sub 26 8 raw),
                 pl_Ring = slots @ replicate (IdempotenceRingSize - ringLen) empty_slot,
                 pl_RingHead = ringLen mod IdempotenceRingSize\<rparr>\<rparr>,
              35 + ringLen * 20))"

fun decode_entries :: "nat \<Rightarrow> bytes \<Rightarrow> ProducerSnapshotEntry list res" where
  "decode_entries 0 raw = Ok []"
| "decode_entries (Suc n) raw =
     res_bind (decodeProducerStateEntry raw) (\<lambda>(e, consumed).
     res_bind (decode_entries n (drop consumed raw)) (\<lambda>es. Ok (e # es)))"

text \<open>The file's content, \<open>None\<close> when it cannot be read.\<close>

definition decodeSnapshotFile :: "bytes option \<Rightarrow> int \<Rightarrow> ProducerSnapshotEntry list res" where
  "decodeSnapshotFile content expectedBase =
     (case content of
        None \<Rightarrow> Err OSErr
      | Some raw \<Rightarrow>
          if length raw < 22 then Err UnexpectedEOF
          else let body = take (length raw - 4) raw; want = be_dec (drop (length raw - 4) raw) in
            if crc32 crcCastagnoli body \<noteq> want then Err (GoErr ''snapshot: crc mismatch'')
            else if (be_dec (sub 0 4 body) :: u32) \<noteq> producerSnapshotMagic then Err (GoErr ''snapshot: bad magic'')
            else if (be_dec (sub 4 2 body) :: u16) \<noteq> producerSnapshotVersion
            then Err (GoErr ''snapshot: unsupported version'')
            else if sint (be_dec (sub 6 8 body) :: i64) \<noteq> expectedBase
            then Err (GoErr ''snapshot: base offset mismatch'')
            else decode_entries (unat (be_dec (sub 14 4 body) :: u32)) (drop 18 body))"

fun snapshot_bases :: "gostring list \<Rightarrow> int list" where
  "snapshot_bases [] = []"
| "snapshot_bases (name # names) =
     (if HasSuffix name producerSnapshotSuffix then
        (case ParseInt (TrimSuffix name producerSnapshotSuffix) of
           Ok base \<Rightarrow> base # snapshot_bases names
         | _ \<Rightarrow> snapshot_bases names)
      else snapshot_bases names)"

definition listSnapshotFiles :: "snap_faults \<Rightarrow> dir \<Rightarrow> int list res" where
  "listSnapshotFiles fl d =
     (if pf_readdir fl then Err OSErr else Ok (sort (snapshot_bases (map fst d))))"

text \<open>The loop of \<^verbatim>\<open>LoadLatestProducerSnapshot\<close>, over the bases from the largest down.\<close>

fun load_latest :: "dir \<Rightarrow> int \<Rightarrow> int list \<Rightarrow> int \<times> ProducerSnapshotEntry list option" where
  "load_latest d maxBase [] = (0, None)"
| "load_latest d maxBase (base # bases) =
     (if base > maxBase then load_latest d maxBase bases
      else (case decodeSnapshotFile (map_of d (snapshotFileName base)) base of
              Ok entries \<Rightarrow> (base, Some entries)
            | _ \<Rightarrow> load_latest d maxBase bases))"

definition LoadLatestProducerSnapshot ::
  "snap_faults \<Rightarrow> int \<Rightarrow> dir option \<Rightarrow> (int \<times> ProducerSnapshotEntry list option) res" where
  "LoadLatestProducerSnapshot fl maxBase dir =
     (case dir of
        None \<Rightarrow> Ok (0, None)
      | Some d \<Rightarrow> res_bind (listSnapshotFiles fl d) (\<lambda>files. Ok (load_latest d maxBase (rev files))))"

section \<open>The producer-state manager\<close>

definition defaultRetainSnapshots :: nat where "defaultRetainSnapshots = 2"

record ProducerStateManager =
  psm_dir :: "dir option"
  psm_state :: "IdempotenceState option"
  psm_retainSnapshots :: nat

definition NewProducerStateManager :: "dir option \<Rightarrow> IdempotenceState option \<Rightarrow> ProducerStateManager" where
  "NewProducerStateManager dir state =
     \<lparr>psm_dir = dir, psm_state = state, psm_retainSnapshots = defaultRetainSnapshots\<rparr>"

definition pruneOldSnapshots :: "snap_faults \<Rightarrow> int \<Rightarrow> ProducerStateManager \<Rightarrow> ProducerStateManager" where
  "pruneOldSnapshots fl currentBase m =
     (case psm_dir m of
        None \<Rightarrow> m
      | Some d \<Rightarrow>
          (case listSnapshotFiles fl d of
             Ok bases \<Rightarrow>
               if length bases \<le> psm_retainSnapshots m then m
               else let keep = max 1 (psm_retainSnapshots m);
                        old = filter (\<lambda>b. b < currentBase) (take (length bases - keep) bases)
                    in m\<lparr>psm_dir := Some (fold (\<lambda>b. remove_file fl (snapshotFileName b)) old d)\<rparr>
           | _ \<Rightarrow> m))"

definition OnSegmentRoll :: "snap_faults \<Rightarrow> int \<Rightarrow> ProducerStateManager \<Rightarrow> ProducerStateManager" where
  "OnSegmentRoll fl newBase m =
     (case psm_state m of
        None \<Rightarrow> m
      | Some st \<Rightarrow>
          (case WriteProducerSnapshot fl newBase (Snapshot st) (psm_dir m) of
             (Ok _, d) \<Rightarrow> pruneOldSnapshots fl newBase (m\<lparr>psm_dir := d\<rparr>)
           | (_, d) \<Rightarrow> m\<lparr>psm_dir := d\<rparr>))"

text \<open>The callback that replays one batch header into the producer state.\<close>

definition replay_header :: "int \<Rightarrow> BatchHeader \<Rightarrow> IdempotenceState \<Rightarrow> unit res \<times> IdempotenceState" where
  "replay_header now h st =
     (if sint (bh_ProducerId h) < 0 then (Ok (), st)
      else let firstSeq = bh_BaseSequence h; lastSeq = firstSeq + bh_LastOffsetDelta h in
        (Ok (), Record now (bh_ProducerId h) (bh_ProducerEpoch h) firstSeq lastSeq
           (word_of_int (bh_BaseOffset h)) st))"

definition Recover ::
  "snap_faults \<Rightarrow> bool \<Rightarrow> int \<Rightarrow> commitLog option \<Rightarrow> ProducerStateManager \<Rightarrow> unit res \<times> ProducerStateManager" where
  "Recover fl stat_fails now cl m =
     (case (psm_state m, cl) of
        (Some st, Some c) \<Rightarrow>
          let activeBase = ActiveSegmentBaseOffset c;
              (snapBase, entries) = (case LoadLatestProducerSnapshot fl activeBase (psm_dir m) of
                  Ok r \<Rightarrow> r | _ \<Rightarrow> (0, None));
              st = (case entries of Some es \<Rightarrow> Restore es | None \<Rightarrow> st);
              scanFrom = max snapBase activeBase
          in (case WalkBatchHeadersFrom stat_fails scanFrom (replay_header now) c st of
                (r, st) \<Rightarrow> (r, m\<lparr>psm_state := Some st\<rparr>))
      | _ \<Rightarrow> (Ok (), m))"

section \<open>Entries round-trip up to the ring's layout\<close>

text \<open>What a stored log comes back as: the filled slots moved to the front.\<close>

definition compact_log :: "ProducerBatchLog \<Rightarrow> ProducerBatchLog" where
  "compact_log p =
     (let fs = filter filled (pl_Ring p) in
      p\<lparr>pl_Ring := fs @ replicate (5 - length fs) empty_slot, pl_RingHead := length fs mod 5\<rparr>)"

definition compact_entry :: "ProducerSnapshotEntry \<Rightarrow> ProducerSnapshotEntry" where
  "compact_entry e = e\<lparr>pe_Log := compact_log (pe_Log e)\<rparr>"

lemma length_encode_slot [simp]: "length (encode_slot s) = 20"
  by (simp add: encode_slot_def)

lemma sub_be_enc:
  "sub 0 (length a) (a @ b) = a" "length a = i \<Longrightarrow> sub (i + j) n (a @ b) = sub j n b"
  by (auto simp: sub_def)

lemma sub_append_at: "length a = i \<Longrightarrow> n = length b \<Longrightarrow> sub i n (a @ b @ c) = b"
  by (simp add: sub_def)

lemma decode_slots_concat:
  "decode_slots (length ss) (concat (map encode_slot ss) @ rest) = ss"
proof (induction ss)
  case (Cons s ss)
  let ?tl = "concat (map encode_slot ss) @ rest"
  let ?a = "be_enc 4 (rs_FirstSeq s)" and ?b = "be_enc 4 (rs_LastSeq s)"
  let ?c = "be_enc 8 (rs_BaseOffset s)" and ?d = "be_enc 4 (rs_LeaderEpoch s)"
  have raw: "concat (map encode_slot (s # ss)) @ rest = ?a @ ?b @ ?c @ ?d @ ?tl"
    by (simp add: encode_slot_def)
  have "sub 0 4 (?a @ ?b @ ?c @ ?d @ ?tl) = ?a" "sub 4 4 (?a @ ?b @ ?c @ ?d @ ?tl) = ?b"
    "sub 8 8 ((?a @ ?b) @ ?c @ ?d @ ?tl) = ?c" "sub 16 4 ((?a @ ?b @ ?c) @ ?d @ ?tl) = ?d"
    using sub_append_at [of "[]" 0 4 ?a] sub_append_at [of ?a 4 4 ?b]
      sub_append_at [of "?a @ ?b" 8 8 ?c] sub_append_at [of "?a @ ?b @ ?c" 16 4 ?d] by simp_all
  moreover have "drop 20 (?a @ ?b @ ?c @ ?d @ ?tl) = ?tl" by simp
  ultimately show ?case
    unfolding raw using Cons by simp
qed simp

definition entry_bytes :: "ProducerSnapshotEntry \<Rightarrow> bytes" where
  "entry_bytes e = encodeProducerStateEntry [] e"

lemma encodeProducerStateEntry_append: "encodeProducerStateEntry buf e = buf @ entry_bytes e"
  by (simp add: entry_bytes_def encodeProducerStateEntry_def Let_def)

lemma decode_entry_bytes:
  assumes "length (pl_Ring (pe_Log e)) = 5"
  shows "decodeProducerStateEntry (entry_bytes e @ rest) = Ok (compact_entry e, length (entry_bytes e))"
proof -
  let ?l = "pe_Log e"
  let ?fs = "filter filled (pl_Ring ?l)"
  let ?n = "length ?fs"
  have fl: "(\<lambda>slot. sint (rs_FirstSeq slot) \<ge> 0) = filled" "(\<lambda>slot. \<not> sint (rs_FirstSeq slot) < 0) = filled"
    by (auto simp: filled_def)
  have n: "?n \<le> 5" using assms length_filter_le [of filled "pl_Ring ?l"] by simp
  let ?p = "be_enc 8 (pe_ProducerId e)" and ?e = "be_enc 2 (pl_LastEpoch ?l)" and ?s = "be_enc 4 (pl_LastSeq ?l)"
  let ?o = "be_enc 8 (pl_LastOffset ?l)" and ?le = "be_enc 4 (pl_LastLeaderEpoch ?l)"
  let ?t = "be_enc 8 (pl_LastTimestamp ?l)" and ?r = "concat (map encode_slot ?fs)"
  have eb: "entry_bytes e = ?p @ ?e @ ?s @ ?o @ ?le @ ?t @ [of_nat ?n] @ ?r"
    unfolding entry_bytes_def encodeProducerStateEntry_def Let_def fl using n by simp
  let ?raw = "?p @ ?e @ ?s @ ?o @ ?le @ ?t @ [of_nat ?n] @ ?r @ rest"
  have sl: "length ?r = ?n * 20" by (simp add: length_concat comp_def sum_list_triv)
  have "sub 0 8 ?raw = ?p" "sub 8 2 ?raw = ?e" "sub 10 4 ?raw = ?s" "sub 14 8 ?raw = ?o"
    "sub 22 4 ?raw = ?le" "sub 26 8 ?raw = ?t"
    using sub_append_at [of "[]" 0 8 ?p] sub_append_at [of ?p 8 2 ?e] sub_append_at [of "?p @ ?e" 10 4 ?s]
      sub_append_at [of "?p @ ?e @ ?s" 14 8 ?o] sub_append_at [of "?p @ ?e @ ?s @ ?o" 22 4 ?le]
      sub_append_at [of "?p @ ?e @ ?s @ ?o @ ?le" 26 8 ?t] by simp_all
  moreover have "?raw ! 34 = of_nat ?n" "drop 35 ?raw = ?r @ rest" by (simp_all add: nth_append)
  moreover have "unat (of_nat ?n :: byte) = ?n" using n by (simp add: unsigned_of_nat take_bit_nat_eq_self)
  moreover have "decode_slots ?n (?r @ rest) = ?fs" by (rule decode_slots_concat)
  moreover have "35 + ?n * 20 = length (entry_bytes e)" unfolding eb using sl by simp
  moreover have "entry_bytes e @ rest = ?raw" unfolding eb by simp
  ultimately show ?thesis
    using n sl unfolding decodeProducerStateEntry_def
    by (simp add: producerStateHeaderSize_def producerStateRingSlotBytes_def IdempotenceRingSize_def
        compact_entry_def compact_log_def Let_def)
qed
lemma decode_entries_concat:
  assumes "\<forall>e\<in>set es. length (pl_Ring (pe_Log e)) = 5"
  shows "decode_entries (length es) (concat (map entry_bytes es) @ rest) = Ok (map compact_entry es)"
  using assms by (induction es) (simp_all add: decode_entry_bytes)

lemma foldl_encode: "foldl encodeProducerStateEntry buf es = buf @ concat (map entry_bytes es)"
  by (induction es arbitrary: buf) (simp_all add: encodeProducerStateEntry_append)

lemma decodeSnapshotFile_bytes:
  assumes "\<forall>e\<in>set es. length (pl_Ring (pe_Log e)) = 5" "length es < 2 ^ 32"
    and "- (2 ^ 63) \<le> base" "base < 2 ^ 63"
  shows "decodeSnapshotFile (Some (snapshot_bytes base es)) base = Ok (map compact_entry es)"
proof -
  let ?m = "be_enc 4 producerSnapshotMagic" and ?v = "be_enc 2 producerSnapshotVersion"
  let ?b = "be_enc 8 (word_of_int base :: u64)" and ?n = "be_enc 4 (of_nat (length es) :: u32)"
  let ?e = "concat (map entry_bytes es)"
  let ?body = "?m @ ?v @ ?b @ ?n @ ?e"
  let ?crc = "be_enc 4 (crc32 crcCastagnoli ?body)"
  have raw: "snapshot_bytes base es = ?body @ ?crc"
    by (simp add: snapshot_bytes_def Let_def foldl_encode)
  have "sub 0 4 ?body = ?m" "sub 4 2 ?body = ?v" "sub 6 8 ?body = ?b" "sub 14 4 ?body = ?n"
    using sub_append_at [of "[]" 0 4 ?m] sub_append_at [of ?m 4 2 ?v] sub_append_at [of "?m @ ?v" 6 8 ?b]
      sub_append_at [of "?m @ ?v @ ?b" 14 4 ?n] by simp_all
  moreover have "drop 18 ?body = ?e" by simp
  moreover have "sint (word_of_int base :: i64) = base"
    using assms(3,4) by (simp add: sint_sbintrunc' signed_take_bit_int_eq_self)
  moreover have "unat (of_nat (length es) :: u32) = length es"
    using assms(2) by (simp add: unsigned_of_nat take_bit_nat_eq_self)
  moreover have "decode_entries (length es) ?e = Ok (map compact_entry es)"
    using decode_entries_concat [OF assms(1), of "[]"] by simp
  ultimately show ?thesis
    unfolding decodeSnapshotFile_def raw by (simp add: Let_def)
qed

text \<open>Lookups are not affected by the new layout; the order of the ring is.\<close>

lemma lookup_slots_filter: "lookup_slots (filter filled es) f l = lookup_slots es f l"
  by (induction es) (auto simp: filled_def)

lemma lookup_slots_append:
  "lookup_slots (xs @ ys) f l = (case lookup_slots xs f l of Some b \<Rightarrow> Some b | None \<Rightarrow> lookup_slots ys f l)"
  by (induction xs) auto

lemma lookup_slots_empty: "lookup_slots (replicate k empty_slot) f l = None"
  by (induction k) (auto simp: empty_slot_def)

lemma compact_log_lookup: "lookupRing (compact_log p) f l = lookupRing p f l"
  by (simp add: lookupRing_def compact_log_def Let_def lookup_slots_append lookup_slots_empty
      lookup_slots_filter split: option.splits)

lemma compact_log_remembered:
  assumes "length (pl_Ring p) = 5"
  shows "remembered (compact_log p) = filter filled (pl_Ring p)"
proof -
  let ?fs = "filter filled (pl_Ring p)"
  have le: "length ?fs \<le> 5" using assms length_filter_le [of filled "pl_Ring p"] by simp
  have "ring_order (compact_log p) = replicate (5 - length ?fs) empty_slot @ ?fs"
  proof (cases "length ?fs = 5")
    case True
    then show ?thesis by (simp add: ring_order_def compact_log_def Let_def)
  next
    case False
    then have "length ?fs < 5" using le by simp
    then show ?thesis by (simp add: ring_order_def compact_log_def Let_def rotate_drop_take)
  qed
  then show ?thesis using not_filled_empty by (simp add: remembered_def)
qed

section \<open>Writing and loading\<close>

lemma fmt020_tmp: "snapshotFileName a @ str ''.tmp'' \<noteq> snapshotFileName b"
proof
  assume "snapshotFileName a @ str ''.tmp'' = snapshotFileName b"
  then have "last (snapshotFileName a @ str ''.tmp'') = last (snapshotFileName b)" by simp
  then show False by (simp add: snapshotFileName_def producerSnapshotSuffix_def str_def)
qed

lemma WriteProducerSnapshot_ok:
  "WriteProducerSnapshot no_snap_faults base es (Some d) =
     (Ok (), Some (AList.update (snapshotFileName base) (snapshot_bytes base es)
        (AList.delete (snapshotFileName base @ str ''.tmp'')
          (AList.update (snapshotFileName base @ str ''.tmp'') (snapshot_bytes base es)
            (AList.update (snapshotFileName base @ str ''.tmp'') [] d)))))"
  by (simp add: WriteProducerSnapshot_def no_snap_faults_def Let_def)

text \<open>Whatever fails, no snapshot is damaged: only the temporary file can differ.\<close>

lemma WriteProducerSnapshot_failed:
  assumes "WriteProducerSnapshot fl base es (Some d) = (r, Some d')" "r \<noteq> Ok ()"
    and "name \<noteq> snapshotFileName base @ str ''.tmp''"
  shows "map_of d' name = map_of d name"
  using assms
  by (auto simp: WriteProducerSnapshot_def Let_def remove_file_def update_conv' delete_conv'
      split: if_splits option.splits)
lemma set_snapshot_bases:
  "b \<in> set (snapshot_bases names) \<longleftrightarrow>
     (\<exists>name\<in>set names. HasSuffix name producerSnapshotSuffix \<and>
        ParseInt (TrimSuffix name producerSnapshotSuffix) = Ok b)"
  by (induction names) (auto split: res.splits)

lemma HasSuffix_append [simp]: "HasSuffix (p @ s) s" "TrimSuffix (p @ s) s = p"
  by (auto simp: HasSuffix_def TrimSuffix_def)

lemma load_latest_max:
  assumes "sorted_wrt (\<ge>) bs" "base \<in> set bs" "base \<le> maxBase"
    and "\<forall>b\<in>set bs. b \<le> maxBase \<longrightarrow> b \<le> base"
    and "decodeSnapshotFile (map_of d (snapshotFileName base)) base = Ok es"
  shows "load_latest d maxBase bs = (base, Some es)"
  using assms(1,2,4)
proof (induction bs)
  case (Cons b bs)
  show ?case
  proof (cases "b > maxBase")
    case True
    then show ?thesis using Cons assms(3) by auto
  next
    case False
    then have "b = base" using Cons.prems by force
    then show ?thesis using False assms(5) by simp
  qed
qed simp

lemma load_after_write:
  assumes base: "valid_base base" "base \<le> maxBase"
    and es: "\<forall>e\<in>set es. length (pl_Ring (pe_Log e)) = 5" "length es < 2 ^ 32"
    and stored: "map_of d (snapshotFileName base) = Some (snapshot_bytes base es)"
    and newest: "\<forall>b\<in>set (snapshot_bases (map fst d)). b \<le> maxBase \<longrightarrow> b \<le> base"
  shows "LoadLatestProducerSnapshot no_snap_faults maxBase (Some d) = Ok (base, Some (map compact_entry es))"
proof -
  let ?bs = "sort (snapshot_bases (map fst d))"
  have "snapshotFileName base \<in> set (map fst d)"
    using map_of_SomeD [OF stored] by force
  moreover have "ParseInt (TrimSuffix (snapshotFileName base) producerSnapshotSuffix) = Ok base"
    "HasSuffix (snapshotFileName base) producerSnapshotSuffix"
    using base ParseInt_fmt020 [of base] by (simp_all add: snapshotFileName_def valid_base_def)
  ultimately have "base \<in> set (rev ?bs)" unfolding set_rev set_sort set_snapshot_bases by blast
  moreover have "sorted_wrt (\<ge>) (rev ?bs)" by (simp add: sorted_wrt_rev)
  moreover have "decodeSnapshotFile (map_of d (snapshotFileName base)) base = Ok (map compact_entry es)"
    unfolding stored by (rule decodeSnapshotFile_bytes) (use es base in \<open>auto simp: valid_base_def\<close>)
  ultimately have "load_latest d maxBase (rev ?bs) = (base, Some (map compact_entry es))"
    using base newest by (intro load_latest_max) auto
  then show ?thesis
    by (simp add: LoadLatestProducerSnapshot_def listSnapshotFiles_def no_snap_faults_def)
qed

lemma snapshotFileName_inj:
  assumes "valid_base a" "valid_base b \<or> b < 0" "snapshotFileName a = snapshotFileName b"
  shows "a = b"
proof (cases "b < 0")
  case True
  have "fmt020 a = fmt020 b" using assms(3) by (simp add: snapshotFileName_def)
  moreover have "hd (fmt020 b) = 45" using True by (simp add: fmt020_def Let_def)
  moreover have "48 \<le> hd (fmt020 a)"
    using assms(1) hd_dec_digits [of "nat a"] dec_digits_nonempty [of "nat a"]
    by (cases "20 - length (dec_digits (nat a))") (auto simp: fmt020_def Let_def valid_base_def)
  ultimately show ?thesis by simp
next
  case False
  then show ?thesis
    using assms fmt020_inj [of a b] by (auto simp: snapshotFileName_def valid_base_def)
qed

lemma map_of_remove_all:
  "map_of (fold (\<lambda>b. remove_file no_snap_faults (g b)) old d) name =
     (if name \<in> g ` set old then None else map_of d name)"
  by (induction old arbitrary: d) (auto simp: remove_file_def no_snap_faults_def delete_conv')

lemma fst_remove_all:
  "set (map fst (fold (\<lambda>b. remove_file fl (g b)) old d)) \<subseteq> set (map fst d)"
proof (induction old arbitrary: d)
  case (Cons b old)
  have "set (map fst (remove_file fl (g b) d)) \<subseteq> set (map fst d)"
    by (auto simp: remove_file_def AList.delete_eq)
  then show ?case using Cons [of "remove_file fl (g b) d"] by auto
qed simp

lemma ParseInt_range: "ParseInt s = Ok b \<Longrightarrow> valid_base b \<or> b < 0"
  by (auto simp: ParseInt_def Let_def valid_base_def split: if_splits option.splits)

text \<open>Pruning never deletes the newest snapshot and only ever shrinks the directory.\<close>

lemma prune_keeps:
  assumes "valid_base base" "psm_dir m = Some d"
    and "psm_dir (pruneOldSnapshots no_snap_faults base m) = Some d'"
  shows "map_of d' (snapshotFileName base) = map_of d (snapshotFileName base)"
    "set (map fst d') \<subseteq> set (map fst d)"
proof -
  let ?bases = "sort (snapshot_bases (map fst d))"
  let ?old = "filter (\<lambda>b. b < base) (take (length ?bases - max 1 (psm_retainSnapshots m)) ?bases)"
  have list: "listSnapshotFiles no_snap_faults d = Ok ?bases"
    by (simp add: listSnapshotFiles_def no_snap_faults_def)
  have d': "d' = d \<or> d' = fold (\<lambda>b. remove_file no_snap_faults (snapshotFileName b)) ?old d"
    using assms(2,3) list by (auto simp: pruneOldSnapshots_def Let_def split: if_splits)
  have "snapshotFileName base \<notin> snapshotFileName ` set ?old"
  proof
    assume "snapshotFileName base \<in> snapshotFileName ` set ?old"
    then obtain b where b: "b \<in> set ?old" "snapshotFileName base = snapshotFileName b" by auto
    then have "b \<in> set (snapshot_bases (map fst d))" "b < base" by (auto dest: in_set_takeD)
    then have "valid_base b \<or> b < 0" unfolding set_snapshot_bases using ParseInt_range by blast
    then show False using snapshotFileName_inj [OF assms(1) _ b(2)] \<open>b < base\<close> by simp
  qed
  then show "map_of d' (snapshotFileName base) = map_of d (snapshotFileName base)"
    using d' by (auto simp: map_of_remove_all)
  show "set (map fst d') \<subseteq> set (map fst d)" using d' fst_remove_all by blast
qed
lemma prune_dir: "psm_dir m = Some d \<Longrightarrow> \<exists>d'. psm_dir (pruneOldSnapshots fl base m) = Some d'"
  by (auto simp: pruneOldSnapshots_def Let_def split: res.splits)

lemma WriteProducerSnapshot_dir:
  obtains d1 where "WriteProducerSnapshot no_snap_faults base es (Some d) = (Ok (), Some d1)"
    "map_of d1 (snapshotFileName base) = Some (snapshot_bytes base es)"
    "set (map fst d1) \<subseteq> insert (snapshotFileName base) (set (map fst d))"
proof -
  let ?tmp = "snapshotFileName base @ str ''.tmp''"
  have keys: "set (map fst (AList.update k v xs)) = insert k (set (map fst xs))" for k xs and v :: bytes
    using dom_update [of k v xs] by simp
  show thesis
    by (rule that [OF WriteProducerSnapshot_ok])
       (auto simp: update_conv' keys delete_keys simp flip: set_map)
qed

lemma OnSegmentRoll_load:
  assumes base: "valid_base base"
    and st: "\<forall>(pid, p)\<in>set st. length (pl_Ring p) = 5" "length st < 2 ^ 32"
    and newest: "\<forall>b\<in>set (snapshot_bases (map fst d)). b \<le> base"
    and m: "psm_dir m = Some d" "psm_state m = Some st"
  shows "LoadLatestProducerSnapshot no_snap_faults base (psm_dir (OnSegmentRoll no_snap_faults base m)) =
    Ok (base, Some (map compact_entry (Snapshot st)))"
proof -
  obtain d1 where d1: "WriteProducerSnapshot no_snap_faults base (Snapshot st) (Some d) = (Ok (), Some d1)"
      "map_of d1 (snapshotFileName base) = Some (snapshot_bytes base (Snapshot st))"
      "set (map fst d1) \<subseteq> insert (snapshotFileName base) (set (map fst d))"
    using WriteProducerSnapshot_dir by blast
  let ?m1 = "m\<lparr>psm_dir := Some d1\<rparr>"
  have roll: "OnSegmentRoll no_snap_faults base m = pruneOldSnapshots no_snap_faults base ?m1"
    by (simp add: OnSegmentRoll_def m d1)
  obtain d2 where d2: "psm_dir (pruneOldSnapshots no_snap_faults base ?m1) = Some d2"
    using prune_dir [of ?m1 d1] by auto
  have keep: "map_of d2 (snapshotFileName base) = Some (snapshot_bytes base (Snapshot st))"
      "set (map fst d2) \<subseteq> set (map fst d1)"
    using prune_keeps [OF base _ d2] d1(2) by auto
  have "b \<le> base" if b: "b \<in> set (snapshot_bases (map fst d2))" for b
  proof -
    obtain name where n: "name \<in> insert (snapshotFileName base) (set (map fst d))"
        "HasSuffix name producerSnapshotSuffix" "ParseInt (TrimSuffix name producerSnapshotSuffix) = Ok b"
      using b keep(2) d1(3) unfolding set_snapshot_bases by blast
    show ?thesis
    proof (cases "name = snapshotFileName base")
      case True
      then have "ParseInt (fmt020 base) = Ok b" using n(3) by (simp add: snapshotFileName_def)
      then show ?thesis using ParseInt_fmt020(1) [of base] base by (simp add: valid_base_def)
    next
      case False
      then have "b \<in> set (snapshot_bases (map fst d))" using n unfolding set_snapshot_bases by auto
      then show ?thesis using newest by blast
    qed
  qed
  moreover have "\<forall>e\<in>set (Snapshot st). length (pl_Ring (pe_Log e)) = 5" "length (Snapshot st) < 2 ^ 32"
    using st by (auto simp: Snapshot_def)
  ultimately show ?thesis
    unfolding roll d2 using base keep(1) by (intro load_after_write) auto
qed

section \<open>Recovery\<close>

lemma walk_batches_total:
  assumes "\<And>h st. fst (fn h st) = Ok ()"
  shows "walk_batches f fn bs st =
    (Ok (), fold (\<lambda>b st. snd (fn (header_of b) st)) (filter (\<lambda>b. f \<le> batch_base b) bs) st)"
proof (induction bs arbitrary: st)
  case (Cons b bs)
  obtain st' where "fn (header_of b) st = (Ok (), st')"
    using assms [of "header_of b" st] by (cases "fn (header_of b) st") auto
  then show ?case using Cons by auto
qed simp

definition replay :: "int \<Rightarrow> bytes \<Rightarrow> IdempotenceState \<Rightarrow> IdempotenceState" where
  "replay now b st = snd (replay_header now (header_of b) st)"

text \<open>Only the batches of the active segment are replayed, whatever the snapshot's offset.\<close>

lemma active_batches:
  assumes "cl_rep c bss"
  shows "filter (\<lambda>b. ActiveSegmentBaseOffset c \<le> batch_base b) (concat bss) = last bss"
proof -
  let ?ss = "cl_segments c"
  have ch: "chained ?ss bss" and ne: "?ss \<noteq> []" using assms by (auto simp: cl_rep_def)
  have bne: "bss \<noteq> []" using chained_length [OF ch] ne by auto
  have split: "concat bss = concat (butlast bss) @ last bss"
    using bne by (metis append_butlast_last_id concat.simps concat_append append_Nil2)
  have act: "ActiveSegmentBaseOffset c = seg_BaseOffset (last ?ss)"
    using ne by (simp add: ActiveSegmentBaseOffset_def cl_activeSegment_def)
  have rep: "seg_rep (last ?ss) (last bss)" by (rule chained_last [OF ch ne])
  then have "seg_BaseOffset (last ?ss) \<le> batch_base b" if "b \<in> set (last bss)" for b
    using contiguous_before_end(1) that by (auto simp: seg_rep_def)
  moreover have "batch_base b < seg_BaseOffset (last ?ss)" if b: "b \<in> set (concat (butlast bss))" for b
  proof -
    obtain i where i: "i < length bss - 1" "b \<in> set (bss ! i)"
      using b by (auto simp: in_set_conv_nth nth_butlast) (metis nth_mem nth_butlast length_butlast One_nat_def)
    then show ?thesis
      using chained_before [OF ch, of i "length ?ss - 1" b] chained_length [OF ch] ne
      by (simp add: last_conv_nth)
  qed
  ultimately show ?thesis
    unfolding split act filter_append by (simp add: filter_id_conv filter_empty_conv not_le)
qed

lemma Recover_rep:
  assumes rep: "cl_rep c bss" and m: "psm_state m = Some st"
    and load: "LoadLatestProducerSnapshot fl (ActiveSegmentBaseOffset c) (psm_dir m) = Ok (snapBase, es)"
    and le: "snapBase \<le> ActiveSegmentBaseOffset c"
  shows "Recover fl False now (Some c) m =
    (Ok (), m\<lparr>psm_state := Some (fold (replay now) (last bss)
       (case es of Some es \<Rightarrow> Restore es | None \<Rightarrow> st))\<rparr>)"
proof -
  have tot: "fst (replay_header now h st) = Ok ()" for h st by (simp add: replay_header_def Let_def)
  have mx: "max snapBase (ActiveSegmentBaseOffset c) = ActiveSegmentBaseOffset c" using le by simp
  have r: "(\<lambda>b st. snd (replay_header now (header_of b) st)) = replay now"
    by (intro ext) (simp add: replay_def)
  show ?thesis
    using m load
    by (simp add: Recover_def Let_def mx WalkBatchHeadersFrom_rep [OF rep] walk_batches_total [OF tot]
        active_batches [OF rep] r del: max.bounded_iff split: option.splits)
qed

lemma load_latest_le: "load_latest d mb bs = (b, Some es) \<Longrightarrow> b \<le> mb"
  by (induction bs) (auto split: if_splits res.splits)

section \<open>Properties\<close>

lemma map_of_fold_update:
  "map_of (fold (\<lambda>e st. AList.update (k e) (v e) st) es st) x =
     (case map_of (map (\<lambda>e. (k e, v e)) (rev es)) x of Some y \<Rightarrow> Some y | None \<Rightarrow> map_of st x)"
  by (induction es arbitrary: st) (auto simp: update_conv' map_add_def split: option.splits)

lemma map_of_rev_distinct: "distinct (map fst xs) \<Longrightarrow> map_of (rev xs) = map_of xs"
  by (rule map_of_inject_set [THEN iffD2]) (auto simp: rev_map [symmetric])

lemma Restore_Snapshot:
  assumes "distinct (map fst st)"
  shows "map_of (Restore (map compact_entry (Snapshot st))) pid = map_option compact_log (map_of st pid)"
proof -
  let ?f = "\<lambda>(pid, pb). (pid, compact_log pb)"
  have "map (\<lambda>e. (pe_ProducerId e, pe_Log e)) (rev (map compact_entry (Snapshot st))) = rev (map ?f st)"
    by (simp add: Snapshot_def compact_entry_def rev_map case_prod_beta comp_def)
  moreover have "map_of (rev (map ?f st)) pid = map_of (map ?f st) pid"
    using assms by (subst map_of_rev_distinct) (simp_all add: comp_def case_prod_beta)
  moreover have "map_of (map ?f st) pid = map_option compact_log (map_of st pid)"
    by (induction st) auto
  ultimately show ?thesis unfolding Restore_def map_of_fold_update by (simp split: option.split)
qed

text \<open>
  C19. A snapshot taken when a segment rolls restores the producers: reading the newest snapshot
  back and restoring it gives every producer its last epoch, sequence number and offset, and
  recognises exactly the retries that were recognised before.
\<close>

theorem snapshot_restores_producers:
  assumes "valid_base base" "\<forall>(pid, p)\<in>set st. length (pl_Ring p) = 5" "length st < 2 ^ 32" "distinct (map fst st)"
    "\<forall>b\<in>set (snapshot_bases (map fst d)). b \<le> base"
    "psm_dir m = Some d" "psm_state m = Some st"
  shows "\<exists>es. LoadLatestProducerSnapshot no_snap_faults base (psm_dir (OnSegmentRoll no_snap_faults base m)) =
      Ok (base, Some es) \<and>
    (\<forall>pid. case map_of st pid of
       None \<Rightarrow> map_of (Restore es) pid = None
     | Some p \<Rightarrow> \<exists>q. map_of (Restore es) pid = Some q \<and> pl_LastEpoch q = pl_LastEpoch p \<and>
         pl_LastSeq q = pl_LastSeq p \<and> pl_LastOffset q = pl_LastOffset p \<and>
         (\<forall>f l. lookupRing q f l = lookupRing p f l))"
proof -
  have "case map_of st pid of
       None \<Rightarrow> map_of (Restore (map compact_entry (Snapshot st))) pid = None
     | Some p \<Rightarrow> \<exists>q. map_of (Restore (map compact_entry (Snapshot st))) pid = Some q \<and> pl_LastEpoch q = pl_LastEpoch p \<and>
         pl_LastSeq q = pl_LastSeq p \<and> pl_LastOffset q = pl_LastOffset p \<and>
         (\<forall>f l. lookupRing q f l = lookupRing p f l)" for pid
    unfolding Restore_Snapshot [OF assms(4)]
    by (auto simp: compact_log_lookup split: option.split) (auto simp: compact_log_def Let_def)
  then show ?thesis
    using OnSegmentRoll_load [OF assms(1,2,3,5,6,7)] by blast
qed

theorem snapshot_restores_producers_witness:
  "\<exists>es q. LoadLatestProducerSnapshot no_snap_faults 10
      (psm_dir (OnSegmentRoll no_snap_faults 10
        (NewProducerStateManager (Some []) (Some (Record 5 7 0 0 2 40 NewIdempotenceState))))) = Ok (10, Some es) \<and>
    map_of (Restore es) 7 = Some q \<and> lookupRing q 0 2 = Some 40"
proof -
  let ?st = "Record 5 7 0 0 2 40 NewIdempotenceState"
  let ?p = "record_batch 5 0 0 2 40 (newProducerBatchLog 0)"
  have st: "?st = [(7, ?p)]" by (simp add: Record_def NewIdempotenceState_def)
  have ring: "length (pl_Ring ?p) = 5" by code_simp
  have look: "lookupRing ?p 0 2 = Some 40" by code_simp
  have "valid_base 10" by (simp add: valid_base_def)
  from snapshot_restores_producers [OF this, of ?st "[]" "NewProducerStateManager (Some []) (Some ?st)"] ring
  obtain es where es: "LoadLatestProducerSnapshot no_snap_faults 10
      (psm_dir (OnSegmentRoll no_snap_faults 10 (NewProducerStateManager (Some []) (Some ?st)))) = Ok (10, Some es)"
    and all: "\<forall>pid. case map_of ?st pid of
       None \<Rightarrow> map_of (Restore es) pid = None
     | Some p \<Rightarrow> \<exists>q. map_of (Restore es) pid = Some q \<and> pl_LastEpoch q = pl_LastEpoch p \<and>
         pl_LastSeq q = pl_LastSeq p \<and> pl_LastOffset q = pl_LastOffset p \<and>
         (\<forall>f l. lookupRing q f l = lookupRing p f l)"
    by (auto simp: st NewProducerStateManager_def)
  from spec [OF all, of 7] look es show ?thesis by (auto simp: st)
qed

text \<open>
  C33. A snapshot that fails to be written, at whatever step, leaves every other file of the
  directory as it was: only the temporary file may be left behind.
\<close>

theorem snapshot_failure_safe:
  assumes "WriteProducerSnapshot fl base es (Some d) = (r, Some d')" "r \<noteq> Ok ()"
    "name \<noteq> snapshotFileName base @ str ''.tmp''"
  shows "map_of d' name = map_of d name"
  using WriteProducerSnapshot_failed [OF assms] .

theorem snapshot_failure_safe_witness:
  "\<exists>d'. WriteProducerSnapshot (no_snap_faults\<lparr>pf_rename := True\<rparr>) 10 [] (Some [(str ''a'', [1])]) = (Err OSErr, Some d') \<and>
     map_of d' (str ''a'') = Some [1]"
proof -
  let ?fl = "no_snap_faults\<lparr>pf_rename := True\<rparr>" and ?d = "[(str ''a'', [1])]"
  obtain d' where w: "WriteProducerSnapshot ?fl 10 [] (Some ?d) = (Err OSErr, Some d')"
    by (simp add: WriteProducerSnapshot_def no_snap_faults_def Let_def)
  have "length (str ''a'') = 1" by (simp add: str_def)
  moreover have "length (snapshotFileName 10 @ str ''.tmp'') \<noteq> 1" by (simp add: str_def)
  ultimately have "str ''a'' \<noteq> snapshotFileName 10 @ str ''.tmp''" by metis
  from snapshot_failure_safe [OF w _ this] w show ?thesis by auto
qed

text \<open>
  A ring that has wrapped around is restored in slot order with its head at 0, so the next
  record overwrites the newest remembered batch: after a snapshot of six batches and one more
  record, a retry of the sixth is no longer recognised, although it is the second newest.
\<close>

theorem snapshot_reorders_ring:
  "let p = record_run 5 0 [(0, 0, 10), (1, 1, 11), (2, 2, 12), (3, 3, 13), (4, 4, 14), (5, 5, 15)] (newProducerBatchLog 0) in
   decodeProducerStateEntry (entry_bytes \<lparr>pe_ProducerId = 7, pe_Log = p\<rparr>) =
     Ok (\<lparr>pe_ProducerId = 7, pe_Log = compact_log p\<rparr>, length (entry_bytes \<lparr>pe_ProducerId = 7, pe_Log = p\<rparr>)) \<and>
   lookupRing (record_batch 6 0 6 6 16 p) 5 5 = Some 15 \<and>
   lookupRing (record_batch 6 0 6 6 16 (compact_log p)) 5 5 = None"
proof -
  let ?p = "record_run 5 0 [(0, 0, 10), (1, 1, 11), (2, 2, 12), (3, 3, 13), (4, 4, 14), (5, 5, 15)] (newProducerBatchLog 0)"
  have "length (pl_Ring ?p) = 5" by code_simp
  then have "decodeProducerStateEntry (entry_bytes \<lparr>pe_ProducerId = 7, pe_Log = ?p\<rparr>) =
     Ok (\<lparr>pe_ProducerId = 7, pe_Log = compact_log ?p\<rparr>, length (entry_bytes \<lparr>pe_ProducerId = 7, pe_Log = ?p\<rparr>))"
    using decode_entry_bytes [of "\<lparr>pe_ProducerId = 7, pe_Log = ?p\<rparr>" "[]"] by (simp add: compact_entry_def)
  moreover have "lookupRing (record_batch 6 0 6 6 16 ?p) 5 5 = Some 15" by code_simp
  moreover have "lookupRing (record_batch 6 0 6 6 16 (compact_log ?p)) 5 5 = None" by code_simp
  ultimately show ?thesis unfolding Let_def by blast
qed

text \<open>
  C34. Recovery restores the newest usable snapshot and then replays the batches of the active
  segment, and no others: batches of sealed segments after the snapshot are skipped.
\<close>

theorem recovery_replays_active_segment:
  assumes "cl_rep c bss" "psm_state m = Some st"
    "LoadLatestProducerSnapshot fl (ActiveSegmentBaseOffset c) (psm_dir m) = Ok (snapBase, es)"
    "snapBase \<le> ActiveSegmentBaseOffset c"
  shows "Recover fl False now (Some c) m =
    (Ok (), m\<lparr>psm_state := Some (fold (replay now) (last bss)
       (case es of Some es \<Rightarrow> Restore es | None \<Rightarrow> st))\<rparr>)"
  using Recover_rep [OF assms] .

lemma one_segment_log:
  "\<exists>c. cl_rep c [[sample_batch, patch_base 1 sample_batch]]"
proof -
  obtain s where s: "seg_rep s [sample_batch, patch_base 1 sample_batch]" "seg_maxBytes s = 1048576"
    using NewSegment_rep [OF _ sample_batches, of "[]" "[]" sample_config] by (auto simp: sample_config_def)
  let ?c = "\<lparr>cl_segments = [s], cl_config = sample_config, cl_isClosed = False,
    cl_nextOffset = log_end (seg_BaseOffset s) [sample_batch, patch_base 1 sample_batch], cl_onSegmentRoll = False\<rparr>"
  have "cl_rep ?c [[sample_batch, patch_base 1 sample_batch]]"
    using s by (simp add: cl_rep_def sample_config_def)
  then show ?thesis by blast
qed

theorem recovery_replays_active_segment_witness:
  "\<exists>c. Recover no_snap_faults False 5 (Some c) (NewProducerStateManager (Some []) (Some NewIdempotenceState)) =
     (Ok (), NewProducerStateManager (Some [])
       (Some (replay 5 (patch_base 1 sample_batch) (replay 5 sample_batch NewIdempotenceState))))"
proof -
  let ?m = "NewProducerStateManager (Some []) (Some NewIdempotenceState)"
  obtain c where c: "cl_rep c [[sample_batch, patch_base 1 sample_batch]]" using one_segment_log by blast
  have "0 \<le> ActiveSegmentBaseOffset c"
    using c by (auto simp: cl_rep_def ActiveSegmentBaseOffset_def cl_activeSegment_def seg_rep_def dest!: chained_last)
  moreover have "LoadLatestProducerSnapshot no_snap_faults (ActiveSegmentBaseOffset c) (Some []) = Ok (0, None)"
    by (simp add: LoadLatestProducerSnapshot_def listSnapshotFiles_def no_snap_faults_def)
  ultimately show ?thesis
    using recovery_replays_active_segment [OF c, of ?m NewIdempotenceState no_snap_faults 0 None 5]
    by (auto simp: NewProducerStateManager_def)
qed

end
