(* ===== verification/Kaf_Partition.thy ===== *)
theory Kaf_Partition
  imports Kaf_Snapshot
begin

text \<open>
  The leader's view of a partition (\<^verbatim>\<open>coordinator/partition_state.go\<close>): log end offset,
  high watermark, in-sync replicas and their progress, and the purgatory of produce requests
  that wait for replication (\<^verbatim>\<open>coordinator/partition_purgatory.go\<close>,
  \<^verbatim>\<open>coordinator/partition_append_waiter.go\<close>). A method that holds the partition's mutex
  throughout is one step; \<^verbatim>\<open>AdvanceHWM\<close> releases it before it wakes the waiters, so the
  step relation \<open>pstep\<close> interleaves the two halves of every call.
\<close>

section \<open>Purgatory\<close>

text \<open>A waiter's channel is named by a number; completing it sends an outcome there.\<close>

record PartitionAppendWaiter =
  w_RequiredOffset :: int
  w_ISRSnapshot :: "i32 list"
  w_Done :: nat

type_synonym completion = "nat \<times> go_err option"

type_synonym PartitionPurgatory = "PartitionAppendWaiter list"

definition NewPartitionPurgatory :: PartitionPurgatory where
  "NewPartitionPurgatory = []"

definition Purgatory_Add :: "PartitionAppendWaiter \<Rightarrow> PartitionPurgatory \<Rightarrow> PartitionPurgatory" where
  "Purgatory_Add w p = p @ [w]"

definition CompleteUpTo :: "int \<Rightarrow> PartitionPurgatory \<Rightarrow> PartitionPurgatory \<times> completion list" where
  "CompleteUpTo hwm p =
     (filter (\<lambda>w. \<not> w_RequiredOffset w < hwm) p,
      map (\<lambda>w. (w_Done w, None)) (filter (\<lambda>w. w_RequiredOffset w < hwm) p))"

definition FailAll :: "go_err \<Rightarrow> PartitionPurgatory \<Rightarrow> PartitionPurgatory \<times> completion list" where
  "FailAll err p = ([], map (\<lambda>w. (w_Done w, Some err)) p)"

section \<open>Partition state\<close>

record PartitionState =
  ps_TopicName :: gostring
  ps_PartitionIndex :: i32
  ps_LeaderBrokerID :: i32
  ps_LeaderEpoch :: i32
  ps_Replicas :: "i32 list"
  ps_ISR :: "i32 list"
  ps_LEO :: int
  ps_HWM :: int
  ps_ReplicaLEO :: "i32 \<rightharpoonup> int"
  ps_LastCaughtUp :: "i32 \<rightharpoonup> int"
  ps_Purgatory :: PartitionPurgatory
  ps_Idempotence :: "IdempotenceState option"

definition new_partition :: "gostring \<Rightarrow> i32 \<Rightarrow> i32 \<Rightarrow> i32 \<Rightarrow> i32 list \<Rightarrow> i32 list \<Rightarrow> PartitionState" where
  "new_partition topic pidx leader epoch replicas isr =
     \<lparr>ps_TopicName = topic, ps_PartitionIndex = pidx, ps_LeaderBrokerID = leader,
      ps_LeaderEpoch = epoch, ps_Replicas = replicas, ps_ISR = isr, ps_LEO = 0, ps_HWM = 0,
      ps_ReplicaLEO = Map.empty, ps_LastCaughtUp = Map.empty,
      ps_Purgatory = NewPartitionPurgatory, ps_Idempotence = Some NewIdempotenceState\<rparr>"

definition RemoveFromISR :: "i32 \<Rightarrow> PartitionState \<Rightarrow> PartitionState" where
  "RemoveFromISR followerId ps = ps\<lparr>ps_ISR := filter (\<lambda>isr. isr \<noteq> followerId) (ps_ISR ps)\<rparr>"

definition AddToISR :: "i32 \<Rightarrow> PartitionState \<Rightarrow> PartitionState" where
  "AddToISR followerId ps =
     ps\<lparr>ps_ISR := filter (\<lambda>isr. isr \<noteq> followerId) (ps_ISR ps) @ [followerId]\<rparr>"

definition GetHWM :: "PartitionState \<Rightarrow> int" where
  "GetHWM ps = ps_HWM ps"

record PartitionSnapshot =
  sn_ISR :: "i32 list"
  sn_Replicas :: "i32 list"
  sn_LeaderBrokerID :: i32
  sn_LeaderEpoch :: i32
  sn_HWM :: int
  sn_LEO :: int
  sn_ReplicaLEO :: "i32 \<rightharpoonup> int"
  sn_LastCaughtUp :: "i32 \<rightharpoonup> int"

definition PartitionState_Snapshot :: "PartitionState \<Rightarrow> PartitionSnapshot" where
  "PartitionState_Snapshot ps =
     \<lparr>sn_ISR = ps_ISR ps, sn_Replicas = ps_Replicas ps, sn_LeaderBrokerID = ps_LeaderBrokerID ps,
      sn_LeaderEpoch = ps_LeaderEpoch ps, sn_HWM = ps_HWM ps, sn_LEO = ps_LEO ps,
      sn_ReplicaLEO = ps_ReplicaLEO ps, sn_LastCaughtUp = ps_LastCaughtUp ps\<rparr>"

text \<open>The loop that takes the minimum over the in-sync followers.\<close>

fun min_isr :: "PartitionState \<Rightarrow> i32 list \<Rightarrow> int \<Rightarrow> int" where
  "min_isr ps [] newHWM = newHWM"
| "min_isr ps (rid # rids) newHWM =
     (if rid = ps_LeaderBrokerID ps then min_isr ps rids newHWM
      else let leo = (case ps_ReplicaLEO ps rid of Some l \<Rightarrow> l | None \<Rightarrow> 0)
           in min_isr ps rids (if leo < newHWM then leo else newHWM))"

text \<open>The locked half of \<^verbatim>\<open>AdvanceHWM\<close>; the second component is the watermark to wake for.\<close>

definition advance_locked :: "PartitionState \<Rightarrow> PartitionState \<times> int option" where
  "advance_locked ps =
     (let newHWM = min_isr ps (ps_ISR ps) (ps_LEO ps) in
      if newHWM > ps_HWM ps then (ps\<lparr>ps_HWM := newHWM\<rparr>, Some newHWM) else (ps, None))"

definition complete_waiters :: "int \<Rightarrow> PartitionState \<Rightarrow> PartitionState \<times> completion list" where
  "complete_waiters hwm ps =
     (case CompleteUpTo hwm (ps_Purgatory ps) of (p, cs) \<Rightarrow> (ps\<lparr>ps_Purgatory := p\<rparr>, cs))"

definition AdvanceHWM :: "PartitionState \<Rightarrow> PartitionState \<times> completion list" where
  "AdvanceHWM ps =
     (case advance_locked ps of
        (ps, Some hwm) \<Rightarrow> complete_waiters hwm ps
      | (ps, None) \<Rightarrow> (ps, []))"

definition append_locked :: "int \<Rightarrow> PartitionState \<Rightarrow> PartitionState" where
  "append_locked lastOffset ps =
     (if lastOffset + 1 > ps_LEO ps then ps\<lparr>ps_LEO := lastOffset + 1\<rparr> else ps)"

definition OnLeaderAppend :: "int \<Rightarrow> PartitionState \<Rightarrow> PartitionState \<times> completion list" where
  "OnLeaderAppend lastOffset ps = AdvanceHWM (append_locked lastOffset ps)"

definition replica_locked :: "int \<Rightarrow> i32 \<Rightarrow> int \<Rightarrow> PartitionState \<Rightarrow> PartitionState" where
  "replica_locked now follower upTo ps =
     (let ps = ps\<lparr>ps_ReplicaLEO := (ps_ReplicaLEO ps)(follower \<mapsto> upTo)\<rparr> in
      if upTo \<ge> ps_LEO ps then ps\<lparr>ps_LastCaughtUp := (ps_LastCaughtUp ps)(follower \<mapsto> now)\<rparr> else ps)"

definition UpdateReplicaLEO :: "int \<Rightarrow> i32 \<Rightarrow> int \<Rightarrow> PartitionState \<Rightarrow> PartitionState \<times> completion list" where
  "UpdateReplicaLEO now follower upTo ps = AdvanceHWM (replica_locked now follower upTo ps)"

section \<open>The store\<close>

text \<open>\<^verbatim>\<open>%d\<close>\<close>

definition fmt_d :: "int \<Rightarrow> gostring" where
  "fmt_d n = (if n < 0 then 45 # dec_digits (nat \<bar>n\<bar>) else dec_digits (nat n))"

definition partition_key :: "gostring \<Rightarrow> i32 \<Rightarrow> gostring" where
  "partition_key topicName pidx = topicName @ str ''-'' @ fmt_d (sint pidx)"

type_synonym PartitionStateStore = "(gostring \<times> PartitionState) list"

definition NewPartitionStateStore :: PartitionStateStore where
  "NewPartitionStateStore = []"

definition GetPartitionState :: "gostring \<Rightarrow> i32 \<Rightarrow> PartitionStateStore \<Rightarrow> PartitionState option" where
  "GetPartitionState topicName pidx p = map_of p (partition_key topicName pidx)"

definition SetLeader :: "gostring \<Rightarrow> i32 \<Rightarrow> i32 \<Rightarrow> PartitionStateStore \<Rightarrow> PartitionStateStore" where
  "SetLeader topicName pidx brokerID p =
     (let key = partition_key topicName pidx in
      case map_of p key of
        Some ps \<Rightarrow>
          AList.update key (ps\<lparr>ps_LeaderBrokerID := brokerID,
            ps_Idempotence := (if ps_Idempotence ps = None then Some NewIdempotenceState
                               else ps_Idempotence ps)\<rparr>) p
      | None \<Rightarrow> AList.update key (new_partition topicName pidx brokerID 0 [brokerID] [brokerID]) p)"

definition SetPartitionState ::
  "gostring \<Rightarrow> i32 \<Rightarrow> i32 \<Rightarrow> i32 \<Rightarrow> i32 list \<Rightarrow> i32 list \<Rightarrow> PartitionStateStore \<Rightarrow> PartitionStateStore" where
  "SetPartitionState topicName partitionId leader leaderEpoch replicas isr p =
     AList.update (partition_key topicName partitionId)
       (new_partition topicName partitionId leader leaderEpoch replicas isr) p"

definition UpdateISR :: "gostring \<Rightarrow> i32 \<Rightarrow> i32 \<Rightarrow> PartitionStateStore \<Rightarrow> PartitionStateStore" where
  "UpdateISR topicName pidx newISR p =
     (let key = partition_key topicName pidx in
      case map_of p key of
        Some ps \<Rightarrow> if newISR \<in> set (ps_ISR ps) then p
                   else AList.update key (ps\<lparr>ps_ISR := ps_ISR ps @ [newISR]\<rparr>) p
      | None \<Rightarrow> p)"

text \<open>
  Round-robin with shift. The modulo panics without brokers, \<^verbatim>\<open>make\<close> panics for a negative
  capacity, and \<^verbatim>\<open>replicas[0]\<close> panics for a replication factor of 0.
\<close>

definition assigned_replicas :: "nat \<Rightarrow> nat \<Rightarrow> i32 list \<Rightarrow> i32 list" where
  "assigned_replicas pidx rf brokerIDs =
     map (\<lambda>i. brokerIDs ! ((pidx + i) mod length brokerIDs)) [0..<rf]"

fun assign_loop :: "gostring \<Rightarrow> i32 \<Rightarrow> i32 list \<Rightarrow> nat list \<Rightarrow> PartitionStateStore \<Rightarrow> PartitionStateStore res" where
  "assign_loop topicName replicationFactor brokerIDs [] p = Ok p"
| "assign_loop topicName replicationFactor brokerIDs (n # ns) p =
     (if sint replicationFactor \<le> 0 \<or> brokerIDs = [] then Panic
      else let replicas = assigned_replicas n (nat (sint replicationFactor)) brokerIDs;
               pidx = (of_nat n :: i32)
           in assign_loop topicName replicationFactor brokerIDs ns
                (AList.update (partition_key topicName pidx)
                   (new_partition topicName pidx (replicas ! 0) 0 replicas [replicas ! 0]) p))"

definition AssignReplicas ::
  "gostring \<Rightarrow> i32 \<Rightarrow> i32 \<Rightarrow> i32 list \<Rightarrow> PartitionStateStore \<Rightarrow> PartitionStateStore res" where
  "AssignReplicas topicName numPartitions replicationFactor brokerIDs p =
     assign_loop topicName replicationFactor brokerIDs [0..<nat (sint numPartitions)] p"

definition PartitionsLedBy :: "i32 \<Rightarrow> PartitionStateStore \<Rightarrow> PartitionState list" where
  "PartitionsLedBy brokerID p = filter (\<lambda>ps. ps_LeaderBrokerID ps = brokerID) (map snd p)"

section \<open>Interleaved calls\<close>

text \<open>
  Where a call is between its atomic sections: about to advance the watermark, about to wake
  the waiters below a watermark, about to enter the purgatory, or (having entered it) about
  to read the watermark it wakes for. The last two are the \<^verbatim>\<open>acks=-1\<close> branch of
  \<^verbatim>\<open>HandleProduceApiKeys\<close>.
\<close>

datatype thread =
    T_Advance
  | T_Complete int
  | T_Add PartitionAppendWaiter
  | T_Read

record psys =
  sys_ps :: PartitionState
  sys_threads :: "thread list"
  sys_sent :: "completion list"

inductive pstep :: "psys \<Rightarrow> psys \<Rightarrow> bool" where
  p_append: "pstep \<lparr>sys_ps = ps, sys_threads = ts, sys_sent = cs\<rparr>
     \<lparr>sys_ps = append_locked o' ps, sys_threads = ts @ [T_Advance], sys_sent = cs\<rparr>"
| p_replica: "pstep \<lparr>sys_ps = ps, sys_threads = ts, sys_sent = cs\<rparr>
     \<lparr>sys_ps = replica_locked now f o' ps, sys_threads = ts @ [T_Advance], sys_sent = cs\<rparr>"
| p_request: "pstep \<lparr>sys_ps = ps, sys_threads = ts, sys_sent = cs\<rparr>
     \<lparr>sys_ps = ps, sys_threads = ts @ [T_Add w], sys_sent = cs\<rparr>"
| p_isr_remove: "pstep \<lparr>sys_ps = ps, sys_threads = ts, sys_sent = cs\<rparr>
     \<lparr>sys_ps = RemoveFromISR f ps, sys_threads = ts, sys_sent = cs\<rparr>"
| p_isr_add: "pstep \<lparr>sys_ps = ps, sys_threads = ts, sys_sent = cs\<rparr>
     \<lparr>sys_ps = AddToISR f ps, sys_threads = ts, sys_sent = cs\<rparr>"
| p_advance: "advance_locked ps = (ps', r) \<Longrightarrow>
     pstep \<lparr>sys_ps = ps, sys_threads = ts @ T_Advance # us, sys_sent = cs\<rparr>
       \<lparr>sys_ps = ps',
        sys_threads = ts @ (case r of Some hwm \<Rightarrow> [T_Complete hwm] | None \<Rightarrow> []) @ us, sys_sent = cs\<rparr>"
| p_complete: "complete_waiters hwm ps = (ps', ds) \<Longrightarrow>
     pstep \<lparr>sys_ps = ps, sys_threads = ts @ T_Complete hwm # us, sys_sent = cs\<rparr>
       \<lparr>sys_ps = ps', sys_threads = ts @ us, sys_sent = cs @ ds\<rparr>"
| p_add: "pstep \<lparr>sys_ps = ps, sys_threads = ts @ T_Add w # us, sys_sent = cs\<rparr>
     \<lparr>sys_ps = ps\<lparr>ps_Purgatory := Purgatory_Add w (ps_Purgatory ps)\<rparr>,
      sys_threads = ts @ T_Read # us, sys_sent = cs\<rparr>"
| p_read: "pstep \<lparr>sys_ps = ps, sys_threads = ts @ T_Read # us, sys_sent = cs\<rparr>
     \<lparr>sys_ps = ps, sys_threads = ts @ T_Complete (GetHWM ps) # us, sys_sent = cs\<rparr>"

inductive_cases pstep_cases: "pstep s t"

definition psys_init :: "PartitionState \<Rightarrow> psys" where
  "psys_init ps = \<lparr>sys_ps = ps, sys_threads = [], sys_sent = []\<rparr>"

section \<open>The watermark\<close>

definition ps_inv :: "PartitionState \<Rightarrow> bool" where
  "ps_inv ps \<longleftrightarrow> 0 \<le> ps_HWM ps \<and> ps_HWM ps \<le> ps_LEO ps"

lemma min_isr_le: "min_isr ps rids n \<le> n"
proof (induction rids arbitrary: n)
  case (Cons rid rids)
  let ?l = "case ps_ReplicaLEO ps rid of Some l \<Rightarrow> l | None \<Rightarrow> 0"
  have "min_isr ps rids (if ?l < n then ?l else n) \<le> (if ?l < n then ?l else n)" by (rule Cons)
  then show ?case using Cons [of n] by (auto simp: Let_def split: if_splits)
qed simp

lemma min_isr_replica:
  assumes "rid \<in> set rids" "rid \<noteq> ps_LeaderBrokerID ps"
  shows "min_isr ps rids n \<le> (case ps_ReplicaLEO ps rid of Some l \<Rightarrow> l | None \<Rightarrow> 0)"
  using assms(1)
proof (induction rids arbitrary: n)
  case (Cons i rids)
  let ?l = "case ps_ReplicaLEO ps rid of Some l \<Rightarrow> l | None \<Rightarrow> 0"
  show ?case
  proof (cases "i = rid")
    case True
    then have "min_isr ps (i # rids) n = min_isr ps rids (if ?l < n then ?l else n)"
      using assms(2) by (simp add: Let_def)
    also have "\<dots> \<le> (if ?l < n then ?l else n)" by (rule min_isr_le)
    finally show ?thesis by (auto split: if_splits)
  qed (use Cons in \<open>auto simp: Let_def\<close>)
qed simp


lemma advance_locked_inv:
  assumes "ps_inv ps" "advance_locked ps = (ps', r)"
  shows "ps_inv ps'" "ps_HWM ps \<le> ps_HWM ps'" "ps_LEO ps' = ps_LEO ps" "ps_Purgatory ps' = ps_Purgatory ps"
    "r = Some h \<Longrightarrow> h = ps_HWM ps'" "r = None \<Longrightarrow> ps' = ps"
  using assms min_isr_le [of ps "ps_ISR ps" "ps_LEO ps"]
  by (auto simp: advance_locked_def ps_inv_def Let_def split: if_splits)

text \<open>The watermark only moves to an offset that every in-sync follower has reported.\<close>

lemma advance_locked_committed:
  assumes "advance_locked ps = (ps', Some h)" "rid \<in> set (ps_ISR ps)" "rid \<noteq> ps_LeaderBrokerID ps"
  shows "h \<le> (case ps_ReplicaLEO ps rid of Some l \<Rightarrow> l | None \<Rightarrow> 0)"
  using assms min_isr_replica [OF assms(2,3), of "ps_LEO ps"]
  by (auto simp: advance_locked_def Let_def split: if_splits)

lemma ps_inv_locked:
  "ps_inv ps \<Longrightarrow> ps_inv (append_locked o' ps)" "ps_inv ps \<Longrightarrow> ps_inv (replica_locked now f o' ps)"
  "ps_inv ps \<Longrightarrow> ps_inv (RemoveFromISR f ps)" "ps_inv ps \<Longrightarrow> ps_inv (AddToISR f ps)"
  by (auto simp: ps_inv_def append_locked_def replica_locked_def RemoveFromISR_def AddToISR_def Let_def)

lemma locked_frame [simp]:
  "ps_HWM (append_locked o' ps) = ps_HWM ps" "ps_Purgatory (append_locked o' ps) = ps_Purgatory ps"
  "ps_HWM (replica_locked now f o' ps) = ps_HWM ps" "ps_Purgatory (replica_locked now f o' ps) = ps_Purgatory ps"
  "ps_HWM (RemoveFromISR f ps) = ps_HWM ps" "ps_Purgatory (RemoveFromISR f ps) = ps_Purgatory ps"
  "ps_HWM (AddToISR f ps) = ps_HWM ps" "ps_Purgatory (AddToISR f ps) = ps_Purgatory ps"
  by (auto simp: append_locked_def replica_locked_def RemoveFromISR_def AddToISR_def Let_def)

lemma complete_waiters_frame:
  assumes "complete_waiters h ps = (ps', ds)"
  shows "ps_HWM ps' = ps_HWM ps" "ps_LEO ps' = ps_LEO ps" "ps_ISR ps' = ps_ISR ps"
    "ps_ReplicaLEO ps' = ps_ReplicaLEO ps" "ps_LeaderBrokerID ps' = ps_LeaderBrokerID ps"
    "set (ps_Purgatory ps') = {w \<in> set (ps_Purgatory ps). h \<le> w_RequiredOffset w}"
    "ds = map (\<lambda>w. (w_Done w, None)) (filter (\<lambda>w. w_RequiredOffset w < h) (ps_Purgatory ps))"
  using assms by (auto simp: complete_waiters_def CompleteUpTo_def)

section \<open>No lost wake-up\<close>

text \<open>A call on its way that will wake the waiter \<open>w\<close>.\<close>

fun will_wake :: "int \<Rightarrow> thread \<Rightarrow> bool" where
  "will_wake r (T_Complete h) = (r < h)"
| "will_wake r T_Read = True"
| "will_wake r _ = False"

definition psys_inv :: "psys \<Rightarrow> bool" where
  "psys_inv s \<longleftrightarrow> ps_inv (sys_ps s) \<and>
     (\<forall>h. T_Complete h \<in> set (sys_threads s) \<longrightarrow> h \<le> ps_HWM (sys_ps s)) \<and>
     (\<forall>w\<in>set (ps_Purgatory (sys_ps s)). w_RequiredOffset w < ps_HWM (sys_ps s) \<longrightarrow>
        (\<exists>t\<in>set (sys_threads s). will_wake (w_RequiredOffset w) t))"

lemma psys_inv_init: "ps_inv ps \<Longrightarrow> ps_Purgatory ps = [] \<Longrightarrow> psys_inv (psys_init ps)"
  by (simp add: psys_inv_def psys_init_def)

lemma psys_invI:
  assumes "ps_inv ps" "\<And>h. T_Complete h \<in> set ts \<Longrightarrow> h \<le> ps_HWM ps"
    and "\<And>w. w \<in> set (ps_Purgatory ps) \<Longrightarrow> w_RequiredOffset w < ps_HWM ps \<Longrightarrow>
      \<exists>t\<in>set ts. will_wake (w_RequiredOffset w) t"
  shows "psys_inv \<lparr>sys_ps = ps, sys_threads = ts, sys_sent = cs\<rparr>"
  using assms by (simp add: psys_inv_def)

lemma psys_invD:
  assumes "psys_inv \<lparr>sys_ps = ps, sys_threads = ts, sys_sent = cs\<rparr>"
  shows "ps_inv ps" "\<And>h. T_Complete h \<in> set ts \<Longrightarrow> h \<le> ps_HWM ps"
    "\<And>w. w \<in> set (ps_Purgatory ps) \<Longrightarrow> w_RequiredOffset w < ps_HWM ps \<Longrightarrow>
      \<exists>t\<in>set ts. will_wake (w_RequiredOffset w) t"
  using assms by (simp_all add: psys_inv_def)

text \<open>A step that leaves watermark and purgatory alone and adds calls keeps the invariant.\<close>

lemma psys_inv_frame:
  assumes "psys_inv \<lparr>sys_ps = ps, sys_threads = ts, sys_sent = cs\<rparr>" "ps_inv ps \<Longrightarrow> ps_inv ps'"
    "ps_HWM ps' = ps_HWM ps" "ps_Purgatory ps' = ps_Purgatory ps"
    and ts': "set ts \<subseteq> set ts'" "\<And>h. T_Complete h \<in> set ts' \<Longrightarrow> T_Complete h \<in> set ts"
  shows "psys_inv \<lparr>sys_ps = ps', sys_threads = ts', sys_sent = cs'\<rparr>"
proof (rule psys_invI)
  note d = psys_invD [OF assms(1)]
  show "h \<le> ps_HWM ps'" if "T_Complete h \<in> set ts'" for h
    using d(2) ts'(2) [OF that] assms(3) by simp
  show "\<exists>t\<in>set ts'. will_wake (w_RequiredOffset w) t"
    if "w \<in> set (ps_Purgatory ps')" "w_RequiredOffset w < ps_HWM ps'" for w
    using d(3) [of w] that assms(3,4) ts'(1) by auto
qed (rule assms(2) [OF psys_invD(1) [OF assms(1)]])

lemma psys_inv_advance:
  assumes "advance_locked ps = (ps', r)"
    and inv: "psys_inv \<lparr>sys_ps = ps, sys_threads = ts @ T_Advance # us, sys_sent = cs\<rparr>"
  shows "psys_inv \<lparr>sys_ps = ps',
    sys_threads = ts @ (case r of Some hwm \<Rightarrow> [T_Complete hwm] | None \<Rightarrow> []) @ us, sys_sent = cs\<rparr>"
proof -
  note d = psys_invD [OF inv]
  note a = advance_locked_inv [OF d(1) assms(1)]
  have "psys_inv \<lparr>sys_ps = ps, sys_threads = ts @ us, sys_sent = cs\<rparr>"
  proof (rule psys_invI [OF d(1)])
    show "h \<le> ps_HWM ps" if "T_Complete h \<in> set (ts @ us)" for h
      using d(2) [of h] that by simp
    show "\<exists>t\<in>set (ts @ us). will_wake (w_RequiredOffset w) t"
      if "w \<in> set (ps_Purgatory ps)" "w_RequiredOffset w < ps_HWM ps" for w
      using d(3) [OF that] by simp
  qed
  moreover have "psys_inv \<lparr>sys_ps = ps', sys_threads = ts @ [T_Complete h] @ us, sys_sent = cs\<rparr>"
    if "r = Some h" for h
  proof (rule psys_invI [OF a(1)])
    have h: "h = ps_HWM ps'" using a(5) that by blast
    show "g \<le> ps_HWM ps'" if "T_Complete g \<in> set (ts @ [T_Complete h] @ us)" for g
    proof (cases "g = h")
      case False
      then show ?thesis using d(2) [of g] a(2) that by simp
    qed (simp add: h)
    show "\<exists>t\<in>set (ts @ [T_Complete h] @ us). will_wake (w_RequiredOffset w) t"
      if "w_RequiredOffset w < ps_HWM ps'" for w
      using that h by simp
  qed
  ultimately show ?thesis using a(6) by (cases r) simp_all
qed

lemma psys_inv_complete:
  assumes "complete_waiters hwm ps = (ps', ds)"
    and inv: "psys_inv \<lparr>sys_ps = ps, sys_threads = ts @ T_Complete hwm # us, sys_sent = cs\<rparr>"
  shows "psys_inv \<lparr>sys_ps = ps', sys_threads = ts @ us, sys_sent = cs @ ds\<rparr>"
proof (rule psys_invI)
  note d = psys_invD [OF inv] and c = complete_waiters_frame [OF assms(1)]
  show "ps_inv ps'" using d(1) c(1,2) by (simp add: ps_inv_def)
  show "h \<le> ps_HWM ps'" if "T_Complete h \<in> set (ts @ us)" for h
    using d(2) [of h] that c(1) by auto
  show "\<exists>t\<in>set (ts @ us). will_wake (w_RequiredOffset w) t"
    if "w \<in> set (ps_Purgatory ps')" "w_RequiredOffset w < ps_HWM ps'" for w
  proof -
    have w: "w \<in> set (ps_Purgatory ps)" "\<not> w_RequiredOffset w < hwm" using that c(6) by auto
    moreover have "w_RequiredOffset w < ps_HWM ps" using that c(1) by simp
    ultimately obtain t where "t \<in> set (ts @ T_Complete hwm # us)" "will_wake (w_RequiredOffset w) t"
      using d(3) by blast
    then show ?thesis using w(2) by auto
  qed
qed

lemma psys_inv_step:
  assumes "pstep s t" "psys_inv s"
  shows "psys_inv t" "ps_HWM (sys_ps s) \<le> ps_HWM (sys_ps t)"
proof -
  have "psys_inv t \<and> ps_HWM (sys_ps s) \<le> ps_HWM (sys_ps t)"
    using assms
  proof (induction rule: pstep.induct)
    case (p_advance ps ps' r ts us cs)
    then show ?case
      using psys_inv_advance [OF p_advance(1)] advance_locked_inv(2) [OF psys_invD(1) p_advance(1)] by simp
  next
    case (p_complete hwm ps ps' ds ts us cs)
    then show ?case
      using psys_inv_complete [OF p_complete(1)] complete_waiters_frame(1) [OF p_complete(1)] by simp
  next
    case (p_add ps ts w us cs)
    note d = psys_invD [OF p_add]
    have "psys_inv \<lparr>sys_ps = ps\<lparr>ps_Purgatory := Purgatory_Add w (ps_Purgatory ps)\<rparr>,
        sys_threads = ts @ T_Read # us, sys_sent = cs\<rparr>"
      by (rule psys_invI) (use d(1,2) in \<open>auto simp: ps_inv_def\<close>)
    then show ?case by simp
  next
    case (p_read ps ts us cs)
    note d = psys_invD [OF p_read]
    have "psys_inv \<lparr>sys_ps = ps, sys_threads = ts @ T_Complete (GetHWM ps) # us, sys_sent = cs\<rparr>"
      by (rule psys_invI) (use d(1,2) in \<open>auto simp: GetHWM_def\<close>)
    then show ?case by simp
  qed (auto elim!: psys_inv_frame intro: ps_inv_locked)
  then show "psys_inv t" "ps_HWM (sys_ps s) \<le> ps_HWM (sys_ps t)" by auto
qed

lemma psys_inv_reachable:
  assumes "pstep\<^sup>*\<^sup>* s t" "psys_inv s"
  shows "psys_inv t" "ps_HWM (sys_ps s) \<le> ps_HWM (sys_ps t)"
proof -
  have "psys_inv t \<and> ps_HWM (sys_ps s) \<le> ps_HWM (sys_ps t)"
    using assms
  proof (induction rule: rtranclp_induct)
    case (step t u)
    then have "psys_inv t" "ps_HWM (sys_ps s) \<le> ps_HWM (sys_ps t)" by blast+
    then show ?case using psys_inv_step [OF step(2)] order_trans by blast
  qed simp
  then show "psys_inv t" "ps_HWM (sys_ps s) \<le> ps_HWM (sys_ps t)" by blast+
qed


definition replica_leo :: "PartitionState \<Rightarrow> i32 \<Rightarrow> int" where
  "replica_leo ps rid = (case ps_ReplicaLEO ps rid of Some l \<Rightarrow> l | None \<Rightarrow> 0)"

definition isr_followers :: "PartitionState \<Rightarrow> i32 set" where
  "isr_followers ps = set (ps_ISR ps) - {ps_LeaderBrokerID ps}"

lemma Min_insert_min:
  "finite S \<Longrightarrow> Min (insert (min a b) S) = Min (insert b (insert a S))" for a :: "'a::linorder"
  by (cases "S = {}") (simp_all add: min.left_commute min.assoc min.commute)

lemma min_isr_Min: "min_isr ps rids n = Min (insert n (replica_leo ps ` (set rids - {ps_LeaderBrokerID ps})))"
proof (induction rids arbitrary: n)
  case (Cons rid rids)
  let ?S = "replica_leo ps ` (set rids - {ps_LeaderBrokerID ps})"
  show ?case
  proof (cases "rid = ps_LeaderBrokerID ps")
    case False
    let ?l = "replica_leo ps rid"
    have "min_isr ps (rid # rids) n = min_isr ps rids (min ?l n)"
      using False by (simp add: Let_def replica_leo_def min_def)
    also have "\<dots> = Min (insert (min ?l n) ?S)" by (rule Cons)
    also have "\<dots> = Min (insert n (insert ?l ?S))"
      by (rule Min_insert_min) simp
    also have "insert ?l ?S = replica_leo ps ` (set (rid # rids) - {ps_LeaderBrokerID ps})"
      using False by auto
    finally show ?thesis .
  qed (simp add: Cons insert_Diff_if)
qed simp

lemma AdvanceHWM_watermark:
  "ps_HWM (fst (AdvanceHWM ps)) = max (ps_HWM ps) (Min (insert (ps_LEO ps) (replica_leo ps ` isr_followers ps)))"
  unfolding isr_followers_def min_isr_Min [symmetric]
  by (simp add: AdvanceHWM_def advance_locked_def complete_waiters_def CompleteUpTo_def Let_def)

lemma sent_step:
  assumes "pstep s t" "psys_inv s"
  shows "\<exists>ws. sys_sent t = sys_sent s @ map (\<lambda>w. (w_Done w, None)) ws \<and>
     set ws \<subseteq> {w \<in> set (ps_Purgatory (sys_ps s)). w_RequiredOffset w < ps_HWM (sys_ps t)}"
  using assms
proof (induction rule: pstep.induct)
  case (p_complete hwm ps ps' ds ts us cs)
  note c = complete_waiters_frame [OF p_complete(1)]
  have "hwm \<le> ps_HWM ps" using psys_invD(2) [OF p_complete(2)] by simp
  then show ?case
    by (intro exI [of _ "filter (\<lambda>w. w_RequiredOffset w < hwm) (ps_Purgatory ps)"]) (auto simp: c)
qed (auto intro!: exI [of _ "[]"])

section \<open>Keys and assignment\<close>

lemma digit_not_dash: "k < 10 \<Longrightarrow> 48 + of_nat k \<noteq> (45 :: byte)"
proof
  assume "k < 10" and k: "48 + of_nat k = (45 :: byte)"
  from digit_range [OF this(1)] have "48 \<le> (45 :: byte)" unfolding k by (rule conjunct1)
  then show False by simp
qed

lemma sint_inj: "sint (i :: 'a::len word) = sint j \<Longrightarrow> i = j"
  by (rule signed_word_eqI)

lemma dash_notin_digits: "45 \<notin> set (dec_digits n)"
proof (induction n rule: dec_digits.induct)
  case (1 n)
  then show ?case
    using digit_not_dash [of n] digit_not_dash [of "n mod 10"] by (auto simp: dec_digits.simps [of n])
qed

lemma dec_digits_inj: "dec_digits m = dec_digits n \<Longrightarrow> m = n"
  by (drule arg_cong [of _ _ "parse_digits 0"]) (simp add: parse_dec_digits)

lemma append_sep_inj:
  assumes "xs @ c # us = ys @ c # vs" "c \<notin> set us" "c \<notin> set vs"
  shows "xs = ys \<and> us = vs"
  using assms by (auto simp: append_eq_append_conv2 Cons_eq_append_conv append_eq_Cons_conv)

lemma str_dash: "str ''-'' = [45]"
  by (simp add: str_def)

text \<open>Keys of partitions with non-negative indices are distinct.\<close>

lemma partition_key_inj:
  assumes "partition_key t i = partition_key u j" "0 \<le> sint i" "0 \<le> sint j"
  shows "t = u \<and> i = j"
proof -
  have "t = u \<and> dec_digits (nat (sint i)) = dec_digits (nat (sint j))"
    using assms append_sep_inj [of t 45 _ u] dash_notin_digits
    by (simp add: partition_key_def fmt_d_def str_dash)
  then have "t = u \<and> nat (sint i) = nat (sint j)" using dec_digits_inj by blast
  then show ?thesis using assms(2,3) sint_inj [of i j] by (simp add: eq_nat_nat_iff)
qed

lemma partition_key_collision:
  "partition_key (str ''a'') (-1) = partition_key (str ''a-'') 1"
  by (simp add: partition_key_def fmt_d_def str_def dec_digits.simps)

lemma assign_loop_ok:
  assumes "0 < sint rf" "brokers \<noteq> []"
  shows "\<exists>p'. assign_loop t rf brokers ns p = Ok p'"
  using assms by (induction ns arbitrary: p) (auto simp: Let_def)

lemma sint_of_nat_i32: "int n < 2 ^ 31 \<Longrightarrow> sint (of_nat n :: i32) = int n"
  by (simp add: signed_of_nat signed_take_bit_int_eq_self)

text \<open>What the assignment of a topic leaves in the store.\<close>

definition assigned_state :: "gostring \<Rightarrow> i32 \<Rightarrow> i32 list \<Rightarrow> nat \<Rightarrow> PartitionState" where
  "assigned_state t rf brokers n =
     (let rs = assigned_replicas n (nat (sint rf)) brokers
      in new_partition t (of_nat n) (brokers ! (n mod length brokers)) 0 rs [brokers ! (n mod length brokers)])"

lemma assigned_replicas_0: "0 < r \<Longrightarrow> assigned_replicas n r bs ! 0 = bs ! (n mod length bs)"
  by (simp add: assigned_replicas_def)

lemma assign_loop_get:
  assumes "assign_loop t rf brokers ns p = Ok p'" "0 < sint rf" "brokers \<noteq> []"
    "\<forall>n\<in>set ns. int n < 2 ^ 31" "0 \<le> sint i"
  shows "GetPartitionState u i p' =
    (if u = t \<and> nat (sint i) \<in> set ns then Some (assigned_state t rf brokers (nat (sint i)))
     else GetPartitionState u i p)"
  using assms(1,4)
proof (induction ns arbitrary: p)
  case (Cons n ns)
  have n: "sint (of_nat n :: i32) = int n" using Cons.prems by (intro sint_of_nat_i32) simp
  let ?p = "AList.update (partition_key t (of_nat n)) (assigned_state t rf brokers n) p"
  have "assign_loop t rf brokers ns ?p = Ok p'"
    using Cons.prems assms(2,3)
    by (simp add: Let_def assigned_state_def assigned_replicas_0)
  moreover have "GetPartitionState u i ?p = (if u = t \<and> nat (sint i) = n then Some (assigned_state t rf brokers n)
      else GetPartitionState u i p)"
  proof (cases "u = t \<and> nat (sint i) = n")
    case True
    then have "sint i = sint (of_nat n :: i32)" using assms(5) n by auto
    then have "i = of_nat n" by (rule sint_inj)
    then show ?thesis using True by (simp add: GetPartitionState_def update_conv')
  next
    case False
    then have "partition_key u i \<noteq> partition_key t (of_nat n)"
      using partition_key_inj [of u i t "of_nat n"] assms(5) n by auto
    then show ?thesis using False by (auto simp: GetPartitionState_def update_conv')
  qed
  ultimately show ?case using Cons.IH [of ?p] Cons.prems by auto
qed simp

lemma assigned_replicas_distinct:
  assumes "r \<le> length bs" "distinct bs"
  shows "distinct (assigned_replicas n r bs)"
proof -
  have "inj_on (\<lambda>i. bs ! ((n + i) mod length bs)) {0..<r}"
  proof (rule inj_onI)
    fix i j assume ij: "i \<in> {0..<r}" "j \<in> {0..<r}" "bs ! ((n + i) mod length bs) = bs ! ((n + j) mod length bs)"
    then have "0 < length bs" using assms(1) by auto
    then have "(n + i) mod length bs = (n + j) mod length bs"
      using ij(3) assms(2) by (simp add: nth_eq_iff_index_eq)
    then have "i mod length bs = j mod length bs"
      by (auto simp: nat_mod_eq_iff)
    then show "i = j" using ij(1,2) assms(1) by simp
  qed
  then show ?thesis by (simp add: assigned_replicas_def distinct_map)
qed

lemma assigned_replicas_set: "bs \<noteq> [] \<Longrightarrow> set (assigned_replicas n r bs) \<subseteq> set bs"
  by (auto simp: assigned_replicas_def)


section \<open>Properties\<close>

text \<open>
  C1. Whatever the interleaving of appends, follower reports, changes of the in-sync set and
  waiting produce requests: the high watermark never decreases and stays between 0 and the log
  end offset, and no wake-up is lost - a waiter whose records are below the watermark always
  has a call under way that will complete it, and when no call is under way every waiter left
  waits for records that are not replicated yet.
\<close>

theorem no_lost_wakeup:
  assumes "pstep\<^sup>*\<^sup>* (psys_init ps) t" "ps_inv ps" "ps_Purgatory ps = []"
  shows "ps_HWM ps \<le> ps_HWM (sys_ps t) \<and> 0 \<le> ps_HWM (sys_ps t) \<and> ps_HWM (sys_ps t) \<le> ps_LEO (sys_ps t) \<and>
    (\<forall>w\<in>set (ps_Purgatory (sys_ps t)). w_RequiredOffset w < ps_HWM (sys_ps t) \<longrightarrow>
       (\<exists>c\<in>set (sys_threads t). will_wake (w_RequiredOffset w) c)) \<and>
    (sys_threads t = [] \<longrightarrow> (\<forall>w\<in>set (ps_Purgatory (sys_ps t)). ps_HWM (sys_ps t) \<le> w_RequiredOffset w))"
proof -
  have inv: "psys_inv t" "ps_HWM ps \<le> ps_HWM (sys_ps t)"
    using psys_inv_reachable [OF assms(1) psys_inv_init [OF assms(2,3)]] by (simp_all add: psys_init_def)
  then show ?thesis by (force simp: psys_inv_def ps_inv_def)
qed

definition sample_waiter :: PartitionAppendWaiter where
  "sample_waiter = \<lparr>w_RequiredOffset = 0, w_ISRSnapshot = [1], w_Done = 9\<rparr>"

text \<open>An append, then a waiting request, then the watermark advances: the waiter is completed.\<close>

lemma sample_run:
  "pstep\<^sup>*\<^sup>* (psys_init (new_partition (str ''t'') 0 1 0 [1] [1]))
     \<lparr>sys_ps = (new_partition (str ''t'') 0 1 0 [1] [1])\<lparr>ps_LEO := 1, ps_HWM := 1, ps_Purgatory := [sample_waiter]\<rparr>,
      sys_threads = [T_Complete 1, T_Complete 1], sys_sent = []\<rparr>"
  "pstep \<lparr>sys_ps = (new_partition (str ''t'') 0 1 0 [1] [1])\<lparr>ps_LEO := 1, ps_HWM := 1, ps_Purgatory := [sample_waiter]\<rparr>,
      sys_threads = [T_Complete 1, T_Complete 1], sys_sent = []\<rparr>
     \<lparr>sys_ps = (new_partition (str ''t'') 0 1 0 [1] [1])\<lparr>ps_LEO := 1, ps_HWM := 1\<rparr>,
      sys_threads = [T_Complete 1], sys_sent = [(9, None)]\<rparr>"
proof -
  let ?p0 = "new_partition (str ''t'') 0 1 0 [1] [1]"
  let ?p1 = "?p0\<lparr>ps_LEO := 1\<rparr>" and ?p3 = "?p0\<lparr>ps_LEO := 1, ps_HWM := 1, ps_Purgatory := [sample_waiter]\<rparr>"
  let ?p2 = "?p1\<lparr>ps_Purgatory := [sample_waiter]\<rparr>" and ?p4 = "?p0\<lparr>ps_LEO := 1, ps_HWM := 1\<rparr>"
  have "append_locked 0 ?p0 = ?p1" by (simp add: append_locked_def new_partition_def)
  then have s1: "pstep (psys_init ?p0) \<lparr>sys_ps = ?p1, sys_threads = [T_Advance], sys_sent = []\<rparr>"
    using p_append [of ?p0 "[]" "[]" 0] by (simp add: psys_init_def)
  have s2: "pstep \<lparr>sys_ps = ?p1, sys_threads = [T_Advance], sys_sent = []\<rparr>
      \<lparr>sys_ps = ?p1, sys_threads = [T_Advance, T_Add sample_waiter], sys_sent = []\<rparr>"
    using p_request [of ?p1 "[T_Advance]" "[]" sample_waiter] by simp
  have s3: "pstep \<lparr>sys_ps = ?p1, sys_threads = [T_Advance, T_Add sample_waiter], sys_sent = []\<rparr>
      \<lparr>sys_ps = ?p2, sys_threads = [T_Advance, T_Read], sys_sent = []\<rparr>"
    using p_add [of ?p1 "[T_Advance]" sample_waiter "[]" "[]"]
    by (simp add: Purgatory_Add_def new_partition_def NewPartitionPurgatory_def)
  have "advance_locked ?p2 = (?p3, Some 1)" by (simp add: advance_locked_def new_partition_def)
  then have s4: "pstep \<lparr>sys_ps = ?p2, sys_threads = [T_Advance, T_Read], sys_sent = []\<rparr>
      \<lparr>sys_ps = ?p3, sys_threads = [T_Complete 1, T_Read], sys_sent = []\<rparr>"
    using p_advance [of ?p2 ?p3 "Some 1" "[]" "[T_Read]" "[]"] by simp
  have s5: "pstep \<lparr>sys_ps = ?p3, sys_threads = [T_Complete 1, T_Read], sys_sent = []\<rparr>
      \<lparr>sys_ps = ?p3, sys_threads = [T_Complete 1, T_Complete 1], sys_sent = []\<rparr>"
    using p_read [of ?p3 "[T_Complete 1]" "[]" "[]"] by (simp add: GetHWM_def)
  from s1 s2 s3 s4 s5 show "pstep\<^sup>*\<^sup>* (psys_init ?p0)
      \<lparr>sys_ps = ?p3, sys_threads = [T_Complete 1, T_Complete 1], sys_sent = []\<rparr>"
    by (meson converse_rtranclp_into_rtranclp rtranclp.rtrancl_refl)
  have "complete_waiters 1 ?p3 = (?p4, [(9, None)])"
    by (simp add: complete_waiters_def CompleteUpTo_def sample_waiter_def new_partition_def NewPartitionPurgatory_def)
  then show "pstep \<lparr>sys_ps = ?p3, sys_threads = [T_Complete 1, T_Complete 1], sys_sent = []\<rparr>
      \<lparr>sys_ps = ?p4, sys_threads = [T_Complete 1], sys_sent = [(9, None)]\<rparr>"
    using p_complete [of 1 ?p3 ?p4 "[(9, None)]" "[]" "[T_Complete 1]" "[]"] by simp
qed

lemma sample_inv:
  "ps_inv (new_partition (str ''t'') 0 1 0 [1] [1])" "ps_Purgatory (new_partition (str ''t'') 0 1 0 [1] [1]) = []"
  by (simp_all add: new_partition_def NewPartitionPurgatory_def ps_inv_def)

theorem no_lost_wakeup_witness:
  "\<exists>t. pstep\<^sup>*\<^sup>* (psys_init (new_partition (str ''t'') 0 1 0 [1] [1])) t \<and> sample_waiter \<in> set (ps_Purgatory (sys_ps t)) \<and>
     (\<exists>c\<in>set (sys_threads t). will_wake (w_RequiredOffset sample_waiter) c)"
  using no_lost_wakeup [OF sample_run(1) sample_inv] sample_run(1) by (fastforce simp: sample_waiter_def)






end
