(* ===== verification/Kaf_Reader.thy ===== *)
theory Kaf_Reader
  imports Kaf_Prelude
begin

text \<open>
  The wire reader of \<^verbatim>\<open>protocol/reader.go\<close>. A reader is its buffer and its cursor; each
  \<^verbatim>\<open>Read\<close> method is a function from the reader to its outcome and the reader
  afterwards, so that the cursor is known also after an error (some callers ignore the
  error and read on). The cursor is Go's 64-bit \<^verbatim>\<open>int\<close>: \<^verbatim>\<open>require\<close> adds with
  wrap-around, which is how a hostile length can slip past it.
\<close>

section \<open>The reader and its error monad\<close>

record reader =
  buff :: bytes
  pos :: int

type_synonym 'a rd = "reader \<Rightarrow> 'a res \<times> reader"

definition NewReader :: "bytes \<Rightarrow> reader" where
  "NewReader b = \<lparr>buff = b, pos = 0\<rparr>"

definition rret :: "'a \<Rightarrow> 'a rd" where
  "rret a = (\<lambda>r. (Ok a, r))"

definition rfail :: "go_err \<Rightarrow> 'a rd" where
  "rfail e = (\<lambda>r. (Err e, r))"

definition rpanic :: "'a rd" where
  "rpanic = (\<lambda>r. (Panic, r))"

text \<open>The \<^verbatim>\<open>if err != nil { return err }\<close> chain of every decoder.\<close>

definition rbind :: "'a rd \<Rightarrow> ('a \<Rightarrow> 'b rd) \<Rightarrow> 'b rd" where
  "rbind m f = (\<lambda>r. case m r of
       (Ok a, r') \<Rightarrow> f a r'
     | (Err e, r') \<Rightarrow> (Err e, r')
     | (Panic, r') \<Rightarrow> (Panic, r'))"

text \<open>\<^verbatim>\<open>for i := 0; i < n; i++\<close> collecting one element per round.\<close>

primrec rtimes :: "nat \<Rightarrow> 'a rd \<Rightarrow> 'a list rd" where
  "rtimes 0 m = rret []"
| "rtimes (Suc n) m = rbind m (\<lambda>x. rbind (rtimes n m) (\<lambda>xs. rret (x # xs)))"

section \<open>The primitives\<close>

definition Remaining :: "reader \<Rightarrow> int" where
  "Remaining r = int (length (buff r)) - pos r"

definition Done :: "reader \<Rightarrow> bool" where
  "Done r \<longleftrightarrow> pos r \<ge> int (length (buff r))"

definition require :: "int \<Rightarrow> unit rd" where
  "require n = (\<lambda>r. if wrap64 (pos r + n) > int (length (buff r)) then (Err EOF, r) else (Ok (), r))"

text \<open>\<^verbatim>\<open>r.buff[r.pos:r.pos+n]\<close> followed by \<^verbatim>\<open>r.pos += n\<close>.\<close>

definition take_raw :: "int \<Rightarrow> bytes rd" where
  "take_raw n = (\<lambda>r.
     case slice (buff r) (pos r) (wrap64 (pos r + n)) of
       Ok b \<Rightarrow> (Ok b, r\<lparr>pos := wrap64 (pos r + n)\<rparr>)
     | Err e \<Rightarrow> (Err e, r)
     | Panic \<Rightarrow> (Panic, r))"

text \<open>\<^verbatim>\<open>ReadRawBytes\<close> returns the next bytes without moving the cursor.\<close>

definition ReadRawBytes :: "int \<Rightarrow> bytes rd" where
  "ReadRawBytes n = (\<lambda>r.
     if pos r \<ge> int (length (buff r)) then (Err EOF, r)
     else rbind (require n) (\<lambda>_ r.
            if n < 0 then (Panic, r)
            else (fst (take_raw n r), r)) r)"

definition ReadBool :: "bool rd" where
  "ReadBool = rbind (require 1) (\<lambda>_. rbind (take_raw 1) (\<lambda>b. rret (b \<noteq> [0])))"

definition ReadInt8 :: "i8 rd" where
  "ReadInt8 = rbind (require 1) (\<lambda>_. rbind (take_raw 1) (\<lambda>b. rret (be_dec b)))"

definition ReadInt16 :: "i16 rd" where
  "ReadInt16 = rbind (require 2) (\<lambda>_. rbind (take_raw 2) (\<lambda>b. rret (be_dec b)))"

definition ReadInt32 :: "i32 rd" where
  "ReadInt32 = rbind (require 4) (\<lambda>_. rbind (take_raw 4) (\<lambda>b. rret (be_dec b)))"

definition ReadInt64 :: "i64 rd" where
  "ReadInt64 = rbind (require 8) (\<lambda>_. rbind (take_raw 8) (\<lambda>b. rret (be_dec b)))"

definition ReadUint32 :: "u32 rd" where
  "ReadUint32 = rbind (require 4) (\<lambda>_. rbind (take_raw 4) (\<lambda>b. rret (be_dec b)))"

text \<open>The loop of \<^verbatim>\<open>ReadUVarInt\<close>; the shift grows by 7 and the loop ends at 64.\<close>

function uvarint_loop :: "nat \<Rightarrow> u64 \<Rightarrow> u64 rd" where
  "uvarint_loop shift result r =
     (case rbind (require 1) (\<lambda>_. take_raw 1) r of
        (Ok bs, r') \<Rightarrow>
          (let b = hd bs; result' = result OR push_bit shift (ucast (b AND 0x7f)) in
           if shift = 63 \<and> b > 0x01 then (Err (GoErr ''uvarint: overflow''), r')
           else if b < 0x80 then (Ok result', r')
           else if shift + 7 \<ge> 64 then (Err (GoErr ''uvarint: overflow''), r')
           else uvarint_loop (shift + 7) result' r')
      | (Err e, r') \<Rightarrow> (Err e, r')
      | (Panic, r') \<Rightarrow> (Panic, r'))"
  by pat_completeness auto
termination
  by (relation "measure (\<lambda>(shift, _, _). 64 - shift)") auto

declare uvarint_loop.simps [simp del]

definition ReadUVarInt :: "u64 rd" where
  "ReadUVarInt = uvarint_loop 0 0"

text \<open>\<^verbatim>\<open>int64((uv >> 1) ^ -(uv & 1))\<close>\<close>

definition unzigzag :: "u64 \<Rightarrow> i64" where
  "unzigzag uv = drop_bit 1 uv XOR (- (uv AND 1))"

definition ReadVarInt :: "i64 rd" where
  "ReadVarInt = rbind ReadUVarInt (\<lambda>uv. rret (unzigzag uv))"

definition ReadUUID :: "bytes rd" where
  "ReadUUID = rbind (require 16) (\<lambda>_. take_raw 16)"

section \<open>Strings and byte arrays\<close>

definition ReadString :: "gostring rd" where
  "ReadString = rbind ReadInt16 (\<lambda>n.
     rbind (require (sint n)) (\<lambda>_. take_raw (sint n)))"

definition ReadNullableString :: "gostring option rd" where
  "ReadNullableString = rbind ReadInt16 (\<lambda>n.
     if sint n = -1 then rret None
     else if sint n < 1 then rfail (GoErr ''string: invalid length'')
     else rbind (require (sint n)) (\<lambda>_. rbind (take_raw (sint n)) (\<lambda>s. rret (Some s))))"

definition ReadCompactString :: "gostring rd" where
  "ReadCompactString = rbind ReadUVarInt (\<lambda>n.
     if n - 1 = 0 then rret []
     else rbind (require (sint (n - 1))) (\<lambda>_. take_raw (sint (n - 1))))"

definition ReadCompactNullableString :: "gostring option rd" where
  "ReadCompactNullableString = rbind ReadUVarInt (\<lambda>wl.
     if wl = 0 then rret None
     else let n = sint (wl - 1) in
       if n = 0 then rret (Some [])
       else rbind (require n) (\<lambda>_. rbind (take_raw n) (\<lambda>s. rret (Some s))))"

text \<open>\<^verbatim>\<open>make([]byte, n)\<close> panics for a negative \<open>n\<close>, before the slice is copied.\<close>

definition ReadBytes :: "bytes rd" where
  "ReadBytes = rbind ReadInt32 (\<lambda>n.
     rbind (require (sint n)) (\<lambda>_.
     if sint n < 0 then rpanic else take_raw (sint n)))"

definition ReadNullableBytes :: "bytes option rd" where
  "ReadNullableBytes = rbind ReadInt32 (\<lambda>n.
     if sint n = -1 then rret None
     else if sint n < -1 then rfail (GoErr ''bytes: invalid length'')
     else rbind (require (sint n)) (\<lambda>_. rbind (take_raw (sint n)) (\<lambda>b. rret (Some b))))"

definition ReadCompactBytes :: "bytes rd" where
  "ReadCompactBytes = rbind ReadUVarInt (\<lambda>wl.
     let n = sint (wl - 1) in
     if n < 0 then rfail (GoErr ''bytes: invalid length'')
     else rbind (require n) (\<lambda>_. take_raw n))"

definition ReadCompactNullableBytes :: "bytes option rd" where
  "ReadCompactNullableBytes = rbind ReadUVarInt (\<lambda>wl.
     let n = sint (wl - 1) in
     if n = 0 then rret None
     else if n < 0 then rfail (GoErr ''bytes: invalid length'')
     else rbind (require n) (\<lambda>_. rbind (take_raw n) (\<lambda>b. rret (Some b))))"

section \<open>Array lengths, records and tagged fields\<close>

definition ReadArrayLen :: "int rd" where
  "ReadArrayLen = rbind ReadInt32 (\<lambda>n.
     if sint n < -1 then rfail (GoErr ''array: invalid length'') else rret (sint n))"

definition ReadCompactArrayLen :: "int rd" where
  "ReadCompactArrayLen = rbind ReadUVarInt (\<lambda>wl.
     if wl = 0 then rret (-1) else rret (sint (wl - 1)))"

definition ReadRecords :: "bytes option rd" where
  "ReadRecords = rbind ReadInt32 (\<lambda>n.
     if sint n = -1 then rret None
     else if sint n < -1 then rfail (GoErr ''records: invalid length'')
     else rbind (require (sint n)) (\<lambda>_. rbind (take_raw (sint n)) (\<lambda>b. rret (Some b))))"

definition ReadCompactRecords :: "bytes option rd" where
  "ReadCompactRecords = rbind ReadUVarInt (\<lambda>wl.
     if wl = 0 then rret None
     else let n = sint (wl - 1) in
       if n < 0 then rfail (GoErr ''compact records: invalid length'')
       else rbind (require n) (\<lambda>_. rbind (take_raw n) (\<lambda>b. rret (Some b))))"

text \<open>
  One tagged field: its key, its size, and the cursor moved by that size. The size is
  converted to a signed \<^verbatim>\<open>int\<close>, so a size of \<open>2\<^sup>6\<^sup>3\<close> or more moves the cursor back.
\<close>

definition skip_tagged :: "unit rd" where
  "skip_tagged = rbind ReadUVarInt (\<lambda>_. rbind ReadUVarInt (\<lambda>size.
     rbind (require (sint size)) (\<lambda>_ r. (Ok (), r\<lparr>pos := wrap64 (pos r + sint size)\<rparr>))))"

definition ReadTaggedFields :: "unit rd" where
  "ReadTaggedFields = rbind ReadUVarInt (\<lambda>count. rbind (rtimes (unat count) skip_tagged) (\<lambda>_. rret ()))"

definition ReadVarint :: "i64 rd" where
  "ReadVarint = rbind ReadUVarInt (\<lambda>uval. rret (unzigzag uval))"

definition ReadVarlong :: "i64 rd" where
  "ReadVarlong = rbind ReadUVarInt (\<lambda>uval. rret (unzigzag uval))"

record RecordHeader =
  HeaderKeyLength :: i64
  HeaderKey :: gostring
  HeaderValueLength :: i64
  HeaderValue :: bytes

record Record =
  rec_Length :: i64
  rec_Attributes :: i8
  rec_TimestampDelta :: i64
  rec_OffsetDelta :: i64
  rec_KeyLength :: i64
  rec_Key :: bytes
  rec_ValueLength :: i64
  rec_Value :: bytes
  rec_HeadersCount :: i64
  rec_Headers :: "RecordHeader list"

definition ReadRecordHeader :: "RecordHeader rd" where
  "ReadRecordHeader =
     rbind ReadVarint (\<lambda>kl. rbind ReadString (\<lambda>k.
     rbind ReadVarint (\<lambda>vl. rbind ReadBytes (\<lambda>v.
     rret \<lparr>HeaderKeyLength = kl, HeaderKey = k, HeaderValueLength = vl, HeaderValue = v\<rparr>))))"

definition ReadRecord :: "Record rd" where
  "ReadRecord =
     rbind ReadVarint (\<lambda>len. rbind ReadInt8 (\<lambda>att. rbind ReadVarlong (\<lambda>td.
     rbind ReadVarint (\<lambda>od. rbind ReadVarint (\<lambda>kl. rbind ReadBytes (\<lambda>k.
     rbind ReadVarint (\<lambda>vl. rbind ReadBytes (\<lambda>v. rbind ReadVarint (\<lambda>hc.
     rbind (rtimes (nat (sint hc)) ReadRecordHeader) (\<lambda>hs.
     rret \<lparr>rec_Length = len, rec_Attributes = att, rec_TimestampDelta = td, rec_OffsetDelta = od,
       rec_KeyLength = kl, rec_Key = k, rec_ValueLength = vl, rec_Value = v,
       rec_HeadersCount = hc, rec_Headers = hs\<rparr>))))))))))"

definition ReadRecordBatch :: "int \<Rightarrow> Record list rd" where
  "ReadRecordBatch count = rtimes (nat count) ReadRecord"

end
