(* ===== verification/Kaf_Writer.thy ===== *)
theory Kaf_Writer
  imports Kaf_Reader
begin

text \<open>
  The wire writer of \<^verbatim>\<open>protocol/writer.go\<close>. A writer is its append-only buffer, so each
  \<^verbatim>\<open>Write\<close> method maps the buffer to the longer one. What the reader makes of the written
  bytes is the subject of \<^verbatim>\<open>Kaf_Codec\<close>.
\<close>

section \<open>The writer\<close>

type_synonym writer = bytes

definition NewWriter :: "int \<Rightarrow> writer" where
  "NewWriter capacity = []"

definition Reset :: "writer \<Rightarrow> writer" where
  "Reset w = []"

definition WriteBool :: "bool \<Rightarrow> writer \<Rightarrow> writer" where
  "WriteBool b w = (if b then w @ [1] else w @ [0])"

definition WriteInt8 :: "i8 \<Rightarrow> writer \<Rightarrow> writer" where
  "WriteInt8 v w = w @ [v]"

definition WriteInt16 :: "i16 \<Rightarrow> writer \<Rightarrow> writer" where
  "WriteInt16 v w = w @ [ucast (signed_drop_bit 8 v), ucast v]"

definition WriteInt32 :: "i32 \<Rightarrow> writer \<Rightarrow> writer" where
  "WriteInt32 v w = w @ [ucast (signed_drop_bit 24 v), ucast (signed_drop_bit 16 v),
     ucast (signed_drop_bit 8 v), ucast v]"

definition WriteInt64 :: "i64 \<Rightarrow> writer \<Rightarrow> writer" where
  "WriteInt64 v w = w @ [ucast (signed_drop_bit 56 v), ucast (signed_drop_bit 48 v),
     ucast (signed_drop_bit 40 v), ucast (signed_drop_bit 32 v), ucast (signed_drop_bit 24 v),
     ucast (signed_drop_bit 16 v), ucast (signed_drop_bit 8 v), ucast v]"

lemma unat_drop_bit_7_less:
  assumes "(v :: 64 word) \<ge> 0x80"
  shows "unat (drop_bit 7 v) < unat v"
proof -
  have "unat (drop_bit 7 v) = unat v div 128"
    by (simp add: unat_drop_bit_eq) (simp add: drop_bit_eq_div)
  moreover have "unat v > 0"
    using assms by (simp add: word_le_nat_alt)
  ultimately show ?thesis by simp
qed

function WriteUVarInt :: "u64 \<Rightarrow> writer \<Rightarrow> writer" where
  "WriteUVarInt v w =
     (if v \<ge> 0x80 then WriteUVarInt (drop_bit 7 v) (w @ [ucast v OR 0x80]) else w @ [ucast v])"
  by pat_completeness auto
termination
  by (relation "measure (\<lambda>(v, _). unat v)") (auto intro: unat_drop_bit_7_less)

declare WriteUVarInt.simps [simp del]

text \<open>\<^verbatim>\<open>uint64((value << 1) ^ (value >> 63))\<close>\<close>

definition zigzag :: "i64 \<Rightarrow> u64" where
  "zigzag v = push_bit 1 v XOR signed_drop_bit 63 v"

definition WriteVarInt :: "i64 \<Rightarrow> writer \<Rightarrow> writer" where
  "WriteVarInt v w = WriteUVarInt (zigzag v) w"

definition WriteUUID :: "bytes \<Rightarrow> writer \<Rightarrow> writer" where
  "WriteUUID v w = w @ v"

definition WriteString :: "gostring \<Rightarrow> writer \<Rightarrow> writer" where
  "WriteString s w = WriteInt16 (of_nat (length s)) w @ s"

definition WriteCompactString :: "gostring \<Rightarrow> writer \<Rightarrow> writer" where
  "WriteCompactString s w = WriteUVarInt (of_nat (length s + 1)) w @ s"

definition WriteNullableString :: "gostring option \<Rightarrow> writer \<Rightarrow> writer" where
  "WriteNullableString v w = (case v of None \<Rightarrow> WriteInt16 (-1) w | Some s \<Rightarrow> WriteString s w)"

definition WriteCompactNullableString :: "gostring option \<Rightarrow> writer \<Rightarrow> writer" where
  "WriteCompactNullableString v w =
     (case v of None \<Rightarrow> WriteUVarInt 0 w | Some s \<Rightarrow> WriteUVarInt (of_nat (length s + 1)) w @ s)"

definition WriteBytes :: "bytes \<Rightarrow> writer \<Rightarrow> writer" where
  "WriteBytes b w = WriteInt32 (of_nat (length b)) w @ b"

definition WriteCompactBytes :: "bytes \<Rightarrow> writer \<Rightarrow> writer" where
  "WriteCompactBytes b w = WriteUVarInt (of_nat (length b + 1)) w @ b"

definition WriteNullableBytes :: "bytes option \<Rightarrow> writer \<Rightarrow> writer" where
  "WriteNullableBytes v w =
     (case v of None \<Rightarrow> WriteInt32 (-1) w | Some b \<Rightarrow> WriteInt32 (of_nat (length b)) w @ b)"

definition WriteCompactNullableBytes :: "bytes option \<Rightarrow> writer \<Rightarrow> writer" where
  "WriteCompactNullableBytes v w =
     (case v of None \<Rightarrow> WriteUVarInt 0 w | Some b \<Rightarrow> WriteUVarInt (of_nat (length b + 1)) w @ b)"

definition WriteArrayLen :: "int \<Rightarrow> writer \<Rightarrow> writer" where
  "WriteArrayLen n w = WriteInt32 (word_of_int n) w"

definition WriteCompactArrayLen :: "int \<Rightarrow> writer \<Rightarrow> writer" where
  "WriteCompactArrayLen n w = WriteUVarInt (word_of_int n + 1) w"

definition WriteNullableArrayLen :: "int \<Rightarrow> bool \<Rightarrow> writer \<Rightarrow> writer" where
  "WriteNullableArrayLen n isNull w =
     (if isNull then WriteInt32 (-1) w else WriteInt32 (word_of_int n) w)"

definition WriteRaw :: "bytes \<Rightarrow> writer \<Rightarrow> writer" where
  "WriteRaw b w = w @ b"

definition WriteEmptyTaggedFields :: "writer \<Rightarrow> writer" where
  "WriteEmptyTaggedFields w = w @ [0x00]"

text \<open>\<^verbatim>\<open>bits.Len64\<close>: the number of bits needed to represent \<open>v\<close>, 0 for 0.\<close>

fun bits_len :: "nat \<Rightarrow> nat" where
  "bits_len n = (if n = 0 then 0 else Suc (bits_len (n div 2)))"

declare bits_len.simps [simp del]

definition UVarIntSize :: "u64 \<Rightarrow> nat" where
  "UVarIntSize v = (if v = 0 then 1 else (bits_len (unat v) + 6) div 7)"

definition WriteVarint :: "i64 \<Rightarrow> writer \<Rightarrow> writer" where
  "WriteVarint v w = WriteVarInt v w"

definition WriteVarlong :: "i64 \<Rightarrow> writer \<Rightarrow> writer" where
  "WriteVarlong v w = WriteVarInt v w"

definition WriteRecords :: "bytes option \<Rightarrow> writer \<Rightarrow> writer" where
  "WriteRecords v w =
     (case v of None \<Rightarrow> WriteInt32 (-1) w | Some b \<Rightarrow> WriteInt32 (of_nat (length b)) w @ b)"

definition WriteCompactRecords :: "bytes option \<Rightarrow> writer \<Rightarrow> writer" where
  "WriteCompactRecords v w =
     (case v of None \<Rightarrow> WriteUVarInt 0 w | Some b \<Rightarrow> WriteUVarInt (of_nat (length b + 1)) w @ b)"

definition WriteRecordHeader :: "RecordHeader \<Rightarrow> writer \<Rightarrow> writer" where
  "WriteRecordHeader h w =
     WriteBytes (HeaderValue h) (WriteVarint (HeaderValueLength h)
       (WriteString (HeaderKey h) (WriteVarint (HeaderKeyLength h) w)))"

definition WriteRecord :: "Record \<Rightarrow> writer \<Rightarrow> writer" where
  "WriteRecord rc w =
     fold WriteRecordHeader (rec_Headers rc)
       (WriteVarint (rec_HeadersCount rc) (WriteBytes (rec_Value rc)
         (WriteVarint (rec_ValueLength rc) (WriteBytes (rec_Key rc)
           (WriteVarint (rec_KeyLength rc) (WriteVarint (rec_OffsetDelta rc)
             (WriteInt8 (rec_Attributes rc) (WriteVarint (rec_Length rc) w))))))))"

section \<open>Every writer appends\<close>

lemma WriteInt16_be: "WriteInt16 v w = w @ be_enc 2 v"
  by (simp add: WriteInt16_def eval_nat_numeral)
     (rule bit_word_eqI; simp add: bit_simps)

lemma WriteInt32_be: "WriteInt32 v w = w @ be_enc 4 v"
  by (simp add: WriteInt32_def eval_nat_numeral, intro conjI)
     (rule bit_word_eqI; simp add: bit_simps)+

lemma WriteInt64_be: "WriteInt64 v w = w @ be_enc 8 v"
  by (simp add: WriteInt64_def eval_nat_numeral, intro conjI)
     (rule bit_word_eqI; simp add: bit_simps)+

lemmas Write_be = WriteInt16_be WriteInt32_be WriteInt64_be

lemma WriteUVarInt_append: "WriteUVarInt v w = w @ WriteUVarInt v []"
proof (induction v arbitrary: w rule: measure_induct_rule [of unat])
  case (less v)
  show ?case
  proof (cases "v \<ge> 0x80")
    case True
    let ?d = "drop_bit 7 v" and ?b = "ucast v OR 0x80 :: byte"
    have IH: "WriteUVarInt ?d u = u @ WriteUVarInt ?d []" for u
      using less unat_drop_bit_7_less [OF True] by blast
    have "WriteUVarInt v u = u @ ?b # WriteUVarInt ?d []" for u
      using True IH [of "u @ [?b]"] by (subst WriteUVarInt.simps) simp
    from this [of w] this [of "[]"] show ?thesis by simp
  next
    case False
    then show ?thesis
      by (simp add: WriteUVarInt.simps [of v])
  qed
qed

end
