(* ===== verification/Kaf_Codec.thy ===== *)
theory Kaf_Codec
  imports Kaf_Writer
begin

text \<open>
  The contract between \<^verbatim>\<open>protocol/writer.go\<close> and \<^verbatim>\<open>protocol/reader.go\<close>: the predicate
  \<open>decodes\<close>, its composition rules, the locale \<open>wire_codec\<close> and its interpretation on
  every pair of primitives that keeps it. The pairs that do not keep it (empty nullable
  strings, nullable compact bytes, record timestamps) are stated as what they really do.
\<close>

section \<open>Successful decoding\<close>

text \<open>
  \<open>decodes m bs x\<close>: wherever the bytes \<open>bs\<close> stand in a buffer, \<open>m\<close> started at their
  first byte returns \<open>x\<close> and leaves the cursor right behind them. The buffer is one Go
  can hold, so its length fits in an \<^verbatim>\<open>int\<close>.
\<close>

definition decodes :: "'a rd \<Rightarrow> bytes \<Rightarrow> 'a \<Rightarrow> bool" where
  "decodes m bs x \<longleftrightarrow> (\<forall>pre post. int (length (pre @ bs @ post)) < 2 ^ 63 \<longrightarrow>
     m \<lparr>buff = pre @ bs @ post, pos = int (length pre)\<rparr> =
       (Ok x, \<lparr>buff = pre @ bs @ post, pos = int (length (pre @ bs))\<rparr>))"

lemma decodesI:
  assumes "\<And>pre post. int (length (pre @ bs @ post)) < 2 ^ 63 \<Longrightarrow>
     m \<lparr>buff = pre @ bs @ post, pos = int (length pre)\<rparr> =
       (Ok x, \<lparr>buff = pre @ bs @ post, pos = int (length (pre @ bs))\<rparr>)"
  shows "decodes m bs x"
  using assms unfolding decodes_def by blast

lemma decodesD:
  assumes "decodes m bs x" and "int (length (pre @ bs @ post)) < 2 ^ 63"
  shows "m \<lparr>buff = pre @ bs @ post, pos = int (length pre)\<rparr> =
    (Ok x, \<lparr>buff = pre @ bs @ post, pos = int (length (pre @ bs))\<rparr>)"
  using assms unfolding decodes_def by blast

text \<open>The encoding may be assumed to fit in a buffer.\<close>

lemma decodes_bounded:
  assumes "int (length bs) < 2 ^ 63 \<Longrightarrow> decodes m bs x"
  shows "decodes m bs x"
  using assms unfolding decodes_def by fastforce

lemma decodes_rret: "decodes (rret x) [] x"
  by (rule decodesI) (simp add: rret_def)

lemma decodes_rretI [decodes_intros]: "x = y \<Longrightarrow> decodes (rret x) [] y"
  by (simp add: decodes_rret)

lemma decodes_rbind:
  assumes "decodes m bs x" and "decodes (f x) cs y"
  shows "decodes (rbind m f) (bs @ cs) y"
proof (rule decodesI)
  fix pre post :: bytes
  assume len: "int (length (pre @ (bs @ cs) @ post)) < 2 ^ 63"
  have "m \<lparr>buff = pre @ bs @ (cs @ post), pos = int (length pre)\<rparr> =
      (Ok x, \<lparr>buff = pre @ bs @ (cs @ post), pos = int (length (pre @ bs))\<rparr>)"
    by (rule decodesD [OF assms(1)]) (use len in simp)
  moreover have "f x \<lparr>buff = (pre @ bs) @ cs @ post, pos = int (length (pre @ bs))\<rparr> =
      (Ok y, \<lparr>buff = (pre @ bs) @ cs @ post, pos = int (length ((pre @ bs) @ cs))\<rparr>)"
    by (rule decodesD [OF assms(2)]) (use len in simp)
  ultimately show "rbind m f \<lparr>buff = pre @ (bs @ cs) @ post, pos = int (length pre)\<rparr> =
      (Ok y, \<lparr>buff = pre @ (bs @ cs) @ post, pos = int (length (pre @ bs @ cs))\<rparr>)"
    by (simp add: rbind_def)
qed

lemma decodes_rbind_last:
  assumes "decodes m bs x" and "decodes (f x) [] y"
  shows "decodes (rbind m f) bs y"
  using decodes_rbind [of m bs x f "[]" y] assms by simp

text \<open>A decoder step that only inspects the buffer's length, and one that takes \<open>n\<close> bytes.\<close>

lemma require_take:
  assumes "0 \<le> n" "nat n = length bs" and "decodes (f bs) cs y"
  shows "decodes (rbind (require n) (\<lambda>_. rbind (take_raw n) f)) (bs @ cs) y"
proof (rule decodesI)
  fix pre post :: bytes
  assume len: "int (length (pre @ (bs @ cs) @ post)) < 2 ^ 63"
  have n: "n = int (length bs)" using assms by simp
  have w: "wrap64 (int (length pre) + n) = int (length pre) + int (length bs)"
    unfolding n using len by (intro wrap64_id) auto
  have "f bs \<lparr>buff = (pre @ bs) @ cs @ post, pos = int (length (pre @ bs))\<rparr> =
      (Ok y, \<lparr>buff = (pre @ bs) @ cs @ post, pos = int (length ((pre @ bs) @ cs))\<rparr>)"
    by (rule decodesD [OF assms(3)]) (use len in simp)
  then show "rbind (require n) (\<lambda>_. rbind (take_raw n) f)
        \<lparr>buff = pre @ (bs @ cs) @ post, pos = int (length pre)\<rparr> =
      (Ok y, \<lparr>buff = pre @ (bs @ cs) @ post, pos = int (length (pre @ bs @ cs))\<rparr>)"
    using len by (simp add: rbind_def require_def take_raw_def w)
qed

lemma rbind_rret [simp]: "rbind m rret = m"
  by (rule ext) (simp add: rbind_def rret_def split: prod.splits res.splits)

lemma rbind_rret_left [simp]: "rbind (rret x) f = f x"
  by (simp add: rbind_def rret_def)

lemma rbind_assoc: "rbind (rbind m f) g = rbind m (\<lambda>x. rbind (f x) g)"
  by (rule ext) (simp add: rbind_def split: prod.splits res.splits)

lemma require_take_last:
  assumes "0 \<le> n" "nat n = length bs"
  shows "decodes (rbind (require n) (\<lambda>_. take_raw n)) bs bs"
  using require_take [OF assms, of rret "[]" bs] by (simp add: decodes_rret)

lemma require_take_ret:
  assumes "0 \<le> n" "nat n = length bs" "y = g bs"
  shows "decodes (rbind (require n) (\<lambda>_. rbind (take_raw n) (\<lambda>b. rret (g b)))) bs y"
  using require_take [OF assms(1,2), of "\<lambda>b. rret (g b)" "[]" y] assms(3)
  by (simp add: decodes_rret)

section \<open>The contract\<close>

text \<open>
  The array idiom of the message encoders and decoders: the writer emits the length and
  loops over the elements; the reader either allocates \<^verbatim>\<open>make([]T, n)\<close>, which panics
  on the null array's length \<open>-1\<close>, or appends in a loop, which then does nothing.
\<close>

definition write_array :: "('a \<Rightarrow> writer \<Rightarrow> writer) \<Rightarrow> 'a list \<Rightarrow> writer \<Rightarrow> writer" where
  "write_array wr xs w = fold wr xs (WriteCompactArrayLen (int (length xs)) w)"

definition read_make_array :: "'a rd \<Rightarrow> 'a list rd" where
  "read_make_array rd = rbind ReadCompactArrayLen (\<lambda>n.
     if n < 0 then rpanic else rtimes (nat n) rd)"

definition read_append_array :: "'a rd \<Rightarrow> 'a list rd" where
  "read_append_array rd = rbind ReadCompactArrayLen (\<lambda>n. rtimes (nat n) rd)"

locale wire_codec =
  fixes wr :: "'a \<Rightarrow> writer \<Rightarrow> writer"
    and rd :: "'a rd"
    and valid :: "'a \<Rightarrow> bool"
  assumes wr_append: "wr x w = w @ wr x []"
    and wr_nonempty: "valid x \<Longrightarrow> wr x [] \<noteq> []"
    and rd_wr: "valid x \<Longrightarrow> decodes rd (wr x []) x"
begin

lemma roundtrip:
  assumes "valid x" "int (length (wr x [])) < 2 ^ 63"
  shows "rd (NewReader (wr x [])) = (Ok x, \<lparr>buff = wr x [], pos = int (length (wr x []))\<rparr>)"
  using decodesD [OF rd_wr [OF assms(1)], of "[]" "[]"] assms(2) by (simp add: NewReader_def)

text \<open>No encoding is a proper prefix of another one, so a stream parses in one way only.\<close>

lemma prefix_free:
  assumes "valid x" "valid y" "wr x [] @ p = wr y [] @ q"
    and "int (length (wr x [] @ p)) < 2 ^ 63"
  shows "x = y \<and> p = q"
proof -
  have "rd \<lparr>buff = wr x [] @ p, pos = 0\<rparr> =
      (Ok x, \<lparr>buff = wr x [] @ p, pos = int (length (wr x []))\<rparr>)"
    using decodesD [OF rd_wr [OF assms(1)], of "[]" p] assms(4) by simp
  moreover have "rd \<lparr>buff = wr y [] @ q, pos = 0\<rparr> =
      (Ok y, \<lparr>buff = wr y [] @ q, pos = int (length (wr y []))\<rparr>)"
    using decodesD [OF rd_wr [OF assms(2)], of "[]" q] assms(3,4) by simp
  ultimately show ?thesis using assms(3) by auto
qed

lemma fold_append: "fold wr xs w = w @ concat (map (\<lambda>x. wr x []) xs)"
proof (induction xs arbitrary: w)
  case Nil
  show ?case by simp
next
  case (Cons x xs)
  show ?case by (simp add: Cons wr_append [of x w])
qed

lemma length_fold: "\<forall>x\<in>set xs. valid x \<Longrightarrow> length xs \<le> length (fold wr xs [])"
proof (induction xs)
  case Nil
  show ?case by simp
next
  case (Cons x xs)
  then have "Suc 0 \<le> length (wr x [])" using wr_nonempty [of x] by (cases "wr x []") auto
  with Cons show ?case by (simp add: fold_append)
qed

lemma rtimes_fold: "\<forall>x\<in>set xs. valid x \<Longrightarrow> decodes (rtimes (length xs) rd) (fold wr xs []) xs"
proof (induction xs)
  case Nil
  show ?case by (simp add: decodes_rret)
next
  case (Cons x xs)
  have "decodes (rbind rd (\<lambda>x. rbind (rtimes (length xs) rd) (\<lambda>xs. rret (x # xs))))
      (wr x [] @ fold wr xs []) (x # xs)"
    using Cons by (intro decodes_rbind [OF rd_wr] decodes_rbind_last [of _ _ xs] decodes_rret) auto
  then show ?case by (simp add: fold_append)
qed

end

section \<open>Fixed-width integers\<close>

interpretation bool: wire_codec WriteBool ReadBool "\<lambda>_. True"
proof
  show "WriteBool x w = w @ WriteBool x []" for x w
    by (simp add: WriteBool_def)
  show "WriteBool x [] \<noteq> []" for x
    by (simp add: WriteBool_def)
  show "decodes ReadBool (WriteBool x []) x" for x
    unfolding ReadBool_def WriteBool_def by (rule require_take_ret) auto
qed

interpretation int8: wire_codec WriteInt8 ReadInt8 "\<lambda>_. True"
proof
  show "WriteInt8 x w = w @ WriteInt8 x []" for x w
    by (simp add: WriteInt8_def)
  show "WriteInt8 x [] \<noteq> []" for x
    by (simp add: WriteInt8_def)
  show "decodes ReadInt8 (WriteInt8 x []) x" for x
    unfolding ReadInt8_def WriteInt8_def by (rule require_take_ret) (auto simp: be_dec_def)
qed

interpretation int16: wire_codec WriteInt16 ReadInt16 "\<lambda>_. True"
proof
  show "WriteInt16 x w = w @ WriteInt16 x []" for x w
    by (simp add: Write_be)
  show "WriteInt16 x [] \<noteq> []" for x
    by (simp add: WriteInt16_def)
  show "decodes ReadInt16 (WriteInt16 x []) x" for x
    unfolding ReadInt16_def Write_be by (simp, rule require_take_ret) auto
qed

interpretation int32: wire_codec WriteInt32 ReadInt32 "\<lambda>_. True"
proof
  show "WriteInt32 x w = w @ WriteInt32 x []" for x w
    by (simp add: Write_be)
  show "WriteInt32 x [] \<noteq> []" for x
    by (simp add: WriteInt32_def)
  show "decodes ReadInt32 (WriteInt32 x []) x" for x
    unfolding ReadInt32_def Write_be by (simp, rule require_take_ret) auto
qed

interpretation int64: wire_codec WriteInt64 ReadInt64 "\<lambda>_. True"
proof
  show "WriteInt64 x w = w @ WriteInt64 x []" for x w
    by (simp add: Write_be)
  show "WriteInt64 x [] \<noteq> []" for x
    by (simp add: WriteInt64_def)
  show "decodes ReadInt64 (WriteInt64 x []) x" for x
    unfolding ReadInt64_def Write_be by (simp, rule require_take_ret) auto
qed


section \<open>Variable-length integers\<close>

lemma bit_0x7f: "bit (0x7f :: 'a::len word) k \<longleftrightarrow> k < 7 \<and> k < LENGTH('a)"
proof -
  have "(0x7f :: 'a word) = mask 7" by (simp add: mask_eq_exp_minus_1)
  then show ?thesis by (simp only: bit_mask_iff) (auto simp: min_def)
qed

lemma bit_0x80: "bit (0x80 :: byte) k \<longleftrightarrow> k = 7"
proof -
  have "(0x80 :: byte) = 2 ^ 7" by simp
  then show ?thesis by (simp only: bit_exp_iff) (auto simp: possible_bit_def)
qed

lemmas bit_uvarint = bit_or_iff bit_and_iff bit_unsigned_iff bit_push_bit_iff bit_drop_bit_eq
  bit_take_bit_iff bit_0x7f bit_0x80 comp_apply

lemma uvarint_byte_low:
  "(ucast ((ucast (v :: u64) OR 0x80 :: byte) AND 0x7f) :: u64) = v AND 0x7f"
  by (rule bit_word_eqI, simp only: bit_uvarint) auto

lemma uvarint_byte_last:
  "(ucast (ucast (v :: u64) AND 0x7f :: byte) :: u64) = take_bit 7 v"
  by (rule bit_word_eqI, simp only: bit_uvarint) auto

lemma uvarint_byte_high: "\<not> (ucast (v :: u64) OR 0x80 :: byte) < 0x80"
proof -
  have "0x80 AND (ucast v OR 0x80 :: byte) = 0x80"
    by (rule bit_word_eqI) (auto simp: bit_simps)
  then have "(0x80 :: byte) \<le> (ucast v OR 0x80)"
    by (metis word_and_le1 and.commute)
  then show ?thesis by simp
qed

lemma uvarint_join:
  "(result OR push_bit s (v AND 0x7f)) OR push_bit (s + 7) (drop_bit 7 v) =
     result OR push_bit s (v :: u64)"
proof -
  have "push_bit s (v AND 0x7f) OR push_bit (s + 7) (drop_bit 7 v) = push_bit s v"
  proof (rule bit_word_eqI)
    fix n
    show "bit (push_bit s (v AND 0x7f) OR push_bit (s + 7) (drop_bit 7 v)) n =
        bit (push_bit s v) n"
    proof (cases "s + 7 \<le> n")
      case True
      then have "7 + (n - (s + 7)) = n - s" by simp
      with True show ?thesis
        by (simp only: bit_uvarint) (auto dest: bit_imp_le_length)
    qed (simp only: bit_uvarint, auto)
  qed
  then show ?thesis by (metis or.assoc)
qed

lemma uvarint_step:
  assumes "int (length (pre @ b # post)) < 2 ^ 63"
  shows "uvarint_loop s result \<lparr>buff = pre @ b # post, pos = int (length pre)\<rparr> =
    (let r' = \<lparr>buff = (pre @ [b]) @ post, pos = int (length (pre @ [b]))\<rparr>;
         result' = result OR push_bit s (ucast (b AND 0x7f)) in
     if s = 63 \<and> b > 0x01 then (Err (GoErr ''uvarint: overflow''), r')
     else if b < 0x80 then (Ok result', r')
     else if s + 7 \<ge> 64 then (Err (GoErr ''uvarint: overflow''), r')
     else uvarint_loop (s + 7) result' r')"
proof -
  have "rbind (require 1) (\<lambda>_. take_raw 1) \<lparr>buff = pre @ [b] @ post, pos = int (length pre)\<rparr> =
      (Ok [b], \<lparr>buff = pre @ [b] @ post, pos = int (length (pre @ [b]))\<rparr>)"
    by (rule decodesD [OF require_take_last]) (use assms in auto)
  then show ?thesis
    by (subst uvarint_loop.simps) (simp add: Let_def)
qed

lemma uvarint_loop_decodes:
  assumes "unat v < 2 ^ (64 - s)" "s < 64"
  shows "decodes (uvarint_loop s result) (WriteUVarInt v []) (result OR push_bit s v)"
  using assms
proof (induction v arbitrary: s result rule: measure_induct_rule [of unat])
  case (less v)
  show ?case
  proof (cases "v \<ge> 0x80")
    case False
    then have W: "WriteUVarInt v [] = [ucast v]"
      by (subst WriteUVarInt.simps) simp
    have small: "unat v < 128"
      using False by (simp add: word_le_nat_alt)
    have ub: "unat (ucast v :: byte) = unat v"
      using small by (simp add: unsigned_ucast_eq take_bit_nat_eq_self)
    have b: "(ucast v :: byte) < 0x80"
      using small by (simp add: word_less_nat_alt ub)
    have low: "(ucast (ucast v AND 0x7f :: byte) :: u64) = v"
      using small unfolding uvarint_byte_last
      by (simp add: word_unat_eq_iff unsigned_take_bit_eq take_bit_nat_eq_self)
    have last: "\<not> (s = 63 \<and> (ucast v :: byte) > 1)"
      using less.prems small by (auto simp: word_less_nat_alt ub)
    show ?thesis
      unfolding W by (rule decodesI, simp, subst uvarint_step) (use b low last in \<open>auto simp: Let_def\<close>)
  next
    case True
    let ?d = "drop_bit 7 v" and ?b = "ucast v OR 0x80 :: byte"
    have W: "WriteUVarInt v [] = ?b # WriteUVarInt ?d []"
      using True by (subst WriteUVarInt.simps) (simp add: WriteUVarInt_append [of ?d "[?b]"])
    have "(128 :: nat) \<le> unat v" using True by (simp add: word_le_nat_alt)
    with less.prems have "(2::nat) ^ 7 < 2 ^ (64 - s)" by simp
    then have "7 < 64 - s" using power_less_imp_less_exp [of "2::nat" 7 "64 - s"] by simp
    then have s: "s + 7 < 64" by arith
    have "unat ?d = unat v div 2 ^ 7"
      by (simp add: unat_drop_bit_eq) (simp add: drop_bit_eq_div)
    moreover have "unat v < 2 ^ (64 - (s + 7)) * 2 ^ 7"
    proof -
      have "64 - s = (64 - (s + 7)) + 7" using s by arith
      then show ?thesis using less.prems by (metis power_add)
    qed
    ultimately have d: "unat ?d < 2 ^ (64 - (s + 7))"
      by (simp only: less_mult_imp_div_less)
    have IH: "decodes (uvarint_loop (s + 7) res) (WriteUVarInt ?d []) (res OR push_bit (s + 7) ?d)" for res
      by (rule less.IH [OF unat_drop_bit_7_less [OF True] d s])
    show ?thesis
    proof (rule decodesI)
      fix pre post :: bytes
      assume len: "int (length (pre @ WriteUVarInt v [] @ post)) < 2 ^ 63"
      let ?r = "result OR push_bit s (v AND 0x7f)"
      have "uvarint_loop (s + 7) ?r \<lparr>buff = (pre @ [?b]) @ WriteUVarInt ?d [] @ post,
            pos = int (length (pre @ [?b]))\<rparr> =
          (Ok (?r OR push_bit (s + 7) ?d), \<lparr>buff = (pre @ [?b]) @ WriteUVarInt ?d [] @ post,
            pos = int (length ((pre @ [?b]) @ WriteUVarInt ?d []))\<rparr>)"
        by (rule decodesD [OF IH]) (use len in \<open>simp add: W\<close>)
      then show "uvarint_loop s result \<lparr>buff = pre @ WriteUVarInt v [] @ post, pos = int (length pre)\<rparr> =
          (Ok (result OR push_bit s v), \<lparr>buff = pre @ WriteUVarInt v [] @ post,
            pos = int (length (pre @ WriteUVarInt v []))\<rparr>)"
        using len s uvarint_byte_high [of v] uvarint_join [of result s v]
        by (simp add: W uvarint_step Let_def uvarint_byte_low)
    qed
  qed
qed

lemma WriteUVarInt_nonempty [simp]: "WriteUVarInt v w \<noteq> []"
proof -
  have "WriteUVarInt v [] \<noteq> []"
    by (subst WriteUVarInt.simps) (simp add: WriteUVarInt_append [of "drop_bit 7 v" "[_]"])
  then show ?thesis by (simp add: WriteUVarInt_append [of v w])
qed

interpretation uvarint: wire_codec WriteUVarInt ReadUVarInt "\<lambda>_. True"
proof
  show "WriteUVarInt x w = w @ WriteUVarInt x []" for x w
    by (rule WriteUVarInt_append)
  show "WriteUVarInt x [] \<noteq> []" for x
    by (rule WriteUVarInt_nonempty)
  show "decodes ReadUVarInt (WriteUVarInt x []) x" for x
    using uvarint_loop_decodes [of x 0 0] unsigned_less [of x] by (simp add: ReadUVarInt_def)
qed

lemma bit_zigzag:
  "n < 64 \<Longrightarrow> bit (zigzag v) n \<longleftrightarrow> (0 < n \<and> bit v (n - 1)) \<noteq> bit v 63"
  unfolding zigzag_def bit_xor_iff bit_push_bit_iff bit_signed_drop_bit_iff
  by (cases n) (auto simp: possible_bit_def)

lemma bit_zigzag_Suc:
  "n < 64 \<Longrightarrow> bit (zigzag v) (Suc n) \<longleftrightarrow> n \<noteq> 63 \<and> bit v n \<noteq> bit v 63"
  using bit_zigzag [of "Suc n" v] bit_imp_le_length [of "zigzag v" "Suc n"]
  by (cases "n = 63") auto

lemma unzigzag_zigzag [simp]: "unzigzag (zigzag v) = v"
proof -
  have "zigzag v AND 1 = of_bool (bit v 63)"
    by (rule bit_word_eqI) (auto simp: bit_and_iff bit_1_iff bit_zigzag bit_of_bool_iff)
  then have "- (zigzag v AND 1) = (if bit v 63 then -1 else 0)"
    by simp
  then show ?thesis
    unfolding unzigzag_def
    by (auto intro!: bit_word_eqI simp: bit_not_iff bit_xor_iff bit_drop_bit_eq bit_zigzag_Suc)
qed

interpretation varint: wire_codec WriteVarint ReadVarint "\<lambda>_. True"
proof
  show "WriteVarint x w = w @ WriteVarint x []" for x w
    unfolding WriteVarint_def WriteVarInt_def by (rule WriteUVarInt_append)
  show "WriteVarint x [] \<noteq> []" for x
    by (simp add: WriteVarint_def WriteVarInt_def)
  show "decodes ReadVarint (WriteVarint x []) x" for x
    unfolding ReadVarint_def WriteVarint_def WriteVarInt_def
    by (rule decodes_rbind_last [OF uvarint.rd_wr]) (simp_all add: decodes_rret)
qed

section \<open>Strings and byte arrays\<close>

lemma sint_of_nat_16: "n < 2 ^ 15 \<Longrightarrow> sint (of_nat n :: i16) = int n"
  by (simp add: signed_of_nat signed_take_bit_int_eq_self)

lemma sint_of_nat_32: "n < 2 ^ 31 \<Longrightarrow> sint (of_nat n :: i32) = int n"
  by (simp add: signed_of_nat signed_take_bit_int_eq_self)

lemma sint_of_nat_64: "n < 2 ^ 63 \<Longrightarrow> sint (of_nat n :: i64) = int n"
  by (simp add: signed_of_nat signed_take_bit_int_eq_self)

lemma compact_len [simp]:
  "int n < 9223372036854775807 \<Longrightarrow> sint (of_nat (n + 1) - 1 :: u64) = int n"
  using sint_of_nat_64 [of n] by simp

text \<open>A compact length is never the null marker 0.\<close>

lemma compact_len_nonzero [simp]:
  assumes "int n < 9223372036854775807"
  shows "(of_nat (n + 1) :: u64) \<noteq> 0"
  using compact_len [OF assms] assms by (metis diff_0 of_nat_0_le_iff signed_minus_1 neg_0_le_iff_le not_one_le_zero)

text \<open>
  The compact forms: a length \<open>n + 1\<close> as a variable-length integer, then \<open>n\<close> bytes. The
  length is in range because the bytes fit in the buffer.
\<close>

lemma decodes_compact:
  assumes "int (length b) < 9223372036854775807 \<Longrightarrow> decodes (k (of_nat (length b + 1))) b x"
  shows "decodes (rbind ReadUVarInt k) (WriteUVarInt (of_nat (length b + 1)) [] @ b) x"
proof (rule decodes_bounded)
  let ?wl = "WriteUVarInt (of_nat (length b + 1)) []"
  assume "int (length (?wl @ b)) < 2 ^ 63"
  moreover have "1 \<le> int (length ?wl)" using WriteUVarInt_nonempty
    by (metis One_nat_def Suc_leI length_greater_0_conv of_nat_1 of_nat_le_iff)
  ultimately have "int (length b) < 9223372036854775807" by simp
  then show "decodes (rbind ReadUVarInt k) (?wl @ b) x"
    by (intro decodes_rbind [OF uvarint.rd_wr] assms) auto
qed

interpretation uuid: wire_codec WriteUUID ReadUUID "\<lambda>v. length v = 16"
proof
  show "WriteUUID x w = w @ WriteUUID x []" for x w
    by (simp add: WriteUUID_def)
  show "WriteUUID x [] \<noteq> []" if "length x = 16" for x
    using that by (auto simp: WriteUUID_def)
  show "decodes ReadUUID (WriteUUID x []) x" if "length x = 16" for x
    unfolding ReadUUID_def WriteUUID_def using require_take_last [of 16 x] that by simp
qed

interpretation string: wire_codec WriteString ReadString "\<lambda>s. length s < 2 ^ 15"
proof
  show "WriteString x w = w @ WriteString x []" for x w
    by (simp add: WriteString_def Write_be)
  show "WriteString x [] \<noteq> []" for x
    by (simp add: WriteString_def WriteInt16_def)
  show "decodes ReadString (WriteString x []) x" if "length x < 2 ^ 15" for x
    unfolding ReadString_def WriteString_def
    by (rule decodes_rbind [OF int16.rd_wr])
       (use that in \<open>simp_all add: sint_of_nat_16 require_take_last\<close>)
qed

interpretation compact_string: wire_codec WriteCompactString ReadCompactString "\<lambda>_. True"
proof
  show "WriteCompactString x w = w @ WriteCompactString x []" for x w
    by (simp add: WriteCompactString_def WriteUVarInt_append [of _ w])
  show "WriteCompactString x [] \<noteq> []" for x
    by (simp add: WriteCompactString_def)
  show "decodes ReadCompactString (WriteCompactString x []) x" for x
    unfolding ReadCompactString_def WriteCompactString_def
    by (rule decodes_compact, frule compact_len) (auto simp: require_take_last decodes_rret)
qed

interpretation compact_nullable_string:
  wire_codec WriteCompactNullableString ReadCompactNullableString "\<lambda>_. True"
proof
  show "WriteCompactNullableString x w = w @ WriteCompactNullableString x []" for x w
    by (simp add: WriteCompactNullableString_def WriteUVarInt_append [of _ w] split: option.splits)
  show "WriteCompactNullableString x [] \<noteq> []" for x
    by (simp add: WriteCompactNullableString_def split: option.splits)
  show "decodes ReadCompactNullableString (WriteCompactNullableString x []) x" for x
  proof (cases x)
    case None
    then show ?thesis
      unfolding ReadCompactNullableString_def WriteCompactNullableString_def
      by (simp, intro decodes_rbind_last [OF uvarint.rd_wr]) (simp_all add: decodes_rret)
  next
    case (Some s)
    have "decodes ReadCompactNullableString (WriteUVarInt (of_nat (length s + 1)) [] @ s) (Some s)"
      unfolding ReadCompactNullableString_def
      by (rule decodes_compact, frule compact_len, frule compact_len_nonzero)
         (auto simp: Let_def decodes_rret intro!: require_take_ret)
    then show ?thesis by (simp only: Some WriteCompactNullableString_def option.case)
  qed
qed

text \<open>\<^verbatim>\<open>ReadNullableString\<close> refuses the length 0 that the writer emits for an empty string.\<close>

interpretation nullable_string: wire_codec WriteNullableString ReadNullableString
  "\<lambda>v. case v of None \<Rightarrow> True | Some s \<Rightarrow> s \<noteq> [] \<and> length s < 2 ^ 15"
proof
  show "WriteNullableString x w = w @ WriteNullableString x []" for x w
    by (simp add: WriteNullableString_def WriteString_def Write_be split: option.splits)
  show "WriteNullableString x [] \<noteq> []" for x
    by (simp add: WriteNullableString_def WriteString_def WriteInt16_def split: option.splits)
  show "decodes ReadNullableString (WriteNullableString x []) x"
    if v: "case x of None \<Rightarrow> True | Some s \<Rightarrow> s \<noteq> [] \<and> length s < 2 ^ 15" for x
  proof (cases x)
    case None
    then show ?thesis
      unfolding ReadNullableString_def WriteNullableString_def
      by (simp, intro decodes_rbind_last [OF int16.rd_wr]) (simp_all add: decodes_rret)
  next
    case (Some s)
    with v have "Suc 0 \<le> length s" "length s < 2 ^ 15" by (auto simp: Suc_le_eq)
    with Some show ?thesis
      unfolding ReadNullableString_def WriteNullableString_def WriteString_def
      by (simp, intro decodes_rbind [OF int16.rd_wr])
         (auto simp: sint_of_nat_16 intro!: require_take_ret)
  qed
qed

interpretation bytes: wire_codec WriteBytes ReadBytes "\<lambda>b. length b < 2 ^ 31"
proof
  show "WriteBytes x w = w @ WriteBytes x []" for x w
    by (simp add: WriteBytes_def Write_be)
  show "WriteBytes x [] \<noteq> []" for x
    by (simp add: WriteBytes_def WriteInt32_def)
  show "decodes ReadBytes (WriteBytes x []) x" if "length x < 2 ^ 31" for x
    unfolding ReadBytes_def WriteBytes_def
    by (rule decodes_rbind [OF int32.rd_wr])
       (use that in \<open>simp_all add: sint_of_nat_32 require_take_last\<close>)
qed

interpretation compact_bytes: wire_codec WriteCompactBytes ReadCompactBytes "\<lambda>_. True"
proof
  show "WriteCompactBytes x w = w @ WriteCompactBytes x []" for x w
    by (simp add: WriteCompactBytes_def WriteUVarInt_append [of _ w])
  show "WriteCompactBytes x [] \<noteq> []" for x
    by (simp add: WriteCompactBytes_def)
  show "decodes ReadCompactBytes (WriteCompactBytes x []) x" for x
    unfolding ReadCompactBytes_def WriteCompactBytes_def
    by (rule decodes_compact, frule compact_len) (auto simp: Let_def require_take_last)
qed

interpretation nullable_bytes: wire_codec WriteNullableBytes ReadNullableBytes
  "\<lambda>v. case v of None \<Rightarrow> True | Some b \<Rightarrow> length b < 2 ^ 31"
proof
  show "WriteNullableBytes x w = w @ WriteNullableBytes x []" for x w
    by (simp add: WriteNullableBytes_def Write_be split: option.splits)
  show "WriteNullableBytes x [] \<noteq> []" for x
    by (simp add: WriteNullableBytes_def WriteInt32_def split: option.splits)
  show "decodes ReadNullableBytes (WriteNullableBytes x []) x"
    if "case x of None \<Rightarrow> True | Some b \<Rightarrow> length b < 2 ^ 31" for x
  proof (cases x)
    case None
    then show ?thesis
      unfolding ReadNullableBytes_def WriteNullableBytes_def
      by (simp, intro decodes_rbind_last [OF int32.rd_wr]) (simp_all add: decodes_rret)
  next
    case (Some s)
    with that show ?thesis
      unfolding ReadNullableBytes_def WriteNullableBytes_def
      by (simp, intro decodes_rbind [OF int32.rd_wr])
         (auto simp: sint_of_nat_32 intro!: require_take_ret)
  qed
qed

interpretation compact_records: wire_codec WriteCompactRecords ReadCompactRecords "\<lambda>_. True"
proof
  show "WriteCompactRecords x w = w @ WriteCompactRecords x []" for x w
    by (simp add: WriteCompactRecords_def WriteUVarInt_append [of _ w] split: option.splits)
  show "WriteCompactRecords x [] \<noteq> []" for x
    by (simp add: WriteCompactRecords_def split: option.splits)
  show "decodes ReadCompactRecords (WriteCompactRecords x []) x" for x
  proof (cases x)
    case None
    then show ?thesis
      unfolding ReadCompactRecords_def WriteCompactRecords_def
      by (simp, intro decodes_rbind_last [OF uvarint.rd_wr]) (simp_all add: decodes_rret)
  next
    case (Some s)
    have "decodes ReadCompactRecords (WriteUVarInt (of_nat (length s + 1)) [] @ s) (Some s)"
      unfolding ReadCompactRecords_def
      by (rule decodes_compact, frule compact_len, frule compact_len_nonzero)
         (auto simp: Let_def intro!: require_take_ret)
    then show ?thesis by (simp only: Some WriteCompactRecords_def option.case)
  qed
qed

section \<open>Arrays and tagged fields\<close>

interpretation compact_array_len: wire_codec WriteCompactArrayLen ReadCompactArrayLen
  "\<lambda>n. -1 \<le> n \<and> n < 2 ^ 63"
proof
  show "WriteCompactArrayLen x w = w @ WriteCompactArrayLen x []" for x w
    by (simp add: WriteCompactArrayLen_def WriteUVarInt_append [of _ w])
  show "WriteCompactArrayLen x [] \<noteq> []" for x
    by (simp add: WriteCompactArrayLen_def)
  show "decodes ReadCompactArrayLen (WriteCompactArrayLen x []) x" if "-1 \<le> x \<and> x < 2 ^ 63" for x
  proof -
    have sx: "sint (word_of_int x :: 64 word) = x"
      using that by (simp add: sint_sbintrunc' signed_take_bit_int_eq_self)
    have z: "x = -1" if "(word_of_int x + 1 :: 64 word) = 0"
    proof -
      have "(word_of_int x :: 64 word) = -1" using that by (simp add: eq_neg_iff_add_eq_0)
      with sx show ?thesis by simp
    qed
    show ?thesis
      unfolding ReadCompactArrayLen_def WriteCompactArrayLen_def
      by (rule decodes_rbind_last [OF uvarint.rd_wr]) (use z sx in \<open>auto simp: decodes_rret\<close>)
  qed
qed

lemma tagged_fields_decodes [decodes_intros]: "decodes ReadTaggedFields (WriteEmptyTaggedFields []) ()"
proof -
  have W: "WriteEmptyTaggedFields [] = WriteUVarInt 0 []"
    by (simp add: WriteEmptyTaggedFields_def WriteUVarInt.simps)
  show ?thesis
    unfolding ReadTaggedFields_def W
    by (rule decodes_rbind_last [OF uvarint.rd_wr])
       (simp, simp, (rule decodes_rbind_last decodes_rret)+)
qed

context wire_codec
begin

lemma write_array_append: "write_array wr xs w = w @ write_array wr xs []"
  unfolding write_array_def fold_append by (simp add: compact_array_len.wr_append [of _ w])

lemma array_decodes:
  assumes "\<forall>x\<in>set xs. valid x"
    and rd: "\<And>n. 0 \<le> n \<Longrightarrow> f n = rtimes (nat n) rd"
  shows "decodes (rbind ReadCompactArrayLen f) (write_array wr xs []) xs"
proof (rule decodes_bounded)
  let ?n = "WriteCompactArrayLen (int (length xs)) []"
  have W: "write_array wr xs [] = ?n @ fold wr xs []"
    by (simp add: write_array_def fold_append)
  assume "int (length (write_array wr xs [])) < 2 ^ 63"
  with length_fold [OF assms(1)] have "int (length xs) < 2 ^ 63"
    unfolding W by simp
  then show "decodes (rbind ReadCompactArrayLen f) (write_array wr xs []) xs"
    unfolding W
    by (intro decodes_rbind [OF compact_array_len.rd_wr]) (simp_all add: rd rtimes_fold assms(1))
qed

lemma make_array_decodes:
  "\<forall>x\<in>set xs. valid x \<Longrightarrow> decodes (read_make_array rd) (write_array wr xs []) xs"
  unfolding read_make_array_def by (rule array_decodes) auto

lemma append_array_decodes:
  "\<forall>x\<in>set xs. valid x \<Longrightarrow> decodes (read_append_array rd) (write_array wr xs []) xs"
  unfolding read_append_array_def by (rule array_decodes) auto

end

text \<open>
  The facts the message codecs use: with these as simplification and introduction rules a
  message decodes because its fields do, in the order they were written.
\<close>

lemma WriteRaw_append: "WriteRaw b w = w @ WriteRaw b []"
  by (simp add: WriteRaw_def)

lemma WriteEmptyTaggedFields_append: "WriteEmptyTaggedFields w = w @ WriteEmptyTaggedFields []"
  by (simp add: WriteEmptyTaggedFields_def)

lemma WriteEmptyTaggedFields_nonempty [simp]: "WriteEmptyTaggedFields w \<noteq> []"
  by (simp add: WriteEmptyTaggedFields_def)

lemma NO_MATCH_append:
  assumes "\<And>x w. wr x w = w @ wr x []"
  shows "NO_MATCH [] w \<Longrightarrow> wr x w = w @ wr x []"
  using assms by blast

lemmas [appends_simps] =
  NO_MATCH_append [OF bool.wr_append] NO_MATCH_append [OF int8.wr_append]
  NO_MATCH_append [OF int16.wr_append] NO_MATCH_append [OF int32.wr_append]
  NO_MATCH_append [OF int64.wr_append] NO_MATCH_append [OF uvarint.wr_append]
  NO_MATCH_append [OF varint.wr_append] NO_MATCH_append [OF uuid.wr_append]
  NO_MATCH_append [OF string.wr_append] NO_MATCH_append [OF compact_string.wr_append]
  NO_MATCH_append [OF compact_nullable_string.wr_append]
  NO_MATCH_append [OF nullable_string.wr_append] NO_MATCH_append [OF bytes.wr_append]
  NO_MATCH_append [OF compact_bytes.wr_append] NO_MATCH_append [OF nullable_bytes.wr_append]
  NO_MATCH_append [OF compact_records.wr_append] NO_MATCH_append [OF compact_array_len.wr_append]
  NO_MATCH_append [OF WriteRaw_append]
  NO_MATCH_append [of "\<lambda>_. WriteEmptyTaggedFields", OF WriteEmptyTaggedFields_append]

lemmas [decodes_intros] =
  bool.rd_wr [OF TrueI] int8.rd_wr [OF TrueI] int16.rd_wr [OF TrueI] int32.rd_wr [OF TrueI]
  int64.rd_wr [OF TrueI] uvarint.rd_wr [OF TrueI] varint.rd_wr [OF TrueI] uuid.rd_wr
  string.rd_wr compact_string.rd_wr [OF TrueI] compact_nullable_string.rd_wr [OF TrueI]
  nullable_string.rd_wr bytes.rd_wr compact_bytes.rd_wr [OF TrueI] nullable_bytes.rd_wr
  compact_records.rd_wr [OF TrueI] compact_array_len.rd_wr

lemmas [appends_simps] =
  NO_MATCH_append [OF int32.write_array_append] NO_MATCH_append [OF compact_string.write_array_append]

lemmas [decodes_intros] =
  int32.make_array_decodes int32.append_array_decodes compact_string.make_array_decodes

end
