(* ===== verification/Kaf_Header.thy ===== *)
theory Kaf_Header
  imports Kaf_Codec
begin

text \<open>
  Request and response headers (\<^verbatim>\<open>protocol/header.go\<close>), the table of flexible API
  versions (\<^verbatim>\<open>common/version.go\<close>), and the length-prefixed frames a connection carries
  (\<^verbatim>\<open>protocol/wireframe.go\<close>).
\<close>

section \<open>Flexible versions\<close>

definition apiFlexibleVersions :: "(int \<times> int) list" where
  "apiFlexibleVersions =
     [(0, 9), (1, 12), (2, 6), (3, 9), (8, 8), (9, 6), (10, 3), (11, 6), (12, 4), (13, 4), (14, 4),
      (18, 3), (19, 5), (20, 4), (22, 2), (32, 4), (37, 2), (62, 0), (63, 0)]"

definition IsFlexible :: "i16 \<Rightarrow> i16 \<Rightarrow> bool" where
  "IsFlexible apiKey apiVersion =
     (case map_of apiFlexibleVersions (sint apiKey) of
        None \<Rightarrow> False
      | Some minFlex \<Rightarrow> sint apiVersion \<ge> minFlex)"

section \<open>Headers\<close>

record RequestHeader =
  rqh_ApiKey :: i16
  rqh_ApiVersion :: i16
  rqh_CorrelationId :: i32
  rqh_ClientId :: "gostring option"

definition RequestHeader_Encode :: "RequestHeader \<Rightarrow> writer \<Rightarrow> writer" where
  "RequestHeader_Encode h w =
     (let w = WriteNullableString (rqh_ClientId h) (WriteInt32 (rqh_CorrelationId h)
                (WriteInt16 (rqh_ApiVersion h) (WriteInt16 (rqh_ApiKey h) w)))
      in if IsFlexible (rqh_ApiKey h) (rqh_ApiVersion h) then WriteEmptyTaggedFields w else w)"

definition RequestHeader_Decode :: "RequestHeader rd" where
  "RequestHeader_Decode =
     rbind ReadInt16 (\<lambda>key. rbind ReadInt16 (\<lambda>ver. rbind ReadInt32 (\<lambda>cid.
     rbind ReadNullableString (\<lambda>client.
     let h = \<lparr>rqh_ApiKey = key, rqh_ApiVersion = ver, rqh_CorrelationId = cid, rqh_ClientId = client\<rparr>
     in if IsFlexible key ver then rbind ReadTaggedFields (\<lambda>_. rret h) else rret h))))"

record ResponseHeader =
  rsh_CorrelationId :: i32
  rsh_ApiVersion :: i16
  rsh_ApiKey :: i16

definition ResponseHeader_Encode :: "ResponseHeader \<Rightarrow> writer \<Rightarrow> writer" where
  "ResponseHeader_Encode h w =
     (let w = WriteInt32 (rsh_CorrelationId h) w
      in if IsFlexible (rsh_ApiKey h) (rsh_ApiVersion h) then WriteEmptyTaggedFields w else w)"

text \<open>The caller presets key and version of the header it decodes into.\<close>

definition ResponseHeader_Decode :: "ResponseHeader \<Rightarrow> ResponseHeader rd" where
  "ResponseHeader_Decode h =
     rbind ReadInt32 (\<lambda>cid.
     if IsFlexible (rsh_ApiKey h) (rsh_ApiVersion h)
     then rbind ReadTaggedFields (\<lambda>_. rret (h\<lparr>rsh_CorrelationId := cid\<rparr>))
     else rret (h\<lparr>rsh_CorrelationId := cid\<rparr>))"

section \<open>Frames\<close>

definition MaxPayloadSize :: nat where
  "MaxPayloadSize = 1024 * 1024 * 100"

text \<open>
  The sending half of a connection: the bytes handed to the peer, and how many more it
  takes before a write fails (\<open>None\<close> for a connection that does not fail).
\<close>

record conn =
  sent :: bytes
  budget :: "nat option"

definition conn_Write :: "bytes \<Rightarrow> conn \<Rightarrow> unit res \<times> conn" where
  "conn_Write b c =
     (case budget c of
        None \<Rightarrow> (Ok (), c\<lparr>sent := sent c @ b\<rparr>)
      | Some k \<Rightarrow>
          if length b \<le> k then (Ok (), c\<lparr>sent := sent c @ b, budget := Some (k - length b)\<rparr>)
          else (Err OSErr, c\<lparr>sent := sent c @ take k b, budget := Some 0\<rparr>))"

definition WriteFraming :: "ResponseHeader \<Rightarrow> (writer \<Rightarrow> writer res) \<Rightarrow> conn \<Rightarrow> unit res \<times> conn" where
  "WriteFraming header response_Encode c =
     (case response_Encode (ResponseHeader_Encode header (NewWriter 256)) of
        Err e \<Rightarrow> (Err e, c)
      | Panic \<Rightarrow> (Panic, c)
      | Ok payload \<Rightarrow>
          (case conn_Write (be_enc 4 (of_nat (length payload) :: u32)) c of
             (Ok _, c) \<Rightarrow> conn_Write payload c
           | (e, c) \<Rightarrow> (e, c)))"

text \<open>\<^verbatim>\<open>io.ReadFull\<close> on the bytes the peer sends before it closes the connection.\<close>

definition ReadFull :: "nat \<Rightarrow> bytes \<Rightarrow> bytes res \<times> bytes" where
  "ReadFull n s =
     (if n \<le> length s then (Ok (take n s), drop n s)
      else if s = [] then (Err EOF, []) else (Err UnexpectedEOF, []))"

definition ReadFraming :: "bytes \<Rightarrow> bytes option res \<times> bytes" where
  "ReadFraming s =
     (case ReadFull 4 s of
        (Err e, s) \<Rightarrow> (Err e, s)
      | (Panic, s) \<Rightarrow> (Panic, s)
      | (Ok lenBuff, s) \<Rightarrow>
          let payloadLen = unat (be_dec lenBuff :: u32) in
          if payloadLen = 0 then (Ok None, s)
          else if payloadLen > MaxPayloadSize then (Err (GoErr ''payload too large''), s)
          else (case ReadFull payloadLen s of
                  (Ok payload, s) \<Rightarrow> (Ok (Some payload), s)
                | (Err e, s) \<Rightarrow> (Err (GoErr ''payload read error''), s)
                | (Panic, s) \<Rightarrow> (Panic, s)))"

section \<open>Header round trips\<close>

definition request_header_valid :: "RequestHeader \<Rightarrow> bool" where
  "request_header_valid h =
     (case rqh_ClientId h of None \<Rightarrow> True | Some s \<Rightarrow> s \<noteq> [] \<and> length s < 2 ^ 15)"

interpretation request_header: wire_codec RequestHeader_Encode RequestHeader_Decode request_header_valid
proof
  show "RequestHeader_Encode x w = w @ RequestHeader_Encode x []" for x w
    by (simp add: RequestHeader_Encode_def Let_def appends_simps)
  show "RequestHeader_Encode x [] \<noteq> []" for x
    by (simp add: RequestHeader_Encode_def Let_def appends_simps WriteInt16_def)
  show "decodes RequestHeader_Decode (RequestHeader_Encode x []) x" if "request_header_valid x" for x
    using that unfolding RequestHeader_Decode_def RequestHeader_Encode_def request_header_valid_def
    by (simp add: Let_def appends_simps)
       ((rule conjI impI decodes_rbind decodes_rbind_last decodes_intros | simp)+)
qed

lemma response_header_decodes:
  "decodes (ResponseHeader_Decode (h\<lparr>rsh_CorrelationId := c\<rparr>)) (ResponseHeader_Encode h []) h"
  unfolding ResponseHeader_Decode_def ResponseHeader_Encode_def
  by (simp add: Let_def appends_simps)
     ((rule conjI impI decodes_rbind decodes_rbind_last decodes_intros | simp)+)

section \<open>Frame round trips\<close>

lemma ReadFull_append: "n = length p \<Longrightarrow> ReadFull n (p @ s) = (Ok p, s)"
  by (simp add: ReadFull_def)

lemma ReadFraming_frame:
  assumes "p \<noteq> []" "length p \<le> MaxPayloadSize"
  shows "ReadFraming (be_enc 4 (of_nat (length p) :: u32) @ p @ s) = (Ok (Some p), s)"
proof -
  have "unat (of_nat (length p) :: u32) = length p"
    using assms(2) by (simp add: unsigned_of_nat take_bit_nat_eq_self MaxPayloadSize_def)
  with assms show ?thesis
    by (simp add: ReadFraming_def ReadFull_append)
qed

lemma WriteFraming_sent:
  assumes "budget c = None" "resp (ResponseHeader_Encode h []) = Ok p"
  shows "WriteFraming h resp c =
    (Ok (), c\<lparr>sent := sent c @ be_enc 4 (of_nat (length p) :: u32) @ p\<rparr>)"
  using assms by (simp add: WriteFraming_def conn_Write_def NewWriter_def)


section \<open>Properties\<close>

text \<open>
  A request header that is written is read back as it was, with the reader left right after
  it, whatever follows; the client id must be null or a string of 1 to 32767 bytes.
\<close>

theorem request_header_roundtrip:
  assumes "request_header_valid h" "int (length (RequestHeader_Encode h [] @ body)) < 2 ^ 63"
  shows "RequestHeader_Decode (NewReader (RequestHeader_Encode h [] @ body)) =
    (Ok h, \<lparr>buff = RequestHeader_Encode h [] @ body, pos = int (length (RequestHeader_Encode h []))\<rparr>)"
  using decodesD [OF request_header.rd_wr [OF assms(1)], of "[]" body] assms(2) by (simp add: NewReader_def)

definition sample_header :: RequestHeader where
  "sample_header = \<lparr>rqh_ApiKey = 1, rqh_ApiVersion = 18, rqh_CorrelationId = 7, rqh_ClientId = Some (str ''c'')\<rparr>"

theorem request_header_roundtrip_witness:
  "fst (RequestHeader_Decode (NewReader (RequestHeader_Encode sample_header [] @ [1, 2]))) = Ok sample_header"
proof -
  have "request_header_valid sample_header" by (simp add: request_header_valid_def sample_header_def str_def)
  moreover have "length (RequestHeader_Encode sample_header []) = 12" by code_simp
  then have "int (length (RequestHeader_Encode sample_header [] @ [1, 2])) < 2 ^ 63" by simp
  ultimately have "RequestHeader_Decode (NewReader (RequestHeader_Encode sample_header [] @ [1, 2])) =
    (Ok sample_header, \<lparr>buff = RequestHeader_Encode sample_header [] @ [1, 2], pos = int (length (RequestHeader_Encode sample_header []))\<rparr>)"
    by (rule request_header_roundtrip)
  then show ?thesis by (rule arg_cong [of _ _ fst, THEN trans]) simp
qed

text \<open>
  What one side of a connection frames, the other side reads back: the payload of a response
  that fits the size limit, followed by whatever comes after it on the wire.
\<close>

theorem frame_roundtrip:
  assumes "budget c = None" "response (ResponseHeader_Encode h []) = Ok p" "p \<noteq> []" "length p \<le> MaxPayloadSize"
  shows "\<exists>c' b. WriteFraming h response c = (Ok (), c') \<and> sent c' = sent c @ b \<and>
    ReadFraming (b @ rest) = (Ok (Some p), rest)"
  using WriteFraming_sent [of c response h p] ReadFraming_frame [OF assms(3,4), of rest] assms(1,2) by simp

theorem frame_roundtrip_witness:
  "\<exists>c' b. WriteFraming \<lparr>rsh_CorrelationId = 7, rsh_ApiVersion = 0, rsh_ApiKey = 0\<rparr> (\<lambda>w. Ok (w @ [1, 2])) \<lparr>sent = [], budget = None\<rparr> =
      (Ok (), c') \<and> sent c' = b \<and> ReadFraming (b @ [9]) = (Ok (Some [0, 0, 0, 7, 1, 2]), [9])"
proof -
  have "ResponseHeader_Encode \<lparr>rsh_CorrelationId = 7, rsh_ApiVersion = 0, rsh_ApiKey = 0\<rparr> [] = [0, 0, 0, 7]" by code_simp
  then show ?thesis
    using frame_roundtrip [of "\<lparr>sent = [], budget = None\<rparr>" "\<lambda>w. Ok (w @ [1, 2])"
      "\<lparr>rsh_CorrelationId = 7, rsh_ApiVersion = 0, rsh_ApiKey = 0\<rparr>" "[0, 0, 0, 7, 1, 2]" "[9]"]
    by (simp add: MaxPayloadSize_def)
qed

text \<open>
  Unsigned varints: every 64-bit value is written so that it is read back, its encodings are
  prefix-free, and the bytes that follow are untouched.
\<close>

theorem uvarint_roundtrip:
  assumes "int (length (WriteUVarInt v [] @ rest)) < 2 ^ 63"
  shows "ReadUVarInt (NewReader (WriteUVarInt v [] @ rest)) =
      (Ok v, \<lparr>buff = WriteUVarInt v [] @ rest, pos = int (length (WriteUVarInt v []))\<rparr>) \<and>
    (\<forall>u q. WriteUVarInt v [] @ rest = WriteUVarInt u [] @ q \<longrightarrow> u = v \<and> q = rest)"
proof -
  have "ReadUVarInt (NewReader (WriteUVarInt v [] @ rest)) =
      (Ok v, \<lparr>buff = WriteUVarInt v [] @ rest, pos = int (length (WriteUVarInt v []))\<rparr>)"
    using decodesD [OF uvarint.rd_wr [OF TrueI], of "[]" v rest] assms by (simp add: NewReader_def)
  moreover have "u = v \<and> q = rest" if "WriteUVarInt v [] @ rest = WriteUVarInt u [] @ q" for u q
    using uvarint.prefix_free [OF TrueI TrueI that] assms by simp
  ultimately show ?thesis by blast
qed

theorem uvarint_roundtrip_witness:
  "ReadUVarInt (NewReader [0xac, 0x02, 5]) = (Ok 300, \<lparr>buff = [0xac, 0x02, 5], pos = 2\<rparr>)"
proof -
  have w: "WriteUVarInt 300 [] = [0xac, 0x02]" by code_simp
  then show ?thesis using uvarint_roundtrip [of 300 "[5]"] by simp
qed

end
