(* ===== verification/Kaf_Handler.thy ===== *)
theory Kaf_Handler
  imports Kaf_Header
begin

text \<open>
  The frame every request handler of \<^verbatim>\<open>api/*.go\<close> has: decode the request, compute the
  response, and write it as one frame with the request's correlation id. \<open>rpc\<close> is the
  contract between a handler and its client: when requests and responses are codecs, the
  client reads back exactly the response the handler computed.
\<close>

definition reply_header :: "RequestHeader \<Rightarrow> ResponseHeader" where
  "reply_header header =
     \<lparr>rsh_CorrelationId = rqh_CorrelationId header, rsh_ApiVersion = rqh_ApiVersion header,
      rsh_ApiKey = rqh_ApiKey header\<rparr>"

text \<open>The registration and heartbeat handlers of brokers leave key and version at zero.\<close>

definition plain_header :: "RequestHeader \<Rightarrow> ResponseHeader" where
  "plain_header header = \<lparr>rsh_CorrelationId = rqh_CorrelationId header, rsh_ApiVersion = 0, rsh_ApiKey = 0\<rparr>"

definition handle ::
  "'q rd \<Rightarrow> ('q \<Rightarrow> 's \<Rightarrow> 'p res \<times> 's) \<Rightarrow> ('p \<Rightarrow> writer \<Rightarrow> writer) \<Rightarrow> ResponseHeader \<Rightarrow>
     reader \<Rightarrow> conn \<Rightarrow> 's \<Rightarrow> unit res \<times> conn \<times> 's" where
  "handle dec body enc rh r c s =
     (case fst (dec r) of
        Err e \<Rightarrow> (Err e, c, s)
      | Panic \<Rightarrow> (Panic, c, s)
      | Ok req \<Rightarrow>
          (case body req s of
             (Ok resp, s) \<Rightarrow> (case WriteFraming rh (\<lambda>w. Ok (enc resp w)) c of (out, c) \<Rightarrow> (out, c, s))
           | (Err e, s) \<Rightarrow> (Err e, c, s)
           | (Panic, s) \<Rightarrow> (Panic, c, s)))"

text \<open>The payload of the frame a handler writes.\<close>

definition reply :: "('p \<Rightarrow> writer \<Rightarrow> writer) \<Rightarrow> ResponseHeader \<Rightarrow> 'p \<Rightarrow> bytes" where
  "reply enc rh resp = ResponseHeader_Encode rh [] @ enc resp []"

locale rpc =
  req: wire_codec wr_q rd_q valid_q + resp: wire_codec wr_p rd_p valid_p
  for wr_q :: "'q \<Rightarrow> writer \<Rightarrow> writer" and rd_q valid_q
    and wr_p :: "'p \<Rightarrow> writer \<Rightarrow> writer" and rd_p valid_p
begin

lemma answered:
  assumes q: "valid_q q" "int (length (pre @ wr_q q [] @ post)) < 2 ^ 63"
    and p: "body q s = (Ok p, s')" "budget c = None"
  shows "handle rd_q body wr_p rh \<lparr>buff = pre @ wr_q q [] @ post, pos = int (length pre)\<rparr> c s =
    (Ok (), c\<lparr>sent := sent c @ be_enc 4 (of_nat (length (reply wr_p rh p)) :: u32) @ reply wr_p rh p\<rparr>, s')"
proof -
  have "rd_q \<lparr>buff = pre @ wr_q q [] @ post, pos = int (length pre)\<rparr> =
      (Ok q, \<lparr>buff = pre @ wr_q q [] @ post, pos = int (length (pre @ wr_q q []))\<rparr>)"
    using decodesD [OF req.rd_wr [OF q(1)], of pre post] q(2) by simp
  moreover have "wr_p p (ResponseHeader_Encode rh []) = reply wr_p rh p"
    unfolding reply_def by (rule resp.wr_append)
  ultimately show ?thesis
    using p WriteFraming_sent [of c "\<lambda>w. Ok (wr_p p w)" rh "reply wr_p rh p"] by (simp add: handle_def)
qed

lemma received:
  assumes "valid_p p" "length (reply wr_p rh p) \<le> MaxPayloadSize"
  shows "ReadFraming (be_enc 4 (of_nat (length (reply wr_p rh p)) :: u32) @ reply wr_p rh p @ rest) = (Ok (Some (reply wr_p rh p)), rest)"
    and "fst (rbind (ResponseHeader_Decode (rh\<lparr>rsh_CorrelationId := cid\<rparr>)) (\<lambda>h. rbind rd_p (\<lambda>p. rret (h, p)))
      (NewReader (reply wr_p rh p))) = Ok (rh, p)"
proof -
  have "reply wr_p rh p \<noteq> []" by (simp add: reply_def resp.wr_nonempty assms(1))
  then show "ReadFraming (be_enc 4 (of_nat (length (reply wr_p rh p)) :: u32) @ reply wr_p rh p @ rest) = (Ok (Some (reply wr_p rh p)), rest)"
    using assms(2) by (rule ReadFraming_frame)
  have "decodes (rbind (ResponseHeader_Decode (rh\<lparr>rsh_CorrelationId := cid\<rparr>)) (\<lambda>h. rbind rd_p (\<lambda>p. rret (h, p))))
      (reply wr_p rh p) (rh, p)"
    unfolding reply_def
    by (rule decodes_rbind [OF response_header_decodes decodes_rbind_last [OF resp.rd_wr [OF assms(1)] decodes_rret]])
  then show "fst (rbind (ResponseHeader_Decode (rh\<lparr>rsh_CorrelationId := cid\<rparr>)) (\<lambda>h. rbind rd_p (\<lambda>p. rret (h, p)))
      (NewReader (reply wr_p rh p))) = Ok (rh, p)"
    using decodesD [of _ "reply wr_p rh p" "(rh, p)" "[]" "[]"] assms(2)
    by (fastforce simp: NewReader_def MaxPayloadSize_def)
qed

text \<open>A request that does not decode gets no answer and changes nothing.\<close>

lemma undecodable: "fst (rd_q r) = Err e \<Longrightarrow> handle rd_q body wr_p rh r c s = (Err e, c, s)"
  by (simp add: handle_def)

end

end
