(* ===== verification/Kaf_RecordBatch.thy ===== *)
theory Kaf_RecordBatch
  imports Kaf_Partition Kaf_Handler
begin

text \<open>
  What the produce handler runs on the bytes it is about to append: the decoder of a record
  batch (\<^verbatim>\<open>protocol/producer/record_batch.go\<close>) with the decompression switch
  (\<^verbatim>\<open>common/compress.go\<close>), and the numbers of the broker's errors
  (\<^verbatim>\<open>constant/error.go\<close>, \<^verbatim>\<open>common/error.go\<close>). The snappy decoder is a parameter.
\<close>

section \<open>Error numbers\<close>

definition ErrorFormat :: gostring where "ErrorFormat = str ''KAF_GO_ERR_%d''"

definition ErrCorruptMessage :: i16 where "ErrCorruptMessage = 2"
definition ErrUnknownTopicOrPartition :: i16 where "ErrUnknownTopicOrPartition = 3"
definition ErrLeaderNotAvailable :: i16 where "ErrLeaderNotAvailable = 5"
definition ErrErrNotLeaderForPartition :: i16 where "ErrErrNotLeaderForPartition = 6"
definition ErrRequestTimedOut :: i16 where "ErrRequestTimedOut = 7"
definition ErrInvalidTopicException :: i16 where "ErrInvalidTopicException = 17"
definition ErrNotEnoughReplicas :: i16 where "ErrNotEnoughReplicas = 19"
definition ErrNotEnoughReplicasAfterAppend :: i16 where "ErrNotEnoughReplicasAfterAppend = 20"
definition ErrTopicAlreadyExists :: i16 where "ErrTopicAlreadyExists = 36"
definition ErrNotController :: i16 where "ErrNotController = 41"
definition ErrInvalidRequest :: i16 where "ErrInvalidRequest = 42"
definition ErrKafkaStorageError :: i16 where "ErrKafkaStorageError = 56"
definition ErrInvalidRequiredAcks :: i16 where "ErrInvalidRequiredAcks = 72"
definition ErrStaleBrokerEpoch :: i16 where "ErrStaleBrokerEpoch = 77"

lemmas error_codes =
  ErrCorruptMessage_def ErrUnknownTopicOrPartition_def ErrLeaderNotAvailable_def ErrErrNotLeaderForPartition_def
  ErrRequestTimedOut_def ErrInvalidTopicException_def ErrNotEnoughReplicas_def ErrNotEnoughReplicasAfterAppend_def
  ErrTopicAlreadyExists_def ErrNotController_def ErrInvalidRequest_def ErrKafkaStorageError_def
  ErrInvalidRequiredAcks_def ErrStaleBrokerEpoch_def ErrUnknownProducerId_def ErrInvalidProducerEpoch_def
  ErrOutOfOrderSequenceNumber_def ErrDuplicateSequenceNumber_def

definition CreateError :: "i16 \<Rightarrow> gostring" where
  "CreateError errID = take (length ErrorFormat - 2) ErrorFormat @ fmt_d (sint errID)"

text \<open>An error is its text here; \<^verbatim>\<open>nil\<close> is \<open>None\<close>.\<close>

definition IsError :: "gostring option \<Rightarrow> bool" where
  "IsError err = (case err of
      None \<Rightarrow> False
    | Some t \<Rightarrow> length t > length ErrorFormat - 2 \<and>
        take (length ErrorFormat - 2) t = take (length ErrorFormat - 2) ErrorFormat)"

text \<open>
  \<^verbatim>\<open>%d\<close> of \<^verbatim>\<open>fmt.Sscanf\<close> into an \<^verbatim>\<open>int16\<close>: blanks are skipped, a sign and the
  digits are read, and a number that does not fit is an error; what follows is not looked at.
\<close>

definition is_digit :: "byte \<Rightarrow> bool" where
  "is_digit c \<longleftrightarrow> 48 \<le> c \<and> c \<le> 57"

definition Sscanf_int16 :: "gostring \<Rightarrow> i16 res" where
  "Sscanf_int16 t =
     (let t = dropWhile (\<lambda>c. c = 32 \<or> c = 9 \<or> c = 11 \<or> c = 12) t;
          sign = (if t \<noteq> [] \<and> (hd t = 45 \<or> hd t = 43) then [hd t] else []);
          ds = takeWhile is_digit (drop (length sign) t)
      in res_bind (ParseInt (sign @ ds)) (\<lambda>n.
           if - (2 ^ 15) \<le> n \<and> n < 2 ^ 15 then Ok (word_of_int n)
           else Err (GoErr ''integer overflow on token'')))"

definition GetErrorId :: "gostring option \<Rightarrow> i16" where
  "GetErrorId err =
     (if \<not> IsError err then -1
      else case Sscanf_int16 (drop (length ErrorFormat - 2) (the err)) of
             Ok errID \<Rightarrow> errID
           | _ \<Rightarrow> -1)"

text \<open>The number of an error of the model; only \<^verbatim>\<open>CreateError\<close> makes texts of that format.\<close>

fun err_id :: "go_err \<Rightarrow> i16" where
  "err_id (KafErr n) = GetErrorId (Some (CreateError n))"
| "err_id _ = -1"

definition ErrorMessage :: "i16 \<Rightarrow> gostring" where
  "ErrorMessage code =
     (if code = ErrUnknownTopicOrPartition then str ''unknown topic or partition''
      else if code = ErrCorruptMessage then str ''corrupt message''
      else if code = ErrKafkaStorageError then str ''kafka storage error''
      else str ''unknown error'')"

section \<open>Decompression\<close>

definition CompressionNone :: i16 where "CompressionNone = 0"
definition CompressionGzip :: i16 where "CompressionGzip = 1"
definition CompressionSnappy :: i16 where "CompressionSnappy = 2"
definition CompressionLz4 :: i16 where "CompressionLz4 = 3"
definition CompressionZstd :: i16 where "CompressionZstd = 4"
definition compressionMask :: i16 where "compressionMask = 0x07"

text \<open>\<open>snappy\<close> is \<^verbatim>\<open>snappy.Decode\<close> of the compression library; \<open>None\<close> is its error.\<close>

definition DecompressSnappy :: "(bytes \<Rightarrow> bytes option) \<Rightarrow> bytes \<Rightarrow> bytes res" where
  "DecompressSnappy snappy data =
     (case snappy data of None \<Rightarrow> Err (GoErr ''snappy: decompress'') | Some out \<Rightarrow> Ok out)"

definition Decompress :: "(bytes \<Rightarrow> bytes option) \<Rightarrow> i16 \<Rightarrow> bytes \<Rightarrow> bytes res" where
  "Decompress snappy attributes data =
     (let codec = attributes AND compressionMask in
      if codec = CompressionNone then Ok data
      else if codec = CompressionGzip then Panic
      else if codec = CompressionSnappy then DecompressSnappy snappy data
      else if codec = CompressionLz4 then Panic
      else if codec = CompressionZstd then Panic
      else Err (GoErr ''unknown compression codec''))"

section \<open>Decoding a record batch\<close>

record BatchRecord =
  br_TimestampDelta :: i64
  br_OffsetDelta :: i64
  br_Key :: bytes
  br_Value :: bytes
  br_Headers :: "(gostring \<times> bytes) list"

record RecordBatch =
  rb_BaseOffset :: i64
  rb_PartitionLeaderEpoch :: i32
  rb_Magic :: i8
  rb_CRC :: u32
  rb_Attributes :: i16
  rb_LastOffsetDelta :: i32
  rb_FirstTimestamp :: i64
  rb_MaxTimestamp :: i64
  rb_ProducerId :: i64
  rb_ProducerEpoch :: i16
  rb_BaseSequence :: i32
  rb_Records :: "BatchRecord list"

text \<open>\<^verbatim>\<open>x, _ := r.ReadX()\<close>: after an error the value is zero and the cursor where the error left it.\<close>

definition ignore_err :: "'a \<Rightarrow> 'a rd \<Rightarrow> 'a rd" where
  "ignore_err zero m = (\<lambda>r. case m r of (Err _, r') \<Rightarrow> (Ok zero, r') | out \<Rightarrow> out)"

text \<open>A key or a value: nothing for a length that is not positive.\<close>

definition read_field :: "bytes rd" where
  "read_field = rbind ReadVarInt (\<lambda>n. if 0 < sint n then rtimes (nat (sint n)) ReadInt8 else rret [])"

text \<open>A header's key or value: \<^verbatim>\<open>make\<close> panics for a negative length and every error is ignored.\<close>

definition read_header_field :: "bytes rd" where
  "read_header_field = rbind (ignore_err 0 ReadVarInt) (\<lambda>n.
     if sint n < 0 then rpanic else rtimes (nat (sint n)) (ignore_err 0 ReadInt8))"

primrec header_loop :: "nat \<Rightarrow> (gostring \<times> bytes) list \<Rightarrow> (gostring \<times> bytes) list rd" where
  "header_loop 0 hs = rret hs"
| "header_loop (Suc n) hs =
     rbind read_header_field (\<lambda>k. rbind read_header_field (\<lambda>v. header_loop n (AList.update k v hs)))"

definition decodeRecord :: "i64 \<Rightarrow> BatchRecord rd" where
  "decodeRecord baseTimestamp =
     rbind ReadVarInt (\<lambda>_. rbind ReadInt8 (\<lambda>_. rbind ReadVarlong (\<lambda>tsDelta. rbind ReadVarint (\<lambda>offDelta.
     rbind read_field (\<lambda>key'. rbind read_field (\<lambda>val. rbind ReadVarInt (\<lambda>headerCount.
     rbind (header_loop (nat (sint headerCount)) []) (\<lambda>headers.
     rret \<lparr>br_TimestampDelta = tsDelta, br_OffsetDelta = offDelta, br_Key = key', br_Value = val,
           br_Headers = headers\<rparr>))))))))"

definition DecodeRecordBatch :: "(bytes \<Rightarrow> bytes option) \<Rightarrow> bytes \<Rightarrow> RecordBatch res" where
  "DecodeRecordBatch snappy raw =
     fst ((rbind ReadInt64 (\<lambda>baseOffset. rbind ReadInt32 (\<lambda>_. rbind ReadInt32 (\<lambda>partitionLeaderEpoch.
       rbind ReadInt8 (\<lambda>magic. rbind ReadUint32 (\<lambda>crc. rbind ReadInt16 (\<lambda>attributes.
       rbind ReadInt32 (\<lambda>lastOffsetDelta. rbind ReadInt64 (\<lambda>firstTimestamp. rbind ReadInt64 (\<lambda>maxTimestamp.
       rbind ReadInt64 (\<lambda>producerId. rbind ReadInt16 (\<lambda>producerEpoch. rbind ReadInt32 (\<lambda>baseSequence.
       rbind ReadInt32 (\<lambda>recordCount.
       if sint recordCount < 0 then rpanic
       else rbind (\<lambda>r. ReadRawBytes (Remaining r) r) (\<lambda>rawDataRecords r.
         (case Decompress snappy attributes rawDataRecords of
            Err e \<Rightarrow> (Err e, r)
          | Panic \<Rightarrow> (Panic, r)
          | Ok dataRecords \<Rightarrow>
              (res_bind (fst (rtimes (nat (sint recordCount)) (decodeRecord firstTimestamp) (NewReader dataRecords)))
                 (\<lambda>records'. Ok \<lparr>rb_BaseOffset = baseOffset, rb_PartitionLeaderEpoch = partitionLeaderEpoch,
                    rb_Magic = magic, rb_CRC = crc, rb_Attributes = attributes, rb_LastOffsetDelta = lastOffsetDelta,
                    rb_FirstTimestamp = firstTimestamp, rb_MaxTimestamp = maxTimestamp, rb_ProducerId = producerId,
                    rb_ProducerEpoch = producerEpoch, rb_BaseSequence = baseSequence, rb_Records = records'\<rparr>),
               r))))))))))))))))) (NewReader raw))"

section \<open>Properties\<close>

lemma takeWhile_all: "\<forall>x\<in>set xs. P x \<Longrightarrow> takeWhile P xs = xs"
  by (simp add: takeWhile_eq_all_conv)

lemma dec_digits_all: "\<forall>c\<in>set (dec_digits n). is_digit c"
proof (induction n rule: dec_digits.induct)
  case (1 n)
  show ?case
    using 1 digit_range [of "n mod 10"] digit_range [of n]
    by (subst dec_digits.simps) (auto simp: is_digit_def)
qed

lemma ParseInt_fmt_d:
  assumes "- (2 ^ 63) \<le> n" "n < 2 ^ 63"
  shows "ParseInt (fmt_d n) = Ok n"
proof -
  have h: "hd (dec_digits k) \<noteq> 45" "hd (dec_digits k) \<noteq> 43" for k
    using hd_dec_digits [of k] by auto
  show ?thesis
    using assms h [of "nat n"] parse_dec_digits [of 0 "nat n"] parse_dec_digits [of 0 "nat (- n)"]
    by (auto simp: ParseInt_def fmt_d_def Let_def dec_digits_nonempty)
qed

lemma Sscanf_fmt_d: "Sscanf_int16 (fmt_d (sint n)) = Ok n"
proof -
  have r: "- (2 ^ 15) \<le> sint n" "sint n < 2 ^ 15" using sint_greater_eq [of n] sint_less [of n] by auto
  have hd': "hd (dec_digits k) \<notin> {32, 9, 11, 12, 45, 43}" for k
    using hd_dec_digits [of k] by auto
  have dw: "dropWhile (\<lambda>c. c = 32 \<or> c = 9 \<or> c = 11 \<or> c = 12) (fmt_d (sint n)) = fmt_d (sint n)"
    using hd' [of "nat (sint n)"] dec_digits_nonempty [of "nat (sint n)"]
    by (cases "dec_digits (nat (sint n))") (auto simp: fmt_d_def)
  have tw: "takeWhile is_digit (dec_digits k) = dec_digits k" for k
    by (rule takeWhile_all [OF dec_digits_all])
  have p: "ParseInt (fmt_d (sint n)) = Ok (sint n)" using r by (intro ParseInt_fmt_d) auto
  show ?thesis
    unfolding Sscanf_int16_def Let_def dw
    using r p hd' [of "nat (sint n)"] by (auto simp: fmt_d_def tw dec_digits_nonempty)
qed

lemma fmt_d_nonempty: "fmt_d n \<noteq> []"
  by (simp add: fmt_d_def dec_digits_nonempty)

text \<open>The number of an error comes back from its text.\<close>

lemma GetErrorId_CreateError: "GetErrorId (Some (CreateError n)) = n"
proof -
  have l: "length (take (length ErrorFormat - 2) ErrorFormat) = length ErrorFormat - 2" by simp
  have "IsError (Some (CreateError n))"
    using fmt_d_nonempty [of "sint n"] unfolding IsError_def CreateError_def option.case length_append take_append l
    by simp
  moreover have "drop (length ErrorFormat - 2) (CreateError n) = fmt_d (sint n)"
    unfolding CreateError_def drop_append l by simp
  ultimately show ?thesis by (simp add: GetErrorId_def Sscanf_fmt_d)
qed

lemma err_id_KafErr [simp]: "err_id (KafErr n) = n"
  by (simp add: GetErrorId_CreateError)

lemmas [simp del] = err_id.simps(1)

lemma rtimes_length: "rtimes n m r = (Ok xs, r') \<Longrightarrow> length xs = n"
  by (induction n arbitrary: r xs) (auto simp: rret_def rbind_def split: prod.splits res.splits)

text \<open>
  The fields of a batch are at the positions where the storage layer reads them, and there
  are as many records as the header counts.
\<close>

lemma take_field:
  assumes "0 \<le> p" "p + int n < 2 ^ 63" "0 < n"
  shows "rbind (require (int n)) (\<lambda>_. rbind (take_raw (int n)) (\<lambda>b. rret (g b))) \<lparr>buff = raw, pos = p\<rparr> =
    (if p + int n \<le> int (length raw) then (Ok (g (sub (nat p) n raw)), \<lparr>buff = raw, pos = p + int n\<rparr>)
     else (Err EOF, \<lparr>buff = raw, pos = p\<rparr>))"
  using assms
  by (auto simp: rbind_def require_def take_raw_def rret_def slice_def sub_def wrap64_id nat_add_distrib)

lemmas take_fields =
  take_field [where n = 1, simplified] take_field [where n = 2, simplified]
  take_field [where n = 4, simplified] take_field [where n = 8, simplified]

lemma read_at:
  assumes "0 \<le> p" "p < 2 ^ 62"
  shows "ReadInt8 \<lparr>buff = raw, pos = p\<rparr> = (if p + 1 \<le> int (length raw)
      then (Ok (be_dec (sub (nat p) 1 raw)), \<lparr>buff = raw, pos = p + 1\<rparr>) else (Err EOF, \<lparr>buff = raw, pos = p\<rparr>))"
    and "ReadInt16 \<lparr>buff = raw, pos = p\<rparr> = (if p + 2 \<le> int (length raw)
      then (Ok (be_dec (sub (nat p) 2 raw)), \<lparr>buff = raw, pos = p + 2\<rparr>) else (Err EOF, \<lparr>buff = raw, pos = p\<rparr>))"
    and "ReadInt32 \<lparr>buff = raw, pos = p\<rparr> = (if p + 4 \<le> int (length raw)
      then (Ok (be_dec (sub (nat p) 4 raw)), \<lparr>buff = raw, pos = p + 4\<rparr>) else (Err EOF, \<lparr>buff = raw, pos = p\<rparr>))"
    and "ReadUint32 \<lparr>buff = raw, pos = p\<rparr> = (if p + 4 \<le> int (length raw)
      then (Ok (be_dec (sub (nat p) 4 raw)), \<lparr>buff = raw, pos = p + 4\<rparr>) else (Err EOF, \<lparr>buff = raw, pos = p\<rparr>))"
    and "ReadInt64 \<lparr>buff = raw, pos = p\<rparr> = (if p + 8 \<le> int (length raw)
      then (Ok (be_dec (sub (nat p) 8 raw)), \<lparr>buff = raw, pos = p + 8\<rparr>) else (Err EOF, \<lparr>buff = raw, pos = p\<rparr>))"
  using assms
  by (simp_all add: ReadInt8_def ReadInt16_def ReadInt32_def ReadUint32_def ReadInt64_def take_fields)

lemma rbind_Ok: "rbind m f r = (Ok y, r') \<longleftrightarrow> (\<exists>x r1. m r = (Ok x, r1) \<and> f x r1 = (Ok y, r'))"
  by (auto simp: rbind_def split: prod.splits res.splits)

lemma if_Ok: "(if b then (Ok x, s) else (Err e, t)) = (Ok y, r) \<longleftrightarrow> b \<and> x = y \<and> s = r"
  by auto

lemma fst_eq_Ok: "fst (m r) = Ok y \<longleftrightarrow> (\<exists>r'. m r = (Ok y, r'))"
  by (cases "m r") auto

lemma fst_rtimes_length: "fst (rtimes n m r) = Ok xs \<Longrightarrow> length xs = n"
  by (cases "rtimes n m r") (auto dest: rtimes_length)

lemma DecodeRecordBatch_header:
  assumes "DecodeRecordBatch snappy raw = Ok b"
  shows "61 < length raw" "rb_ProducerId b = be_dec (sub 43 8 raw)" "rb_ProducerEpoch b = be_dec (sub 51 2 raw)"
    "rb_BaseSequence b = be_dec (sub 53 4 raw)" "rb_LastOffsetDelta b = be_dec (sub 23 4 raw)"
    "int (length (rb_Records b)) = sint (be_dec (sub 57 4 raw) :: i32)"
proof -
  have "61 < length raw \<and> rb_ProducerId b = be_dec (sub 43 8 raw) \<and> rb_ProducerEpoch b = be_dec (sub 51 2 raw) \<and>
    rb_BaseSequence b = be_dec (sub 53 4 raw) \<and> rb_LastOffsetDelta b = be_dec (sub 23 4 raw) \<and>
    int (length (rb_Records b)) = sint (be_dec (sub 57 4 raw) :: i32)"
    using assms unfolding DecodeRecordBatch_def NewReader_def
    by (clarsimp simp: fst_eq_Ok rbind_Ok read_at if_Ok)
      (auto simp: rpanic_def rbind_Ok ReadRawBytes_def res_bind_Ok_iff split: if_splits res.splits dest: fst_rtimes_length)
  then show "61 < length raw" "rb_ProducerId b = be_dec (sub 43 8 raw)" "rb_ProducerEpoch b = be_dec (sub 51 2 raw)"
    "rb_BaseSequence b = be_dec (sub 53 4 raw)" "rb_LastOffsetDelta b = be_dec (sub 23 4 raw)"
    "int (length (rb_Records b)) = sint (be_dec (sub 57 4 raw) :: i32)" by auto
qed

end
