(* ===== verification/Kaf_Message.thy ===== *)
theory Kaf_Message
  imports Kaf_RecordBatch "HOL-Library.List_Lexorder"
begin

text \<open>
  Messages with key, value and headers (\<^verbatim>\<open>storage/commitlog/message.go\<close>) and the operations of
  segments and logs that store them (\<^verbatim>\<open>Append\<close>, \<^verbatim>\<open>Read\<close> and \<^verbatim>\<open>ReadAt\<close> of
  \<^verbatim>\<open>storage/commitlog/segment.go\<close> and \<^verbatim>\<open>commitlog.go\<close>). The brokers use the raw batches instead.
  A Go map of headers is a list of distinct keys with their values; a time is its distance from
  the epoch in nanoseconds.
\<close>

section \<open>Messages\<close>

record Message =
  msg_Offset :: int
  msg_Timestamp :: int
  msg_Key :: bytes
  msg_Value :: bytes
  msg_Headers :: "(bytes \<times> bytes) list"

definition crcIEEE :: u32 where "crcIEEE = 0xedb88320"

definition sized :: "bytes \<Rightarrow> bytes" where
  "sized b = be_enc 4 (of_nat (length b) :: u32) @ b"

definition message_payload :: "Message \<Rightarrow> bytes" where
  "message_payload m =
     be_enc 8 (word_of_int (msg_Offset m) :: u64) @ be_enc 8 (word_of_int (msg_Timestamp m) :: u64) @
     sized (msg_Key m) @ sized (msg_Value m) @ be_enc 4 (of_nat (length (msg_Headers m)) :: u32) @
     concat (map (\<lambda>(k, v). sized k @ sized v) (sort_key fst (msg_Headers m)))"

definition SerializeMessage :: "Message \<Rightarrow> bytes" where
  "SerializeMessage m =
     be_enc 4 (of_nat (4 + length (message_payload m)) :: u32) @
     be_enc 4 (crc32 crcIEEE (message_payload m)) @ message_payload m"

text \<open>\<^verbatim>\<open>bytes.Reader.Read\<close>: at the end it is EOF even for an empty buffer, and a short read leaves zeros.\<close>

definition reader_Read :: "nat \<Rightarrow> bytes \<Rightarrow> bytes res \<times> bytes" where
  "reader_Read n s = (if s = [] then (Err EOF, []) else (Ok (take n s @ replicate (n - length s) 0), drop n s))"

definition read_uint32 :: "bytes \<Rightarrow> u32 res \<times> bytes" where
  "read_uint32 s = (case ReadFull 4 s of (Ok b, s) \<Rightarrow> (Ok (be_dec b), s) | (Err e, s) \<Rightarrow> (Err e, s) | (Panic, s) \<Rightarrow> (Panic, s))"

definition read_uint64 :: "bytes \<Rightarrow> u64 res \<times> bytes" where
  "read_uint64 s = (case ReadFull 8 s of (Ok b, s) \<Rightarrow> (Ok (be_dec b), s) | (Err e, s) \<Rightarrow> (Err e, s) | (Panic, s) \<Rightarrow> (Panic, s))"

text \<open>A length and that many bytes, as keys, values and headers are read.\<close>

definition read_sized :: "bytes \<Rightarrow> bytes res \<times> bytes" where
  "read_sized s =
     (case read_uint32 s of (Ok n, s) \<Rightarrow> reader_Read (unat n) s | (Err e, s) \<Rightarrow> (Err e, s) | (Panic, s) \<Rightarrow> (Panic, s))"

fun read_headers :: "nat \<Rightarrow> (bytes \<times> bytes) list \<Rightarrow> nat \<Rightarrow> bytes \<Rightarrow> ((bytes \<times> bytes) list \<times> nat) res" where
  "read_headers 0 headers byteRead s = Ok (headers, byteRead)"
| "read_headers (Suc n) headers byteRead s =
     (case read_sized s of
        (Ok k, s) \<Rightarrow>
          (case read_sized s of
             (Ok v, s) \<Rightarrow> read_headers n (AList.update k v headers) (byteRead + 4 + length k + 4 + length v) s
           | (Err e, _) \<Rightarrow> Err e
           | (Panic, _) \<Rightarrow> Panic)
      | (Err e, _) \<Rightarrow> Err e
      | (Panic, _) \<Rightarrow> Panic)"

definition read_body :: "u64 \<Rightarrow> u64 \<Rightarrow> bytes \<Rightarrow> (Message \<times> nat) res" where
  "read_body offset timestamp s =
     (case read_sized s of
        (Ok key, s) \<Rightarrow>
          (case read_sized s of
             (Ok val, s) \<Rightarrow>
               (case read_uint32 s of
                  (Ok headerCount, s) \<Rightarrow>
                    res_bind (read_headers (unat headerCount) []
                      (4 + 4 + 8 + 8 + 4 + length key + 4 + length val + 4) s) (\<lambda>(headers, byteRead).
                      Ok (\<lparr>msg_Offset = sint offset, msg_Timestamp = sint timestamp, msg_Key = key, msg_Value = val,
                           msg_Headers = headers\<rparr>, byteRead))
                | (Err e, _) \<Rightarrow> Err e
                | (Panic, _) \<Rightarrow> Panic)
           | (Err e, _) \<Rightarrow> Err e
           | (Panic, _) \<Rightarrow> Panic)
      | (Err e, _) \<Rightarrow> Err e
      | (Panic, _) \<Rightarrow> Panic)"

definition read_message :: "bytes \<Rightarrow> (Message \<times> nat) res" where
  "read_message frame =
     (case read_uint32 frame of
        (Ok crc, payload) \<Rightarrow>
          if crc32 crcIEEE payload \<noteq> crc then Err (GoErr ''CRC mismatch'')
          else (case read_uint64 payload of
                  (Ok offset, s) \<Rightarrow>
                    (case read_uint64 s of
                       (Ok timestamp, s) \<Rightarrow> read_body offset timestamp s
                     | (Err e, _) \<Rightarrow> Err e
                     | (Panic, _) \<Rightarrow> Panic)
                | (Err e, _) \<Rightarrow> Err e
                | (Panic, _) \<Rightarrow> Panic)
      | (Err e, _) \<Rightarrow> Err e
      | (Panic, _) \<Rightarrow> Panic)"

definition DeserializeMessage :: "bytes \<Rightarrow> (Message \<times> nat) res \<times> bytes" where
  "DeserializeMessage s =
     (case read_uint32 s of
        (Ok sz, s) \<Rightarrow>
          (case ReadFull (unat sz) s of
             (Ok frame, s) \<Rightarrow> (read_message frame, s)
           | (Err e, s) \<Rightarrow> (Err e, s)
           | (Panic, s) \<Rightarrow> (Panic, s))
      | (Err e, s) \<Rightarrow> (Err e, s)
      | (Panic, s) \<Rightarrow> (Panic, s))"

section \<open>Messages in a segment\<close>

text \<open>\<open>fls i\<close> has the failures met by the \<open>i\<close>th message; the file position is that of the next write.\<close>

fun append_loop :: "(nat \<Rightarrow> seg_faults) \<Rightarrow> nat \<Rightarrow> int \<Rightarrow> Message list \<Rightarrow> Segment \<Rightarrow> unit res \<times> Segment" where
  "append_loop fls i position [] s = (Ok (), s)"
| "append_loop fls i position (m # ms) s =
     (let data = SerializeMessage m in
      case sf_write (fls i) of
        Some k \<Rightarrow> (Err OSErr, s\<lparr>seg_logFile := seg_logFile s @ take k data\<rparr>)
      | None \<Rightarrow>
          let s = s\<lparr>seg_logFile := seg_logFile s @ data, seg_currentSize := seg_currentSize s + int (length data)\<rparr> in
          (case (if EntryCount (seg_offsetIndex s) = 0 \<or> position - seg_lastIndexedPosition s \<ge> seg_indexInterval s
                 then index_batch (fls i) (wrap64 (msg_Timestamp m)) (msg_Offset m) position s else (Ok (), s)) of
             (Ok _, s) \<Rightarrow>
               append_loop fls (i + 1) (position + int (length data)) ms
                 (if msg_Timestamp m > seg_newestTimestamp s then s\<lparr>seg_newestTimestamp := msg_Timestamp m\<rparr> else s)
           | (r, s) \<Rightarrow> (r, s)))"

definition Segment_Append :: "(nat \<Rightarrow> seg_faults) \<Rightarrow> Message list \<Rightarrow> Segment \<Rightarrow> unit res \<times> Segment" where
  "Segment_Append fls messages s =
     (if sf_seek (fls 0) then (Err OSErr, s) else append_loop fls 0 (int (length (seg_logFile s))) messages s)"

lemma ReadFull_rest: "ReadFull n s = (r, t) \<Longrightarrow> length t \<le> length s"
  by (auto simp: ReadFull_def split: if_splits)

lemma ReadFull_less: "ReadFull n s = (Ok b, t) \<Longrightarrow> 0 < n \<Longrightarrow> length t < length s"
  by (auto simp: ReadFull_def split: if_splits)

lemma Deserialize_shorter: "DeserializeMessage s = (Ok x, t) \<Longrightarrow> length t < length s"
proof -
  assume d: "DeserializeMessage s = (Ok x, t)"
  obtain r u where u: "ReadFull 4 s = (r, u)" by (rule prod.exhaust)
  obtain b where "r = Ok b" using d u by (cases r) (auto simp: DeserializeMessage_def read_uint32_def)
  then have "length u < length s" "length t \<le> length u"
    using d u ReadFull_less [of 4 s b u]
    by (auto simp: DeserializeMessage_def read_uint32_def split: prod.splits res.splits dest: ReadFull_rest)
  then show ?thesis by simp
qed

text \<open>The loop of \<^verbatim>\<open>Read\<close> and \<^verbatim>\<open>ReadAt\<close>: messages before \<open>from\<close> are skipped; \<^verbatim>\<open>ReadAt\<close> skips none.\<close>

function read_loop :: "(Message \<Rightarrow> bool) \<Rightarrow> int \<Rightarrow> int \<Rightarrow> Message list \<Rightarrow> bytes \<Rightarrow> Message list res" where
  "read_loop skip maxBytes bytesRead acc s =
     (if bytesRead < maxBytes then
        (case DeserializeMessage s of
           (Ok (m, n), rest) \<Rightarrow>
             if skip m then read_loop skip maxBytes bytesRead acc rest
             else read_loop skip maxBytes (bytesRead + int n) (acc @ [m]) rest
         | (Err EOF, _) \<Rightarrow> Ok acc
         | (Err e, _) \<Rightarrow> Err e
         | (Panic, _) \<Rightarrow> Panic)
      else Ok acc)"
  by pat_completeness auto
termination
  by (relation "measure (\<lambda>(_, _, _, _, s). length s)") (auto dest: Deserialize_shorter [OF sym])

declare read_loop.simps [simp del]

definition Segment_Read :: "bool \<Rightarrow> int \<Rightarrow> int \<Rightarrow> Segment \<Rightarrow> Message list res" where
  "Segment_Read seek_fails offset maxBytes s =
     (if offset < seg_BaseOffset s then Err (GoErr ''offset is out of range'')
      else res_bind (OffsetIndex_Lookup offset (seg_offsetIndex s)) (\<lambda>position.
        if seek_fails then Err OSErr
        else read_loop (\<lambda>m. msg_Offset m < offset) maxBytes 0 [] (drop (nat position) (seg_logFile s))))"

definition Segment_ReadAt :: "bool \<Rightarrow> int \<Rightarrow> int \<Rightarrow> Segment \<Rightarrow> Message list res" where
  "Segment_ReadAt seek_fails position maxBytes s =
     (if seek_fails \<or> position < 0 then Err OSErr
      else read_loop (\<lambda>_. False) maxBytes 0 [] (drop (nat position) (seg_logFile s)))"

text \<open>Deleting removes the three files of the segment from its directory; failures are ignored.\<close>

definition Segment_Delete :: "Segment \<Rightarrow> dir \<Rightarrow> unit res \<times> dir" where
  "Segment_Delete s d =
     (let base = fmt020 (seg_BaseOffset s) in
      (Ok (), AList.delete (base @ str ''.timeindex'') (AList.delete (base @ str ''.offsetIndex'') (AList.delete (base @ str ''.log'') d))))"

lemma Segment_Delete_files:
  assumes "valid_base (seg_BaseOffset s)" "valid_base b"
  shows "segment_files (snd (Segment_Delete s d)) b = (if b = seg_BaseOffset s then ([], [], []) else segment_files d b)"
  using fmt020_append_eq [OF assms(2,1)] fmt020_append_eq [OF assms(2,1), of "[]" "[]"]
  by (simp add: Segment_Delete_def segment_files_def dir_open_def delete_conv' Let_def)

section \<open>Messages in a log\<close>

fun stamp :: "int \<Rightarrow> int \<Rightarrow> Message list \<Rightarrow> Message list" where
  "stamp now o' [] = []"
| "stamp now o' (m # ms) =
     m\<lparr>msg_Offset := o', msg_Timestamp := (if msg_Timestamp m = zero_time then now else msg_Timestamp m)\<rparr> # stamp now (o' + 1) ms"

definition commitLog_Append ::
  "cl_faults \<Rightarrow> (nat \<Rightarrow> seg_faults) \<Rightarrow> int \<Rightarrow> Message list \<Rightarrow> commitLog \<Rightarrow> int res \<times> commitLog \<times> int option" where
  "commitLog_Append fl fls now messages c =
     (if cl_isClosed c then (Err (GoErr ''commitLog is already closed''), c, None)
      else if cl_segments c = [] then (Ok 0, c, None)
      else (case roll fl c of
          Err e \<Rightarrow> (Err e, c, None)
        | Panic \<Rightarrow> (Panic, c, None)
        | Ok (c, rolled) \<Rightarrow>
            let startOffset = cl_nextOffset c;
                c = c\<lparr>cl_nextOffset := startOffset + int (length messages)\<rparr> in
            case Segment_Append fls (stamp now startOffset messages) (cl_activeSegment c) of
              (Ok _, s) \<Rightarrow>
                (Ok startOffset, c\<lparr>cl_segments := butlast (cl_segments c) @ [s]\<rparr>, if cl_onSegmentRoll c then rolled else None)
            | (Err e, s) \<Rightarrow> (Err e, c\<lparr>cl_segments := butlast (cl_segments c) @ [s]\<rparr>, None)
            | (Panic, s) \<Rightarrow> (Panic, c\<lparr>cl_segments := butlast (cl_segments c) @ [s]\<rparr>, None)))"

fun read_segments :: "bool \<Rightarrow> int \<Rightarrow> int \<Rightarrow> Message list \<Rightarrow> int \<Rightarrow> Segment list \<Rightarrow> Message list res" where
  "read_segments seek_fails readOffset maxBytes acc byteReads [] = Ok acc"
| "read_segments seek_fails readOffset maxBytes acc byteReads (s # ss) =
     (if byteReads < maxBytes then
        res_bind (Segment_Read seek_fails readOffset (maxBytes - byteReads) s) (\<lambda>msgs.
          read_segments seek_fails (case ss of [] \<Rightarrow> 0 | t # _ \<Rightarrow> seg_BaseOffset t) maxBytes (acc @ msgs)
            (byteReads + sum_list (map (\<lambda>m. int (length (SerializeMessage m))) msgs)) ss)
      else Ok acc)"

text \<open>A negative limit panics in \<^verbatim>\<open>make\<close>.\<close>

definition commitLog_Read :: "bool \<Rightarrow> int \<Rightarrow> int \<Rightarrow> commitLog \<Rightarrow> Message list res" where
  "commitLog_Read seek_fails offset maxBytes c =
     (if cl_isClosed c then Err (GoErr ''commitLog is already closed'')
      else let segmentIndex = findSegmentByOffset offset c in
        if segmentIndex < 0 then Ok []
        else if maxBytes < 0 then Panic
        else read_segments seek_fails offset maxBytes [] 0 (drop (nat segmentIndex) (cl_segments c)))"

section \<open>Round trip\<close>

definition message_valid :: "Message \<Rightarrow> bool" where
  "message_valid m \<longleftrightarrow> - (2 ^ 63) \<le> msg_Offset m \<and> msg_Offset m < 2 ^ 63 \<and> - (2 ^ 63) \<le> msg_Timestamp m \<and> msg_Timestamp m < 2 ^ 63 \<and>
     distinct (map fst (msg_Headers m)) \<and> 4 + length (message_payload m) < 2 ^ 32"

lemma unat_len16 [simp]: "length s < 65536 \<Longrightarrow> unat (of_nat (length s) :: u16) = length s"
  by (simp add: unsigned_of_nat take_bit_nat_eq_self)

lemma unat_len32 [simp]: "length s < 4294967296 \<Longrightarrow> unat (of_nat (length s) :: u32) = length s"
  by (simp add: unsigned_of_nat take_bit_nat_eq_self)

lemma ReadFull_app [simp]: "length a = n \<Longrightarrow> ReadFull n (a @ b) = (Ok a, b)"
  by (simp add: ReadFull_def)

lemma be_enc_Nil [simp]: "be_enc k w = [] \<longleftrightarrow> k = 0"
  by (cases k) simp_all

lemma read_uint32_app [simp]: "read_uint32 (be_enc 4 (w :: u32) @ b) = (Ok w, b)"
  by (simp add: read_uint32_def)

lemma read_uint64_app [simp]: "read_uint64 (be_enc 8 (w :: u64) @ b) = (Ok w, b)"
  by (simp add: read_uint64_def)

lemma read_sized_app [simp]:
  "length a < 2 ^ 32 \<Longrightarrow> read_sized (sized a @ b) = (if a @ b = [] then (Err EOF, []) else (Ok a, b))"
  by (simp add: read_sized_def sized_def reader_Read_def)

lemma length_sized [simp]: "length (sized a) = 4 + length a"
  by (simp add: sized_def)

lemma sized_nonempty [simp]: "sized a \<noteq> []"
  by (metis length_sized add_is_0 length_0_conv zero_neq_numeral)

lemma read_headers_app:
  assumes "\<forall>(k, v)\<in>set hs. length k < 2 ^ 32 \<and> length v < 2 ^ 32" "distinct (map fst (acc @ hs))"
    and "hs = [] \<or> snd (last hs) \<noteq> []"
  shows "read_headers (length hs) acc n (concat (map (\<lambda>(k, v). sized k @ sized v) hs)) =
    Ok (acc @ hs, n + length (concat (map (\<lambda>(k, v). sized k @ sized v) hs)))"
  using assms
proof (induction hs arbitrary: acc n)
  case (Cons h hs)
  obtain k v where h: "h = (k, v)" by (rule prod.exhaust)
  let ?tl = "concat (map (\<lambda>(k, v). sized k @ sized v) hs)"
  have ne: "v @ ?tl \<noteq> []" using Cons.prems(3) h by (cases hs) (auto split: prod.splits)
  have "k \<notin> set (map fst acc)" using Cons.prems(2) h by auto
  then have upd: "AList.update k v acc = acc @ [(k, v)]" by (induction acc) auto
  have "read_sized (sized k @ sized v @ ?tl) = (Ok k, sized v @ ?tl)" "read_sized (sized v @ ?tl) = (Ok v, ?tl)"
    using Cons.prems(1) ne h by auto
  moreover have "read_headers (length hs) (acc @ [(k, v)]) (n + 4 + length k + 4 + length v) ?tl =
      Ok ((acc @ [(k, v)]) @ hs, n + 4 + length k + 4 + length v + length ?tl)"
    by (rule Cons.IH) (use Cons.prems h in \<open>auto split: if_splits\<close>)
  ultimately show ?case by (simp add: h upd)
qed simp

lemma message_sizes:
  assumes "4 + length (message_payload m) < 2 ^ 32"
  shows "length (msg_Key m) < 2 ^ 32" "length (msg_Value m) < 2 ^ 32" "length (msg_Headers m) < 2 ^ 32"
    "\<forall>(k, v)\<in>set (sort_key fst (msg_Headers m)). length k < 2 ^ 32 \<and> length v < 2 ^ 32"
proof -
  have l: "length (concat (map (\<lambda>(k, v). sized k @ sized v) hs)) \<ge> length hs \<and>
      (\<forall>(k, v)\<in>set hs. length k \<le> length (concat (map (\<lambda>(k, v). sized k @ sized v) hs)) \<and>
         length v \<le> length (concat (map (\<lambda>(k, v). sized k @ sized v) hs)))" for hs
    by (induction hs) auto
  show "length (msg_Key m) < 2 ^ 32" "length (msg_Value m) < 2 ^ 32" "length (msg_Headers m) < 2 ^ 32"
    "\<forall>(k, v)\<in>set (sort_key fst (msg_Headers m)). length k < 2 ^ 32 \<and> length v < 2 ^ 32"
    using assms l [of "sort_key fst (msg_Headers m)"] by (fastforce simp: message_payload_def)+
qed

text \<open>A message is readable unless its last header, in the order of the keys, has an empty value.\<close>

definition message_readable :: "Message \<Rightarrow> bool" where
  "message_readable m \<longleftrightarrow> msg_Headers m = [] \<or> snd (last (sort_key fst (msg_Headers m))) \<noteq> []"

lemma sint_of_u64: "- (2 ^ 63) \<le> n \<Longrightarrow> n < 2 ^ 63 \<Longrightarrow> sint (word_of_int n :: u64) = n"
  using wrap64_id [of n] by (simp add: wrap64_def)

lemma DeserializeMessage_frame:
  assumes "4 + length (message_payload m) < 2 ^ 32"
  shows "DeserializeMessage (SerializeMessage m @ rest) =
    (read_body (word_of_int (msg_Offset m)) (word_of_int (msg_Timestamp m)) (drop 16 (message_payload m)), rest)"
proof -
  let ?p = "message_payload m"
  let ?f = "be_enc 4 (crc32 crcIEEE ?p) @ ?p"
  have n: "unat (of_nat (4 + length ?p) :: u32) = length ?f"
    unfolding unsigned_of_nat using assms by (simp add: take_bit_nat_eq_self)
  have split: "?p = be_enc 8 (word_of_int (msg_Offset m) :: u64) @ be_enc 8 (word_of_int (msg_Timestamp m) :: u64) @ drop 16 ?p"
    by (simp add: message_payload_def)
  have "read_uint64 ?p = (Ok (word_of_int (msg_Offset m)), be_enc 8 (word_of_int (msg_Timestamp m) :: u64) @ drop 16 ?p)"
    by (subst split) simp
  then have "read_message ?f = read_body (word_of_int (msg_Offset m)) (word_of_int (msg_Timestamp m)) (drop 16 ?p)"
    by (simp add: read_message_def)
  moreover have "ReadFull (length ?f) (?f @ rest) = (Ok ?f, rest)" by (rule ReadFull_app) simp
  ultimately show ?thesis
    using n by (simp add: DeserializeMessage_def SerializeMessage_def)
qed

lemma sort_key_props [simp]: "length (sort_key fst hs) = length hs" "distinct (map fst (sort_key fst hs)) = distinct (map fst hs)"
  by (simp_all add: distinct_map)

lemma Deserialize_Serialize:
  assumes v: "message_valid m" and r: "message_readable m"
  shows "DeserializeMessage (SerializeMessage m @ rest) =
    (Ok (m\<lparr>msg_Headers := sort_key fst (msg_Headers m)\<rparr>, length (SerializeMessage m)), rest)"
proof -
  let ?hs = "sort_key fst (msg_Headers m)"
  let ?h = "concat (map (\<lambda>(k, v). sized k @ sized v) ?hs)"
  let ?n = "4 + 4 + 8 + 8 + 4 + length (msg_Key m) + 4 + length (msg_Value m) + 4"
  have len: "4 + length (message_payload m) < 2 ^ 32" using v by (simp add: message_valid_def)
  note sizes = message_sizes [OF len]
  have hs: "read_headers (length ?hs) [] ?n ?h = Ok ([] @ ?hs, ?n + length ?h)"
    by (rule read_headers_app) (use sizes(4) v r in \<open>auto simp: message_valid_def message_readable_def distinct_map\<close>)
  have c: "unat (of_nat (length (msg_Headers m)) :: u32) = length ?hs" using sizes(3) by simp
  have "drop 16 (message_payload m) = sized (msg_Key m) @ sized (msg_Value m) @ be_enc 4 (of_nat (length (msg_Headers m)) :: u32) @ ?h"
    by (simp add: message_payload_def)
  then have "read_body o' ts (drop 16 (message_payload m)) =
      Ok (\<lparr>msg_Offset = sint o', msg_Timestamp = sint ts, msg_Key = msg_Key m, msg_Value = msg_Value m, msg_Headers = ?hs\<rparr>, ?n + length ?h)" for o' ts
    using sizes(1,2) hs c by (simp add: read_body_def)
  moreover have "length (SerializeMessage m) = ?n + length ?h" by (simp add: SerializeMessage_def message_payload_def)
  ultimately show ?thesis
    using DeserializeMessage_frame [OF len] v by (cases m) (simp add: message_valid_def sint_of_u64)
qed

text \<open>Otherwise the reader is at its end when it comes to the last value, and that counts as the end of the file.\<close>

lemma read_headers_stop:
  assumes "\<forall>(k, v)\<in>set (hs @ [(k', [])]). length k < 2 ^ 32 \<and> length v < 2 ^ 32"
  shows "read_headers (length (hs @ [(k', [])])) acc n (concat (map (\<lambda>(k, v). sized k @ sized v) (hs @ [(k', [])]))) = Err EOF"
  using assms
proof (induction hs arbitrary: acc n)
  case Nil
  have "read_sized (sized []) = (Err EOF, [])" using read_sized_app [of "[]" "[]"] by simp
  then show ?case using Nil by simp
next
  case (Cons h hs)
  obtain k v where h: "h = (k, v)" by (rule prod.exhaust)
  let ?tl = "concat (map (\<lambda>(k, v). sized k @ sized v) (hs @ [(k', [])]))"
  have "read_sized (sized k @ sized v @ ?tl) = (Ok k, sized v @ ?tl)" "read_sized (sized v @ ?tl) = (Ok v, ?tl)"
    using Cons.prems h by auto
  moreover have "read_headers (length (hs @ [(k', [])])) acc' n' ?tl = Err EOF" for acc' n' using Cons by auto
  ultimately show ?case by (simp add: h)
qed

lemma Deserialize_unreadable:
  assumes v: "message_valid m" and r: "\<not> message_readable m"
  shows "DeserializeMessage (SerializeMessage m @ rest) = (Err EOF, rest)"
proof -
  let ?hs = "sort_key fst (msg_Headers m)"
  have len: "4 + length (message_payload m) < 2 ^ 32" using v by (simp add: message_valid_def)
  note sizes = message_sizes [OF len]
  have "msg_Headers m \<noteq> []" and last': "snd (last ?hs) = []" using r by (auto simp: message_readable_def)
  then have ne: "?hs \<noteq> []" by (metis sort_key_props(1) length_0_conv)
  obtain hs k' where split: "?hs = hs @ [(k', [])]"
  proof
    have "last ?hs = (fst (last ?hs), [])" using last' by (simp add: prod_eq_iff)
    then show "?hs = butlast ?hs @ [(fst (last ?hs), [])]" using append_butlast_last_id [OF ne] by simp
  qed
  have "\<forall>(k, v)\<in>set (hs @ [(k', [])]). length k < 2 ^ 32 \<and> length v < 2 ^ 32" using sizes(4) unfolding split .
  then have "read_headers (length ?hs) acc n (concat (map (\<lambda>(k, v). sized k @ sized v) ?hs)) = Err EOF" for acc n
    unfolding split by (rule read_headers_stop)
  moreover have c: "unat (of_nat (length (msg_Headers m)) :: u32) = length ?hs" using sizes(3) by simp
  moreover have "drop 16 (message_payload m) = sized (msg_Key m) @ sized (msg_Value m) @ be_enc 4 (of_nat (length (msg_Headers m)) :: u32) @
      concat (map (\<lambda>(k, v). sized k @ sized v) ?hs)"
    by (simp add: message_payload_def)
  ultimately show ?thesis
    using DeserializeMessage_frame [OF len] sizes(1,2) by (simp add: read_body_def)
qed

section \<open>A segment of messages\<close>

text \<open>
  The messages of a segment: they fill the log file in the order of their offsets, and the entries
  of the offset index are the file positions of some of them.
\<close>

definition message_ok :: "Message \<Rightarrow> bool" where
  "message_ok m \<longleftrightarrow> message_valid m \<and> message_readable m \<and> sort_key fst (msg_Headers m) = msg_Headers m"

definition msg_pos :: "Message list \<Rightarrow> nat \<Rightarrow> int" where
  "msg_pos ms i = int (length (concat (map SerializeMessage (take i ms))))"

definition msg_rep :: "Segment \<Rightarrow> Message list \<Rightarrow> bool" where
  "msg_rep s ms \<longleftrightarrow> seg_logFile s = concat (map SerializeMessage ms) \<and> (\<forall>m\<in>set ms. message_ok m) \<and>
     (\<forall>i<length ms. msg_Offset (ms ! i) = seg_BaseOffset s + int i) \<and>
     ix_inv entrySize (seg_offsetIndex s) \<and> ix_inv timeEntrySize (seg_timeIndex s) \<and>
     ix_baseOffset (seg_offsetIndex s) = seg_BaseOffset s \<and>
     sorted_wrt (<) (map fst (offset_entries (seg_offsetIndex s))) \<and>
     (\<forall>(r, p)\<in>set (offset_entries (seg_offsetIndex s)). \<exists>i<length ms. r = int i \<and> p = msg_pos ms i)"

lemma index_batch_ok:
  assumes "ix_inv entrySize (seg_offsetIndex s)" "ix_inv timeEntrySize (seg_timeIndex s)"
  shows "\<exists>oi ti. index_batch no_seg_faults now o' p s =
      (Ok (), s\<lparr>seg_offsetIndex := oi, seg_timeIndex := ti, seg_lastIndexedPosition := p\<rparr>) \<and>
    ix_inv entrySize oi \<and> ix_inv timeEntrySize ti \<and> ix_baseOffset oi = ix_baseOffset (seg_offsetIndex s) \<and>
    offset_entries oi = offset_entries (seg_offsetIndex s) @
      [(uint (word_of_int (o' - ix_baseOffset (seg_offsetIndex s)) :: u32), uint (word_of_int p :: u32))]"
proof -
  obtain oi where oi: "OffsetIndex_Append no_faults o' p (seg_offsetIndex s) = (Ok (), oi)"
    using OffsetIndex_Append_total assms(1) by (metis prod.collapse)
  obtain ti where ti: "TimeIndex_Append no_faults o' now (seg_timeIndex s) = (Ok (), ti)"
    using TimeIndex_Append_total assms(2) by (metis prod.collapse)
  show ?thesis
    using OffsetIndex_Append_ok [OF assms(1) oi refl] TimeIndex_Append_ok [OF assms(2) ti refl] oi ti
    by (auto simp: index_batch_def no_seg_faults_def)
qed

lemma uint_of_nat32: "n < 2 ^ 32 \<Longrightarrow> uint (of_nat n :: u32) = int n"
  by (simp add: unsigned_of_nat take_bit_nat_eq_self)

lemma msg_rep_frame [simp]:
  "msg_rep (s\<lparr>seg_newestTimestamp := t\<rparr>) ms = msg_rep s ms" "msg_rep (s\<lparr>seg_currentSize := z\<rparr>) ms = msg_rep s ms"
  "msg_rep (s\<lparr>seg_lastIndexedPosition := p\<rparr>) ms = msg_rep s ms"
  by (simp_all add: msg_rep_def)

lemma msg_pos_snoc: "i < length ms \<Longrightarrow> msg_pos (ms @ [m]) i = msg_pos ms i"
  by (simp add: msg_pos_def)

lemma append_one:
  assumes rep: "msg_rep s ms" and m: "message_ok m" "msg_Offset m = seg_BaseOffset s + int (length ms)"
    and bound: "int (length ms) < 2 ^ 32" "int (length (seg_logFile s)) < 2 ^ 32"
  shows "\<exists>s'. append_loop (\<lambda>_. no_seg_faults) i (int (length (seg_logFile s))) (m # rest) s =
      append_loop (\<lambda>_. no_seg_faults) (i + 1) (int (length (seg_logFile s'))) rest s' \<and>
    msg_rep s' (ms @ [m]) \<and> seg_BaseOffset s' = seg_BaseOffset s"
proof -
  let ?p = "int (length (seg_logFile s))"
  let ?s1 = "s\<lparr>seg_logFile := seg_logFile s @ SerializeMessage m,
    seg_currentSize := seg_currentSize s + int (length (SerializeMessage m))\<rparr>"
  let ?stamp = "\<lambda>s. if msg_Timestamp m > seg_newestTimestamp s then s\<lparr>seg_newestTimestamp := msg_Timestamp m\<rparr> else s"
  note r = rep [unfolded msg_rep_def]
  have p: "?p = msg_pos (ms @ [m]) (length ms)" using r by (simp add: msg_pos_def)
  obtain oi ti where idx: "index_batch no_seg_faults (wrap64 (msg_Timestamp m)) (msg_Offset m) ?p ?s1 =
      (Ok (), ?s1\<lparr>seg_offsetIndex := oi, seg_timeIndex := ti, seg_lastIndexedPosition := ?p\<rparr>)"
    "ix_inv entrySize oi" "ix_inv timeEntrySize ti" "ix_baseOffset oi = seg_BaseOffset s"
    "offset_entries oi = offset_entries (seg_offsetIndex s) @ [(int (length ms), ?p)]"
    using index_batch_ok [of ?s1 "wrap64 (msg_Timestamp m)" "msg_Offset m" ?p] r m(2) bound
      uint_of_nat32 [of "length ms"] uint_of_nat32 [of "length (seg_logFile s)"]
    by auto
  have base: "\<forall>i<length (ms @ [m]). msg_Offset ((ms @ [m]) ! i) = seg_BaseOffset s + int i"
    using r m(2) by (auto simp: nth_append less_Suc_eq)
  have old: "\<forall>(r, p)\<in>set (offset_entries (seg_offsetIndex s)). \<exists>i<length ms. r = int i \<and> p = msg_pos (ms @ [m]) i"
    using r by (fastforce simp: msg_pos_snoc)
  have plain: "msg_rep ?s1 (ms @ [m])" using r m base old by (fastforce simp: msg_rep_def)
  have indexed: "msg_rep (?s1\<lparr>seg_offsetIndex := oi, seg_timeIndex := ti, seg_lastIndexedPosition := ?p\<rparr>) (ms @ [m])"
    using r m base old idx(2-5) p by (fastforce simp: msg_rep_def sorted_wrt_append)
  show ?thesis
  proof (cases "EntryCount (seg_offsetIndex s) = 0 \<or> ?p - seg_lastIndexedPosition s \<ge> seg_indexInterval s")
    case True
    let ?s2 = "?s1\<lparr>seg_offsetIndex := oi, seg_timeIndex := ti, seg_lastIndexedPosition := ?p\<rparr>"
    show ?thesis
      using True idx(1) indexed by (intro exI [of _ "?stamp ?s2"]) (simp add: Let_def no_seg_faults_def)
  next
    case False
    then show ?thesis using plain by (intro exI [of _ "?stamp ?s1"]) (simp add: Let_def no_seg_faults_def)
  qed
qed

lemma Serialize_nonempty [simp]: "SerializeMessage m \<noteq> []"
  by (simp add: SerializeMessage_def)

lemma messages_length: "length ms \<le> length (concat (map SerializeMessage ms))"
proof (induction ms)
  case (Cons m ms)
  have "1 \<le> length (SerializeMessage m)" by (simp add: SerializeMessage_def)
  then show ?case using Cons by simp
qed simp

lemma append_all:
  assumes "msg_rep s ms" "\<forall>m\<in>set new. message_ok m"
    "\<forall>i<length new. msg_Offset (new ! i) = seg_BaseOffset s + int (length ms + i)"
    "length (concat (map SerializeMessage (ms @ new))) < 2 ^ 32"
  shows "\<exists>s'. append_loop (\<lambda>_. no_seg_faults) i (int (length (seg_logFile s))) new s = (Ok (), s') \<and>
    msg_rep s' (ms @ new) \<and> seg_BaseOffset s' = seg_BaseOffset s"
  using assms
proof (induction new arbitrary: s ms i)
  case (Cons m new)
  have log: "seg_logFile s = concat (map SerializeMessage ms)" using Cons.prems(1) by (simp add: msg_rep_def)
  obtain s1 where s1: "append_loop (\<lambda>_. no_seg_faults) i (int (length (seg_logFile s))) (m # new) s =
      append_loop (\<lambda>_. no_seg_faults) (i + 1) (int (length (seg_logFile s1))) new s1" "msg_rep s1 (ms @ [m])"
    "seg_BaseOffset s1 = seg_BaseOffset s"
    using append_one [OF Cons.prems(1), of m i new] Cons.prems(2-4) messages_length [of ms] log by fastforce
  have "\<exists>s'. append_loop (\<lambda>_. no_seg_faults) (i + 1) (int (length (seg_logFile s1))) new s1 = (Ok (), s') \<and>
      msg_rep s' ((ms @ [m]) @ new) \<and> seg_BaseOffset s' = seg_BaseOffset s1"
    by (rule Cons.IH [OF s1(2)]) (use Cons.prems s1(3) in \<open>force+\<close>)
  then show ?case using s1 by auto
qed simp

text \<open>The messages a reader gets: as long as the limit is not used up, one more.\<close>

fun within :: "int \<Rightarrow> Message list \<Rightarrow> Message list" where
  "within mb [] = []"
| "within mb (m # ms) = (if 0 < mb then m # within (mb - int (length (SerializeMessage m))) ms else [])"

lemma Deserialize_end: "DeserializeMessage [] = (Err EOF, [])"
  by (simp add: DeserializeMessage_def read_uint32_def ReadFull_def)

lemma read_loop_messages:
  "\<forall>m\<in>set ms. message_ok m \<Longrightarrow>
     read_loop skip mb br acc (concat (map SerializeMessage ms)) = Ok (acc @ within (mb - br) (filter (\<lambda>m. \<not> skip m) ms))"
proof (induction ms arbitrary: br acc)
  case Nil
  show ?case by (subst read_loop.simps) (simp add: Deserialize_end)
next
  case (Cons m ms)
  have m: "m\<lparr>msg_Headers := sort_key fst (msg_Headers m)\<rparr> = m" using Cons.prems by (cases m) (simp add: message_ok_def)
  have d: "DeserializeMessage (SerializeMessage m @ concat (map SerializeMessage ms)) =
      (Ok (m, length (SerializeMessage m)), concat (map SerializeMessage ms))"
    using Deserialize_Serialize [of m "concat (map SerializeMessage ms)"] Cons.prems m by (simp add: message_ok_def)
  have stop: "within n xs = []" if "n \<le> 0" for n xs using that by (cases xs) auto
  show ?case
  proof (cases "br < mb")
    case True
    then show ?thesis
      using Cons.prems by (subst read_loop.simps) (simp add: d Cons.IH diff_diff_eq)
  next
    case False
    then show ?thesis by (subst read_loop.simps) (simp add: stop)
  qed
qed

lemma drop_messages: "i \<le> length ms \<Longrightarrow> drop (nat (msg_pos ms i)) (concat (map SerializeMessage ms)) = concat (map SerializeMessage (drop i ms))"
proof -
  have "concat (map SerializeMessage ms) = concat (map SerializeMessage (take i ms)) @ concat (map SerializeMessage (drop i ms))"
    by (metis append_take_drop_id concat_append map_append)
  then show ?thesis by (simp add: msg_pos_def)
qed

lemma filter_from:
  assumes "\<forall>i<length ms. msg_Offset (ms ! i) = base + int i" "i \<le> nat (o' - base)"
  shows "filter (\<lambda>m. \<not> msg_Offset m < o') (drop i ms) = drop (nat (o' - base)) ms"
proof -
  let ?k = "nat (o' - base)"
  have "drop i ms = take (?k - i) (drop i ms) @ drop ?k ms"
    using assms(2) by (metis append_take_drop_id drop_drop le_add_diff_inverse2)
  moreover have "filter (\<lambda>m. \<not> msg_Offset m < o') (take (?k - i) (drop i ms)) = []"
    using assms by (auto simp: filter_empty_conv in_set_conv_nth)
  moreover have "filter (\<lambda>m. \<not> msg_Offset m < o') (drop ?k ms) = drop ?k ms"
    using assms(1) by (auto simp: filter_id_conv in_set_conv_nth split: if_splits)
  ultimately show ?thesis by (metis append_Nil filter_append)
qed

lemma Segment_Read_rep:
  assumes rep: "msg_rep s ms" and o': "seg_BaseOffset s \<le> o'"
  shows "Segment_Read False o' mb s = Ok (within mb (drop (nat (o' - seg_BaseOffset s)) ms))"
proof -
  let ?es = "offset_entries (seg_offsetIndex s)" and ?t = "o' - seg_BaseOffset s"
  note r = rep [unfolded msg_rep_def]
  have look: "OffsetIndex_Lookup o' (seg_offsetIndex s) = Ok (floor_pos ?es ?t)"
    using OffsetIndex_Lookup_floor [of "seg_offsetIndex s" o'] r by simp
  obtain i where i: "i \<le> length ms" "i \<le> nat ?t" "floor_pos ?es ?t = msg_pos ms i"
  proof (cases rule: floor_pos_cases [of ?es ?t])
    case 1
    then show thesis using that [of 0] by (simp add: msg_pos_def)
  next
    case (2 q)
    then obtain j where "j < length ms" "q = int j" "floor_pos ?es ?t = msg_pos ms j" using r by fastforce
    then show thesis using that [of j] 2 by simp
  qed
  show ?thesis
    using o' look i read_loop_messages [of "drop i ms" "\<lambda>m. msg_Offset m < o'" mb 0 "[]"] filter_from [of ms "seg_BaseOffset s" i o'] r
      in_set_dropD [of _ i ms]
    by (auto simp: Segment_Read_def drop_messages)
qed

section \<open>Properties\<close>

text \<open>
  C24. A serialised message is read back, from whatever follows it in the file, with its headers in
  the order of their keys, and with the number of bytes it takes up. The exception is a message
  whose last header has an empty value: its checksum is right, but the reader reports the end of
  the file.
\<close>

theorem message_roundtrip:
  assumes "message_valid m"
  shows "DeserializeMessage (SerializeMessage m @ rest) =
    (if message_readable m then Ok (m\<lparr>msg_Headers := sort_key fst (msg_Headers m)\<rparr>, length (SerializeMessage m)) else Err EOF, rest)"
  using Deserialize_Serialize [OF assms] Deserialize_unreadable [OF assms] by simp

definition sample_message :: "(bytes \<times> bytes) list \<Rightarrow> Message" where
  "sample_message hs = \<lparr>msg_Offset = 0, msg_Timestamp = 5, msg_Key = [1], msg_Value = [], msg_Headers = hs\<rparr>"

theorem message_roundtrip_witness:
  "DeserializeMessage (SerializeMessage (sample_message [([8], [2]), ([7], [])])) =
     (Ok (sample_message [([7], []), ([8], [2])], 56), []) \<and>
   DeserializeMessage (SerializeMessage (sample_message [([7], [2]), ([8], [])])) = (Err EOF, [])"
proof
  let ?m = "sample_message [([8], [2]), ([7], [])]" and ?n = "sample_message [([7], [2]), ([8], [])]"
  have l: "length (SerializeMessage ?m) = 56" "length (message_payload ?m) = 48" "length (message_payload ?n) = 48"
    by (simp_all add: SerializeMessage_def message_payload_def sample_message_def)
  show "DeserializeMessage (SerializeMessage ?m) = (Ok (sample_message [([7], []), ([8], [2])], 56), [])"
    using message_roundtrip [of ?m "[]"] l
    by (simp add: message_valid_def message_readable_def sample_message_def)
  show "DeserializeMessage (SerializeMessage ?n) = (Err EOF, [])"
    using message_roundtrip [of ?n "[]"] l
    by (simp add: message_valid_def message_readable_def sample_message_def)
qed

lemma stamp_props:
  "length (stamp now o' ms) = length ms" "i < length ms \<Longrightarrow> msg_Offset (stamp now o' ms ! i) = o' + int i"
  by (induction ms arbitrary: o' i) (auto simp: nth_Cons split: nat.splits)

text \<open>
  C23. Messages appended to a log are read back from it. After an append to a log whose one segment
  has room, a read from any offset of the segment gives the messages from that offset on, with the
  offsets and times the log gave the new ones, until the limit is used up, wherever the sparse index
  has entries.
\<close>

theorem messages_read_back:
  assumes c: "cl_segments c = [s]" "\<not> cl_isClosed c" "\<not> IsFull s" "cl_nextOffset c = seg_BaseOffset s + int (length ms)"
    and rep: "msg_rep s ms" and new: "\<forall>m\<in>set (stamp now (cl_nextOffset c) new). message_ok m"
    and fits: "length (concat (map SerializeMessage (ms @ stamp now (cl_nextOffset c) new))) < 2 ^ 32"
    and o': "seg_BaseOffset s \<le> o'" and mb: "0 \<le> mb"
  shows "\<exists>c'. commitLog_Append no_cl_faults (\<lambda>_. no_seg_faults) now new c = (Ok (cl_nextOffset c), c', None) \<and>
    cl_nextOffset c' = cl_nextOffset c + int (length new) \<and>
    commitLog_Read False o' mb c' = Ok (within mb (drop (nat (o' - seg_BaseOffset s)) (ms @ stamp now (cl_nextOffset c) new)))"
proof -
  let ?new = "stamp now (cl_nextOffset c) new"
  obtain s' where s': "append_loop (\<lambda>_. no_seg_faults) 0 (int (length (seg_logFile s))) ?new s = (Ok (), s')"
    "msg_rep s' (ms @ ?new)" "seg_BaseOffset s' = seg_BaseOffset s"
    using append_all [OF rep new _ fits, of 0] c(4) by (auto simp: stamp_props)
  let ?c = "c\<lparr>cl_nextOffset := cl_nextOffset c + int (length new), cl_segments := [s']\<rparr>"
  have "commitLog_Append no_cl_faults (\<lambda>_. no_seg_faults) now new c = (Ok (cl_nextOffset c), ?c, None)"
    using c(1-3) s'(1) by (simp add: commitLog_Append_def roll_def Segment_Append_def cl_activeSegment_def Let_def no_seg_faults_def)
  moreover have "findSegmentByOffset o' ?c = 0"
    using o' s'(3) by (simp add: findSegmentByOffset_def segment_search.simps)
  then have "commitLog_Read False o' mb ?c = Ok (within mb (drop (nat (o' - seg_BaseOffset s)) (ms @ ?new)))"
    using c(2) mb Segment_Read_rep [OF s'(2), of o' mb] s'(3) o'
    by (cases "0 < mb"; cases "drop (nat (o' - seg_BaseOffset s)) (ms @ ?new)") (auto simp: commitLog_Read_def)
  ultimately show ?thesis by auto
qed

lemma new_segment_messages:
  "\<exists>s. NewSegment no_seg_faults ([], [], []) 0 sample_config = Ok s \<and> msg_rep s [] \<and> seg_BaseOffset s = 0 \<and> \<not> IsFull s"
proof -
  obtain s where s: "NewSegment no_seg_faults ([], [], []) 0 sample_config = Ok s" "seg_rep s []" "seg_BaseOffset s = 0"
    "seg_maxBytes s = 1048576"
    using NewSegment_rep [of 0 "[]" "[]" "[]" sample_config] by (auto simp: sample_config_def)
  then show ?thesis by (auto simp: seg_rep_def msg_rep_def index_points_def IsFull_def)
qed

theorem messages_read_back_witness:
  "\<exists>s c'. let c = \<lparr>cl_segments = [s], cl_config = sample_config, cl_isClosed = False, cl_nextOffset = 0, cl_onSegmentRoll = False\<rparr> in
     commitLog_Append no_cl_faults (\<lambda>_. no_seg_faults) 9 [sample_message [], sample_message []] c = (Ok 0, c', None) \<and>
     commitLog_Read False 1 100 c' = Ok [(sample_message [])\<lparr>msg_Offset := 1\<rparr>]"
proof -
  obtain s where s: "msg_rep s []" "seg_BaseOffset s = 0" "\<not> IsFull s" using new_segment_messages by blast
  let ?c = "\<lparr>cl_segments = [s], cl_config = sample_config, cl_isClosed = False, cl_nextOffset = 0, cl_onSegmentRoll = False\<rparr>"
  let ?new = "[sample_message [], sample_message []]"
  have st: "stamp 9 0 ?new = [sample_message [], (sample_message [])\<lparr>msg_Offset := 1\<rparr>]"
    by (simp add: sample_message_def zero_time_def)
  have "\<exists>c'. commitLog_Append no_cl_faults (\<lambda>_. no_seg_faults) 9 ?new ?c = (Ok (cl_nextOffset ?c), c', None) \<and>
    cl_nextOffset c' = cl_nextOffset ?c + int (length ?new) \<and>
    commitLog_Read False 1 100 c' = Ok (within 100 (drop (nat (1 - seg_BaseOffset s)) ([] @ stamp 9 (cl_nextOffset ?c) ?new)))"
    by (rule messages_read_back)
       (use s st in \<open>simp_all add: message_ok_def message_valid_def message_readable_def SerializeMessage_def message_payload_def sample_message_def\<close>)
  then show ?thesis using s(2) st by (intro exI [of _ s]) (auto simp: Let_def)
qed

text \<open>
  An append that cannot write has used up its offsets all the same: the next message gets an offset
  with a gap before it.
\<close>

lemma failed_append_skips_offsets:
  assumes "cl_segments c = [s]" "\<not> cl_isClosed c" "\<not> IsFull s" "new \<noteq> []" "sf_write (fls 0) = Some k" "\<not> sf_seek (fls 0)"
  shows "\<exists>c'. commitLog_Append no_cl_faults fls now new c = (Err OSErr, c', None) \<and>
    cl_nextOffset c' = cl_nextOffset c + int (length new)"
  using assms by (cases new) (auto simp: commitLog_Append_def roll_def Segment_Append_def cl_activeSegment_def Let_def)

end
