(* ===== verification/Kaf_Metadata.thy ===== *)
theory Kaf_Metadata
  imports Kaf_Message
begin

text \<open>
  The records of the cluster metadata log (\<^verbatim>\<open>protocol/metadata/metadata_record.go\<close>) and the
  record batches that carry them (\<^verbatim>\<open>protocol/metadata/record_batch.go\<close>). The encoders fill a
  buffer from front to back, so they are concatenations; the decoders slice without checking,
  so every missing byte is a panic.
\<close>

section \<open>Records\<close>

record BrokerRecord =
  br_BrokerId :: i32
  br_Host :: gostring
  br_Port :: i32
  br_Epoch :: i64

record TopicRecord =
  tr_TopicId :: bytes
  tr_Name :: gostring
  tr_NumPartitions :: i32
  tr_MinInsyncReplicas :: i16

record PartitionRecord =
  pr_TopicId :: bytes
  pr_PartitionId :: i32
  pr_Leader :: i32
  pr_LeaderEpoch :: i32
  pr_Replicas :: "i32 list"
  pr_ISR :: "i32 list"

record ProducerIdsRecord =
  pi_BrokerId :: i32
  pi_BrokerEpoch :: i64
  pi_NextProducerId :: i64

datatype meta_record =
    Broker_Record BrokerRecord
  | Topic_Record TopicRecord
  | Partition_Record PartitionRecord
  | ProducerIds_Record ProducerIdsRecord

definition BrokerRecord_Encode :: "BrokerRecord \<Rightarrow> bytes" where
  "BrokerRecord_Encode r =
     [0, 0] @ be_enc 4 (br_BrokerId r) @ be_enc 8 (br_Epoch r) @
     be_enc 2 (of_nat (length (br_Host r)) :: u16) @ br_Host r @ be_enc 4 (br_Port r)"

definition TopicRecord_Encode :: "TopicRecord \<Rightarrow> bytes" where
  "TopicRecord_Encode r =
     [1, 1] @ tr_TopicId r @ be_enc 4 (tr_NumPartitions r) @
     be_enc 2 (of_nat (length (tr_Name r)) :: u16) @ tr_Name r @ be_enc 2 (tr_MinInsyncReplicas r)"

definition PartitionRecord_Encode :: "PartitionRecord \<Rightarrow> bytes" where
  "PartitionRecord_Encode r =
     [2, 0] @ pr_TopicId r @ be_enc 4 (pr_PartitionId r) @ be_enc 4 (pr_Leader r) @ be_enc 4 (pr_LeaderEpoch r) @
     be_enc 4 (of_nat (length (pr_Replicas r)) :: u32) @ concat (map (be_enc 4) (pr_Replicas r)) @
     be_enc 4 (of_nat (length (pr_ISR r)) :: u32) @ concat (map (be_enc 4) (pr_ISR r))"

definition ProducerIdsRecord_Encode :: "ProducerIdsRecord \<Rightarrow> bytes" where
  "ProducerIdsRecord_Encode r =
     [3, 0] @ be_enc 4 (pi_BrokerId r) @ be_enc 8 (pi_BrokerEpoch r) @ be_enc 8 (pi_NextProducerId r)"

text \<open>The next \<open>n\<close> bytes of the payload and the rest; slicing past the end panics.\<close>

definition chop :: "nat \<Rightarrow> bytes \<Rightarrow> (bytes \<times> bytes) res" where
  "chop n b = (if n \<le> length b then Ok (take n b, drop n b) else Panic)"

definition DecodeBrokerRecord :: "bytes \<Rightarrow> BrokerRecord res" where
  "DecodeBrokerRecord payload =
     res_bind (chop 4 payload) (\<lambda>(brokerId, b).
     res_bind (chop 8 b) (\<lambda>(epoch, b).
     res_bind (chop 2 b) (\<lambda>(hostLen, b).
     res_bind (chop (unat (be_dec hostLen :: u16)) b) (\<lambda>(host, b).
     res_bind (chop 4 b) (\<lambda>(port, b).
     Ok \<lparr>br_BrokerId = be_dec brokerId, br_Host = host, br_Port = be_dec port, br_Epoch = be_dec epoch\<rparr>)))))"

definition DecodeTopicRecord :: "bytes \<Rightarrow> byte \<Rightarrow> TopicRecord res" where
  "DecodeTopicRecord payload version =
     res_bind (chop 16 payload) (\<lambda>(topicId, b).
     res_bind (chop 4 b) (\<lambda>(numPartitions, b).
     res_bind (chop 2 b) (\<lambda>(nameLen, b).
     res_bind (chop (unat (be_dec nameLen :: u16)) b) (\<lambda>(name, b).
     Ok \<lparr>tr_TopicId = topicId, tr_Name = name, tr_NumPartitions = be_dec numPartitions,
         tr_MinInsyncReplicas =
           (if version \<ge> 1 \<and> length b \<ge> 2 then be_dec (take 2 b) else 1)\<rparr>))))"

fun chop_i32s :: "nat \<Rightarrow> bytes \<Rightarrow> (i32 list \<times> bytes) res" where
  "chop_i32s 0 b = Ok ([], b)"
| "chop_i32s (Suc n) b =
     res_bind (chop 4 b) (\<lambda>(x, b).
     res_bind (chop_i32s n b) (\<lambda>(xs, b). Ok (be_dec x # xs, b)))"

definition DecodePartitionRecord :: "bytes \<Rightarrow> PartitionRecord res" where
  "DecodePartitionRecord payload =
     res_bind (chop 16 payload) (\<lambda>(topicId, b).
     res_bind (chop 4 b) (\<lambda>(partId, b).
     res_bind (chop 4 b) (\<lambda>(leader, b).
     res_bind (chop 4 b) (\<lambda>(leaderEpoch, b).
     res_bind (chop 4 b) (\<lambda>(numReplicas, b).
     res_bind (chop_i32s (unat (be_dec numReplicas :: u32)) b) (\<lambda>(replicas, b).
     res_bind (chop 4 b) (\<lambda>(numISR, b).
     res_bind (chop_i32s (unat (be_dec numISR :: u32)) b) (\<lambda>(isr, b).
     Ok \<lparr>pr_TopicId = topicId, pr_PartitionId = be_dec partId, pr_Leader = be_dec leader,
         pr_LeaderEpoch = be_dec leaderEpoch, pr_Replicas = replicas, pr_ISR = isr\<rparr>))))))))"

definition DecodeProducerIdsRecord :: "bytes \<Rightarrow> ProducerIdsRecord res" where
  "DecodeProducerIdsRecord payload =
     res_bind (chop 4 payload) (\<lambda>(brokerId, b).
     res_bind (chop 8 b) (\<lambda>(brokerEpoch, b).
     res_bind (chop 8 b) (\<lambda>(nextPid, b).
     Ok \<lparr>pi_BrokerId = be_dec brokerId, pi_BrokerEpoch = be_dec brokerEpoch, pi_NextProducerId = be_dec nextPid\<rparr>)))"

text \<open>The nil record is \<open>Ok None\<close>.\<close>

definition Decode :: "bytes \<Rightarrow> meta_record option res" where
  "Decode b =
     (case b of
        ty # ver # payload \<Rightarrow>
          if ty = 0 then res_bind (DecodeBrokerRecord payload) (\<lambda>r. Ok (Some (Broker_Record r)))
          else if ty = 1 then res_bind (DecodeTopicRecord payload ver) (\<lambda>r. Ok (Some (Topic_Record r)))
          else if ty = 2 then res_bind (DecodePartitionRecord payload) (\<lambda>r. Ok (Some (Partition_Record r)))
          else if ty = 3 then res_bind (DecodeProducerIdsRecord payload) (\<lambda>r. Ok (Some (ProducerIds_Record r)))
          else Ok None
      | _ \<Rightarrow> Ok None)"

section \<open>Record batches\<close>

text \<open>\<^verbatim>\<open>writeZigzagVarInt\<close> repeats the loop of the wire writer.\<close>

definition writeZigzagVarInt :: "i64 \<Rightarrow> bytes \<Rightarrow> bytes" where
  "writeZigzagVarInt v buf = WriteUVarInt (zigzag v) buf"

definition encodeRecord :: "bytes \<Rightarrow> bytes" where
  "encodeRecord val =
     (let body = [0];
          body = writeZigzagVarInt 0 body;
          body = writeZigzagVarInt 0 body;
          body = writeZigzagVarInt (-1) body;
          body = writeZigzagVarInt (of_nat (length val)) body;
          body = body @ val;
          body = writeZigzagVarInt 0 body
      in writeZigzagVarInt (of_nat (length body)) [] @ body)"

definition EncodeAsRecordBatch :: "i64 \<Rightarrow> bytes \<Rightarrow> bytes" where
  "EncodeAsRecordBatch now val =
     (let afterCRC = be_enc 2 (0 :: i16) @ be_enc 4 (0 :: i32) @ be_enc 8 now @ be_enc 8 now @ be_enc 8 (-1 :: i64) @
            be_enc 2 (-1 :: i16) @ be_enc 4 (-1 :: i32) @ be_enc 4 (1 :: i32) @ encodeRecord val;
          batchLength = (of_nat (4 + 1 + 4 + length afterCRC) :: i32)
      in be_enc 8 (0 :: i64) @ be_enc 4 batchLength @ be_enc 4 (-1 :: i32) @ [2] @
         be_enc 4 (crc32 crcCastagnoli afterCRC) @ afterCRC)"

text \<open>
  \<^verbatim>\<open>byteScanner\<close> is a buffer with a cursor, like the wire reader. A cursor that a length field
  has made negative panics at the next access.
\<close>

definition scan_readByte :: "byte rd" where
  "scan_readByte = (\<lambda>r.
     if pos r \<ge> int (length (buff r)) then (Err EOF, r)
     else if pos r < 0 then (Panic, r)
     else (Ok (buff r ! nat (pos r)), r\<lparr>pos := pos r + 1\<rparr>))"

function zigzag_loop :: "nat \<Rightarrow> u64 \<Rightarrow> i64 rd" where
  "zigzag_loop shift uv r =
     (case scan_readByte r of
        (Ok b, r') \<Rightarrow>
          (let uv' = uv OR push_bit shift (ucast (b AND 0x7f)) in
           if b < 0x80 then (Ok (unzigzag uv'), r')
           else if shift + 7 \<ge> 64 then (Err EOF, r')
           else zigzag_loop (shift + 7) uv' r')
      | (Err e, r') \<Rightarrow> (Err e, r')
      | (Panic, r') \<Rightarrow> (Panic, r'))"
  by pat_completeness auto
termination
  by (relation "measure (\<lambda>(shift, _, _). 64 - shift)") auto

declare zigzag_loop.simps [simp del]

definition readZigzagVarInt :: "i64 rd" where
  "readZigzagVarInt = zigzag_loop 0 0"

text \<open>\<^verbatim>\<open>bs.pos += int(n)\<close>\<close>

definition scan_skip :: "i64 \<Rightarrow> unit rd" where
  "scan_skip n = (\<lambda>r. (Ok (), r\<lparr>pos := wrap64 (pos r + sint n)\<rparr>))"

text \<open>
  The fields of one record up to its value; the value is taken when it is not empty and fits. A
  length that overflows the sum passes the test and then panics in \<^verbatim>\<open>make\<close>.
\<close>

definition scan_value :: "bytes option rd" where
  "scan_value =
     rbind readZigzagVarInt (\<lambda>_. rbind scan_readByte (\<lambda>_. rbind readZigzagVarInt (\<lambda>_. rbind readZigzagVarInt (\<lambda>_.
     rbind readZigzagVarInt (\<lambda>keyLen. rbind (if sint keyLen > 0 then scan_skip keyLen else rret ()) (\<lambda>_.
     rbind readZigzagVarInt (\<lambda>valLen r.
       let e = pos r + sint valLen in
       if sint valLen > 0 \<and> wrap64 e \<le> int (length (buff r)) then
         if wrap64 e = e then (Ok (Some (sub (nat (pos r)) (nat (sint valLen)) (buff r))), r\<lparr>pos := e\<rparr>) else (Panic, r)
       else (Ok None, r))))))))"

text \<open>Errors inside a header are ignored: the length is then 0.\<close>

definition scan_len :: "unit rd" where
  "scan_len = (\<lambda>r. case readZigzagVarInt r of
       (Ok n, r) \<Rightarrow> scan_skip n r
     | (Err e, r) \<Rightarrow> (Ok (), r)
     | (Panic, r) \<Rightarrow> (Panic, r))"

primrec scan_headers :: "nat \<Rightarrow> unit rd" where
  "scan_headers 0 = rret ()"
| "scan_headers (Suc n) = rbind scan_len (\<lambda>_. rbind scan_len (\<lambda>_. scan_headers n))"

text \<open>An error ends the records of the batch; the values found so far are kept.\<close>

primrec scan_records :: "nat \<Rightarrow> reader \<Rightarrow> bytes list res" where
  "scan_records 0 r = Ok []"
| "scan_records (Suc n) r =
     (case scan_value r of
        (Err e, r) \<Rightarrow> Ok []
      | (Panic, r) \<Rightarrow> Panic
      | (Ok v, r) \<Rightarrow>
          let found = (case v of Some b \<Rightarrow> [b] | None \<Rightarrow> []) in
          (case rbind readZigzagVarInt (\<lambda>headerCount. scan_headers (nat (sint headerCount))) r of
             (Err e, r) \<Rightarrow> Ok found
           | (Panic, r) \<Rightarrow> Panic
           | (Ok _, r) \<Rightarrow> res_bind (scan_records n r) (\<lambda>vs. Ok (found @ vs))))"

function DecodeRecordValues :: "bytes \<Rightarrow> bytes list res" where
  "DecodeRecordValues raw =
     (if length raw < 61 then Ok []
      else let totalSize = 12 + unat (be_dec (sub 8 4 raw) :: u32) in
        if totalSize > length raw then Ok []
        else if totalSize < 61 then Panic
        else res_bind (scan_records (unat (be_dec (sub 57 4 raw) :: u32)) (NewReader (drop 61 (take totalSize raw)))) (\<lambda>vs.
             res_bind (DecodeRecordValues (drop totalSize raw)) (\<lambda>ws. Ok (vs @ ws))))"
  by pat_completeness auto
termination
  by (relation "measure length") auto

declare DecodeRecordValues.simps [simp del]


section \<open>Records round-trip\<close>

lemma chop_append [simp]: "chop (length a) (a @ b) = Ok (a, b)"
  by (simp add: chop_def)

lemma chop_be_enc [simp]: "chop n (be_enc n w @ b) = Ok (be_enc n w, b)" "chop n (be_enc n w) = Ok (be_enc n w, [])"
  by (simp_all add: chop_def)

lemma chop_id [simp]: "length a = n \<Longrightarrow> chop n (a @ b) = Ok (a, b)"
  by (simp add: chop_def)

lemma chop_i32s_concat [simp]: "chop_i32s (length xs) (concat (map (be_enc 4) xs) @ b) = Ok (xs, b)"
  by (induction xs) auto

text \<open>Records whose strings and lists fit their length fields, encoded and wrapped.\<close>

fun meta_encode :: "meta_record \<Rightarrow> bytes" where
  "meta_encode (Broker_Record r) = BrokerRecord_Encode r"
| "meta_encode (Topic_Record r) = TopicRecord_Encode r"
| "meta_encode (Partition_Record r) = PartitionRecord_Encode r"
| "meta_encode (ProducerIds_Record r) = ProducerIdsRecord_Encode r"

fun meta_valid :: "meta_record \<Rightarrow> bool" where
  "meta_valid (Broker_Record r) = (length (br_Host r) < 65536)"
| "meta_valid (Topic_Record r) = (length (tr_TopicId r) = 16 \<and> length (tr_Name r) < 65536)"
| "meta_valid (Partition_Record r) =
     (length (pr_TopicId r) = 16 \<and> length (pr_Replicas r) < 4294967296 \<and> length (pr_ISR r) < 4294967296)"
| "meta_valid (ProducerIds_Record r) = True"

lemma Decode_encode: "meta_valid m \<Longrightarrow> Decode (meta_encode m) = Ok (Some m)"
proof (cases m)
  case (Broker_Record r)
  assume "meta_valid m"
  then show ?thesis using Broker_Record by (simp add: Decode_def BrokerRecord_Encode_def DecodeBrokerRecord_def)
next
  case (Topic_Record r)
  assume "meta_valid m"
  then show ?thesis using Topic_Record by (simp add: Decode_def TopicRecord_Encode_def DecodeTopicRecord_def)
next
  case (Partition_Record r)
  assume "meta_valid m"
  then show ?thesis using Partition_Record chop_i32s_concat [of "pr_ISR r" "[]"]
    by (simp add: Decode_def PartitionRecord_Encode_def DecodePartitionRecord_def)
next
  case (ProducerIds_Record r)
  then show ?thesis by (simp add: Decode_def ProducerIdsRecord_Encode_def DecodeProducerIdsRecord_def)
qed

section \<open>Batches round-trip\<close>

lemma byte_read:
  assumes "rbind (require 1) (\<lambda>_. take_raw 1) r = (Ok bs, r')" "0 \<le> pos r" "int (length (buff r)) < 2 ^ 63"
  shows "scan_readByte r = (Ok (hd bs), r')" "0 \<le> pos r'" "buff r' = buff r"
proof -
  have lt: "pos r < int (length (buff r))"
  proof (rule ccontr)
    assume n: "\<not> pos r < int (length (buff r))"
    show False
    proof (cases "wrap64 (pos r + 1) > int (length (buff r))")
      case False
      have "wrap64 (2 ^ 63) = - (2 ^ 63)" by (simp add: wrap64_def)
      then have "pos r + 1 \<le> 2 ^ 63 \<Longrightarrow> wrap64 (pos r + 1) \<noteq> pos r"
        using wrap64_id [of "pos r + 1"] assms(2) by (cases "pos r + 1 = 2 ^ 63") auto
      then have "slice (buff r) (pos r) (wrap64 (pos r + 1)) = Panic" using n False assms(3) by (auto simp: slice_def)
      then show False using assms(1) False by (simp add: rbind_def require_def take_raw_def)
    qed (use assms(1) in \<open>simp add: rbind_def require_def\<close>)
  qed
  then have w: "wrap64 (pos r + 1) = pos r + 1" using assms by (intro wrap64_id) auto
  have "take 1 (drop (nat (pos r)) (buff r)) = [buff r ! nat (pos r)]"
    using lt assms(2) by (simp add: Cons_nth_drop_Suc [symmetric])
  then show "scan_readByte r = (Ok (hd bs), r')" "0 \<le> pos r'" "buff r' = buff r"
    using lt assms by (auto simp: rbind_def require_def take_raw_def w slice_def scan_readByte_def hd_drop_conv_nth)
qed

lemma uvarint_zigzag:
  assumes "uvarint_loop s u r = (Ok v, r')" "0 \<le> pos r" "int (length (buff r)) < 2 ^ 63"
  shows "zigzag_loop s u r = (Ok (unzigzag v), r')"
  using assms
proof (induction s u r rule: uvarint_loop.induct)
  case (1 s u r)
  obtain bs r1 where rd: "rbind (require 1) (\<lambda>_. take_raw 1) r = (Ok bs, r1)"
    using 1(2) by (subst (asm) uvarint_loop.simps) (auto split: prod.splits res.splits)
  note b = byte_read [OF rd 1(3,4)]
  let ?u = "u OR push_bit s (ucast (hd bs AND 0x7f))"
  show ?case
  proof (cases "hd bs < 0x80")
    case True
    then show ?thesis
      using 1(2) b(1) rd
      by (subst zigzag_loop.simps, subst (asm) uvarint_loop.simps) (simp add: Let_def split: if_splits)
  next
    case False
    then have "\<not> (s = 63 \<and> hd bs > 1) \<and> \<not> s + 7 \<ge> 64 \<and> uvarint_loop (s + 7) ?u r1 = (Ok v, r')"
      using 1(2) rd by (subst (asm) uvarint_loop.simps) (simp add: Let_def split: if_splits)
    moreover from this have "zigzag_loop (s + 7) ?u r1 = (Ok (unzigzag v), r')"
      using 1(1) [OF rd [symmetric] refl refl refl] False b(2,3) 1(4) by auto
    ultimately show ?thesis using b(1) False by (subst zigzag_loop.simps) (simp add: Let_def)
  qed
qed

lemma readZigzag_decodes [decodes_intros]: "decodes readZigzagVarInt (writeZigzagVarInt v []) v"
proof (rule decodesI)
  fix pre post :: bytes
  assume l: "int (length (pre @ writeZigzagVarInt v [] @ post)) < 2 ^ 63"
  have "ReadUVarInt \<lparr>buff = pre @ writeZigzagVarInt v [] @ post, pos = int (length pre)\<rparr> =
    (Ok (zigzag v), \<lparr>buff = pre @ writeZigzagVarInt v [] @ post, pos = int (length (pre @ writeZigzagVarInt v []))\<rparr>)"
    using decodesD [OF uvarint.rd_wr [OF TrueI] l [unfolded writeZigzagVarInt_def]] by (simp add: writeZigzagVarInt_def)
  then show "readZigzagVarInt \<lparr>buff = pre @ writeZigzagVarInt v [] @ post, pos = int (length pre)\<rparr> =
    (Ok v, \<lparr>buff = pre @ writeZigzagVarInt v [] @ post, pos = int (length (pre @ writeZigzagVarInt v []))\<rparr>)"
    unfolding ReadUVarInt_def readZigzagVarInt_def
    using uvarint_zigzag [where s = 0 and u = 0] l by (metis (no_types, lifting) of_nat_0_le_iff reader.select_convs unzigzag_zigzag)
qed

lemma scan_readByte_decodes [decodes_intros]: "decodes scan_readByte [b] b"
  by (rule decodesI) (simp add: scan_readByte_def nth_append)

lemma writeZigzag_append: "writeZigzagVarInt v w = w @ writeZigzagVarInt v []"
  unfolding writeZigzagVarInt_def by (rule WriteUVarInt_append)

definition record_front :: "bytes \<Rightarrow> bytes" where
  "record_front val = [0] @ writeZigzagVarInt 0 [] @ writeZigzagVarInt 0 [] @ writeZigzagVarInt (-1) [] @
     writeZigzagVarInt (of_nat (length val)) []"

lemma encodeRecord_parts:
  "encodeRecord val = writeZigzagVarInt (of_nat (length (record_front val @ val @ writeZigzagVarInt 0 []))) [] @
     record_front val @ val @ writeZigzagVarInt 0 []"
proof -
  have "writeZigzagVarInt 0 (writeZigzagVarInt (of_nat (length val)) (writeZigzagVarInt (-1)
      (writeZigzagVarInt 0 (writeZigzagVarInt 0 [0]))) @ val) = record_front val @ val @ writeZigzagVarInt 0 []"
    unfolding record_front_def by (simp add: NO_MATCH_append [of writeZigzagVarInt, OF writeZigzag_append])
  then show ?thesis unfolding encodeRecord_def Let_def by simp
qed

lemma take_value_decodes:
  assumes "val \<noteq> []" "sint n = int (length val)"
  shows "decodes (\<lambda>r. let e = pos r + sint n in
       if sint n > 0 \<and> wrap64 e \<le> int (length (buff r)) then
         if wrap64 e = e then (Ok (Some (sub (nat (pos r)) (nat (sint n)) (buff r))), r\<lparr>pos := e\<rparr>) else (Panic, r)
       else (Ok None, r)) val (Some val)"
proof (rule decodesI)
  fix pre post :: bytes
  assume l: "int (length (pre @ val @ post)) < 2 ^ 63"
  then have w: "wrap64 (int (length pre) + int (length val)) = int (length pre) + int (length val)"
    by (intro wrap64_id) auto
  have "sub (length pre) (length val) (pre @ val @ post) = val" by (simp add: sub_def)
  then show "(\<lambda>r. let e = pos r + sint n in
       if sint n > 0 \<and> wrap64 e \<le> int (length (buff r)) then
         if wrap64 e = e then (Ok (Some (sub (nat (pos r)) (nat (sint n)) (buff r))), r\<lparr>pos := e\<rparr>) else (Panic, r)
       else (Ok None, r)) \<lparr>buff = pre @ val @ post, pos = int (length pre)\<rparr> =
      (Ok (Some val), \<lparr>buff = pre @ val @ post, pos = int (length (pre @ val))\<rparr>)"
    using assms w by (simp add: Let_def)
qed

lemma scan_value_decodes:
  assumes "val \<noteq> []" "length val < 2 ^ 63"
  shows "decodes scan_value (writeZigzagVarInt k [] @ record_front val @ val) (Some val)"
proof -
  have n: "sint (of_nat (length val) :: i64) = int (length val)" using assms(2) by (rule sint_of_nat_64)
  show ?thesis
    unfolding scan_value_def record_front_def append_assoc
    apply (rule decodes_rbind, rule readZigzag_decodes)
    apply (rule decodes_rbind, rule scan_readByte_decodes)
    apply (rule decodes_rbind, rule readZigzag_decodes)
    apply (rule decodes_rbind, rule readZigzag_decodes)
    apply (rule decodes_rbind, rule readZigzag_decodes)
    apply simp
    apply (rule decodes_rbind, rule readZigzag_decodes)
    using take_value_decodes [OF assms(1) n] by simp
qed

lemma scan_records_encoded:
  assumes "val \<noteq> []" "int (length (encodeRecord val @ post)) < 2 ^ 63"
  shows "scan_records 1 (NewReader (encodeRecord val @ post)) = Ok [val]"
proof -
  let ?z = "writeZigzagVarInt 0 []" and ?k = "writeZigzagVarInt (of_nat (length (record_front val @ val @ writeZigzagVarInt 0 []))) []"
  let ?front = "?k @ record_front val @ val"
  have split: "encodeRecord val = ?front @ ?z" by (simp add: encodeRecord_parts)
  note l = assms(2)
  have "length val < 2 ^ 63" using assms(2) by (simp add: encodeRecord_parts)
  from decodesD [OF scan_value_decodes [OF assms(1) this], of "[]" _ "?z @ post"] l
  have v: "scan_value (NewReader (encodeRecord val @ post)) =
      (Ok (Some val), \<lparr>buff = encodeRecord val @ post, pos = int (length ?front)\<rparr>)"
    by (simp add: split NewReader_def)
  have "readZigzagVarInt \<lparr>buff = ?front @ ?z @ post, pos = int (length ?front)\<rparr> =
      (Ok 0, \<lparr>buff = ?front @ ?z @ post, pos = int (length (?front @ ?z))\<rparr>)"
    by (rule decodesD [OF readZigzag_decodes]) (use l in \<open>simp add: split\<close>)
  then have h: "rbind readZigzagVarInt (\<lambda>headerCount. scan_headers (nat (sint headerCount)))
        \<lparr>buff = encodeRecord val @ post, pos = int (length ?front)\<rparr> =
      (Ok (), \<lparr>buff = encodeRecord val @ post, pos = int (length (?front @ ?z))\<rparr>)"
    by (simp add: split rbind_def rret_def)
  show ?thesis unfolding One_nat_def scan_records.simps using v h by (simp del: length_append)
qed


lemma EncodeAsRecordBatch_fields:
  fixes val now
  defines "b \<equiv> EncodeAsRecordBatch now val"
  assumes "length (encodeRecord val) < 2 ^ 31 - 61"
  shows "length b = 61 + length (encodeRecord val)" "drop 61 b = encodeRecord val"
    "sub 8 4 b = be_enc 4 (of_nat (length b - 12) :: i32)" "batch_delta b = 0" "batch_count b = 1" "wf_batch b"
proof -
  show l: "length b = 61 + length (encodeRecord val)" by (simp add: b_def EncodeAsRecordBatch_def Let_def)
  show "drop 61 b = encodeRecord val" by (simp add: b_def EncodeAsRecordBatch_def Let_def)
  show s: "sub 8 4 b = be_enc 4 (of_nat (length b - 12) :: i32)"
    unfolding l by (simp add: b_def EncodeAsRecordBatch_def Let_def sub_def)
  have "sub 23 4 b = be_enc 4 (0 :: i32)" by (simp add: b_def EncodeAsRecordBatch_def Let_def sub_def)
  then show d: "batch_delta b = 0" by (simp add: batch_delta_def)
  have "sub 57 4 b = be_enc 4 (1 :: u32)" by (simp add: b_def EncodeAsRecordBatch_def Let_def sub_def)
  then show c: "batch_count b = 1" by (simp add: batch_count_def)
  have "sint (of_nat (length b - 12) :: i32) = int (length b - 12)"
    using assms(2) by (intro sint_of_nat_32) (simp add: l)
  then show "wf_batch b" using l s d c by (simp add: wf_batch_def)
qed

lemma DecodeRecordValues_batch:
  assumes "val \<noteq> []" "length (encodeRecord val) < 2 ^ 31 - 61"
  shows "DecodeRecordValues (patch_base o' (EncodeAsRecordBatch now val) @ rest) =
    res_bind (DecodeRecordValues rest) (\<lambda>ws. Ok (val # ws))"
proof -
  let ?b = "patch_base o' (EncodeAsRecordBatch now val)"
  note f = EncodeAsRecordBatch_fields [OF assms(2), of now]
  note p = patch_base_fields [where d = "EncodeAsRecordBatch now val" and o' = o']
  have len: "length ?b = 61 + length (encodeRecord val)" using p(1) f(1) by simp
  have s8: "sub 8 4 (?b @ rest) = be_enc 4 (of_nat (49 + length (encodeRecord val)) :: u32)"
    using p(3) [of 8 4] f(1,3) len by (simp add: sub_append_left)
  have s57: "sub 57 4 (?b @ rest) = sub 57 4 (EncodeAsRecordBatch now val)"
    using p(3) [of 57 4] f(1) len by (simp add: sub_append_left)
  have cnt: "unat (be_dec (sub 57 4 (?b @ rest)) :: u32) = 1"
    using f(5) unfolding s57 batch_count_def unat_eq_nat_uint by (simp del: nat_uint_eq)
  have tot: "12 + unat (be_dec (sub 8 4 (?b @ rest)) :: u32) = length ?b"
    unfolding s8 using assms(2) len
    by (simp del: of_nat_add add: unsigned_of_nat take_bit_nat_eq_self)
  have "drop 61 ?b = drop 53 (drop 8 ?b)" by simp
  also have "\<dots> = drop 53 (drop 8 (EncodeAsRecordBatch now val))" using p(2) f(1) by simp
  finally have body: "drop 61 ?b = encodeRecord val" using f(2) by simp
  have scan: "scan_records 1 (NewReader (encodeRecord val)) = Ok [val]"
    using scan_records_encoded [OF assms(1), of "[]"] assms(2) by simp
  show ?thesis
    by (subst DecodeRecordValues.simps) (simp add: Let_def tot cnt len body scan [simplified])
qed

lemma DecodeRecordValues_batches:
  assumes "\<forall>(o', now, v)\<in>set xs. v \<noteq> [] \<and> length (encodeRecord v) < 2 ^ 31 - 61"
  shows "DecodeRecordValues (concat (map (\<lambda>(o', now, v). patch_base o' (EncodeAsRecordBatch now v)) xs)) =
    Ok (map (\<lambda>(o', now, v). v) xs)"
  using assms
proof (induction xs)
  case Nil
  show ?case by (subst DecodeRecordValues.simps) simp
next
  case (Cons x xs)
  then show ?case by (auto simp: DecodeRecordValues_batch split: prod.splits)
qed


section \<open>Properties\<close>

text \<open>
  Every record of the metadata log whose strings and lists fit their length fields is decoded
  to itself, whichever of the four kinds it is.\<close>

theorem metadata_record_roundtrip:
  assumes "meta_valid m"
  shows "Decode (meta_encode m) = Ok (Some m)"
  using assms by (rule Decode_encode)

definition sample_topic :: TopicRecord where
  "sample_topic =
     \<lparr>tr_TopicId = replicate 16 7, tr_Name = str ''orders'', tr_NumPartitions = 3, tr_MinInsyncReplicas = 2\<rparr>"

theorem metadata_record_roundtrip_witness:
  "Decode (meta_encode (Topic_Record sample_topic)) = Ok (Some (Topic_Record sample_topic))"
  by (rule metadata_record_roundtrip) (simp add: sample_topic_def str_def)

text \<open>
  A log of metadata batches, whatever base offsets the commit log has stamped on them, is read
  back as the sequence of the values that were appended.\<close>

theorem metadata_batches_roundtrip:
  assumes "\<forall>(o', now, v)\<in>set xs. v \<noteq> [] \<and> length (encodeRecord v) < 2 ^ 31 - 61"
  shows "DecodeRecordValues (concat (map (\<lambda>(o', now, v). patch_base o' (EncodeAsRecordBatch now v)) xs)) =
    Ok (map (\<lambda>(o', now, v). v) xs)"
  using assms by (rule DecodeRecordValues_batches)

theorem metadata_batches_roundtrip_witness:
  "DecodeRecordValues (concat (map (\<lambda>(o', now, v). patch_base o' (EncodeAsRecordBatch now v))
     [(0, 5, [1, 2]), (1, 6, [3])])) = Ok [[1, 2], [3]]"
proof -
  have "length (encodeRecord [1, 2]) = 9" "length (encodeRecord [3]) = 8" by code_simp+
  then show ?thesis using metadata_batches_roundtrip [of "[(0, 5, [1, 2]), (1, 6, [3])]"] by simp
qed

text \<open>
  The comment on \<^verbatim>\<open>Decode\<close> says that a malformed record gives nil. A record cut off inside a
  fixed-width field is not refused: the decoder slices past the end.\<close>

lemma Decode_truncated:
  assumes "2 \<le> n" "n < length (ProducerIdsRecord_Encode r)"
  shows "Decode (take n (ProducerIdsRecord_Encode r)) = Panic"
proof -
  obtain k where n: "n = Suc (Suc k)" using assms(1) by (metis add_2_eq_Suc le_Suc_ex)
  have k: "k < 20" using assms(2) n by (simp add: ProducerIdsRecord_Encode_def)
  have "DecodeProducerIdsRecord xs = Panic" if "length xs < 20" for xs
    using that by (auto simp: DecodeProducerIdsRecord_def chop_def)
  then show ?thesis using k n by (simp add: Decode_def ProducerIdsRecord_Encode_def)
qed

end
