(* ===== verification/Kaf_MetaLog.thy ===== *)
theory Kaf_MetaLog
  imports Kaf_Metadata
begin

text \<open>
  The log of cluster metadata (\<^verbatim>\<open>coordinator/metadata_log.go\<close>), the allocator of producer ids
  that records its leases there (\<^verbatim>\<open>coordinator/pid_manager.go\<close>) and the recovery of the
  allocator at start-up (\<^verbatim>\<open>server/server.go\<close>). The allocator sees the log through the interface
  \<open>metadata_appender\<close>.
\<close>

section \<open>The metadata log\<close>

record MetadataLog =
  ml_commitLog :: "commitLog option"
  ml_ps :: "PartitionState option"

definition NewMetadataLog :: MetadataLog where
  "NewMetadataLog = \<lparr>ml_commitLog = None, ml_ps = None\<rparr>"

definition MetadataLog_Init :: "commitLog \<Rightarrow> MetadataLog \<Rightarrow> MetadataLog" where
  "MetadataLog_Init cl m = m\<lparr>ml_commitLog := Some cl\<rparr>"

definition MetadataLog_SetPartitionState :: "PartitionState \<Rightarrow> MetadataLog \<Rightarrow> MetadataLog" where
  "MetadataLog_SetPartitionState ps m = m\<lparr>ml_ps := Some ps\<rparr>"

text \<open>\<open>now\<close> is the clock the batch is stamped with, \<open>nano\<close> the one of the time index.\<close>

definition MetadataLog_Append ::
  "cl_faults \<Rightarrow> i64 \<Rightarrow> int \<Rightarrow> bytes \<Rightarrow> MetadataLog \<Rightarrow> unit res \<times> MetadataLog \<times> completion list" where
  "MetadataLog_Append fl now nano val m =
     (case ml_commitLog m of
        None \<Rightarrow> (Ok (), m, [])
      | Some cl \<Rightarrow>
          (case commitLog_AppendRaw fl nano (EncodeAsRecordBatch now val) 1 cl of
             (Ok baseOffset, cl, _) \<Rightarrow>
               let m = m\<lparr>ml_commitLog := Some cl\<rparr> in
               (case ml_ps m of
                  None \<Rightarrow> (Ok (), m, [])
                | Some ps \<Rightarrow> (case OnLeaderAppend baseOffset ps of (ps, done) \<Rightarrow> (Ok (), m\<lparr>ml_ps := Some ps\<rparr>, done)))
           | (Err e, cl, _) \<Rightarrow> (Err e, m\<lparr>ml_commitLog := Some cl\<rparr>, [])
           | (Panic, cl, _) \<Rightarrow> (Panic, m\<lparr>ml_commitLog := Some cl\<rparr>, [])))"

text \<open>The values go to \<open>apply'\<close> in order, as long as it does not panic.\<close>

fun apply_all :: "(bytes \<Rightarrow> 's \<Rightarrow> unit res \<times> 's) \<Rightarrow> bytes list \<Rightarrow> 's \<Rightarrow> unit res \<times> 's" where
  "apply_all apply' [] st = (Ok (), st)"
| "apply_all apply' (v # vs) st =
     (case apply' v st of
        (Ok _, st) \<Rightarrow> apply_all apply' vs st
      | (r, st) \<Rightarrow> (r, st))"

definition Replay ::
  "bool \<Rightarrow> bool \<Rightarrow> (bytes \<Rightarrow> 's \<Rightarrow> unit res \<times> 's) \<Rightarrow> MetadataLog \<Rightarrow> 's \<Rightarrow> (unit res \<times> 's) option" where
  "Replay stat_fails read_fails apply' m st =
     (case ml_commitLog m of
        None \<Rightarrow> Some (Ok (), st)
      | Some cl \<Rightarrow>
          (case FindRecords stat_fails 0 (2 ^ 63 - 1) cl of
             None \<Rightarrow> None
           | Some (Err e) \<Rightarrow> Some (Err e, st)
           | Some Panic \<Rightarrow> Some (Panic, st)
           | Some (Ok None) \<Rightarrow> Some (Ok (), st)
           | Some (Ok (Some region)) \<Rightarrow>
               (case (if read_fails then Err OSErr
                      else file_ReadAt (the (rr_File region)) (nat (rr_Size region)) (rr_FileOffset region)) of
                  Err e \<Rightarrow> Some (Err e, st)
                | Panic \<Rightarrow> Some (Panic, st)
                | Ok raw \<Rightarrow>
                    (case DecodeRecordValues raw of
                       Ok vs \<Rightarrow> Some (apply_all apply' vs st)
                     | Err e \<Rightarrow> Some (Err e, st)
                     | Panic \<Rightarrow> Some (Panic, st)))))"

definition MetadataLog_NewestOffset :: "MetadataLog \<Rightarrow> int" where
  "MetadataLog_NewestOffset m =
     (case ml_commitLog m of
        None \<Rightarrow> 0
      | Some cl \<Rightarrow> if NewestOffset cl < 0 then 0 else NewestOffset cl + 1)"

section \<open>Producer ids\<close>

definition DefaultPidBlockSize :: i64 where "DefaultPidBlockSize = 1000"

text \<open>\<open>pm_metaLog\<close> tells whether an appender is configured; the appender itself is passed along.\<close>

record PidManager =
  pm_nextBase :: i64
  pm_blockEnd :: i64
  pm_step :: i64
  pm_brokerID :: i32
  pm_brokerEpoch :: i64
  pm_metaLog :: bool

definition NewPidManager :: PidManager where
  "NewPidManager = \<lparr>pm_nextBase = 0, pm_blockEnd = 0, pm_step = DefaultPidBlockSize, pm_brokerID = 0,
     pm_brokerEpoch = 0, pm_metaLog = False\<rparr>"

definition PidManager_Configure :: "i32 \<Rightarrow> i64 \<Rightarrow> bool \<Rightarrow> PidManager \<Rightarrow> PidManager" where
  "PidManager_Configure brokerID brokerEpoch metaLog m =
     m\<lparr>pm_brokerID := brokerID, pm_brokerEpoch := brokerEpoch, pm_metaLog := metaLog\<rparr>"

definition SeedFromLog :: "i64 \<Rightarrow> PidManager \<Rightarrow> PidManager" where
  "SeedFromLog maxSeen m =
     (let m = (if sint maxSeen > sint (pm_nextBase m) then m\<lparr>pm_nextBase := maxSeen\<rparr> else m) in
      if sint maxSeen > sint (pm_blockEnd m) then m\<lparr>pm_blockEnd := maxSeen\<rparr> else m)"

definition leaseNextBlockLocked ::
  "(bytes \<Rightarrow> 'l \<Rightarrow> unit res \<times> 'l) \<Rightarrow> PidManager \<Rightarrow> 'l \<Rightarrow> unit res \<times> PidManager \<times> 'l" where
  "leaseNextBlockLocked append' m l =
     (let newEnd = pm_blockEnd m + pm_step m;
          rec = \<lparr>pi_BrokerId = pm_brokerID m, pi_BrokerEpoch = pm_brokerEpoch m, pi_NextProducerId = newEnd\<rparr>
      in case (if pm_metaLog m then append' (ProducerIdsRecord_Encode rec) l else (Ok (), l)) of
           (Ok _, l) \<Rightarrow>
             let m = (if sint (pm_nextBase m) < sint (pm_blockEnd m) then m\<lparr>pm_nextBase := pm_blockEnd m\<rparr> else m)
             in (Ok (), m\<lparr>pm_blockEnd := newEnd\<rparr>, l)
         | (r, l) \<Rightarrow> (r, m, l))"

definition AllocateOne ::
  "(bytes \<Rightarrow> 'l \<Rightarrow> unit res \<times> 'l) \<Rightarrow> PidManager \<Rightarrow> 'l \<Rightarrow> i64 res \<times> PidManager \<times> 'l" where
  "AllocateOne append' m l =
     (case (if sint (pm_nextBase m) \<ge> sint (pm_blockEnd m) then leaseNextBlockLocked append' m l else (Ok (), m, l)) of
        (Ok _, m, l) \<Rightarrow> (Ok (pm_nextBase m), m\<lparr>pm_nextBase := pm_nextBase m + 1\<rparr>, l)
      | (Err e, m, l) \<Rightarrow> (Err e, m, l)
      | (Panic, m, l) \<Rightarrow> (Panic, m, l))"

text \<open>The callback of \<^verbatim>\<open>recoverPidManager\<close> and the function itself; a failed replay is only logged.\<close>

definition max_pid :: "bytes \<Rightarrow> i64 \<Rightarrow> unit res \<times> i64" where
  "max_pid val maxSeen =
     (case Decode val of
        Ok (Some (ProducerIds_Record rec)) \<Rightarrow>
          (Ok (), if sint (pi_NextProducerId rec) > sint maxSeen then pi_NextProducerId rec else maxSeen)
      | Ok _ \<Rightarrow> (Ok (), maxSeen)
      | Err e \<Rightarrow> (Err e, maxSeen)
      | Panic \<Rightarrow> (Panic, maxSeen))"

definition recoverPidManager ::
  "(i64 \<Rightarrow> (unit res \<times> i64) option) \<Rightarrow> i32 \<Rightarrow> i64 \<Rightarrow> PidManager \<Rightarrow> PidManager res option" where
  "recoverPidManager run brokerID brokerEpoch m =
     (case run 0 of
        None \<Rightarrow> None
      | Some (Panic, _) \<Rightarrow> Some Panic
      | Some (_, maxSeen) \<Rightarrow>
          let m = (if sint maxSeen > 0 then SeedFromLog maxSeen m else m) in
          Some (Ok (PidManager_Configure brokerID brokerEpoch True m)))"

section \<open>The log as seen by the allocator\<close>

text \<open>
  An appender stores values in order while it has room for them, keeps them when the process is
  restarted and replays them. \<open>'c\<close> is the clock of one call.
\<close>

locale metadata_appender =
  fixes append' :: "'c \<Rightarrow> bytes \<Rightarrow> 'l \<Rightarrow> unit res \<times> 'l"
    and stored :: "'l \<Rightarrow> bytes list"
    and room :: "bytes \<Rightarrow> 'l \<Rightarrow> bool"
    and reopens :: "'l \<Rightarrow> 'l \<Rightarrow> bool"
    and replay' :: "(bytes \<Rightarrow> i64 \<Rightarrow> unit res \<times> i64) \<Rightarrow> 'l \<Rightarrow> i64 \<Rightarrow> (unit res \<times> i64) option"
    and ok :: "'l \<Rightarrow> bool"
  assumes append_ok: "ok l \<Longrightarrow> room v l \<Longrightarrow> append' c v l = (r, l') \<Longrightarrow> r = Ok () \<and> ok l' \<and> stored l' = stored l @ [v]"
    and reopens_ok: "ok l \<Longrightarrow> reopens l l' \<Longrightarrow> ok l' \<and> stored l' = stored l"
    and replay_ok: "ok l \<Longrightarrow> replay' f l st = Some (apply_all f (stored l) st)"

text \<open>
  A broker allocating producer ids: it answers requests, writes other records to the log, applies
  leases it reads from the cluster, and restarts with what the log replays. Steps that lease a
  block are taken while the log has room and the ids fit into 63 bits.
\<close>

record 'l pid_sys =
  pd_mgr :: PidManager
  pd_log :: 'l
  pd_issued :: "i64 list"

definition lease_record :: "PidManager \<Rightarrow> bytes" where
  "lease_record m = ProducerIdsRecord_Encode
     \<lparr>pi_BrokerId = pm_brokerID m, pi_BrokerEpoch = pm_brokerEpoch m, pi_NextProducerId = pm_blockEnd m + pm_step m\<rparr>"

inductive pid_step ::
  "('c \<Rightarrow> bytes \<Rightarrow> 'l \<Rightarrow> unit res \<times> 'l) \<Rightarrow> (bytes \<Rightarrow> 'l \<Rightarrow> bool) \<Rightarrow> ('l \<Rightarrow> 'l \<Rightarrow> bool) \<Rightarrow>
   ((bytes \<Rightarrow> i64 \<Rightarrow> unit res \<times> i64) \<Rightarrow> 'l \<Rightarrow> i64 \<Rightarrow> (unit res \<times> i64) option) \<Rightarrow> 'l pid_sys \<Rightarrow> 'l pid_sys \<Rightarrow> bool"
  for append' room reopens replay' where
  pid_allocate: "sint (pm_nextBase m) < sint (pm_blockEnd m) \<or>
      sint (pm_blockEnd m) + sint (pm_step m) < 2 ^ 63 \<and> room (lease_record m) l \<Longrightarrow>
    AllocateOne (append' c) m l = (Ok pid, m', l') \<Longrightarrow>
    pid_step append' room reopens replay' \<lparr>pd_mgr = m, pd_log = l, pd_issued = ps\<rparr>
      \<lparr>pd_mgr = m', pd_log = l', pd_issued = ps @ [pid]\<rparr>"
| pid_other: "meta_valid rec \<Longrightarrow> room (meta_encode rec) l \<Longrightarrow> append' c (meta_encode rec) l = (r, l') \<Longrightarrow>
    pid_step append' room reopens replay' \<lparr>pd_mgr = m, pd_log = l, pd_issued = ps\<rparr>
      \<lparr>pd_mgr = m, pd_log = l', pd_issued = ps\<rparr>"
| pid_seed: "pid_step append' room reopens replay' \<lparr>pd_mgr = m, pd_log = l, pd_issued = ps\<rparr>
      \<lparr>pd_mgr = SeedFromLog x m, pd_log = l, pd_issued = ps\<rparr>"
| pid_restart: "reopens l l' \<Longrightarrow> recoverPidManager (replay' max_pid l') b e NewPidManager = Some (Ok m') \<Longrightarrow>
    pid_step append' room reopens replay' \<lparr>pd_mgr = m, pd_log = l, pd_issued = ps\<rparr>
      \<lparr>pd_mgr = m', pd_log = l', pd_issued = ps\<rparr>"

inductive_cases pid_step_cases: "pid_step append' room reopens replay' s t"

lemma apply_all_append:
  "apply_all f (vs @ ws) st = (case apply_all f vs st of (Ok _, st) \<Rightarrow> apply_all f ws st | (r, st) \<Rightarrow> (r, st))"
  by (induction vs arbitrary: st) (auto split: prod.splits res.splits)

text \<open>The highest lease end among the values, and that it is found.\<close>

definition leased :: "bytes list \<Rightarrow> i64" where
  "leased vs = snd (apply_all max_pid vs 0)"

definition meta_values :: "bytes list \<Rightarrow> bool" where
  "meta_values vs \<longleftrightarrow> (\<forall>v\<in>set vs. \<exists>r. meta_valid r \<and> v = meta_encode r)"

lemma max_pid_encode:
  "meta_valid r \<Longrightarrow> \<exists>w'. max_pid (meta_encode r) w = (Ok (), w') \<and> sint w \<le> sint w' \<and>
    (\<forall>p. r = ProducerIds_Record p \<longrightarrow> sint (pi_NextProducerId p) \<le> sint w')"
  by (simp add: max_pid_def Decode_encode split: meta_record.splits)

lemma apply_max_pid:
  assumes "meta_values vs"
  shows "\<exists>w'. apply_all max_pid vs w = (Ok (), w') \<and> sint w \<le> sint w'"
  using assms
proof (induction vs arbitrary: w)
  case (Cons v vs)
  then obtain r where r: "meta_valid r" "v = meta_encode r" by (auto simp: meta_values_def)
  obtain w1 where "max_pid v w = (Ok (), w1)" "sint w \<le> sint w1" using max_pid_encode [OF r(1)] r(2) by blast
  moreover obtain w2 where "apply_all max_pid vs w1 = (Ok (), w2)" "sint w1 \<le> sint w2"
    using Cons by (force simp: meta_values_def)
  ultimately show ?case by auto
qed auto

lemma leased_snoc:
  assumes "meta_values vs" "meta_valid r"
  shows "sint (leased vs) \<le> sint (leased (vs @ [meta_encode r]))"
    "r = ProducerIds_Record p \<Longrightarrow> sint (pi_NextProducerId p) \<le> sint (leased (vs @ [meta_encode r]))"
proof -
  obtain w where w: "apply_all max_pid vs 0 = (Ok (), w)" using apply_max_pid [OF assms(1)] by blast
  obtain w' where "max_pid (meta_encode r) w = (Ok (), w')" "sint w \<le> sint w'"
    "\<forall>p. r = ProducerIds_Record p \<longrightarrow> sint (pi_NextProducerId p) \<le> sint w'"
    using max_pid_encode [OF assms(2)] by blast
  then show "sint (leased vs) \<le> sint (leased (vs @ [meta_encode r]))"
    "r = ProducerIds_Record p \<Longrightarrow> sint (pi_NextProducerId p) \<le> sint (leased (vs @ [meta_encode r]))"
    using w by (auto simp: leased_def apply_all_append)
qed

lemma meta_values_snoc [simp]: "meta_values (vs @ [v]) \<longleftrightarrow> meta_values vs \<and> (\<exists>r. meta_valid r \<and> v = meta_encode r)"
  by (auto simp: meta_values_def)

definition pid_inv :: "('l \<Rightarrow> bytes list) \<Rightarrow> 'l pid_sys \<Rightarrow> bool" where
  "pid_inv stored s \<longleftrightarrow> (let m = pd_mgr s; vs = stored (pd_log s) in
     pm_metaLog m \<and> pm_step m = 1000 \<and> 0 \<le> sint (pm_nextBase m) \<and> sint (pm_nextBase m) \<le> sint (pm_blockEnd m) \<and>
     meta_values vs \<and> (sint (pm_nextBase m) < sint (pm_blockEnd m) \<longrightarrow> sint (pm_blockEnd m) \<le> sint (leased vs)) \<and>
     distinct (pd_issued s) \<and>
     (\<forall>p\<in>set (pd_issued s). 0 \<le> sint p \<and> sint p < sint (pm_nextBase m) \<and> sint p < sint (leased vs)))"

lemma sint_add_small:
  "0 \<le> sint (a :: i64) + sint b \<Longrightarrow> sint a + sint b < 2 ^ 63 \<Longrightarrow> sint (a + b) = sint a + sint b"
  by (simp add: sint_word_ariths signed_take_bit_int_eq_self)

lemma sint_inc: "sint (a :: i64) < sint (b :: i64) \<Longrightarrow> sint (a + 1) = sint a + 1"
  using sint_lt [of b] sint_ge [of a] by (simp add: sint_word_ariths signed_take_bit_int_eq_self)

lemma leaseNextBlock_ok:
  assumes "append' (lease_record m) l = (Ok (), l')" "pm_metaLog m" "sint (pm_nextBase m) = sint (pm_blockEnd m)"
  shows "leaseNextBlockLocked append' m l = (Ok (), m\<lparr>pm_blockEnd := pm_blockEnd m + pm_step m\<rparr>, l')"
  using assms by (simp add: leaseNextBlockLocked_def lease_record_def Let_def)

lemma SeedFromLog_fields:
  assumes "sint (pm_nextBase m) \<le> sint (pm_blockEnd m)"
  shows "pm_metaLog (SeedFromLog x m) = pm_metaLog m" "pm_step (SeedFromLog x m) = pm_step m"
    "sint (pm_nextBase (SeedFromLog x m)) = max (sint x) (sint (pm_nextBase m))"
    "sint (pm_blockEnd (SeedFromLog x m)) = max (sint x) (sint (pm_blockEnd m))"
  using assms by (auto simp: SeedFromLog_def Let_def)

context metadata_appender
begin

lemma allocate_inv:
  assumes inv: "pid_inv stored s" "ok (pd_log s)"
    and guard: "sint (pm_nextBase (pd_mgr s)) < sint (pm_blockEnd (pd_mgr s)) \<or>
      sint (pm_blockEnd (pd_mgr s)) + sint (pm_step (pd_mgr s)) < 2 ^ 63 \<and> room (lease_record (pd_mgr s)) (pd_log s)"
  shows "\<exists>m' l'. AllocateOne (append' c) (pd_mgr s) (pd_log s) = (Ok (pm_nextBase (pd_mgr s)), m', l') \<and> ok l' \<and>
    pid_inv stored \<lparr>pd_mgr = m', pd_log = l', pd_issued = pd_issued s @ [pm_nextBase (pd_mgr s)]\<rparr>"
proof (cases "sint (pm_nextBase (pd_mgr s)) < sint (pm_blockEnd (pd_mgr s))")
  case True
  then show ?thesis using inv sint_inc [OF True] by (auto simp: AllocateOne_def pid_inv_def Let_def)
next
  case False
  let ?m = "pd_mgr s" and ?l = "pd_log s"
  obtain l' where l': "append' c (lease_record ?m) ?l = (Ok (), l')" "ok l'" "stored l' = stored ?l @ [lease_record ?m]"
    using append_ok [of ?l "lease_record ?m" c] guard False inv(2) by (cases "append' c (lease_record ?m) ?l") blast
  have eq: "sint (pm_nextBase ?m) = sint (pm_blockEnd ?m)" "pm_metaLog ?m" "pm_step ?m = 1000" "0 \<le> sint (pm_nextBase ?m)"
    "meta_values (stored ?l)"
    using False inv(1) by (auto simp: pid_inv_def Let_def)
  have e: "sint (pm_blockEnd ?m + pm_step ?m) = sint (pm_blockEnd ?m) + 1000"
    using guard False eq sint_add_small [of "pm_blockEnd ?m" "pm_step ?m"] by simp
  let ?p = "\<lparr>pi_BrokerId = pm_brokerID ?m, pi_BrokerEpoch = pm_brokerEpoch ?m, pi_NextProducerId = pm_blockEnd ?m + pm_step ?m\<rparr>"
  have rec: "lease_record ?m = meta_encode (ProducerIds_Record ?p)" by (simp add: lease_record_def)
  note ls = leased_snoc [OF eq(5), of "ProducerIds_Record ?p", simplified, unfolded rec [symmetric, simplified]]
  have succ: "sint (pm_nextBase ?m + 1) = sint (pm_nextBase ?m) + 1"
    using e eq(1) by (intro sint_inc [of _ "pm_blockEnd ?m + pm_step ?m"]) simp
  have mv: "meta_values (stored l')" using l'(3) eq(5) rec by (auto simp del: meta_encode.simps intro: exI [of _ "ProducerIds_Record ?p"])
  have "AllocateOne (append' c) ?m ?l = (Ok (pm_nextBase ?m),
      ?m\<lparr>pm_blockEnd := pm_blockEnd ?m + pm_step ?m, pm_nextBase := pm_nextBase ?m + 1\<rparr>, l')"
    using False leaseNextBlock_ok [where append' = "append' c", OF l'(1) eq(2,1)] by (simp add: AllocateOne_def)
  then show ?thesis using l' inv(1) eq e ls succ mv by (fastforce simp: pid_inv_def Let_def)
qed

lemma seed_inv: "pid_inv stored s \<Longrightarrow> pid_inv stored (s\<lparr>pd_mgr := SeedFromLog x (pd_mgr s)\<rparr>)"
  by (auto simp: pid_inv_def Let_def SeedFromLog_fields)

lemma recover_inv:
  assumes "meta_values (stored l)" "ok l" "recoverPidManager (replay' max_pid l) b e NewPidManager = Some (Ok m)"
    and "distinct ps" "\<forall>p\<in>set ps. 0 \<le> sint p \<and> sint p < sint (leased (stored l))"
  shows "pid_inv stored \<lparr>pd_mgr = m, pd_log = l, pd_issued = ps\<rparr>"
proof -
  obtain w where w: "apply_all max_pid (stored l) 0 = (Ok (), w)" "0 \<le> sint w"
    using apply_max_pid [OF assms(1), of 0] by auto
  then have w': "w = leased (stored l)" by (simp add: leased_def)
  have m: "m = PidManager_Configure b e True (if 0 < sint w then SeedFromLog w NewPidManager else NewPidManager)"
    using assms(3) w(1) by (simp add: recoverPidManager_def replay_ok [OF assms(2)] Let_def)
  show ?thesis
    using assms(1,4,5) w(2) unfolding m w'
    by (auto simp: pid_inv_def Let_def PidManager_Configure_def SeedFromLog_def NewPidManager_def DefaultPidBlockSize_def)
qed

lemma pid_step_inv:
  assumes "pid_step append' room reopens replay' s t" "pid_inv stored s" "ok (pd_log s)"
  shows "pid_inv stored t \<and> ok (pd_log t)"
  using assms(1)
proof cases
  case (pid_allocate m l c pid m' l' ps)
  then show ?thesis using allocate_inv [OF assms(2,3), of c] by auto
next
  case (pid_other rec l c r l' m ps)
  then have l': "ok l'" "stored l' = stored l @ [meta_encode rec]" using append_ok [of l] assms(3) by auto
  have "meta_values (stored l)" using assms(2) pid_other by (simp add: pid_inv_def Let_def)
  note ls = leased_snoc(1) [OF this pid_other(3)]
  then show ?thesis using l' ls assms(2) pid_other by (fastforce simp: pid_inv_def Let_def)
next
  case (pid_seed m l ps x)
  then show ?thesis using seed_inv [OF assms(2), of x] assms(3) by simp
next
  case (pid_restart l l' b e m' m ps)
  then have l': "ok l'" "stored l' = stored l" using reopens_ok assms(3) by auto
  have "pid_inv stored \<lparr>pd_mgr = m', pd_log = l', pd_issued = ps\<rparr>"
    using assms(2) pid_restart l' by (intro recover_inv) (auto simp: pid_inv_def Let_def)
  then show ?thesis using pid_restart l' by simp
qed

lemma pid_reachable_inv:
  assumes "(pid_step append' room reopens replay')\<^sup>*\<^sup>* s t" "pid_inv stored s" "ok (pd_log s)"
  shows "pid_inv stored t \<and> ok (pd_log t)"
  using assms by (induction rule: rtranclp_induct) (blast dest: pid_step_inv)+

lemma pids_unique:
  assumes "ok l" "meta_values (stored l)" "recoverPidManager (replay' max_pid l) b e NewPidManager = Some (Ok m)"
    and "(pid_step append' room reopens replay')\<^sup>*\<^sup>* \<lparr>pd_mgr = m, pd_log = l, pd_issued = []\<rparr> t"
  shows "distinct (pd_issued t)"
proof -
  have "pid_inv stored \<lparr>pd_mgr = m, pd_log = l, pd_issued = []\<rparr>"
    using assms(1-3) by (intro recover_inv) auto
  then show ?thesis using pid_reachable_inv [OF assms(4)] assms(1) by (simp add: pid_inv_def Let_def)
qed

end


section \<open>The metadata log provides the interface\<close>

definition defaultCommitLogConfig :: CommitLogConfig where
  "defaultCommitLogConfig = \<lparr>cfg_SegmentMaxBytes = 1024 * 1024 * 100, cfg_IndexInterval = 4 * 1024\<rparr>"

definition log_append :: "i64 \<times> int \<Rightarrow> bytes \<Rightarrow> MetadataLog \<Rightarrow> unit res \<times> MetadataLog" where
  "log_append clock v m = (case MetadataLog_Append no_cl_faults (fst clock) (snd clock) v m of (r, m, _) \<Rightarrow> (r, m))"

text \<open>The values in the first segment.\<close>

definition log_values :: "MetadataLog \<Rightarrow> bytes list" where
  "log_values m =
     (case ml_commitLog m of
        None \<Rightarrow> []
      | Some cl \<Rightarrow> (case DecodeRecordValues (seg_logFile (hd (cl_segments cl))) of Ok vs \<Rightarrow> vs | _ \<Rightarrow> []))"

definition log_room :: "bytes \<Rightarrow> MetadataLog \<Rightarrow> bool" where
  "log_room v m \<longleftrightarrow> v \<noteq> [] \<and> length (encodeRecord v) < 2 ^ 31 - 61 \<and>
     (case ml_commitLog m of None \<Rightarrow> False | Some cl \<Rightarrow> \<not> IsFull (cl_activeSegment cl))"

text \<open>
  A restart of the broker: \<^verbatim>\<open>initMetadataLog\<close> opens the directory that the log has left behind,
  with index files of any content.\<close>

definition log_reopens :: "MetadataLog \<Rightarrow> MetadataLog \<Rightarrow> bool" where
  "log_reopens m m' \<longleftrightarrow> (\<exists>cl fs cl' ps. ml_commitLog m = Some cl \<and> map fst fs = map seg_BaseOffset (cl_segments cl) \<and>
     files_of fs (map (\<lambda>s. [seg_logFile s]) (cl_segments cl)) \<and>
     NewCommitLog no_cl_faults defaultCommitLogConfig (dir_of fs) = Ok cl' \<and>
     m' = MetadataLog_SetPartitionState ps (MetadataLog_Init cl' NewMetadataLog))"

type_synonym stamped = "int \<times> i64 \<times> bytes"

definition meta_batches :: "stamped list \<Rightarrow> bytes list" where
  "meta_batches xs = map (\<lambda>(o', now, v). patch_base o' (EncodeAsRecordBatch now v)) xs"

definition stamped_fit :: "stamped list \<Rightarrow> bool" where
  "stamped_fit xs \<longleftrightarrow> (\<forall>(o', now, v)\<in>set xs. v \<noteq> [] \<and> length (encodeRecord v) < 2 ^ 31 - 61)"

text \<open>One segment, from offset 0, holding only metadata batches.\<close>

definition log_rep :: "commitLog \<Rightarrow> stamped list \<Rightarrow> bool" where
  "log_rep cl xs \<longleftrightarrow> cl_rep cl [meta_batches xs] \<and> \<not> cl_isClosed cl \<and> OldestOffset cl = 0 \<and>
     seg_maxBytes (cl_activeSegment cl) \<le> 2 ^ 32 \<and> int (length (concat (meta_batches xs))) < 2 ^ 62 \<and> stamped_fit xs"

definition log_ok :: "MetadataLog \<Rightarrow> bool" where
  "log_ok m \<longleftrightarrow> (\<exists>cl xs. ml_commitLog m = Some cl \<and> log_rep cl xs)"

lemma meta_batch_fields:
  assumes "stamped_fit xs" "b \<in> set (meta_batches xs)"
  shows "wf_batch b" "batch_delta b = 0"
proof -
  obtain o' now v where b: "b = patch_base o' (EncodeAsRecordBatch now v)" "length (encodeRecord v) < 2 ^ 31 - 61"
    using assms by (auto simp: meta_batches_def stamped_fit_def)
  note f = EncodeAsRecordBatch_fields [OF b(2), of now]
  show "wf_batch b" using f(6) b(1) by (simp add: patch_base_wf)
  show "batch_delta b = 0" using f(1,4) patch_base_fields(3) [of "EncodeAsRecordBatch now v" 23 4] b(1)
    by (simp add: batch_delta_def)
qed

lemma log_end_count:
  assumes "contiguous o' bs" "\<forall>b\<in>set bs. batch_delta b = 0"
  shows "log_end o' bs = o' + int (length bs)"
  using assms by (induction bs arbitrary: o') (auto simp: batch_last_def)

lemma batches_length: "\<forall>b\<in>set bs. wf_batch b \<Longrightarrow> 61 * length bs \<le> length (concat bs)"
  by (induction bs) (auto simp: wf_batch_def)

lemma log_rep_offsets:
  assumes "log_rep cl xs"
  shows "cl_nextOffset cl = int (length xs)" "61 * int (length xs) \<le> int (length (concat (meta_batches xs)))"
    "ActiveSegmentBaseOffset cl = 0" "cl_segments cl = [cl_activeSegment cl]"
    "seg_rep (cl_activeSegment cl) (meta_batches xs)"
proof -
  obtain s where s: "cl_segments cl = [s]" "seg_rep s (meta_batches xs)" "cl_nextOffset cl = log_end (seg_BaseOffset s) (meta_batches xs)"
    using assms chained_length [of "cl_segments cl" "[meta_batches xs]"]
    by (cases "cl_segments cl") (auto simp: log_rep_def cl_rep_def)
  have base: "seg_BaseOffset s = 0" using assms s by (simp add: log_rep_def OldestOffset_def)
  have fit: "stamped_fit xs" using assms by (simp add: log_rep_def)
  have len: "length (meta_batches xs) = length xs" by (simp add: meta_batches_def)
  show "cl_nextOffset cl = int (length xs)"
    using log_end_count [of 0 "meta_batches xs"] s base meta_batch_fields(2) [OF fit] len by (simp add: seg_rep_def)
  show "61 * int (length xs) \<le> int (length (concat (meta_batches xs)))"
    using batches_length [of "meta_batches xs"] meta_batch_fields(1) [OF fit] len by simp
  show "ActiveSegmentBaseOffset cl = 0" "cl_segments cl = [cl_activeSegment cl]" "seg_rep (cl_activeSegment cl) (meta_batches xs)"
    using s base by (simp_all add: ActiveSegmentBaseOffset_def cl_activeSegment_def)
qed

lemma log_rep_values:
  assumes "log_rep cl xs"
  shows "DecodeRecordValues (concat (meta_batches xs)) = Ok (map (\<lambda>(o', now, v). v) xs)"
    "DecodeRecordValues (seg_logFile (hd (cl_segments cl))) = Ok (map (\<lambda>(o', now, v). v) xs)"
proof -
  show d: "DecodeRecordValues (concat (meta_batches xs)) = Ok (map (\<lambda>(o', now, v). v) xs)"
    using assms DecodeRecordValues_batches [of xs] by (simp add: log_rep_def stamped_fit_def meta_batches_def)
  show "DecodeRecordValues (seg_logFile (hd (cl_segments cl))) = Ok (map (\<lambda>(o', now, v). v) xs)"
    using d log_rep_offsets(4,5) [OF assms] by (metis list.sel(1) seg_rep_def)
qed

lemma log_values_rep: "ml_commitLog m = Some cl \<Longrightarrow> log_rep cl xs \<Longrightarrow> log_values m = map (\<lambda>(o', now, v). v) xs"
  by (simp add: log_values_def log_rep_values)

lemma log_append_rep:
  assumes rep: "log_rep cl xs" and room: "\<not> IsFull (cl_activeSegment cl)" "v \<noteq> []" "length (encodeRecord v) < 2 ^ 31 - 61"
  shows "\<exists>cl' h. commitLog_AppendRaw no_cl_faults nano (EncodeAsRecordBatch now v) 1 cl = (Ok (cl_nextOffset cl), cl', h) \<and>
    log_rep cl' (xs @ [(cl_nextOffset cl, now, v)]) \<and> seg_maxBytes (cl_activeSegment cl') = seg_maxBytes (cl_activeSegment cl)"
proof -
  note f = EncodeAsRecordBatch_fields [OF room(3), of now] and o' = log_rep_offsets [OF rep]
  have size: "int (length (concat (meta_batches xs))) < 2 ^ 32"
    using room(1) rep o'(5) by (simp add: IsFull_def log_rep_def seg_rep_def)
  obtain cl' h where cl': "commitLog_AppendRaw no_cl_faults nano (EncodeAsRecordBatch now v) 1 cl = (Ok (cl_nextOffset cl), cl', h)"
      "cl_rep cl' [meta_batches xs @ [patch_base (cl_nextOffset cl) (EncodeAsRecordBatch now v)]]" "\<not> cl_isClosed cl'"
      "seg_BaseOffset (hd (cl_segments cl')) = seg_BaseOffset (hd (cl_segments cl))"
      "seg_maxBytes (cl_activeSegment cl') = seg_maxBytes (cl_activeSegment cl)"
    using AppendRaw_rep [of cl "[meta_batches xs]" "EncodeAsRecordBatch now v" 1 nano] rep room(1) f(5,6) o'(1,2,3) size
    by (auto simp: log_rep_def)
  have "OldestOffset cl' = 0"
    using cl'(2,4) rep by (auto simp: OldestOffset_def log_rep_def cl_rep_def hd_conv_nth)
  moreover have "int (length (concat (meta_batches (xs @ [(cl_nextOffset cl, now, v)])))) < 2 ^ 62"
    using size f(1) patch_base_fields(1) [of "EncodeAsRecordBatch now v" "cl_nextOffset cl"] room(3) by (simp add: meta_batches_def)
  moreover have "stamped_fit (xs @ [(cl_nextOffset cl, now, v)])" using rep room by (auto simp: log_rep_def stamped_fit_def)
  ultimately show ?thesis using cl' rep by (auto simp: log_rep_def meta_batches_def)
qed

lemma log_append_ok:
  assumes "log_ok m" "log_room v m" "log_append clock v m = (r, m')"
  shows "r = Ok () \<and> log_ok m' \<and> log_values m' = log_values m @ [v]"
proof -
  obtain cl xs where cl: "ml_commitLog m = Some cl" "log_rep cl xs" using assms(1) by (auto simp: log_ok_def)
  obtain now nano where clock: "clock = (now, nano)" by (cases clock)
  obtain cl' h where cl': "commitLog_AppendRaw no_cl_faults nano (EncodeAsRecordBatch now v) 1 cl = (Ok (cl_nextOffset cl), cl', h)"
      "log_rep cl' (xs @ [(cl_nextOffset cl, now, v)])"
    using log_append_rep [OF cl(2), of v nano now] assms(2) cl(1) by (auto simp: log_room_def)
  have "r = Ok () \<and> ml_commitLog m' = Some cl'"
    using assms(3) cl(1) cl'(1) clock
    by (auto simp: log_append_def MetadataLog_Append_def Let_def split: option.splits prod.splits)
  then show ?thesis using cl cl'(2) log_values_rep by (auto simp: log_ok_def)
qed

lemma log_reopens_ok:
  assumes "log_ok m" "log_reopens m m'"
  shows "log_ok m' \<and> log_values m' = log_values m"
proof -
  obtain cl xs where cl: "ml_commitLog m = Some cl" "log_rep cl xs" using assms(1) by (auto simp: log_ok_def)
  obtain fs cl' ps where fs: "map fst fs = map seg_BaseOffset (cl_segments cl)"
      "files_of fs (map (\<lambda>s. [seg_logFile s]) (cl_segments cl))"
      "NewCommitLog no_cl_faults defaultCommitLogConfig (dir_of fs) = Ok cl'"
      "m' = MetadataLog_SetPartitionState ps (MetadataLog_Init cl' NewMetadataLog)"
    using assms(2) cl(1) by (auto simp: log_reopens_def)
  note o' = log_rep_offsets [OF cl(2)]
  have rep: "cl_rep cl [meta_batches xs]" "cl_nextOffset cl < 2 ^ 63"
    using cl(2) o'(1,2) by (auto simp: log_rep_def)
  obtain s where s: "cl_segments cl = [s]" "seg_logFile s = concat (meta_batches xs)"
    using o'(4,5) by (metis seg_rep_def)
  have "files_of fs [[concat (meta_batches xs)]]" using fs(2) s by simp
  then have files: "files_of fs [meta_batches xs]" by (simp add: files_of_def list_all2_Cons2)
  have cl': "cl_rep cl' [meta_batches xs] \<and> \<not> cl_isClosed cl' \<and>
      map seg_BaseOffset (cl_segments cl') = map seg_BaseOffset (cl_segments cl) \<and>
      (\<forall>s\<in>set (cl_segments cl'). seg_maxBytes s = cfg_SegmentMaxBytes defaultCommitLogConfig)"
    using crash_rep [OF rep _ fs(1) files, of defaultCommitLogConfig] fs(3) by (simp add: defaultCommitLogConfig_def)
  then obtain s' where s': "cl_segments cl' = [s']" "seg_BaseOffset s' = seg_BaseOffset s"
    "seg_maxBytes s' = cfg_SegmentMaxBytes defaultCommitLogConfig"
    using s(1) by (cases "cl_segments cl'") simp_all
  have "log_rep cl' xs" using cl(2) s(1) s' cl' unfolding log_rep_def OldestOffset_def cl_activeSegment_def defaultCommitLogConfig_def by simp
  then have "log_ok m'" "log_values m' = map (\<lambda>(o', now, v). v) xs"
    using fs(4) log_values_rep [of m' cl' xs] by (auto simp: log_ok_def MetadataLog_SetPartitionState_def MetadataLog_Init_def)
  then show ?thesis using log_values_rep [OF cl] by simp
qed

text \<open>Replay reads the first segment, whatever follows it.\<close>

lemma Replay_first_segment:
  assumes "ml_commitLog m = Some cl" "cl_rep cl (meta_batches xs # bss)" "\<not> cl_isClosed cl" "OldestOffset cl = 0"
    "xs \<noteq> []" "stamped_fit xs" "int (length (concat (meta_batches xs))) < 2 ^ 62"
  shows "Replay False False f m st = Some (apply_all f (map (\<lambda>(o', now, v). v) xs) st)"
proof -
  have "FindRecords False 0 (2 ^ 63 - 1) cl = Some (Ok (Some \<lparr>rr_File = Some (concat (meta_batches xs)),
    rr_FileOffset = 0, rr_Size = int (length (concat (meta_batches xs))), rr_LEO = cl_nextOffset cl, rr_LogStart = 0\<rparr>))"
    using FindRecords_first [of cl "meta_batches xs # bss" "2 ^ 63 - 1"] assms by (simp add: meta_batches_def)
  moreover have "DecodeRecordValues (concat (meta_batches xs)) = Ok (map (\<lambda>(o', now, v). v) xs)"
    using assms(6) DecodeRecordValues_batches [of xs] by (simp add: stamped_fit_def meta_batches_def)
  ultimately show ?thesis using assms(1) by (simp add: Replay_def file_ReadAt_def sub_def)
qed

lemma Replay_ok:
  assumes "log_ok m"
  shows "Replay False False f m st = Some (apply_all f (log_values m) st)"
proof -
  obtain cl xs where cl: "ml_commitLog m = Some cl" "log_rep cl xs" using assms by (auto simp: log_ok_def)
  note o' = log_rep_offsets [OF cl(2)] and v = log_values_rep [OF cl]
  show ?thesis
  proof (cases "xs = []")
    case True
    then show ?thesis using cl o'(1) v by (simp add: Replay_def FindRecords_def log_rep_def)
  next
    case False
    then show ?thesis using Replay_first_segment [OF cl(1), of xs "[]"] cl(2) v by (simp add: log_rep_def)
  qed
qed

interpretation mlog: metadata_appender log_append log_values log_room log_reopens "Replay False False" log_ok
  by unfold_locales (erule (2) log_append_ok, erule (1) log_reopens_ok, erule Replay_ok)


text \<open>A lease made when the first segment is full goes to a segment that replay does not read.\<close>

lemma recover_nextBase:
  assumes "recoverPidManager (\<lambda>st. Some (apply_all max_pid vs st)) b e NewPidManager = Some (Ok pm)" "meta_values vs"
  shows "pm_nextBase pm = leased vs" "pm_blockEnd pm = leased vs" "pm_metaLog pm" "pm_step pm = 1000"
proof -
  obtain w where w: "apply_all max_pid vs 0 = (Ok (), w)" "0 \<le> sint w" using apply_max_pid [OF assms(2), of 0] by auto
  have "w = 0" if "\<not> 0 < sint w" using that w(2) by (metis leD order_le_less sint_0 signed_word_eqI)
  then show "pm_nextBase pm = leased vs" "pm_blockEnd pm = leased vs" "pm_metaLog pm" "pm_step pm = 1000"
    using assms(1) w by (auto simp: recoverPidManager_def leased_def Let_def PidManager_Configure_def SeedFromLog_def
      NewPidManager_def DefaultPidBlockSize_def split: if_splits)
qed

lemma AllocateOne_result:
  "AllocateOne append' pm l = (Ok pid, pm', l') \<Longrightarrow> sint (pm_nextBase pm) \<le> sint (pm_blockEnd pm) \<Longrightarrow> pid = pm_nextBase pm"
  by (auto simp: AllocateOne_def leaseNextBlockLocked_def Let_def split: if_splits res.splits prod.splits)

lemma log_append_full:
  assumes rep: "log_rep cl xs" and full: "IsFull (cl_activeSegment cl)" and fits: "length (encodeRecord v) < 2 ^ 31 - 61"
    and off: "int (length xs) < 2 ^ 32" and m: "ml_commitLog m = Some cl"
  shows "\<exists>m' cl' b. log_append clock v m = (Ok (), m') \<and> ml_commitLog m' = Some cl' \<and>
    cl_rep cl' [meta_batches xs, [b]] \<and> cl_nextOffset cl' < 2 ^ 63 \<and> OldestOffset cl' = 0"
proof -
  obtain now nano where clock: "clock = (now, nano)" by (cases clock)
  note f = EncodeAsRecordBatch_fields [OF fits, of now] and o' = log_rep_offsets [OF rep]
  obtain cl' h bss' where cl': "commitLog_AppendRaw no_cl_faults nano (EncodeAsRecordBatch now v) 1 cl = (Ok (cl_nextOffset cl), cl', h)"
      "cl_rep cl' [meta_batches xs, [patch_base (cl_nextOffset cl) (EncodeAsRecordBatch now v)]]"
      "cl_nextOffset cl' = cl_nextOffset cl + 1" "seg_BaseOffset (hd (cl_segments cl')) = seg_BaseOffset (hd (cl_segments cl))"
    using AppendRaw_rep [of cl "[meta_batches xs]" "EncodeAsRecordBatch now v" 1 nano] rep full f(5,6) o'(1,3) off
    by (auto simp: log_rep_def)
  have "OldestOffset cl' = 0"
    using cl'(2,4) rep by (auto simp: OldestOffset_def log_rep_def cl_rep_def hd_conv_nth)
  then show ?thesis using cl' m o'(1) off clock
    by (auto simp: log_append_def MetadataLog_Append_def Let_def split: option.splits prod.splits)
qed

lemma chained_files: "chained ss bss \<Longrightarrow> map seg_logFile ss = map concat bss"
  by (induction ss bss rule: chained.induct) (auto simp: seg_rep_def)

lemma files_of_cong: "map concat bss = map concat bss' \<Longrightarrow> files_of fs bss = files_of fs bss'"
proof -
  have "files_of fs bss \<longleftrightarrow> list_all2 (\<lambda>(b, l, of', tf) l'. l = l' \<and> (of' = [] \<or> 8 \<le> length of') \<and>
     (tf = [] \<or> 12 \<le> length tf)) fs (map concat bss)" for bss
    by (simp add: files_of_def list_all2_map2 case_prod_unfold)
  then show "map concat bss = map concat bss' \<Longrightarrow> files_of fs bss = files_of fs bss'" by simp
qed

lemma reopen_two_segments:
  assumes "ml_commitLog m = Some cl" "cl_rep cl (meta_batches xs # bss)" "cl_nextOffset cl < 2 ^ 63" "OldestOffset cl = 0"
    "xs \<noteq> []" "stamped_fit xs" "int (length (concat (meta_batches xs))) < 2 ^ 62" "log_reopens m m'"
  shows "Replay False False f m' st = Some (apply_all f (map (\<lambda>(o', now, v). v) xs) st)"
proof -
  obtain fs cl' ps where fs: "map fst fs = map seg_BaseOffset (cl_segments cl)"
      "files_of fs (map (\<lambda>s. [seg_logFile s]) (cl_segments cl))"
      "NewCommitLog no_cl_faults defaultCommitLogConfig (dir_of fs) = Ok cl'"
      "m' = MetadataLog_SetPartitionState ps (MetadataLog_Init cl' NewMetadataLog)"
    using assms(1,8) by (auto simp: log_reopens_def)
  let ?bss = "meta_batches xs # bss"
  have "map concat (map (\<lambda>s. [seg_logFile s]) (cl_segments cl)) = map concat ?bss"
    using assms(2) chained_files [of "cl_segments cl" ?bss] by (simp add: cl_rep_def o_def)
  then have "files_of fs ?bss" using fs(2) files_of_cong by blast
  then have cl': "cl_rep cl' ?bss" "\<not> cl_isClosed cl'" "map seg_BaseOffset (cl_segments cl') = map seg_BaseOffset (cl_segments cl)"
    using crash_rep [OF assms(2,3) _ fs(1), of defaultCommitLogConfig] fs(3) by (auto simp: defaultCommitLogConfig_def)
  have "OldestOffset cl' = OldestOffset cl"
    using cl'(3) by (cases "cl_segments cl'"; cases "cl_segments cl") (auto simp: OldestOffset_def)
  then show ?thesis
    using Replay_first_segment [of m' cl' xs bss] cl' assms fs(4) by (simp add: MetadataLog_SetPartitionState_def MetadataLog_Init_def)
qed


section \<open>Properties\<close>

text \<open>
  C20. A producer id is never handed out twice: not by one run of the broker, and not across any
  number of restarts that recover the allocator from the metadata log, as long as the log has not
  outgrown its first segment.\<close>

theorem producer_ids_unique:
  assumes "log_ok l" "meta_values (log_values l)"
    and "recoverPidManager (Replay False False max_pid l) b e NewPidManager = Some (Ok m)"
    and "(pid_step log_append log_room log_reopens (Replay False False))\<^sup>*\<^sup>*
      \<lparr>pd_mgr = m, pd_log = l, pd_issued = []\<rparr> t"
  shows "distinct (pd_issued t)"
  using assms by (rule mlog.pids_unique)

text \<open>An empty metadata log with segments of \<open>n\<close> bytes.\<close>

lemma new_metadata_log:
  assumes "0 < n" "n \<le> 2 ^ 32"
  shows "\<exists>cl. NewCommitLog no_cl_faults \<lparr>cfg_SegmentMaxBytes = n, cfg_IndexInterval = 4096\<rparr> [] = Ok cl \<and>
    log_rep cl [] \<and> \<not> IsFull (cl_activeSegment cl) \<and> seg_maxBytes (cl_activeSegment cl) = n"
proof -
  let ?cfg = "\<lparr>cfg_SegmentMaxBytes = n, cfg_IndexInterval = 4096\<rparr>"
  obtain s where s: "NewSegment no_seg_faults (segment_files [] 0) 0 ?cfg = Ok s" "seg_rep s []"
      "seg_BaseOffset s = 0" "seg_maxBytes s = n"
    using NewSegment_rep [of 0 "[]" "[]" "[]" ?cfg] by (auto simp: segment_files_def dir_open_def)
  let ?cl = "\<lparr>cl_segments = [s], cl_config = ?cfg, cl_isClosed = False, cl_nextOffset = 0, cl_onSegmentRoll = False\<rparr>"
  have "NewCommitLog no_cl_faults ?cfg [] = Ok ?cl"
    using s NextOffset_rep [OF s(2)] by (simp add: NewCommitLog_def loadSegments_def no_cl_faults_def)
  moreover have "log_rep ?cl []"
    using s assms by (simp add: log_rep_def cl_rep_def meta_batches_def OldestOffset_def cl_activeSegment_def stamped_fit_def)
  moreover have "\<not> IsFull s" using s assms by (simp add: IsFull_def seg_rep_def)
  ultimately show ?thesis using s(4) by (auto simp: cl_activeSegment_def)
qed

lemma encodeRecord_lease: "length (encodeRecord (lease_record m)) = 29"
proof -
  have l: "length (lease_record m) = 22" by (simp add: lease_record_def ProducerIdsRecord_Encode_def)
  have n: "(writeZigzagVarInt (-1) [0, 0, 0]) = [0, 0, 0, 1]" "(writeZigzagVarInt 22 [0, 0, 0, 1]) = [0, 0, 0, 1, 44]"
    "writeZigzagVarInt 0 [0] = [0, 0]" "writeZigzagVarInt 0 [0, 0] = [0, 0, 0]" "writeZigzagVarInt 28 [] = [56]"
    "writeZigzagVarInt 0 [] = [0]"
    by code_simp+
  have a: "writeZigzagVarInt 0 ([0, 0, 0, 1, 44] @ lease_record m) = ([0, 0, 0, 1, 44] @ lease_record m) @ [0]"
    using writeZigzag_append [of 0 "[0, 0, 0, 1, 44] @ lease_record m"] n by simp
  show ?thesis using l n a by (simp add: encodeRecord_def Let_def)
qed

text \<open>A log that holds \<open>xs\<close> and the allocator recovered from it.\<close>

definition log_of :: "commitLog \<Rightarrow> MetadataLog" where
  "log_of cl = MetadataLog_Init cl NewMetadataLog"

lemma log_of_ok: "log_rep cl xs \<Longrightarrow> log_ok (log_of cl)" "log_rep cl xs \<Longrightarrow> log_values (log_of cl) = map (\<lambda>(o', now, v). v) xs"
  using log_values_rep [of "log_of cl" cl xs] by (auto simp: log_ok_def log_of_def MetadataLog_Init_def)

lemma Replay_log_of:
  "log_rep cl xs \<Longrightarrow> Replay False False max_pid (log_of cl) = (\<lambda>st. Some (apply_all max_pid (map (\<lambda>(o', now, v). v) xs) st))"
  by (rule ext) (simp add: Replay_ok [OF log_of_ok(1)] log_of_ok(2))

lemma recover_empty:
  assumes "log_rep cl []"
  shows "\<exists>m. recoverPidManager (Replay False False max_pid (log_of cl)) 1 0 NewPidManager = Some (Ok m) \<and>
    pm_nextBase m = 0 \<and> pm_blockEnd m = 0 \<and> pm_step m = 1000 \<and> pm_metaLog m"
  unfolding Replay_log_of [OF assms]
  by (simp add: recoverPidManager_def NewPidManager_def PidManager_Configure_def DefaultPidBlockSize_def Let_def)

theorem producer_ids_unique_witness:
  "\<exists>cl m t. recoverPidManager (Replay False False max_pid (log_of cl)) 1 0 NewPidManager = Some (Ok m) \<and>
     (pid_step log_append log_room log_reopens (Replay False False))\<^sup>*\<^sup>*
       \<lparr>pd_mgr = m, pd_log = log_of cl, pd_issued = []\<rparr> t \<and> length (pd_issued t) = 2 \<and> distinct (pd_issued t)"
proof -
  let ?step = "pid_step log_append log_room log_reopens (Replay False False)"
  obtain cl where cl: "log_rep cl []" "\<not> IsFull (cl_activeSegment cl)" using new_metadata_log [of 4096] by auto
  note ok = log_of_ok(1) [OF cl(1)]
  have v: "log_values (log_of cl) = []" using log_of_ok(2) [OF cl(1)] by simp
  obtain m where m: "recoverPidManager (Replay False False max_pid (log_of cl)) 1 0 NewPidManager = Some (Ok m)"
    "pm_nextBase m = 0" "pm_blockEnd m = 0" "pm_step m = 1000" "pm_metaLog m"
    using recover_empty [OF cl(1)] by blast
  let ?s = "\<lparr>pd_mgr = m, pd_log = log_of cl, pd_issued = []\<rparr>"
  have inv: "pid_inv log_values ?s" using mlog.recover_inv [OF _ ok m(1), of "[]"] v by (simp add: meta_values_def)
  have room: "log_room (lease_record m) (log_of cl)"
    using cl(2) encodeRecord_lease [of m] by (simp add: log_room_def log_of_def MetadataLog_Init_def)
      (simp add: lease_record_def ProducerIdsRecord_Encode_def)
  obtain m1 l1 where 1: "AllocateOne (log_append (0, 0)) m (log_of cl) = (Ok 0, m1, l1)" "log_ok l1"
      "pid_inv log_values \<lparr>pd_mgr = m1, pd_log = l1, pd_issued = [0]\<rparr>"
    using mlog.allocate_inv [OF inv, of "(0, 0)"] m room ok by auto
  have m1: "pm_nextBase m1 = 1" "pm_blockEnd m1 = 1000"
    using 1(1) m by (auto simp: AllocateOne_def leaseNextBlockLocked_def Let_def split: res.splits prod.splits if_splits)
  obtain m2 l2 where 2: "AllocateOne (log_append (0, 0)) m1 l1 = (Ok 1, m2, l2)"
    using mlog.allocate_inv [OF 1(3), of "(0, 0)"] m1 1(2) by auto
  have "?step ?s \<lparr>pd_mgr = m1, pd_log = l1, pd_issued = [] @ [0]\<rparr>"
    by (rule pid_allocate [where append' = log_append, OF _ 1(1)]) (use m room in simp)
  moreover have "?step \<lparr>pd_mgr = m1, pd_log = l1, pd_issued = [] @ [0]\<rparr> \<lparr>pd_mgr = m2, pd_log = l2, pd_issued = ([] @ [0]) @ [1]\<rparr>"
    by (rule pid_allocate [where append' = log_append, OF _ 2]) (use m1 in simp)
  ultimately have run: "?step\<^sup>*\<^sup>* ?s \<lparr>pd_mgr = m2, pd_log = l2, pd_issued = [0, 1]\<rparr>" by (simp add: converse_rtranclp_into_rtranclp)
  have "distinct (pd_issued \<lparr>pd_mgr = m2, pd_log = l2, pd_issued = [0, 1]\<rparr>)"
    using producer_ids_unique [OF ok _ m(1) run] v by (simp add: meta_values_def)
  then show ?thesis using m(1) run by (intro exI conjI) auto
qed

text \<open>
  C35. Once the first segment of the metadata log is full, the next lease is stored in a segment that
  replay never reads: after a restart the broker hands out a producer id it has handed out
  before.\<close>

theorem producer_id_reissued:
  assumes "log_rep cl xs" "IsFull (cl_activeSegment cl)" "meta_values (map (\<lambda>(o', now, v). v) xs)"
    and "recoverPidManager (Replay False False max_pid (log_of cl)) b e NewPidManager = Some (Ok pm)"
    and "AllocateOne (log_append c) pm (log_of cl) = (Ok pid, pm', m')"
    and "log_reopens m' m''"
    and "recoverPidManager (Replay False False max_pid m'') b' e' NewPidManager = Some (Ok pm2)"
    and "AllocateOne (log_append c') pm2 m'' = (Ok pid', pm2', m3)"
    and "int (length xs) < 2 ^ 32"
  shows "pid' = pid"
proof -
  let ?vs = "map (\<lambda>(o', now, v). v) xs"
  have m: "ml_commitLog (log_of cl) = Some cl" by (simp add: log_of_def MetadataLog_Init_def)
  have "0 < seg_maxBytes (cl_activeSegment cl)" using assms(1) by (simp add: log_rep_def cl_rep_def cl_activeSegment_def)
  then have ne: "xs \<noteq> []" using assms(2) log_rep_offsets(5) [OF assms(1)] by (auto simp: IsFull_def seg_rep_def meta_batches_def)
  have "recoverPidManager (\<lambda>st. Some (apply_all max_pid ?vs st)) b e NewPidManager = Some (Ok pm)"
    using assms(4) unfolding Replay_log_of [OF assms(1)] .
  note pm = recover_nextBase [OF this assms(3)]
  obtain m1 cl1 batch where 1: "log_append c (lease_record pm) (log_of cl) = (Ok (), m1)" "ml_commitLog m1 = Some cl1"
      "cl_rep cl1 [meta_batches xs, [batch]]" "cl_nextOffset cl1 < 2 ^ 63" "OldestOffset cl1 = 0"
    using log_append_full [OF assms(1,2) _ assms(9) m, of "lease_record pm" c] encodeRecord_lease [of pm] by auto
  have "m' = m1"
    using assms(5) leaseNextBlock_ok [where append' = "log_append c", OF 1(1) pm(3)] pm(1,2) by (simp add: AllocateOne_def)
  then have "Replay False False max_pid m'' = (\<lambda>st. Some (apply_all max_pid ?vs st))"
    using reopen_two_segments [OF 1(2,3,4,5) ne] assms(1,6) by (intro ext) (simp add: log_rep_def)
  then have "recoverPidManager (\<lambda>st. Some (apply_all max_pid ?vs st)) b' e' NewPidManager = Some (Ok pm2)"
    using assms(7) by simp
  note pm2 = recover_nextBase [OF this assms(3)]
  show ?thesis using AllocateOne_result [OF assms(5)] AllocateOne_result [OF assms(8)] pm pm2 by simp
qed

text \<open>With segments of one byte, the first record fills the first segment.\<close>

lemma full_metadata_log:
  "\<exists>cl. log_rep cl [(0, 0, lease_record NewPidManager)] \<and> IsFull (cl_activeSegment cl)"
proof -
  let ?v = "lease_record NewPidManager"
  have v: "?v \<noteq> []" by (simp add: lease_record_def ProducerIdsRecord_Encode_def)
  obtain cl where cl: "log_rep cl []" "\<not> IsFull (cl_activeSegment cl)" "seg_maxBytes (cl_activeSegment cl) = 1"
    using new_metadata_log [of 1] by auto
  obtain cl' h where cl': "commitLog_AppendRaw no_cl_faults 0 (EncodeAsRecordBatch 0 ?v) 1 cl = (Ok (cl_nextOffset cl), cl', h)"
      "log_rep cl' [(cl_nextOffset cl, 0, ?v)]" "seg_maxBytes (cl_activeSegment cl') = seg_maxBytes (cl_activeSegment cl)"
    using log_append_rep [OF cl(1,2) v, of 0 0] encodeRecord_lease [of NewPidManager] by auto
  have "IsFull (cl_activeSegment cl')"
    using log_rep_offsets(2,5) [OF cl'(2)] cl(3) cl'(3) by (simp add: IsFull_def seg_rep_def)
  then show ?thesis using cl'(2) log_rep_offsets(1) [OF cl(1)] by auto
qed

lemma reopen_exists:
  assumes "cl_rep cl bss" "cl_nextOffset cl < 2 ^ 63" "ml_commitLog m = Some cl"
  shows "\<exists>m' cl'. log_reopens m m' \<and> ml_commitLog m' = Some cl' \<and> cl_rep cl' bss \<and> \<not> cl_isClosed cl' \<and>
    cl_nextOffset cl' = cl_nextOffset cl \<and> map seg_BaseOffset (cl_segments cl') = map seg_BaseOffset (cl_segments cl) \<and>
    seg_maxBytes (cl_activeSegment cl') = 104857600"
proof -
  let ?fs = "map (\<lambda>s. (seg_BaseOffset s, seg_logFile s, [], [])) (cl_segments cl)"
  have files: "files_of ?fs (map (\<lambda>s. [seg_logFile s]) (cl_segments cl))"
    by (simp add: files_of_def list_all2_map1 list_all2_map2 list.rel_refl)
  have "map concat (map (\<lambda>s. [seg_logFile s]) (cl_segments cl)) = map concat bss"
    using assms(1) chained_files [of "cl_segments cl" bss] by (simp add: cl_rep_def o_def)
  then have "files_of ?fs bss" using files files_of_cong by blast
  then obtain cl' where cl': "NewCommitLog no_cl_faults defaultCommitLogConfig (dir_of ?fs) = Ok cl'" "cl_rep cl' bss" "\<not> cl_isClosed cl'"
      "cl_nextOffset cl' = cl_nextOffset cl" "map seg_BaseOffset (cl_segments cl') = map seg_BaseOffset (cl_segments cl)"
      "\<forall>s\<in>set (cl_segments cl'). seg_maxBytes s = cfg_SegmentMaxBytes defaultCommitLogConfig"
    using crash_rep [OF assms(1,2), of defaultCommitLogConfig ?fs] by (auto simp: defaultCommitLogConfig_def o_def)
  let ?m = "MetadataLog_SetPartitionState undefined (MetadataLog_Init cl' NewMetadataLog)"
  have "log_reopens m ?m" unfolding log_reopens_def using assms(3) files cl'(1) by (intro exI [of _ cl] exI [of _ ?fs] exI) auto
  moreover have "seg_maxBytes (cl_activeSegment cl') = 104857600"
    using cl'(2,6) by (simp add: cl_activeSegment_def cl_rep_def defaultCommitLogConfig_def)
  ultimately show ?thesis using cl' by (intro exI [of _ ?m] exI [of _ cl']) (simp add: MetadataLog_SetPartitionState_def MetadataLog_Init_def)
qed

lemma recover_exists:
  "meta_values vs \<Longrightarrow> \<exists>pm. recoverPidManager (\<lambda>st. Some (apply_all max_pid vs st)) b e NewPidManager = Some (Ok pm)"
  using apply_max_pid [of vs 0] by (auto simp: recoverPidManager_def Let_def)

lemma allocate_exists:
  assumes "log_append c (lease_record pm) l = (Ok (), l')" "pm_metaLog pm" "pm_nextBase pm = pm_blockEnd pm"
  shows "\<exists>pm'. AllocateOne (log_append c) pm l = (Ok (pm_nextBase pm), pm', l')"
  using leaseNextBlock_ok [where append' = "log_append c", OF assms(1,2)] assms(3) by (simp add: AllocateOne_def)

lemma one_batch_bound:
  assumes "cl_rep cl (bss @ [[b]])"
  shows "cl_nextOffset cl - ActiveSegmentBaseOffset cl < 2 ^ 32"
proof -
  have "seg_rep (cl_activeSegment cl) [b]" "cl_segments cl \<noteq> []" "cl_nextOffset cl = log_end (ActiveSegmentBaseOffset cl) [b]"
    using assms chained_last [of "cl_segments cl" "bss @ [[b]]"]
    by (auto simp: cl_rep_def cl_activeSegment_def ActiveSegmentBaseOffset_def)
  then show ?thesis
    using sint_lt [of "be_dec (sub 23 4 b) :: i32"]
    by (simp add: seg_rep_def ActiveSegmentBaseOffset_def batch_last_def batch_delta_def)
qed

theorem producer_id_reissued_witness:
  "\<exists>cl pm pm' m' m'' pm2 pm2' m3 pid pid'. IsFull (cl_activeSegment cl) \<and>
     recoverPidManager (Replay False False max_pid (log_of cl)) 1 0 NewPidManager = Some (Ok pm) \<and>
     AllocateOne (log_append (0, 0)) pm (log_of cl) = (Ok pid, pm', m') \<and> log_reopens m' m'' \<and>
     recoverPidManager (Replay False False max_pid m'') 1 0 NewPidManager = Some (Ok pm2) \<and>
     AllocateOne (log_append (0, 0)) pm2 m'' = (Ok pid', pm2', m3) \<and> pid' = pid"
proof -
  let ?v = "lease_record NewPidManager" and ?xs = "[(0, 0, lease_record NewPidManager)] :: stamped list"
  obtain cl where cl: "log_rep cl ?xs" "IsFull (cl_activeSegment cl)" using full_metadata_log by blast
  have "\<exists>r. meta_valid r \<and> ?v = meta_encode r"
    by (rule exI [of _ "ProducerIds_Record \<lparr>pi_BrokerId = 0, pi_BrokerEpoch = 0, pi_NextProducerId = 1000\<rparr>"])
      (simp add: lease_record_def NewPidManager_def DefaultPidBlockSize_def)
  then have mv: "meta_values (map (\<lambda>(o', now, v). v) ?xs)" by (simp add: meta_values_def)
  let ?run = "\<lambda>st. Some (apply_all max_pid (map (\<lambda>(o', now, v). v) ?xs) st)"
  obtain pm where pm: "recoverPidManager ?run 1 0 NewPidManager = Some (Ok pm)" using recover_exists [OF mv] by blast
  note p = recover_nextBase [OF pm mv]
  have r1: "recoverPidManager (Replay False False max_pid (log_of cl)) 1 0 NewPidManager = Some (Ok pm)"
    unfolding Replay_log_of [OF cl(1)] by (rule pm)
  obtain m1 cl1 batch where 1: "log_append (0, 0) (lease_record pm) (log_of cl) = (Ok (), m1)" "ml_commitLog m1 = Some cl1"
      "cl_rep cl1 [meta_batches ?xs, [batch]]" "cl_nextOffset cl1 < 2 ^ 63" "OldestOffset cl1 = 0"
    using log_append_full [OF cl, of "lease_record pm" "log_of cl" "(0, 0)"] encodeRecord_lease [of pm]
    by (auto simp: log_of_def MetadataLog_Init_def)
  obtain pm' where a1: "AllocateOne (log_append (0, 0)) pm (log_of cl) = (Ok (pm_nextBase pm), pm', m1)"
    using allocate_exists [OF 1(1)] p by auto
  obtain m2 cl2 where 2: "log_reopens m1 m2" "ml_commitLog m2 = Some cl2" "cl_rep cl2 [meta_batches ?xs, [batch]]"
      "\<not> cl_isClosed cl2" "cl_nextOffset cl2 = cl_nextOffset cl1" "seg_maxBytes (cl_activeSegment cl2) = 104857600"
    using reopen_exists [OF 1(3,4,2)] by blast
  have "Replay False False max_pid m2 = ?run"
    using reopen_two_segments [OF 1(2,3,4,5) _ _ _ 2(1)] cl(1) by (intro ext) (simp add: log_rep_def)
  then have r2: "recoverPidManager (Replay False False max_pid m2) 1 0 NewPidManager = Some (Ok pm)" using pm by simp
  have "cl_nextOffset cl2 - ActiveSegmentBaseOffset cl2 < 2 ^ 32" using one_batch_bound [of cl2 "[meta_batches ?xs]" batch] 2(3) by simp
  then obtain cl3 h where "commitLog_AppendRaw no_cl_faults 0 (EncodeAsRecordBatch 0 (lease_record pm)) 1 cl2 = (Ok (cl_nextOffset cl2), cl3, h)"
    using AppendRaw_rep [OF 2(3,4), of "EncodeAsRecordBatch 0 (lease_record pm)" 1 0]
      EncodeAsRecordBatch_fields(5,6) [of "lease_record pm" 0] encodeRecord_lease [of pm] 1(4) 2(5,6) by auto
  then obtain m3 where "log_append (0, 0) (lease_record pm) m2 = (Ok (), m3)"
    using 2(2) by (cases "ml_ps m2") (auto simp: log_append_def MetadataLog_Append_def Let_def case_prod_unfold)
  then obtain pid' pm2' where a2: "AllocateOne (log_append (0, 0)) pm m2 = (Ok pid', pm2', m3)"
    using allocate_exists p by metis
  have "pid' = pm_nextBase pm" using producer_id_reissued [OF cl mv r1 a1 2(1) r2 a2] by simp
  then show ?thesis using cl(2) r1 a1 2(1) r2 a2 by blast
qed

end
