(* ===== verification/Kaf_Group.thy ===== *)
theory Kaf_Group
  imports Kaf_MetaLog
begin

text \<open>
  The consumer group coordinator (\<^verbatim>\<open>coordinator/group_store.go\<close>): membership, the join
  barrier, the distribution of assignments and the committed offsets. Every exported method
  and every timer callback holds the store's mutex throughout, so each is one function from
  the store to the store; what it sends on the channels of parked requests is returned as a
  list, and a Go panic is the outcome \<open>Panic\<close>. The relation \<open>gstep\<close> lets calls and timer
  callbacks happen in any order.
\<close>

section \<open>State\<close>

definition GroupStateEmpty :: i8 where "GroupStateEmpty = 1"
definition GroupStatePreparingRebalance :: i8 where "GroupStatePreparingRebalance = 2"
definition GroupStateCompletingRebalance :: i8 where "GroupStateCompletingRebalance = 3"
definition GroupStateStable :: i8 where "GroupStateStable = 4"
definition GroupStateDead :: i8 where "GroupStateDead = 5"

lemmas group_states = GroupStateEmpty_def GroupStatePreparingRebalance_def
  GroupStateCompletingRebalance_def GroupStateStable_def GroupStateDead_def

definition HeartbeatOK :: i8 where "HeartbeatOK = 0"
definition HeartbeatRebalanceInProcess :: i8 where "HeartbeatRebalanceInProcess = 27"
definition HeartbeatUnknowMember :: i8 where "HeartbeatUnknowMember = 25"
definition HeartbeatIllegalGeneration :: i8 where "HeartbeatIllegalGeneration = 22"

definition ErrIllegalGeneration :: i16 where "ErrIllegalGeneration = 22"
definition ErrUnknowMemberId :: i16 where "ErrUnknowMemberId = 25"
definition ErrRebalanceInProgress :: i16 where "ErrRebalanceInProgress = 27"
definition ErrGroupIdNotFound :: i16 where "ErrGroupIdNotFound = 69"
definition ErrMemberIdRequired :: i16 where "ErrMemberIdRequired = 79"

definition JoinGroupProtocolNameRoundrobin :: gostring where
  "JoinGroupProtocolNameRoundrobin = str ''roundrobin''"

text \<open>A \<^verbatim>\<open>time.Timer\<close> that exists is running with a duration or stopped; nil is \<open>None\<close>.\<close>

datatype timer = Running int | Stopped

record GroupMemberMetadata =
  gm_MemberId :: gostring
  gm_GroupInstanceId :: gostring
  gm_SessionTimeout :: int
  gm_RebalanceTimeout :: int
  gm_Metadata :: bytes
  gm_sessionTimer :: "timer option"
  gm_evicted :: bool

text \<open>Channels are named by numbers.\<close>

record pendingJoin =
  pj_memberId :: gostring
  pj_resultCh :: nat

record pendingSync =
  py_memberId :: gostring
  py_resultSync :: nat

record JoinMember =
  jm_MemberId :: gostring
  jm_GroupInstanceId :: gostring
  jm_Metadata :: bytes

record joinResult =
  jr_GenerationId :: i32
  jr_LeaderId :: gostring
  jr_ProtocolName :: gostring
  jr_Members :: "JoinMember list"

type_synonym SyncResult = bytes

record GroupMeta =
  g_GroupId :: gostring
  g_State :: i8
  g_GenerationId :: i32
  g_LeaderId :: gostring
  g_ProtocolName :: gostring
  g_members :: "(gostring \<times> GroupMemberMetadata) list"
  g_pendingJoins :: "pendingJoin list"
  g_pendingSyncs :: "pendingSync list"
  g_leaderAssignment :: "(gostring \<times> bytes) list option"
  g_rebalanceTimer :: "timer option"

record OffsetPartition =
  op_TopicName :: gostring
  op_PartitionIdx :: i32
  op_Offset :: i64
  op_LeaderEpoch :: i32
  op_Metadata :: "gostring option"
  op_LastCommitTimestamp :: int

record CommitOffset =
  co_TopicName :: gostring
  co_PartitionIdx :: i32
  co_Offset :: i64
  co_LeaderEpoch :: i32
  co_Metadata :: "gostring option"

record FetchOffsetQuery =
  fq_TopicName :: gostring
  fq_PartitionIdx :: i32

record FetchOffsetResult =
  fr_TopicName :: gostring
  fr_PartitionIdx :: i32
  fr_Offset :: i64
  fr_LeaderEpoch :: i32
  fr_Metadata :: "gostring option"

record GroupStore =
  gs_groups :: "(gostring \<times> GroupMeta) list"
  gs_offsets :: "(gostring \<times> (gostring \<times> OffsetPartition) list) list"

definition NewGroupStore :: GroupStore where
  "NewGroupStore = \<lparr>gs_groups = [], gs_offsets = []\<rparr>"

text \<open>What a call sends on channels, and the group clean-ups it schedules.\<close>

datatype g_out = JoinSend nat joinResult | SyncSend nat SyncResult | Cleanup gostring

section \<open>Timers and transitions\<close>

text \<open>Starting a timer and resetting an existing one both leave it running.\<close>

definition resetSessionTimer :: "GroupMemberMetadata \<Rightarrow> GroupMemberMetadata" where
  "resetSessionTimer m = m\<lparr>gm_sessionTimer := Some (Running (gm_SessionTimeout m))\<rparr>"

text \<open>\<^verbatim>\<open>Stop\<close> on a nil timer dereferences nil.\<close>

definition Stop :: "timer option \<Rightarrow> timer option res" where
  "Stop t = (case t of None \<Rightarrow> Panic | Some _ \<Rightarrow> Ok (Some Stopped))"

definition maxRebalanceTimeout :: "GroupMeta \<Rightarrow> int" where
  "maxRebalanceTimeout g =
     fold (\<lambda>(_, m) t. if gm_RebalanceTimeout m > t then gm_RebalanceTimeout m else t) (g_members g) 3000000000"

definition transitionToPrepareRebalance :: "GroupMeta \<Rightarrow> GroupMeta" where
  "transitionToPrepareRebalance g =
     g\<lparr>g_State := GroupStatePreparingRebalance, g_GenerationId := g_GenerationId g + 1,
       g_LeaderId := [], g_ProtocolName := [], g_leaderAssignment := None,
       g_pendingJoins := [], g_pendingSyncs := [],
       g_rebalanceTimer := Some (Running (maxRebalanceTimeout g))\<rparr>"

definition join_member :: "GroupMemberMetadata \<Rightarrow> JoinMember" where
  "join_member m = \<lparr>jm_MemberId = gm_MemberId m, jm_GroupInstanceId = gm_GroupInstanceId m,
     jm_Metadata = gm_Metadata m\<rparr>"

definition maybeCloseJoinBarrier :: "GroupMeta \<Rightarrow> (GroupMeta \<times> g_out list) res" where
  "maybeCloseJoinBarrier g =
     (if g_State g \<noteq> GroupStatePreparingRebalance then Ok (g, [])
      else if length (g_pendingJoins g) \<noteq> length (g_members g) then Ok (g, [])
      else case g_pendingJoins g of
        [] \<Rightarrow> Panic
      | p # _ \<Rightarrow>
          let g' = g\<lparr>g_LeaderId := pj_memberId p, g_ProtocolName := JoinGroupProtocolNameRoundrobin,
                g_State := GroupStateCompletingRebalance,
                g_rebalanceTimer := (if g_rebalanceTimer g = None then None else Some Stopped)\<rparr>;
              allMembers = map (join_member \<circ> snd) (g_members g);
              outs = map (\<lambda>pj. JoinSend (pj_resultCh pj)
                \<lparr>jr_GenerationId = g_GenerationId g', jr_LeaderId = g_LeaderId g',
                 jr_ProtocolName = g_ProtocolName g',
                 jr_Members = (if pj_memberId pj = g_LeaderId g' then allMembers else [])\<rparr>) (g_pendingJoins g)
          in Ok (g'\<lparr>g_pendingJoins := []\<rparr>, outs))"

definition put_group :: "gostring \<Rightarrow> GroupMeta \<Rightarrow> GroupStore \<Rightarrow> GroupStore" where
  "put_group groupId g gs = gs\<lparr>gs_groups := AList.update groupId g (gs_groups gs)\<rparr>"

section \<open>Calls\<close>

definition Heartbeat :: "gostring \<Rightarrow> gostring \<Rightarrow> i32 \<Rightarrow> GroupStore \<Rightarrow> i8 \<times> GroupStore" where
  "Heartbeat groupId memberId generationId gs =
     (case map_of (gs_groups gs) groupId of
        None \<Rightarrow> (HeartbeatUnknowMember, gs)
      | Some g \<Rightarrow>
          (case map_of (g_members g) memberId of
             None \<Rightarrow> (HeartbeatUnknowMember, gs)
           | Some m \<Rightarrow>
               if generationId \<noteq> g_GenerationId g then (HeartbeatIllegalGeneration, gs)
               else let g' = g\<lparr>g_members := AList.update memberId (resetSessionTimer m) (g_members g)\<rparr>;
                        gs' = put_group groupId g' gs
                    in if g_State g = GroupStatePreparingRebalance \<or> g_State g = GroupStateCompletingRebalance
                       then (HeartbeatRebalanceInProcess, gs') else (HeartbeatOK, gs')))"

definition new_group :: "gostring \<Rightarrow> gostring \<Rightarrow> GroupMeta" where
  "new_group groupId protocolName =
     \<lparr>g_GroupId = groupId, g_State = GroupStateEmpty, g_GenerationId = 0, g_LeaderId = [],
      g_ProtocolName = protocolName, g_members = [], g_pendingJoins = [], g_pendingSyncs = [],
      g_leaderAssignment = None, g_rebalanceTimer = None\<rparr>"

definition new_member :: "gostring \<Rightarrow> gostring \<Rightarrow> int \<Rightarrow> int \<Rightarrow> GroupMemberMetadata" where
  "new_member memberId groupInstanceId sessionTimeout rebalanceTimeout =
     \<lparr>gm_MemberId = memberId, gm_GroupInstanceId = groupInstanceId, gm_SessionTimeout = sessionTimeout,
      gm_RebalanceTimeout = rebalanceTimeout, gm_Metadata = [], gm_sessionTimer = None, gm_evicted = False\<rparr>"

definition group_or_new :: "gostring \<Rightarrow> gostring \<Rightarrow> GroupStore \<Rightarrow> GroupMeta" where
  "group_or_new groupId protocolName gs =
     (case map_of (gs_groups gs) groupId of Some g \<Rightarrow> g | None \<Rightarrow> new_group groupId protocolName)"

text \<open>The part of \<^verbatim>\<open>JoinGroup\<close> after the group is found, on the group alone.\<close>

definition join_locked ::
  "gostring \<Rightarrow> gostring \<Rightarrow> bytes \<Rightarrow> int \<Rightarrow> int \<Rightarrow> nat \<Rightarrow> GroupMeta \<Rightarrow> (GroupMeta \<times> g_out list) res" where
  "join_locked memberId groupInstanceId metadata sessionTimeout rebalanceTimeout resultCh g =
     (let m = (case map_of (g_members g) memberId of
                 Some m \<Rightarrow> m
               | None \<Rightarrow> new_member memberId groupInstanceId sessionTimeout rebalanceTimeout);
          m = resetSessionTimer (m\<lparr>gm_Metadata := metadata\<rparr>);
          g = g\<lparr>g_members := AList.update memberId m (g_members g)\<rparr>;
          g = (if g_State g = GroupStateStable \<or> g_State g = GroupStateEmpty \<or> g_State g = GroupStateDead
               then transitionToPrepareRebalance g else g);
          g = g\<lparr>g_pendingJoins := g_pendingJoins g @ [\<lparr>pj_memberId = memberId, pj_resultCh = resultCh\<rparr>]\<rparr>
      in maybeCloseJoinBarrier g)"

text \<open>
  The result is the channel handed to the caller. A request without a member id is refused,
  but the group has been created by then.
\<close>

definition JoinGroup ::
  "gostring \<Rightarrow> gostring \<Rightarrow> gostring \<Rightarrow> gostring \<Rightarrow> bytes \<Rightarrow> int \<Rightarrow> int \<Rightarrow> nat \<Rightarrow> GroupStore \<Rightarrow>
     (nat res \<times> g_out list \<times> GroupStore) res" where
  "JoinGroup groupId memberId groupInstanceId protocolName metadata sessionTimeout rebalanceTimeout resultCh gs =
     (let g = group_or_new groupId protocolName gs in
      if memberId = [] then Ok (Err (KafErr ErrMemberIdRequired), [], put_group groupId g gs)
      else res_bind (join_locked memberId groupInstanceId metadata sessionTimeout rebalanceTimeout resultCh g)
        (\<lambda>(g, outs). Ok (Ok resultCh, outs, put_group groupId g gs)))"

text \<open>The common end of leaving and eviction: the member is gone.\<close>

definition member_gone :: "gostring \<Rightarrow> gostring \<Rightarrow> GroupMeta \<Rightarrow> GroupMeta \<times> g_out list" where
  "member_gone groupId memberId g =
     (let g = g\<lparr>g_members := AList.delete memberId (g_members g)\<rparr> in
      if g_members g = [] then (g\<lparr>g_State := GroupStateDead\<rparr>, [Cleanup groupId])
      else (transitionToPrepareRebalance g, []))"

definition LeaveGroup :: "gostring \<Rightarrow> gostring \<Rightarrow> GroupStore \<Rightarrow> (unit res \<times> g_out list \<times> GroupStore) res" where
  "LeaveGroup groupId memberId gs =
     (case map_of (gs_groups gs) groupId of
        None \<Rightarrow> Ok (Err (KafErr ErrGroupIdNotFound), [], gs)
      | Some g \<Rightarrow>
          (case map_of (g_members g) memberId of
             None \<Rightarrow> Ok (Err (KafErr ErrUnknowMemberId), [], gs)
           | Some m \<Rightarrow>
               res_bind (Stop (gm_sessionTimer m)) (\<lambda>_.
                 case member_gone groupId memberId g of
                   (g, outs) \<Rightarrow> Ok (Ok (), outs, put_group groupId g gs))))"

definition evictMember :: "gostring \<Rightarrow> gostring \<Rightarrow> GroupStore \<Rightarrow> g_out list \<times> GroupStore" where
  "evictMember groupId memberId gs =
     (case map_of (gs_groups gs) groupId of
        None \<Rightarrow> ([], gs)
      | Some g \<Rightarrow>
          (case map_of (g_members g) memberId of
             None \<Rightarrow> ([], gs)
           | Some m \<Rightarrow>
               if gm_evicted m then ([], gs)
               else case member_gone groupId memberId g of (g, outs) \<Rightarrow> (outs, put_group groupId g gs)))"

text \<open>\<^verbatim>\<open>m[k]\<close> of a map of byte slices; a missing key gives the nil slice.\<close>

definition assignment_of :: "(gostring \<times> bytes) list \<Rightarrow> gostring \<Rightarrow> bytes" where
  "assignment_of a memberId = (case map_of a memberId of Some b \<Rightarrow> b | None \<Rightarrow> [])"

definition SyncGroup ::
  "gostring \<Rightarrow> gostring \<Rightarrow> i32 \<Rightarrow> (gostring \<times> bytes) list option \<Rightarrow> nat \<Rightarrow> GroupStore \<Rightarrow>
     nat res \<times> g_out list \<times> GroupStore" where
  "SyncGroup groupId memberId generationId assignments resultCh gs =
     (case map_of (gs_groups gs) groupId of
        None \<Rightarrow> (Err (KafErr ErrGroupIdNotFound), [], gs)
      | Some g \<Rightarrow>
          if generationId \<noteq> g_GenerationId g then (Err (KafErr ErrIllegalGeneration), [], gs)
          else if g_State g \<noteq> GroupStateCompletingRebalance then (Err (KafErr ErrRebalanceInProgress), [], gs)
          else if memberId = g_LeaderId g \<and> assignments \<noteq> None then
            let a = the assignments;
                outs = SyncSend resultCh (assignment_of a memberId) #
                  map (\<lambda>ps. SyncSend (py_resultSync ps) (assignment_of a (py_memberId ps))) (g_pendingSyncs g)
            in (Ok resultCh, outs,
                put_group groupId (g\<lparr>g_leaderAssignment := assignments, g_pendingSyncs := [],
                  g_State := GroupStateStable\<rparr>) gs)
          else (case g_leaderAssignment g of
                  Some a \<Rightarrow> (Ok resultCh, [SyncSend resultCh (assignment_of a memberId)], gs)
                | None \<Rightarrow>
                    (Ok resultCh, [],
                     put_group groupId (g\<lparr>g_pendingSyncs := g_pendingSyncs g @
                       [\<lparr>py_memberId = memberId, py_resultSync = resultCh\<rparr>]\<rparr>) gs)))"

text \<open>\<^verbatim>\<open>member.sessionTimer.Stop()\<close> for every member that is dropped.\<close>

definition onRebalanceTimeout :: "gostring \<Rightarrow> i32 \<Rightarrow> GroupStore \<Rightarrow> (g_out list \<times> GroupStore) res" where
  "onRebalanceTimeout groupId expectedGeneration gs =
     (case map_of (gs_groups gs) groupId of
        None \<Rightarrow> Ok ([], gs)
      | Some g \<Rightarrow>
          if g_GenerationId g \<noteq> expectedGeneration then Ok ([], gs)
          else
            let joined = map pj_memberId (g_pendingJoins g);
                stays = (\<lambda>(memberId, m). memberId \<in> set joined) in
            if \<exists>(memberId, m)\<in>set (g_members g). memberId \<notin> set joined \<and> gm_sessionTimer m = None then Panic
            else res_bind (maybeCloseJoinBarrier (g\<lparr>g_members := filter stays (g_members g)\<rparr>))
              (\<lambda>(g, outs). Ok (outs, put_group groupId g gs)))"

definition cleanup_fired :: "gostring \<Rightarrow> GroupStore \<Rightarrow> GroupStore" where
  "cleanup_fired groupId gs =
     (case map_of (gs_groups gs) groupId of
        Some g \<Rightarrow> if g_State g = GroupStateDead then gs\<lparr>gs_groups := AList.delete groupId (gs_groups gs)\<rparr> else gs
      | None \<Rightarrow> gs)"

section \<open>Committed offsets\<close>

definition offsetKey :: "gostring \<Rightarrow> i32 \<Rightarrow> gostring" where
  "offsetKey topicName partitionIdx = topicName @ str '':'' @ fmt_d (sint partitionIdx)"

definition commit_one :: "int \<Rightarrow> CommitOffset \<Rightarrow> (gostring \<times> OffsetPartition) list \<Rightarrow> (gostring \<times> OffsetPartition) list" where
  "commit_one now c partitions =
     AList.update (offsetKey (co_TopicName c) (co_PartitionIdx c))
       \<lparr>op_TopicName = co_TopicName c, op_PartitionIdx = co_PartitionIdx c, op_Offset = co_Offset c,
        op_LeaderEpoch = co_LeaderEpoch c, op_Metadata = co_Metadata c, op_LastCommitTimestamp = now\<rparr> partitions"

definition CommitOffsets :: "int \<Rightarrow> gostring \<Rightarrow> CommitOffset list \<Rightarrow> GroupStore \<Rightarrow> GroupStore" where
  "CommitOffsets now groupId commits gs =
     (let partitions = (case map_of (gs_offsets gs) groupId of Some p \<Rightarrow> p | None \<Rightarrow> [])
      in gs\<lparr>gs_offsets := AList.update groupId (fold (commit_one now) commits partitions) (gs_offsets gs)\<rparr>)"

definition fetch_one :: "(gostring \<times> OffsetPartition) list option \<Rightarrow> FetchOffsetQuery \<Rightarrow> FetchOffsetResult" where
  "fetch_one partitions q =
     (let result = \<lparr>fr_TopicName = fq_TopicName q, fr_PartitionIdx = fq_PartitionIdx q, fr_Offset = -1,
                    fr_LeaderEpoch = -1, fr_Metadata = None\<rparr> in
      case partitions of
        None \<Rightarrow> result
      | Some p \<Rightarrow>
          (case map_of p (offsetKey (fq_TopicName q) (fq_PartitionIdx q)) of
             Some x \<Rightarrow> result\<lparr>fr_Offset := op_Offset x, fr_LeaderEpoch := op_LeaderEpoch x, fr_Metadata := op_Metadata x\<rparr>
           | None \<Rightarrow> result))"

definition FetchOffsets :: "gostring \<Rightarrow> FetchOffsetQuery list \<Rightarrow> GroupStore \<Rightarrow> FetchOffsetResult list" where
  "FetchOffsets groupId queries gs = map (fetch_one (map_of (gs_offsets gs) groupId)) queries"

section \<open>Interleaving\<close>

text \<open>
  Calls with any arguments and timer callbacks at any time. The closure of the rebalance timer
  reads the generation when it fires, so the callback may see any generation.
\<close>

inductive gstep :: "GroupStore \<Rightarrow> GroupStore \<Rightarrow> bool" where
  g_join: "JoinGroup gid mid inst pn md st rt ch gs = Ok (r, outs, gs') \<Longrightarrow> gstep gs gs'"
| g_leave: "LeaveGroup gid mid gs = Ok (r, outs, gs') \<Longrightarrow> gstep gs gs'"
| g_sync: "SyncGroup gid mid gen as ch gs = (r, outs, gs') \<Longrightarrow> gstep gs gs'"
| g_heartbeat: "Heartbeat gid mid gen gs = (c, gs') \<Longrightarrow> gstep gs gs'"
| g_evict: "evictMember gid mid gs = (outs, gs') \<Longrightarrow> gstep gs gs'"
| g_timeout: "onRebalanceTimeout gid gen gs = Ok (outs, gs') \<Longrightarrow> gstep gs gs'"
| g_cleanup: "gstep gs (cleanup_fired gid gs)"
| g_commit: "gstep gs (CommitOffsets now gid cs gs)"


section \<open>The group invariant\<close>

definition members_ok :: "(gostring \<times> GroupMemberMetadata) list \<Rightarrow> bool" where
  "members_ok ms \<longleftrightarrow> distinct (map fst ms) \<and>
     (\<forall>(k, m)\<in>set ms. gm_MemberId m = k \<and> gm_sessionTimer m \<noteq> None \<and> \<not> gm_evicted m)"

text \<open>
  What holds in each state. While the group prepares a rebalance some member has yet to be
  counted, everyone who waits is a member, and there is no assignment before the leader sends
  one; a stable group has an assignment and nobody waiting for it.
\<close>

definition group_core :: "GroupMeta \<Rightarrow> bool" where
  "group_core g \<longleftrightarrow> members_ok (g_members g) \<and>
     g_State g \<in> {GroupStateEmpty, GroupStatePreparingRebalance, GroupStateCompletingRebalance,
       GroupStateStable, GroupStateDead} \<and>
     (g_State g = GroupStateEmpty \<or> g_State g = GroupStateDead \<longrightarrow> g_members g = []) \<and>
     (g_State g = GroupStatePreparingRebalance \<longrightarrow>
        pj_memberId ` set (g_pendingJoins g) \<subseteq> fst ` set (g_members g) \<and> g_pendingSyncs g = []) \<and>
     (g_State g = GroupStatePreparingRebalance \<or> g_State g = GroupStateCompletingRebalance \<longrightarrow>
        g_leaderAssignment g = None) \<and>
     (g_State g = GroupStateStable \<longrightarrow> g_leaderAssignment g \<noteq> None \<and> g_pendingSyncs g = [])"

definition group_inv :: "GroupMeta \<Rightarrow> bool" where
  "group_inv g \<longleftrightarrow> group_core g \<and>
     (g_State g = GroupStatePreparingRebalance \<longrightarrow> length (g_pendingJoins g) \<noteq> length (g_members g))"

definition store_inv :: "GroupStore \<Rightarrow> bool" where
  "store_inv gs \<longleftrightarrow> distinct (map fst (gs_groups gs)) \<and>
     (\<forall>(k, g)\<in>set (gs_groups gs). g_GroupId g = k \<and> group_inv g)"

lemma set_update_subset: "set (AList.update k v xs) \<subseteq> insert (k, v) (set xs)"
  by (induction xs) auto

lemma members_ok_update:
  assumes "members_ok ms" "gm_MemberId m = k" "gm_sessionTimer m \<noteq> None" "\<not> gm_evicted m"
  shows "members_ok (AList.update k m ms)"
proof -
  have "distinct (map fst (AList.update k m ms))"
    using assms(1) by (simp add: members_ok_def distinct_update)
  moreover have "gm_MemberId y = x \<and> gm_sessionTimer y \<noteq> None \<and> \<not> gm_evicted y"
    if "(x, y) \<in> set (AList.update k m ms)" for x y
    using subsetD [OF set_update_subset that] assms by (auto simp: members_ok_def)
  ultimately show ?thesis by (auto simp: members_ok_def)
qed

lemma members_ok_filter: "members_ok ms \<Longrightarrow> members_ok (filter P ms)"
  by (auto simp: members_ok_def distinct_map_filter)

lemma members_ok_delete: "members_ok ms \<Longrightarrow> members_ok (AList.delete k ms)"
  by (simp add: AList.delete_eq members_ok_filter)

lemma members_ok_get:
  "members_ok ms \<Longrightarrow> map_of ms k = Some m \<Longrightarrow> gm_MemberId m = k \<and> gm_sessionTimer m \<noteq> None \<and> \<not> gm_evicted m"
  by (auto simp: members_ok_def dest!: map_of_SomeD)

lemma transition_inv:
  "members_ok (g_members g) \<Longrightarrow> g_members g \<noteq> [] \<Longrightarrow> group_inv (transitionToPrepareRebalance g)"
  by (simp add: group_inv_def group_core_def transitionToPrepareRebalance_def group_states)

lemma member_gone_inv:
  assumes "group_inv g" "member_gone gid mid g = (g', outs)"
  shows "group_inv g'"
proof -
  let ?g = "g\<lparr>g_members := AList.delete mid (g_members g)\<rparr>"
  have ms: "members_ok (g_members ?g)"
    using assms(1) by (simp add: group_inv_def group_core_def members_ok_delete)
  show ?thesis
  proof (cases "g_members ?g = []")
    case True
    then have "g' = ?g\<lparr>g_State := GroupStateDead\<rparr>" using assms(2) by (simp add: member_gone_def)
    then show ?thesis using True ms by (simp add: group_inv_def group_core_def group_states)
  next
    case False
    then have "g' = transitionToPrepareRebalance ?g" using assms(2) by (simp add: member_gone_def)
    then show ?thesis using transition_inv [OF ms False] by simp
  qed
qed

lemma member_gone_id: "member_gone gid mid g = (g', outs) \<Longrightarrow> g_GroupId g' = g_GroupId g"
  by (auto simp: member_gone_def Let_def transitionToPrepareRebalance_def split: if_splits)

lemma maybeClose_inv:
  assumes "group_core g" "maybeCloseJoinBarrier g = Ok (g', outs)"
  shows "group_inv g'" "g_GroupId g' = g_GroupId g"
  using assms
  by (auto simp: maybeCloseJoinBarrier_def group_inv_def group_core_def group_states Let_def
      split: if_splits list.splits)

lemma maybeClose_ok: "g_pendingJoins g \<noteq> [] \<Longrightarrow> \<exists>r. maybeCloseJoinBarrier g = Ok r"
  by (cases "g_pendingJoins g") (auto simp: maybeCloseJoinBarrier_def Let_def)

text \<open>The group a join leaves before it looks at the barrier.\<close>

definition join_core ::
  "gostring \<Rightarrow> gostring \<Rightarrow> bytes \<Rightarrow> int \<Rightarrow> int \<Rightarrow> nat \<Rightarrow> GroupMeta \<Rightarrow> GroupMeta" where
  "join_core mid inst md st rt ch g =
     (let m = (case map_of (g_members g) mid of Some m \<Rightarrow> m | None \<Rightarrow> new_member mid inst st rt);
          g = g\<lparr>g_members := AList.update mid (resetSessionTimer (m\<lparr>gm_Metadata := md\<rparr>)) (g_members g)\<rparr>;
          g = (if g_State g \<in> {GroupStateStable, GroupStateEmpty, GroupStateDead}
               then transitionToPrepareRebalance g else g)
      in g\<lparr>g_pendingJoins := g_pendingJoins g @ [\<lparr>pj_memberId = mid, pj_resultCh = ch\<rparr>]\<rparr>)"

lemma join_locked_core: "join_locked mid inst md st rt ch g = maybeCloseJoinBarrier (join_core mid inst md st rt ch g)"
  by (simp add: join_locked_def join_core_def Let_def)

lemma update_nonempty: "AList.update k v xs \<noteq> []"
  by (cases xs) auto

lemma join_core_inv:
  assumes "group_inv g"
  shows "group_core (join_core mid inst md st rt ch g)" "g_GroupId (join_core mid inst md st rt ch g) = g_GroupId g"
    "g_pendingJoins (join_core mid inst md st rt ch g) \<noteq> []"
proof -
  let ?m = "case map_of (g_members g) mid of Some m \<Rightarrow> m | None \<Rightarrow> new_member mid inst st rt"
  let ?ms = "AList.update mid (resetSessionTimer (?m\<lparr>gm_Metadata := md\<rparr>)) (g_members g)"
  have "members_ok (g_members g)" using assms by (simp add: group_inv_def group_core_def)
  then have ms: "members_ok ?ms"
    using members_ok_get [of "g_members g" mid]
    by (intro members_ok_update) (auto simp: resetSessionTimer_def new_member_def split: option.splits)
  have dom: "fst ` set ?ms = insert mid (fst ` set (g_members g))" by (simp add: dom_update)
  show "group_core (join_core mid inst md st rt ch g)"
    using assms ms dom
    by (auto simp: join_core_def Let_def group_core_def group_inv_def group_states transitionToPrepareRebalance_def)
qed (auto simp: join_core_def Let_def transitionToPrepareRebalance_def)

lemma join_locked_inv:
  assumes "group_inv g"
  shows "\<exists>g' outs. join_locked mid inst md st rt ch g = Ok (g', outs) \<and> group_inv g' \<and> g_GroupId g' = g_GroupId g"
proof -
  note j = join_core_inv [OF assms, of mid inst md st rt ch]
  obtain g' outs where c: "maybeCloseJoinBarrier (join_core mid inst md st rt ch g) = Ok (g', outs)"
    using maybeClose_ok [OF j(3)] by (metis surj_pair)
  have "join_locked mid inst md st rt ch g = Ok (g', outs)" unfolding join_locked_core by (rule c)
  moreover have "g_GroupId g' = g_GroupId g" using maybeClose_inv(2) [OF j(1) c] j(2) by (rule trans)
  ultimately show ?thesis using maybeClose_inv(1) [OF j(1) c] by blast
qed

section \<open>Every call keeps the invariant\<close>

lemma store_inv_put:
  assumes "store_inv gs" "group_inv g" "g_GroupId g = k"
  shows "store_inv (put_group k g gs)"
proof -
  have "g_GroupId y = x \<and> group_inv y" if "(x, y) \<in> set (AList.update k g (gs_groups gs))" for x y
    using subsetD [OF set_update_subset that] assms by (auto simp: store_inv_def)
  then show ?thesis using assms(1) by (auto simp: store_inv_def put_group_def distinct_update)
qed

lemma store_inv_get: "store_inv gs \<Longrightarrow> map_of (gs_groups gs) k = Some g \<Longrightarrow> group_inv g \<and> g_GroupId g = k"
  by (auto simp: store_inv_def dest!: map_of_SomeD)


lemma new_group_inv: "group_inv (new_group gid pn)" "g_GroupId (new_group gid pn) = gid"
  by (simp_all add: new_group_def group_inv_def group_core_def members_ok_def group_states)

lemma group_or_new_inv:
  assumes "store_inv gs"
  shows "group_inv (group_or_new gid pn gs)" "g_GroupId (group_or_new gid pn gs) = gid"
  using store_inv_get [OF assms, of gid] new_group_inv [of gid pn]
  by (auto simp: group_or_new_def split: option.splits)

lemma JoinGroup_inv:
  assumes "store_inv gs"
  shows "\<exists>r outs gs'. JoinGroup gid mid inst pn md st rt ch gs = Ok (r, outs, gs') \<and> store_inv gs'"
proof -
  let ?g = "group_or_new gid pn gs"
  note g = group_or_new_inv [OF assms, of gid pn]
  obtain g' outs where j: "join_locked mid inst md st rt ch ?g = Ok (g', outs)" "group_inv g'" "g_GroupId g' = gid"
    using join_locked_inv [OF g(1)] g(2) by (metis (no_types))
  have "store_inv (put_group gid g' gs)" "store_inv (put_group gid ?g gs)"
    using store_inv_put [OF assms] j g by blast+
  then show ?thesis
    by (cases "mid = []") (auto simp: JoinGroup_def Let_def j(1))
qed

lemma LeaveGroup_inv:
  assumes "store_inv gs"
  shows "\<exists>r outs gs'. LeaveGroup gid mid gs = Ok (r, outs, gs') \<and> store_inv gs'"
proof (cases "map_of (gs_groups gs) gid")
  case (Some g)
  note g = store_inv_get [OF assms Some]
  show ?thesis
  proof (cases "map_of (g_members g) mid")
    case m: (Some m)
    obtain g' outs where gone: "member_gone gid mid g = (g', outs)" by fastforce
    have "gm_sessionTimer m \<noteq> None"
      using members_ok_get [OF _ m] g by (auto simp: group_inv_def group_core_def)
    moreover have "store_inv (put_group gid g' gs)"
      using store_inv_put [OF assms] member_gone_inv [OF _ gone] member_gone_id [OF gone] g by simp
    ultimately show ?thesis using Some m gone by (auto simp: LeaveGroup_def Stop_def)
  qed (use Some assms in \<open>auto simp: LeaveGroup_def\<close>)
qed (use assms in \<open>auto simp: LeaveGroup_def\<close>)

lemma evictMember_inv:
  assumes "store_inv gs" "evictMember gid mid gs = (outs, gs')"
  shows "store_inv gs'"
proof (cases "map_of (gs_groups gs) gid")
  case (Some g)
  note g = store_inv_get [OF assms(1) Some]
  obtain g' outs' where gone: "member_gone gid mid g = (g', outs')" by fastforce
  have "store_inv (put_group gid g' gs)"
    using store_inv_put [OF assms(1)] member_gone_inv [OF _ gone] member_gone_id [OF gone] g by simp
  then show ?thesis
    using assms Some gone by (auto simp: evictMember_def split: option.splits if_splits)
qed (use assms in \<open>auto simp: evictMember_def\<close>)

lemma length_update_old: "k \<in> fst ` set xs \<Longrightarrow> length (AList.update k v xs) = length xs"
  by (induction xs) auto

lemma group_inv_members:
  assumes "group_inv g" "members_ok ms" "fst ` set ms = fst ` set (g_members g)"
    "length ms = length (g_members g)"
  shows "group_inv (g\<lparr>g_members := ms\<rparr>)"
proof -
  have "g_members g = [] \<Longrightarrow> ms = []" using assms(4) by simp
  then show ?thesis using assms(1,2) unfolding group_inv_def group_core_def by (simp add: assms(3,4))
qed

lemma Heartbeat_inv:
  assumes "store_inv gs" "Heartbeat gid mid gen gs = (c, gs')"
  shows "store_inv gs'"
proof (cases "map_of (gs_groups gs) gid")
  case (Some g)
  note g = store_inv_get [OF assms(1) Some]
  show ?thesis
  proof (cases "map_of (g_members g) mid")
    case m: (Some m)
    let ?g = "g\<lparr>g_members := AList.update mid (resetSessionTimer m) (g_members g)\<rparr>"
    have ms: "members_ok (g_members g)" using g by (simp add: group_inv_def group_core_def)
    have mem: "mid \<in> fst ` set (g_members g)" using m using map_of_SomeD [OF m] by force
    have "members_ok (g_members ?g)"
      using members_ok_get [OF ms m] by (simp add: members_ok_update ms resetSessionTimer_def)
    moreover have "fst ` set (g_members ?g) = fst ` set (g_members g)"
      using mem by (simp add: dom_update insert_absorb)
    moreover have "length (g_members ?g) = length (g_members g)"
      using length_update_old [OF mem] by simp
    ultimately have "group_inv ?g"
      using group_inv_members [of g "g_members ?g"] g by simp
    then have "store_inv (put_group gid ?g gs)" using store_inv_put [OF assms(1)] g by simp
    then show ?thesis using assms Some m by (auto simp: Heartbeat_def Let_def split: if_splits)
  qed (use Some assms in \<open>auto simp: Heartbeat_def\<close>)
qed (use assms in \<open>auto simp: Heartbeat_def\<close>)

lemma SyncGroup_inv:
  assumes "store_inv gs" "SyncGroup gid mid gen as ch gs = (r, outs, gs')"
  shows "store_inv gs'"
proof (cases "map_of (gs_groups gs) gid")
  case (Some g)
  note g = store_inv_get [OF assms(1) Some]
  let ?stable = "g\<lparr>g_leaderAssignment := as, g_pendingSyncs := [], g_State := GroupStateStable\<rparr>"
  let ?park = "g\<lparr>g_pendingSyncs := g_pendingSyncs g @ [\<lparr>py_memberId = mid, py_resultSync = ch\<rparr>]\<rparr>"
  have "store_inv (put_group gid ?stable gs)" if "as \<noteq> None"
    using that g by (intro store_inv_put [OF assms(1)]) (auto simp: group_inv_def group_core_def group_states)
  moreover have "store_inv (put_group gid ?park gs)" if "g_State g = GroupStateCompletingRebalance"
    using that g by (intro store_inv_put [OF assms(1)]) (auto simp: group_inv_def group_core_def group_states)
  ultimately show ?thesis
    using assms Some by (auto simp: SyncGroup_def Let_def split: if_splits option.splits)
qed (use assms in \<open>auto simp: SyncGroup_def\<close>)


text \<open>The group after the rebalance timer has dropped everyone who has not joined.\<close>

definition drop_absent :: "GroupMeta \<Rightarrow> GroupMeta" where
  "drop_absent g = g\<lparr>g_members := filter (\<lambda>(memberId, m). memberId \<in> pj_memberId ` set (g_pendingJoins g)) (g_members g)\<rparr>"

lemma onRebalanceTimeout_eq:
  assumes "store_inv gs" "map_of (gs_groups gs) gid = Some g"
  shows "onRebalanceTimeout gid (g_GenerationId g) gs =
    res_bind (maybeCloseJoinBarrier (drop_absent g)) (\<lambda>(g, outs). Ok (outs, put_group gid g gs))"
proof -
  have "members_ok (g_members g)"
    using store_inv_get [OF assms] by (simp add: group_inv_def group_core_def)
  then have "\<not> (\<exists>(memberId, m)\<in>set (g_members g). memberId \<notin> pj_memberId ` set (g_pendingJoins g) \<and> gm_sessionTimer m = None)"
    unfolding members_ok_def by blast
  then show ?thesis using assms(2) by (simp add: onRebalanceTimeout_def Let_def drop_absent_def)
qed

lemma keys_filter: "fst ` set (filter (\<lambda>(k, _). k \<in> S) xs) = S \<inter> fst ` set xs"
  by (induction xs) auto

lemma drop_absent_keys:
  "fst ` set (g_members (drop_absent g)) = pj_memberId ` set (g_pendingJoins g) \<inter> fst ` set (g_members g)"
  by (simp add: drop_absent_def keys_filter del: set_filter)

lemma group_core_members:
  assumes "group_core g" "members_ok ms" "g_members g = [] \<Longrightarrow> ms = []"
    "g_State g = GroupStatePreparingRebalance \<Longrightarrow> pj_memberId ` set (g_pendingJoins g) \<subseteq> fst ` set ms"
  shows "group_core (g\<lparr>g_members := ms\<rparr>)"
  using assms unfolding group_core_def by simp

lemma drop_absent_core:
  assumes "group_inv g"
  shows "group_core (drop_absent g)"
proof -
  have c: "group_core g" using assms by (simp add: group_inv_def)
  let ?ms = "g_members (drop_absent g)"
  have "members_ok ?ms" using c by (simp add: drop_absent_def group_core_def members_ok_filter)
  moreover have "pj_memberId ` set (g_pendingJoins g) \<subseteq> fst ` set ?ms"
    if "g_State g = GroupStatePreparingRebalance"
  proof -
    have "pj_memberId ` set (g_pendingJoins g) \<subseteq> fst ` set (g_members g)"
      using c that by (simp add: group_core_def)
    then show ?thesis unfolding drop_absent_keys by blast
  qed
  moreover have "g_members g = [] \<Longrightarrow> ?ms = []" by (simp add: drop_absent_def)
  moreover have "drop_absent g = g\<lparr>g_members := ?ms\<rparr>" by (simp add: drop_absent_def)
  ultimately show ?thesis using c by (metis (no_types) group_core_members)
qed

lemma drop_absent_empty:
  assumes "group_inv g" "g_State g = GroupStatePreparingRebalance"
  shows "g_members (drop_absent g) = [] \<longleftrightarrow> g_pendingJoins g = []"
proof
  assume "g_members (drop_absent g) = []"
  moreover have "pj_memberId ` set (g_pendingJoins g) \<subseteq> fst ` set (g_members (drop_absent g))"
    using drop_absent_core [OF assms(1)] assms(2) by (simp add: group_core_def drop_absent_def)
  ultimately show "g_pendingJoins g = []" by simp
qed (simp add: drop_absent_def)

lemma drop_absent_simps [simp]:
  "g_State (drop_absent g) = g_State g" "g_pendingJoins (drop_absent g) = g_pendingJoins g"
  "g_GroupId (drop_absent g) = g_GroupId g" "g_GenerationId (drop_absent g) = g_GenerationId g"
  by (simp_all add: drop_absent_def)

lemma maybeClose_panic:
  "maybeCloseJoinBarrier g = Panic \<longleftrightarrow> g_State g = GroupStatePreparingRebalance \<and> g_members g = [] \<and> g_pendingJoins g = []"
  by (auto simp: maybeCloseJoinBarrier_def Let_def split: list.splits)

lemma maybeClose_not_Err: "maybeCloseJoinBarrier g \<noteq> Err e"
  by (auto simp: maybeCloseJoinBarrier_def Let_def split: list.splits)

text \<open>
  The rebalance timer panics exactly when the group still prepares a rebalance and nobody has
  joined again: everyone is dropped and the barrier of an empty group indexes an empty slice.
\<close>

lemma onRebalanceTimeout_panic:
  assumes "store_inv gs"
  shows "onRebalanceTimeout gid gen gs = Panic \<longleftrightarrow>
    (\<exists>g. map_of (gs_groups gs) gid = Some g \<and> gen = g_GenerationId g \<and>
       g_State g = GroupStatePreparingRebalance \<and> g_pendingJoins g = [])"
proof (cases "\<exists>g. map_of (gs_groups gs) gid = Some g \<and> gen = g_GenerationId g")
  case True
  then obtain g where g: "map_of (gs_groups gs) gid = Some g" "gen = g_GenerationId g" by blast
  have inv: "group_inv g" using store_inv_get [OF assms g(1)] by blast
  have "onRebalanceTimeout gid gen gs = Panic \<longleftrightarrow> maybeCloseJoinBarrier (drop_absent g) = Panic"
    unfolding g(2) onRebalanceTimeout_eq [OF assms g(1)]
    by (cases "maybeCloseJoinBarrier (drop_absent g)") auto
  also have "\<dots> \<longleftrightarrow> g_State g = GroupStatePreparingRebalance \<and> g_pendingJoins g = []"
    unfolding maybeClose_panic using drop_absent_empty [OF inv] by auto
  finally show ?thesis using g by simp
qed (auto simp: onRebalanceTimeout_def split: option.splits)

lemma onRebalanceTimeout_inv:
  assumes "store_inv gs" "onRebalanceTimeout gid gen gs = Ok (outs, gs')"
  shows "store_inv gs'"
proof (cases "\<exists>g. map_of (gs_groups gs) gid = Some g \<and> gen = g_GenerationId g")
  case True
  then obtain g where g: "map_of (gs_groups gs) gid = Some g" "gen = g_GenerationId g" by blast
  note inv = store_inv_get [OF assms(1) g(1)]
  obtain g' where c: "maybeCloseJoinBarrier (drop_absent g) = Ok (g', outs)" "gs' = put_group gid g' gs"
    using assms(2) unfolding g(2) onRebalanceTimeout_eq [OF assms(1) g(1)]
    by (cases "maybeCloseJoinBarrier (drop_absent g)") auto
  note m = maybeClose_inv [OF drop_absent_core c(1)]
  show ?thesis unfolding c(2) using store_inv_put [OF assms(1) m(1)] m(2) inv by simp
qed (use assms in \<open>auto simp: onRebalanceTimeout_def split: option.splits\<close>)

lemma cleanup_inv: "store_inv gs \<Longrightarrow> store_inv (cleanup_fired gid gs)"
  by (auto simp: cleanup_fired_def store_inv_def AList.delete_eq distinct_map_filter split: option.splits)

lemma commit_inv: "store_inv gs \<Longrightarrow> store_inv (CommitOffsets now gid cs gs)"
  by (simp add: CommitOffsets_def store_inv_def Let_def)

lemma gstep_inv:
  assumes "gstep gs gs'" "store_inv gs"
  shows "store_inv gs'"
  using assms
proof (cases rule: gstep.cases)
  case (g_join gid mid inst pn md st rt ch r outs)
  then show ?thesis using JoinGroup_inv [OF assms(2), of gid mid inst pn md st rt ch] by auto
next
  case (g_leave gid mid r outs)
  then show ?thesis using LeaveGroup_inv [OF assms(2), of gid mid] by auto
qed (use assms(2) in \<open>blast intro: SyncGroup_inv Heartbeat_inv evictMember_inv onRebalanceTimeout_inv cleanup_inv commit_inv\<close>)+

lemma greachable_inv: "gstep\<^sup>*\<^sup>* NewGroupStore gs \<Longrightarrow> store_inv gs"
proof (induction rule: rtranclp_induct)
  case base
  show ?case by (simp add: NewGroupStore_def store_inv_def)
qed (rule gstep_inv)


section \<open>The join barrier\<close>

text \<open>The answer a joiner gets: the current generation, the leader, and for the leader all members.\<close>

definition join_answer :: "GroupMeta \<Rightarrow> gostring \<Rightarrow> pendingJoin \<Rightarrow> g_out" where
  "join_answer g leader pj = JoinSend (pj_resultCh pj)
     \<lparr>jr_GenerationId = g_GenerationId g, jr_LeaderId = leader, jr_ProtocolName = JoinGroupProtocolNameRoundrobin,
      jr_Members = (if pj_memberId pj = leader then map (join_member \<circ> snd) (g_members g) else [])\<rparr>"

lemma maybeClose_cases:
  assumes "group_core g" "g_State g = GroupStatePreparingRebalance" "g_pendingJoins g \<noteq> []"
  shows "maybeCloseJoinBarrier g =
    (if length (g_pendingJoins g) = length (g_members g)
     then let leader = pj_memberId (hd (g_pendingJoins g)) in
       Ok (g\<lparr>g_LeaderId := leader, g_ProtocolName := JoinGroupProtocolNameRoundrobin,
              g_State := GroupStateCompletingRebalance,
              g_rebalanceTimer := (if g_rebalanceTimer g = None then None else Some Stopped),
              g_pendingJoins := []\<rparr>, map (join_answer g leader) (g_pendingJoins g))
     else Ok (g, []))"
  using assms(2,3)
  by (cases "g_pendingJoins g") (auto simp: maybeCloseJoinBarrier_def join_answer_def Let_def)

text \<open>When nobody joins twice, the barrier closes exactly when every member waits.\<close>

lemma barrier_full:
  assumes "group_core g" "g_State g = GroupStatePreparingRebalance" "distinct (map pj_memberId (g_pendingJoins g))"
  shows "length (g_pendingJoins g) = length (g_members g) \<longleftrightarrow>
    pj_memberId ` set (g_pendingJoins g) = fst ` set (g_members g)"
proof -
  have m: "card (fst ` set (g_members g)) = length (g_members g)"
    using assms(1) distinct_card [of "map fst (g_members g)"] by (simp add: group_core_def members_ok_def)
  have p: "card (pj_memberId ` set (g_pendingJoins g)) = length (g_pendingJoins g)"
    using assms(3) distinct_card [of "map pj_memberId (g_pendingJoins g)"] by simp
  have s: "pj_memberId ` set (g_pendingJoins g) \<subseteq> fst ` set (g_members g)"
    using assms(1,2) by (simp add: group_core_def)
  show ?thesis
  proof
    assume "length (g_pendingJoins g) = length (g_members g)"
    then have "card (pj_memberId ` set (g_pendingJoins g)) = card (fst ` set (g_members g))"
      unfolding m p .
    then show "pj_memberId ` set (g_pendingJoins g) = fst ` set (g_members g)"
      using s by (simp add: card_subset_eq)
  qed (metis m p)
qed

lemma update_fresh: "k \<notin> fst ` set xs \<Longrightarrow> AList.update k v xs = xs @ [(k, v)]"
  by (induction xs) auto

section \<open>Handing out assignments\<close>

lemma SyncGroup_leader:
  assumes "map_of (gs_groups gs) gid = Some g" "g_State g = GroupStateCompletingRebalance"
  shows "SyncGroup gid (g_LeaderId g) (g_GenerationId g) (Some a) ch gs =
    (Ok ch, SyncSend ch (assignment_of a (g_LeaderId g)) #
       map (\<lambda>ps. SyncSend (py_resultSync ps) (assignment_of a (py_memberId ps))) (g_pendingSyncs g),
     put_group gid (g\<lparr>g_leaderAssignment := Some a, g_pendingSyncs := [], g_State := GroupStateStable\<rparr>) gs)"
  using assms by (simp add: SyncGroup_def Let_def)

text \<open>A follower that syncs while the group completes the rebalance is parked.\<close>

lemma SyncGroup_follower:
  assumes "store_inv gs" "map_of (gs_groups gs) gid = Some g" "g_State g = GroupStateCompletingRebalance"
    "mid \<noteq> g_LeaderId g \<or> as = None"
  shows "SyncGroup gid mid (g_GenerationId g) as ch gs =
    (Ok ch, [], put_group gid (g\<lparr>g_pendingSyncs := g_pendingSyncs g @ [\<lparr>py_memberId = mid, py_resultSync = ch\<rparr>]\<rparr>) gs)"
proof -
  have "g_leaderAssignment g = None"
    using store_inv_get [OF assms(1,2)] assms(3) by (simp add: group_inv_def group_core_def)
  then show ?thesis using assms(2-4) by (auto simp: SyncGroup_def Let_def)
qed

text \<open>A follower that comes after the leader is turned away, although the assignment is known.\<close>

lemma SyncGroup_late_follower:
  assumes "map_of (gs_groups gs) gid = Some g" "g_State g = GroupStateStable"
  shows "SyncGroup gid mid (g_GenerationId g) as ch gs = (Err (KafErr ErrRebalanceInProgress), [], gs)"
  using assms by (simp add: SyncGroup_def group_states)

lemma map_of_put_group: "map_of (gs_groups (put_group k g gs)) = (map_of (gs_groups gs))(k \<mapsto> g)"
  by (simp add: put_group_def update_conv')

section \<open>Offsets\<close>

lemma str_colon: "str '':'' = [58]"
  by (simp add: str_def)

lemma digit_not_colon: "k < 10 \<Longrightarrow> 48 + of_nat k \<noteq> (58 :: byte)"
proof
  assume "k < 10" and k: "48 + of_nat k = (58 :: byte)"
  from digit_range [OF this(1)] have "(58 :: byte) \<le> 57" unfolding k by (rule conjunct2)
  then show False by simp
qed

lemma colon_notin_digits: "58 \<notin> set (dec_digits n)"
proof (induction n rule: dec_digits.induct)
  case (1 n)
  then show ?case
    using digit_not_colon [of n] digit_not_colon [of "n mod 10"] by (auto simp: dec_digits.simps [of n])
qed

lemma dash_hd_digits: "dec_digits n \<noteq> 45 # xs"
  using dash_notin_digits [of n] by (metis list.set_intros(1))

lemma fmt_d_inj:
  assumes "fmt_d m = fmt_d n"
  shows "m = n"
proof (cases "m < 0"; cases "n < 0")
  assume "m < 0" "n < 0"
  then have "dec_digits (nat \<bar>m\<bar>) = dec_digits (nat \<bar>n\<bar>)" using assms by (simp add: fmt_d_def)
  then have "nat \<bar>m\<bar> = nat \<bar>n\<bar>" by (rule dec_digits_inj)
  then show "m = n" using \<open>m < 0\<close> \<open>n < 0\<close> by simp
next
  assume "\<not> m < 0" "\<not> n < 0"
  then have "dec_digits (nat m) = dec_digits (nat n)" using assms by (simp add: fmt_d_def)
  then have "nat m = nat n" by (rule dec_digits_inj)
  then show "m = n" using \<open>\<not> m < 0\<close> \<open>\<not> n < 0\<close> by simp
next
  assume "m < 0" "\<not> n < 0"
  then show "m = n" using assms dash_hd_digits [of "nat n"] by (simp add: fmt_d_def) metis
next
  assume "\<not> m < 0" "n < 0"
  then show "m = n" using assms dash_hd_digits [of "nat m"] by (simp add: fmt_d_def)
qed

lemma offsetKey_inj: "offsetKey t i = offsetKey u j \<longleftrightarrow> t = u \<and> i = j"
proof
  assume k: "offsetKey t i = offsetKey u j"
  have nc: "58 \<notin> set (fmt_d n)" for n using colon_notin_digits by (simp add: fmt_d_def)
  have "t @ 58 # fmt_d (sint i) = u @ 58 # fmt_d (sint j)"
    using k by (simp add: offsetKey_def str_colon)
  note e = append_sep_inj [OF this nc nc]
  have "sint i = sint j" by (rule fmt_d_inj) (use e in simp)
  then show "t = u \<and> i = j" using e sint_inj [of i j] by simp
qed simp

text \<open>The last commit of a partition in a list of commits.\<close>

definition last_commit :: "CommitOffset list \<Rightarrow> gostring \<Rightarrow> i32 \<Rightarrow> CommitOffset option" where
  "last_commit cs t i = List.find (\<lambda>c. co_TopicName c = t \<and> co_PartitionIdx c = i) (rev cs)"

lemma map_of_commits:
  "map_of (fold (commit_one now) cs p) (offsetKey t i) =
    (case last_commit cs t i of
       Some c \<Rightarrow> Some \<lparr>op_TopicName = t, op_PartitionIdx = i, op_Offset = co_Offset c,
         op_LeaderEpoch = co_LeaderEpoch c, op_Metadata = co_Metadata c, op_LastCommitTimestamp = now\<rparr>
     | None \<Rightarrow> map_of p (offsetKey t i))"
proof (induction cs rule: rev_induct)
  case (snoc c cs)
  then show ?case
    by (auto simp: commit_one_def last_commit_def update_conv' offsetKey_inj)
qed (simp add: last_commit_def)

lemma FetchOffsets_commit:
  "FetchOffsets gid' [\<lparr>fq_TopicName = t, fq_PartitionIdx = i\<rparr>] (CommitOffsets now gid cs gs) =
    (case if gid' = gid then last_commit cs t i else None of
       Some c \<Rightarrow> [\<lparr>fr_TopicName = t, fr_PartitionIdx = i, fr_Offset = co_Offset c,
         fr_LeaderEpoch = co_LeaderEpoch c, fr_Metadata = co_Metadata c\<rparr>]
     | None \<Rightarrow> FetchOffsets gid' [\<lparr>fq_TopicName = t, fq_PartitionIdx = i\<rparr>] gs)"
  by (auto simp: FetchOffsets_def CommitOffsets_def fetch_one_def Let_def update_conv' map_of_commits
      split: option.splits)


section \<open>Properties\<close>

text \<open>
  The examples below: \<open>a\<close> joins, \<open>b\<close> joins while the group completes its rebalance, \<open>a\<close> leaves.
\<close>

abbreviation demo_join :: "string \<Rightarrow> nat \<Rightarrow> GroupStore \<Rightarrow> (nat res \<times> g_out list \<times> GroupStore) res" where
  "demo_join m ch \<equiv> JoinGroup (str ''g'') (str m) [] (str ''range'') [] 10 20 ch"

fun store_of :: "('a \<times> g_out list \<times> GroupStore) res \<Rightarrow> GroupStore" where
  "store_of (Ok (r, outs, gs)) = gs"
| "store_of _ = NewGroupStore"

definition demo_one :: GroupStore where
  "demo_one = store_of (demo_join ''a'' 0 NewGroupStore)"

definition demo_two :: GroupStore where
  "demo_two = store_of (demo_join ''b'' 1 demo_one)"

definition demo_left :: GroupStore where
  "demo_left = store_of (LeaveGroup (str ''g'') (str ''a'') demo_two)"

lemma demo_reachable:
  "gstep\<^sup>*\<^sup>* NewGroupStore demo_one" "gstep\<^sup>*\<^sup>* NewGroupStore demo_two" "gstep\<^sup>*\<^sup>* NewGroupStore demo_left"
proof -
  have join: "gstep gs (store_of (demo_join m ch gs))" if "store_inv gs" for gs m ch
    using JoinGroup_inv [OF that, of "str ''g''" "str m" "[]" "str ''range''" "[]" 10 20 ch] g_join by fastforce
  have leave: "gstep gs (store_of (LeaveGroup g m gs))" if "store_inv gs" for gs g m
    using LeaveGroup_inv [OF that, of g m] g_leave by fastforce
  have "gstep\<^sup>*\<^sup>* NewGroupStore gs \<Longrightarrow> gstep\<^sup>*\<^sup>* NewGroupStore (store_of (demo_join m ch gs))" for gs m ch
    using join greachable_inv rtranclp.rtrancl_into_rtrancl by metis
  then show 1: "gstep\<^sup>*\<^sup>* NewGroupStore demo_one" and 2: "gstep\<^sup>*\<^sup>* NewGroupStore demo_two"
    unfolding demo_one_def demo_two_def by blast+
  show "gstep\<^sup>*\<^sup>* NewGroupStore demo_left"
    unfolding demo_left_def using leave [OF greachable_inv [OF 2]] 2 rtranclp.rtrancl_into_rtrancl by metis
qed

text \<open>
  C8. In every state the group store can reach, whatever the order of calls and timer callbacks:
  no two members share an id, every member has a session timer and is not marked evicted; empty
  and dead groups have no members; while a rebalance is prepared everyone who waits is a member
  and the barrier is open; there is no assignment until the leader hands one out, and a stable
  group has one and leaves nobody waiting for it.
\<close>

theorem group_store_invariant:
  assumes "gstep\<^sup>*\<^sup>* NewGroupStore gs"
  shows "store_inv gs"
  by (rule greachable_inv [OF assms])

theorem group_store_invariant_witness: "store_inv demo_left \<and> gs_groups demo_left \<noteq> []"
proof
  show "store_inv demo_left" by (rule group_store_invariant [OF demo_reachable(3)])
  show "gs_groups demo_left \<noteq> []" by code_simp
qed

text \<open>
  C29. In a reachable store joining and leaving never panic, and the rebalance timer panics exactly
  when it fires for the current generation of a group that prepares a rebalance and nobody has
  joined again.
\<close>

theorem group_panics:
  assumes "gstep\<^sup>*\<^sup>* NewGroupStore gs"
  shows "JoinGroup gid mid inst pn md st rt ch gs \<noteq> Panic \<and> LeaveGroup gid mid gs \<noteq> Panic \<and>
    (onRebalanceTimeout gid gen gs = Panic \<longleftrightarrow>
      (\<exists>g. map_of (gs_groups gs) gid = Some g \<and> gen = g_GenerationId g \<and>
         g_State g = GroupStatePreparingRebalance \<and> g_pendingJoins g = []))"
  using JoinGroup_inv [OF greachable_inv [OF assms], of gid mid inst pn md st rt ch]
    LeaveGroup_inv [OF greachable_inv [OF assms], of gid mid]
    onRebalanceTimeout_panic [OF greachable_inv [OF assms]] by auto

theorem group_panics_witness:
  "\<exists>gs. gstep\<^sup>*\<^sup>* NewGroupStore gs \<and> onRebalanceTimeout (str ''g'') 2 gs = Panic"
proof -
  have "case map_of (gs_groups demo_left) (str ''g'') of Some g \<Rightarrow> 2 = g_GenerationId g \<and>
      g_State g = GroupStatePreparingRebalance \<and> g_pendingJoins g = [] | None \<Rightarrow> False"
    by code_simp
  then have "\<exists>g. map_of (gs_groups demo_left) (str ''g'') = Some g \<and> 2 = g_GenerationId g \<and>
      g_State g = GroupStatePreparingRebalance \<and> g_pendingJoins g = []"
    by (simp split: option.splits)
  then show ?thesis
    using group_panics [OF demo_reachable(3), of "str ''g''" "[]" "[]" "[]" "[]" 0 0 0 2] demo_reachable(3) by blast
qed

text \<open>
  C27. The join barrier. When nobody has joined twice, it closes exactly when every member has
  joined; then every joiner is answered on its own channel with the current generation and the
  first joiner as leader, the leader alone gets the member list, and the group completes the
  rebalance. Otherwise nothing happens.
\<close>

theorem join_barrier:
  assumes "group_core g" "g_State g = GroupStatePreparingRebalance" "g_pendingJoins g \<noteq> []"
    "distinct (map pj_memberId (g_pendingJoins g))"
  shows "if pj_memberId ` set (g_pendingJoins g) = fst ` set (g_members g)
    then \<exists>g'. maybeCloseJoinBarrier g =
        Ok (g', map (join_answer g (pj_memberId (hd (g_pendingJoins g)))) (g_pendingJoins g)) \<and>
      g_State g' = GroupStateCompletingRebalance \<and> g_LeaderId g' = pj_memberId (hd (g_pendingJoins g)) \<and>
      g_pendingJoins g' = [] \<and> g_GenerationId g' = g_GenerationId g \<and> g_members g' = g_members g
    else maybeCloseJoinBarrier g = Ok (g, [])"
  using maybeClose_cases [OF assms(1-3)] barrier_full [OF assms(1,2,4)] by (auto simp: Let_def)

definition demo_group :: GroupMeta where
  "demo_group = (new_group (str ''g'') [])\<lparr>g_State := GroupStatePreparingRebalance, g_GenerationId := 4,
     g_members := [(str ''a'', resetSessionTimer (new_member (str ''a'') [] 10 20)),
       (str ''b'', resetSessionTimer (new_member (str ''b'') [] 10 20))],
     g_pendingJoins := [\<lparr>pj_memberId = str ''b'', pj_resultCh = 1\<rparr>, \<lparr>pj_memberId = str ''a'', pj_resultCh = 2\<rparr>]\<rparr>"

lemma demo_group_core: "group_core demo_group"
  by (auto simp: group_core_def members_ok_def demo_group_def new_group_def new_member_def resetSessionTimer_def
      group_states str_def)

theorem join_barrier_witness:
  "\<exists>g'. maybeCloseJoinBarrier demo_group =
     Ok (g', map (join_answer demo_group (str ''b'')) (g_pendingJoins demo_group)) \<and>
     g_State g' = GroupStateCompletingRebalance \<and> g_LeaderId g' = str ''b''"
proof -
  have "pj_memberId ` set (g_pendingJoins demo_group) = fst ` set (g_members demo_group)"
    by (auto simp: demo_group_def)
  moreover have "distinct (map pj_memberId (g_pendingJoins demo_group))" by code_simp
  moreover have "g_State demo_group = GroupStatePreparingRebalance" "g_pendingJoins demo_group \<noteq> []"
      "pj_memberId (hd (g_pendingJoins demo_group)) = str ''b''"
    by (simp_all add: demo_group_def)
  ultimately show ?thesis using join_barrier [OF demo_group_core] by auto
qed

text \<open>
  C28. Handing out assignments. In a reachable store, while a group completes its rebalance, a
  follower's request of the current generation is parked; the leader's request with assignments
  answers the leader and every parked follower with its own assignment, parks nobody and makes
  the group stable. A request after that is refused, although the assignment is known.
\<close>

theorem sync_group_distributes:
  assumes "gstep\<^sup>*\<^sup>* NewGroupStore gs" "map_of (gs_groups gs) gid = Some g" "g_State g = GroupStateCompletingRebalance"
  shows "(mid \<noteq> g_LeaderId g \<longrightarrow> (\<exists>gs' g'. SyncGroup gid mid (g_GenerationId g) as ch gs = (Ok ch, [], gs') \<and>
        map_of (gs_groups gs') gid = Some g' \<and>
        g_pendingSyncs g' = g_pendingSyncs g @ [\<lparr>py_memberId = mid, py_resultSync = ch\<rparr>])) \<and>
    (\<exists>gs' g'. SyncGroup gid (g_LeaderId g) (g_GenerationId g) (Some a) ch gs =
        (Ok ch, SyncSend ch (assignment_of a (g_LeaderId g)) #
          map (\<lambda>ps. SyncSend (py_resultSync ps) (assignment_of a (py_memberId ps))) (g_pendingSyncs g), gs') \<and>
        map_of (gs_groups gs') gid = Some g' \<and> g_State g' = GroupStateStable \<and> g_pendingSyncs g' = [] \<and>
        SyncGroup gid mid' (g_GenerationId g) as' ch' gs' = (Err (KafErr ErrRebalanceInProgress), [], gs'))"
proof -
  note inv = greachable_inv [OF assms(1)]
  let ?g = "g\<lparr>g_leaderAssignment := Some a, g_pendingSyncs := [], g_State := GroupStateStable\<rparr>"
  have "map_of (gs_groups (put_group gid ?g gs)) gid = Some ?g" by (simp add: map_of_put_group)
  from SyncGroup_late_follower [OF this, of mid' as' ch']
  have late: "SyncGroup gid mid' (g_GenerationId g) as' ch' (put_group gid ?g gs) =
    (Err (KafErr ErrRebalanceInProgress), [], put_group gid ?g gs)" by simp
  show ?thesis
    using SyncGroup_follower [OF inv assms(2,3), of mid as ch] SyncGroup_leader [OF assms(2,3), of a ch] late
    by (auto simp: map_of_put_group)
qed

theorem sync_group_distributes_witness:
  "\<exists>gs'. SyncGroup (str ''g'') (str ''a'') 1 (Some [(str ''a'', [7])]) 5 demo_one = (Ok 5, [SyncSend 5 [7]], gs')"
proof -
  have "case map_of (gs_groups demo_one) (str ''g'') of Some g \<Rightarrow> g_State g = GroupStateCompletingRebalance \<and>
      g_LeaderId g = str ''a'' \<and> g_GenerationId g = 1 \<and> g_pendingSyncs g = [] | None \<Rightarrow> False" by code_simp
  then obtain g where g: "map_of (gs_groups demo_one) (str ''g'') = Some g" "g_State g = GroupStateCompletingRebalance"
    "g_LeaderId g = str ''a''" "g_GenerationId g = 1" "g_pendingSyncs g = []"
    by (auto split: option.splits)
  show ?thesis
    using sync_group_distributes [OF demo_reachable(1) g(1,2), of "str ''b''" None 5 "[(str ''a'', [7])]" "str ''b''" None 6] g
    by (auto simp: assignment_of_def)
qed

text \<open>
  A fetch of committed offsets sees, for every group and partition, the last commit made to
  it and is not affected by commits to other groups or partitions; the key of a partition is
  unique.
\<close>

theorem committed_offset_read_back:
  "FetchOffsets gid' [\<lparr>fq_TopicName = t, fq_PartitionIdx = i\<rparr>] (CommitOffsets now gid cs gs) =
    (case if gid' = gid then last_commit cs t i else None of
       Some c \<Rightarrow> [\<lparr>fr_TopicName = t, fr_PartitionIdx = i, fr_Offset = co_Offset c,
         fr_LeaderEpoch = co_LeaderEpoch c, fr_Metadata = co_Metadata c\<rparr>]
     | None \<Rightarrow> FetchOffsets gid' [\<lparr>fq_TopicName = t, fq_PartitionIdx = i\<rparr>] gs)"
  by (rule FetchOffsets_commit)

text \<open>
  A heartbeat is answered OK exactly for a known member that names the current generation of
  a group that is not rebalancing, and it restarts the session timer of the member whenever the
  generation is right; it changes nothing else.
\<close>

theorem heartbeat_answers:
  "(fst (Heartbeat gid mid gen gs) = HeartbeatOK \<longleftrightarrow>
     (\<exists>g m. map_of (gs_groups gs) gid = Some g \<and> map_of (g_members g) mid = Some m \<and> gen = g_GenerationId g \<and>
        g_State g \<noteq> GroupStatePreparingRebalance \<and> g_State g \<noteq> GroupStateCompletingRebalance)) \<and>
   snd (Heartbeat gid mid gen gs) =
     (case map_of (gs_groups gs) gid of
        Some g \<Rightarrow>
          (case map_of (g_members g) mid of
             Some m \<Rightarrow> if gen = g_GenerationId g
               then put_group gid (g\<lparr>g_members := AList.update mid (resetSessionTimer m) (g_members g)\<rparr>) gs else gs
           | None \<Rightarrow> gs)
      | None \<Rightarrow> gs)"
  by (auto simp: Heartbeat_def Let_def HeartbeatOK_def HeartbeatRebalanceInProcess_def HeartbeatUnknowMember_def
      HeartbeatIllegalGeneration_def split: option.splits)



end
