(* ===== verification/Kaf_AdminMsg.thy ===== *)
theory Kaf_AdminMsg
  imports Kaf_Group
begin

text \<open>
  The messages between brokers (\<^verbatim>\<open>protocol/broker/*.go\<close>), those of the administrative APIs
  (\<^verbatim>\<open>protocol/admin/*.go\<close>) and those that create topics (\<^verbatim>\<open>protocol/topic/*.go\<close>). Where the
  source has only one direction, the other is given by the wire format (\<open>_wire\<close>, \<open>_read\<close>).
\<close>

lemma WriteUVarInt_0 [simp]: "WriteUVarInt 0 w = WriteEmptyTaggedFields w"
  by (simp add: WriteEmptyTaggedFields_def WriteUVarInt.simps)

section \<open>Broker heartbeats and registration\<close>

record BrokerHeartbeatRequest =
  bhq_BrokerId :: i32
  bhq_BrokerEpoch :: i64
  bhq_CurrentMetadataOffset :: i64
  bhq_WantFence :: bool
  bhq_WantShutDown :: bool

definition BrokerHeartbeatRequest_Encode :: "BrokerHeartbeatRequest \<Rightarrow> writer \<Rightarrow> writer" where
  "BrokerHeartbeatRequest_Encode m w =
     (let w = WriteInt32 (bhq_BrokerId m) w;
          w = WriteInt64 (bhq_BrokerEpoch m) w;
          w = WriteInt64 (bhq_CurrentMetadataOffset m) w;
          w = WriteBool (bhq_WantFence m) w;
          w = WriteBool (bhq_WantShutDown m) w
      in WriteEmptyTaggedFields w)"

definition BrokerHeartbeatRequest_Decode :: "BrokerHeartbeatRequest rd" where
  "BrokerHeartbeatRequest_Decode =
     rbind ReadInt32 (\<lambda>brokerId. rbind ReadInt64 (\<lambda>brokerEpoch.
     rbind ReadInt64 (\<lambda>currentMetadataOffset. rbind ReadBool (\<lambda>wantFence.
     rbind ReadBool (\<lambda>wantShutDown. rbind ReadTaggedFields (\<lambda>_.
     rret \<lparr>bhq_BrokerId = brokerId, bhq_BrokerEpoch = brokerEpoch, bhq_CurrentMetadataOffset = currentMetadataOffset,
       bhq_WantFence = wantFence, bhq_WantShutDown = wantShutDown\<rparr>))))))"

interpretation brokerHeartbeatRequest: wire_codec BrokerHeartbeatRequest_Encode BrokerHeartbeatRequest_Decode "\<lambda>_. True"
  by unfold_locales (simp_all add: BrokerHeartbeatRequest_Encode_def BrokerHeartbeatRequest_Decode_def Let_def appends_simps,
    (rule decodes_rbind decodes_rbind_last decodes_intros | simp)+)

record BrokerHeartbeatResponse =
  bhs_ThrottleTimeMs :: i32
  bhs_ErrorCode :: i16
  bhs_IsCaughtUp :: bool
  bhs_IsFenced :: bool
  bhs_ShouldShutDown :: bool

definition BrokerHeartbeatResponse_Encode :: "BrokerHeartbeatResponse \<Rightarrow> writer \<Rightarrow> writer" where
  "BrokerHeartbeatResponse_Encode m w =
     (let w = WriteInt32 (bhs_ThrottleTimeMs m) w;
          w = WriteInt16 (bhs_ErrorCode m) w;
          w = WriteBool (bhs_IsCaughtUp m) w;
          w = WriteBool (bhs_IsFenced m) w;
          w = WriteBool (bhs_ShouldShutDown m) w
      in WriteEmptyTaggedFields w)"

definition BrokerHeartbeatResponse_Decode :: "BrokerHeartbeatResponse rd" where
  "BrokerHeartbeatResponse_Decode =
     rbind ReadInt32 (\<lambda>throttleTimeMs. rbind ReadInt16 (\<lambda>errorCode.
     rbind ReadBool (\<lambda>isCaughtUp. rbind ReadBool (\<lambda>isFenced.
     rbind ReadBool (\<lambda>shouldShutDown. rbind ReadTaggedFields (\<lambda>_.
     rret \<lparr>bhs_ThrottleTimeMs = throttleTimeMs, bhs_ErrorCode = errorCode, bhs_IsCaughtUp = isCaughtUp,
       bhs_IsFenced = isFenced, bhs_ShouldShutDown = shouldShutDown\<rparr>))))))"

interpretation brokerHeartbeatResponse: wire_codec BrokerHeartbeatResponse_Encode BrokerHeartbeatResponse_Decode "\<lambda>_. True"
  by unfold_locales (simp_all add: BrokerHeartbeatResponse_Encode_def BrokerHeartbeatResponse_Decode_def Let_def appends_simps,
    (rule decodes_rbind decodes_rbind_last decodes_intros | simp)+)

record BrokerListener =
  bl_Name :: gostring
  bl_Host :: gostring
  bl_Port :: i32
  bl_SecurityProtocol :: i16

definition BrokerListener_Encode :: "BrokerListener \<Rightarrow> writer \<Rightarrow> writer" where
  "BrokerListener_Encode m w =
     (let w = WriteCompactString (bl_Name m) w;
          w = WriteCompactString (bl_Host m) w;
          w = WriteInt32 (bl_Port m) w;
          w = WriteInt16 (bl_SecurityProtocol m) w
      in WriteEmptyTaggedFields w)"

definition BrokerListener_Decode :: "BrokerListener rd" where
  "BrokerListener_Decode =
     rbind ReadCompactString (\<lambda>name'. rbind ReadCompactString (\<lambda>host'.
     rbind ReadInt32 (\<lambda>port'. rbind ReadInt16 (\<lambda>securityProtocol.
     rbind ReadTaggedFields (\<lambda>_.
     rret \<lparr>bl_Name = name', bl_Host = host', bl_Port = port', bl_SecurityProtocol = securityProtocol\<rparr>)))))"

interpretation brokerListener: wire_codec BrokerListener_Encode BrokerListener_Decode "\<lambda>_. True"
  by unfold_locales (simp_all add: BrokerListener_Encode_def BrokerListener_Decode_def Let_def appends_simps,
    (rule decodes_rbind decodes_rbind_last decodes_intros | simp)+)

record BrokerFeature =
  bf_Name :: gostring
  bf_MinSupportedVersion :: i16
  bf_MaxSupportedVersion :: i16

definition BrokerFeature_Encode :: "BrokerFeature \<Rightarrow> writer \<Rightarrow> writer" where
  "BrokerFeature_Encode m w =
     (let w = WriteCompactString (bf_Name m) w;
          w = WriteInt16 (bf_MinSupportedVersion m) w;
          w = WriteInt16 (bf_MaxSupportedVersion m) w
      in WriteEmptyTaggedFields w)"

definition BrokerFeature_Decode :: "BrokerFeature rd" where
  "BrokerFeature_Decode =
     rbind ReadCompactString (\<lambda>name'. rbind ReadInt16 (\<lambda>minSupportedVersion.
     rbind ReadInt16 (\<lambda>maxSupportedVersion. rbind ReadTaggedFields (\<lambda>_.
     rret \<lparr>bf_Name = name', bf_MinSupportedVersion = minSupportedVersion,
       bf_MaxSupportedVersion = maxSupportedVersion\<rparr>))))"

interpretation brokerFeature: wire_codec BrokerFeature_Encode BrokerFeature_Decode "\<lambda>_. True"
  by unfold_locales (simp_all add: BrokerFeature_Encode_def BrokerFeature_Decode_def Let_def appends_simps,
    (rule decodes_rbind decodes_rbind_last decodes_intros | simp)+)

lemmas [appends_simps] =
  NO_MATCH_append [OF brokerListener.write_array_append] NO_MATCH_append [OF brokerFeature.write_array_append]

lemmas [decodes_intros] =
  brokerListener.make_array_decodes brokerFeature.make_array_decodes

record BrokerRegistrationRequest =
  brq_BrokerId :: i32
  brq_ClusterId :: gostring
  brq_IncarnationId :: bytes
  brq_Listeners :: "BrokerListener list"
  brq_Features :: "BrokerFeature list"
  brq_Rack :: "gostring option"

definition BrokerRegistrationRequest_Encode :: "BrokerRegistrationRequest \<Rightarrow> writer \<Rightarrow> writer" where
  "BrokerRegistrationRequest_Encode m w =
     (let w = WriteInt32 (brq_BrokerId m) w;
          w = WriteCompactString (brq_ClusterId m) w;
          w = WriteUUID (brq_IncarnationId m) w;
          w = write_array BrokerListener_Encode (brq_Listeners m) w;
          w = write_array BrokerFeature_Encode (brq_Features m) w;
          w = WriteCompactNullableString (brq_Rack m) w
      in WriteEmptyTaggedFields w)"

definition BrokerRegistrationRequest_Decode :: "BrokerRegistrationRequest rd" where
  "BrokerRegistrationRequest_Decode =
     rbind ReadInt32 (\<lambda>brokerId. rbind ReadCompactString (\<lambda>clusterId.
     rbind ReadUUID (\<lambda>incarnationId. rbind (read_make_array BrokerListener_Decode) (\<lambda>listeners.
     rbind (read_make_array BrokerFeature_Decode) (\<lambda>features.
     rbind ReadCompactNullableString (\<lambda>rack. rbind ReadTaggedFields (\<lambda>_.
     rret \<lparr>brq_BrokerId = brokerId, brq_ClusterId = clusterId, brq_IncarnationId = incarnationId,
       brq_Listeners = listeners, brq_Features = features, brq_Rack = rack\<rparr>)))))))"

definition BrokerRegistrationRequest_valid :: "BrokerRegistrationRequest \<Rightarrow> bool" where
  "BrokerRegistrationRequest_valid m \<longleftrightarrow> length (brq_IncarnationId m) = 16"

interpretation brokerRegistrationRequest: wire_codec BrokerRegistrationRequest_Encode BrokerRegistrationRequest_Decode BrokerRegistrationRequest_valid
  by unfold_locales (simp_all add: BrokerRegistrationRequest_Encode_def BrokerRegistrationRequest_Decode_def BrokerRegistrationRequest_valid_def Let_def appends_simps,
    (rule decodes_rbind decodes_rbind_last decodes_intros | simp)+)

record BrokerRegistrationResponse =
  brs_ThrottleTimeMs :: i32
  brs_ErrorCode :: i16
  brs_BrokerEpoch :: i64

definition BrokerRegistrationResponse_Encode :: "BrokerRegistrationResponse \<Rightarrow> writer \<Rightarrow> writer" where
  "BrokerRegistrationResponse_Encode m w =
     (let w = WriteInt32 (brs_ThrottleTimeMs m) w;
          w = WriteInt16 (brs_ErrorCode m) w;
          w = WriteInt64 (brs_BrokerEpoch m) w
      in WriteEmptyTaggedFields w)"

definition BrokerRegistrationResponse_Decode :: "BrokerRegistrationResponse rd" where
  "BrokerRegistrationResponse_Decode =
     rbind ReadInt32 (\<lambda>throttleTimeMs. rbind ReadInt16 (\<lambda>errorCode.
     rbind ReadInt64 (\<lambda>brokerEpoch. rbind ReadTaggedFields (\<lambda>_.
     rret \<lparr>brs_ThrottleTimeMs = throttleTimeMs, brs_ErrorCode = errorCode, brs_BrokerEpoch = brokerEpoch\<rparr>))))"

interpretation brokerRegistrationResponse: wire_codec BrokerRegistrationResponse_Encode BrokerRegistrationResponse_Decode "\<lambda>_. True"
  by unfold_locales (simp_all add: BrokerRegistrationResponse_Encode_def BrokerRegistrationResponse_Decode_def Let_def appends_simps,
    (rule decodes_rbind decodes_rbind_last decodes_intros | simp)+)

section \<open>Listing offsets\<close>

record ListOffsetsPartition =
  lop_PartitionIndex :: i32
  lop_CurrentLeaderEpoch :: i32
  lop_Timestamp :: i64

definition ListOffsetsPartition_wire :: "ListOffsetsPartition \<Rightarrow> writer \<Rightarrow> writer" where
  "ListOffsetsPartition_wire m w =
     (let w = WriteInt32 (lop_PartitionIndex m) w;
          w = WriteInt32 (lop_CurrentLeaderEpoch m) w;
          w = WriteInt64 (lop_Timestamp m) w
      in WriteEmptyTaggedFields w)"

definition ListOffsetsPartition_decode :: "ListOffsetsPartition rd" where
  "ListOffsetsPartition_decode =
     rbind ReadInt32 (\<lambda>partitionIndex. rbind ReadInt32 (\<lambda>currentLeaderEpoch.
     rbind ReadInt64 (\<lambda>timestamp. rbind ReadTaggedFields (\<lambda>_.
     rret \<lparr>lop_PartitionIndex = partitionIndex, lop_CurrentLeaderEpoch = currentLeaderEpoch,
       lop_Timestamp = timestamp\<rparr>))))"

interpretation listOffsetsPartition: wire_codec ListOffsetsPartition_wire ListOffsetsPartition_decode "\<lambda>_. True"
  by unfold_locales (simp_all add: ListOffsetsPartition_wire_def ListOffsetsPartition_decode_def Let_def appends_simps,
    (rule decodes_rbind decodes_rbind_last decodes_intros | simp)+)

lemmas [appends_simps] =
  NO_MATCH_append [OF listOffsetsPartition.write_array_append]

lemmas [decodes_intros] =
  listOffsetsPartition.make_array_decodes

record ListOffsetsTopic =
  lot_Name :: gostring
  lot_Partitions :: "ListOffsetsPartition list"

definition ListOffsetsTopic_wire :: "ListOffsetsTopic \<Rightarrow> writer \<Rightarrow> writer" where
  "ListOffsetsTopic_wire m w =
     (let w = WriteCompactString (lot_Name m) w;
          w = write_array ListOffsetsPartition_wire (lot_Partitions m) w
      in WriteEmptyTaggedFields w)"

definition ListOffsetsTopic_decode :: "ListOffsetsTopic rd" where
  "ListOffsetsTopic_decode =
     rbind ReadCompactString (\<lambda>name'.
     rbind (read_make_array ListOffsetsPartition_decode) (\<lambda>partitions.
     rbind ReadTaggedFields (\<lambda>_.
     rret \<lparr>lot_Name = name', lot_Partitions = partitions\<rparr>)))"

interpretation listOffsetsTopic: wire_codec ListOffsetsTopic_wire ListOffsetsTopic_decode "\<lambda>_. True"
  by unfold_locales (simp_all add: ListOffsetsTopic_wire_def ListOffsetsTopic_decode_def Let_def appends_simps,
    (rule decodes_rbind decodes_rbind_last decodes_intros | simp)+)

lemmas [appends_simps] =
  NO_MATCH_append [OF listOffsetsTopic.write_array_append]

lemmas [decodes_intros] =
  listOffsetsTopic.make_array_decodes

record ListOffsetsRequest =
  loq_ReplicaId :: i32
  loq_IsolationLevel :: i8
  loq_Topics :: "ListOffsetsTopic list"
  loq_TimeoutMs :: i32

definition ListOffsetsRequest_wire :: "ListOffsetsRequest \<Rightarrow> writer \<Rightarrow> writer" where
  "ListOffsetsRequest_wire m w =
     (let w = WriteInt32 (loq_ReplicaId m) w;
          w = WriteInt8 (loq_IsolationLevel m) w;
          w = write_array ListOffsetsTopic_wire (loq_Topics m) w;
          w = WriteInt32 (loq_TimeoutMs m) w
      in WriteEmptyTaggedFields w)"

definition ListOffsetsRequest_Decode :: "ListOffsetsRequest rd" where
  "ListOffsetsRequest_Decode =
     rbind ReadInt32 (\<lambda>replicaId. rbind ReadInt8 (\<lambda>isolationLevel.
     rbind (read_make_array ListOffsetsTopic_decode) (\<lambda>topics'. rbind ReadInt32 (\<lambda>timeoutMs.
     rbind ReadTaggedFields (\<lambda>_.
     rret \<lparr>loq_ReplicaId = replicaId, loq_IsolationLevel = isolationLevel, loq_Topics = topics',
       loq_TimeoutMs = timeoutMs\<rparr>)))))"

interpretation listOffsetsRequest: wire_codec ListOffsetsRequest_wire ListOffsetsRequest_Decode "\<lambda>_. True"
  by unfold_locales (simp_all add: ListOffsetsRequest_wire_def ListOffsetsRequest_Decode_def Let_def appends_simps,
    (rule decodes_rbind decodes_rbind_last decodes_intros | simp)+)

record ListOffsetsResponsePartition =
  lorp_PartitionIndex :: i32
  lorp_ErrorCode :: i16
  lorp_Timestamp :: i64
  lorp_Offset :: i64
  lorp_LeaderEpoch :: i32

definition ListOffsetsResponsePartition_encode :: "ListOffsetsResponsePartition \<Rightarrow> writer \<Rightarrow> writer" where
  "ListOffsetsResponsePartition_encode m w =
     (let w = WriteInt32 (lorp_PartitionIndex m) w;
          w = WriteInt16 (lorp_ErrorCode m) w;
          w = WriteInt64 (lorp_Timestamp m) w;
          w = WriteInt64 (lorp_Offset m) w;
          w = WriteInt32 (lorp_LeaderEpoch m) w
      in WriteEmptyTaggedFields w)"

definition ListOffsetsResponsePartition_read :: "ListOffsetsResponsePartition rd" where
  "ListOffsetsResponsePartition_read =
     rbind ReadInt32 (\<lambda>partitionIndex. rbind ReadInt16 (\<lambda>errorCode.
     rbind ReadInt64 (\<lambda>timestamp. rbind ReadInt64 (\<lambda>offset'.
     rbind ReadInt32 (\<lambda>leaderEpoch. rbind ReadTaggedFields (\<lambda>_.
     rret \<lparr>lorp_PartitionIndex = partitionIndex, lorp_ErrorCode = errorCode, lorp_Timestamp = timestamp,
       lorp_Offset = offset', lorp_LeaderEpoch = leaderEpoch\<rparr>))))))"

interpretation listOffsetsResponsePartition: wire_codec ListOffsetsResponsePartition_encode ListOffsetsResponsePartition_read "\<lambda>_. True"
  by unfold_locales (simp_all add: ListOffsetsResponsePartition_encode_def ListOffsetsResponsePartition_read_def Let_def appends_simps,
    (rule decodes_rbind decodes_rbind_last decodes_intros | simp)+)

lemmas [appends_simps] =
  NO_MATCH_append [OF listOffsetsResponsePartition.write_array_append]

lemmas [decodes_intros] =
  listOffsetsResponsePartition.make_array_decodes

record ListOffsetsResponseTopic =
  lort_Name :: gostring
  lort_Partitions :: "ListOffsetsResponsePartition list"

definition ListOffsetsResponseTopic_encode :: "ListOffsetsResponseTopic \<Rightarrow> writer \<Rightarrow> writer" where
  "ListOffsetsResponseTopic_encode m w =
     (let w = WriteCompactString (lort_Name m) w;
          w = write_array ListOffsetsResponsePartition_encode (lort_Partitions m) w
      in WriteEmptyTaggedFields w)"

definition ListOffsetsResponseTopic_read :: "ListOffsetsResponseTopic rd" where
  "ListOffsetsResponseTopic_read =
     rbind ReadCompactString (\<lambda>name'.
     rbind (read_make_array ListOffsetsResponsePartition_read) (\<lambda>partitions.
     rbind ReadTaggedFields (\<lambda>_.
     rret \<lparr>lort_Name = name', lort_Partitions = partitions\<rparr>)))"

interpretation listOffsetsResponseTopic: wire_codec ListOffsetsResponseTopic_encode ListOffsetsResponseTopic_read "\<lambda>_. True"
  by unfold_locales (simp_all add: ListOffsetsResponseTopic_encode_def ListOffsetsResponseTopic_read_def Let_def appends_simps,
    (rule decodes_rbind decodes_rbind_last decodes_intros | simp)+)

lemmas [appends_simps] =
  NO_MATCH_append [OF listOffsetsResponseTopic.write_array_append]

lemmas [decodes_intros] =
  listOffsetsResponseTopic.make_array_decodes

record ListOffsetsResponse =
  los_ThrottleTimeMs :: i32
  los_Topics :: "ListOffsetsResponseTopic list"

definition ListOffsetsResponse_Encode :: "ListOffsetsResponse \<Rightarrow> writer \<Rightarrow> writer" where
  "ListOffsetsResponse_Encode m w =
     (let w = WriteInt32 (los_ThrottleTimeMs m) w;
          w = write_array ListOffsetsResponseTopic_encode (los_Topics m) w
      in WriteEmptyTaggedFields w)"

definition ListOffsetsResponse_read :: "ListOffsetsResponse rd" where
  "ListOffsetsResponse_read =
     rbind ReadInt32 (\<lambda>throttleTimeMs.
     rbind (read_make_array ListOffsetsResponseTopic_read) (\<lambda>topics'.
     rbind ReadTaggedFields (\<lambda>_.
     rret \<lparr>los_ThrottleTimeMs = throttleTimeMs, los_Topics = topics'\<rparr>)))"

interpretation listOffsetsResponse: wire_codec ListOffsetsResponse_Encode ListOffsetsResponse_read "\<lambda>_. True"
  by unfold_locales (simp_all add: ListOffsetsResponse_Encode_def ListOffsetsResponse_read_def Let_def appends_simps,
    (rule decodes_rbind decodes_rbind_last decodes_intros | simp)+)

section \<open>Metadata\<close>

record MetadataResponseBroker =
  mrb_NodeID :: i32
  mrb_Host :: gostring
  mrb_Port :: i32
  mrb_Rack :: "gostring option"

definition MetadataResponseBroker_encode :: "MetadataResponseBroker \<Rightarrow> writer \<Rightarrow> writer" where
  "MetadataResponseBroker_encode m w =
     (let w = WriteInt32 (mrb_NodeID m) w;
          w = WriteCompactString (mrb_Host m) w;
          w = WriteInt32 (mrb_Port m) w;
          w = WriteCompactNullableString (mrb_Rack m) w
      in WriteEmptyTaggedFields w)"

definition MetadataResponseBroker_read :: "MetadataResponseBroker rd" where
  "MetadataResponseBroker_read =
     rbind ReadInt32 (\<lambda>nodeID. rbind ReadCompactString (\<lambda>host'. rbind ReadInt32 (\<lambda>port'.
     rbind ReadCompactNullableString (\<lambda>rack. rbind ReadTaggedFields (\<lambda>_.
     rret \<lparr>mrb_NodeID = nodeID, mrb_Host = host', mrb_Port = port', mrb_Rack = rack\<rparr>)))))"

interpretation metadataResponseBroker: wire_codec MetadataResponseBroker_encode MetadataResponseBroker_read "\<lambda>_. True"
  by unfold_locales (simp_all add: MetadataResponseBroker_encode_def MetadataResponseBroker_read_def Let_def appends_simps,
    (rule decodes_rbind decodes_rbind_last decodes_intros | simp)+)

lemmas [appends_simps] =
  NO_MATCH_append [OF metadataResponseBroker.write_array_append]

lemmas [decodes_intros] =
  metadataResponseBroker.make_array_decodes

record MetadataResponsePartition =
  mrp_ErrorCode :: i16
  mrp_PartitionIndex :: i32
  mrp_LeaderID :: i32
  mrp_LeaderEpoch :: i32
  mrp_ReplicaNodes :: "i32 list"
  mrp_IsrNodes :: "i32 list"
  mrp_OfflineReplicas :: "i32 list"

definition MetadataResponsePartition_encode :: "MetadataResponsePartition \<Rightarrow> writer \<Rightarrow> writer" where
  "MetadataResponsePartition_encode m w =
     (let w = WriteInt16 (mrp_ErrorCode m) w;
          w = WriteInt32 (mrp_PartitionIndex m) w;
          w = WriteInt32 (mrp_LeaderID m) w;
          w = WriteInt32 (mrp_LeaderEpoch m) w;
          w = write_array WriteInt32 (mrp_ReplicaNodes m) w;
          w = write_array WriteInt32 (mrp_IsrNodes m) w;
          w = write_array WriteInt32 (mrp_OfflineReplicas m) w
      in WriteEmptyTaggedFields w)"

definition MetadataResponsePartition_read :: "MetadataResponsePartition rd" where
  "MetadataResponsePartition_read =
     rbind ReadInt16 (\<lambda>errorCode. rbind ReadInt32 (\<lambda>partitionIndex.
     rbind ReadInt32 (\<lambda>leaderID. rbind ReadInt32 (\<lambda>leaderEpoch.
     rbind (read_make_array ReadInt32) (\<lambda>replicaNodes.
     rbind (read_make_array ReadInt32) (\<lambda>isrNodes.
     rbind (read_make_array ReadInt32) (\<lambda>offlineReplicas. rbind ReadTaggedFields (\<lambda>_.
     rret \<lparr>mrp_ErrorCode = errorCode, mrp_PartitionIndex = partitionIndex, mrp_LeaderID = leaderID,
       mrp_LeaderEpoch = leaderEpoch, mrp_ReplicaNodes = replicaNodes, mrp_IsrNodes = isrNodes,
       mrp_OfflineReplicas = offlineReplicas\<rparr>))))))))"

interpretation metadataResponsePartition: wire_codec MetadataResponsePartition_encode MetadataResponsePartition_read "\<lambda>_. True"
  by unfold_locales (simp_all add: MetadataResponsePartition_encode_def MetadataResponsePartition_read_def Let_def appends_simps,
    (rule decodes_rbind decodes_rbind_last decodes_intros | simp)+)

lemmas [appends_simps] =
  NO_MATCH_append [OF metadataResponsePartition.write_array_append]

lemmas [decodes_intros] =
  metadataResponsePartition.make_array_decodes

record MetadataResponseTopic =
  mrt_ErrorCode :: i16
  mrt_Name :: "gostring option"
  mrt_TopicID :: bytes
  mrt_IsInternal :: bool
  mrt_Partitions :: "MetadataResponsePartition list"
  mrt_TopicAuthorizedOperations :: i32

definition MetadataResponseTopic_encode :: "MetadataResponseTopic \<Rightarrow> writer \<Rightarrow> writer" where
  "MetadataResponseTopic_encode m w =
     (let w = WriteInt16 (mrt_ErrorCode m) w;
          w = WriteCompactNullableString (mrt_Name m) w;
          w = WriteUUID (mrt_TopicID m) w;
          w = WriteBool (mrt_IsInternal m) w;
          w = write_array MetadataResponsePartition_encode (mrt_Partitions m) w;
          w = WriteInt32 (mrt_TopicAuthorizedOperations m) w
      in WriteEmptyTaggedFields w)"

definition MetadataResponseTopic_read :: "MetadataResponseTopic rd" where
  "MetadataResponseTopic_read =
     rbind ReadInt16 (\<lambda>errorCode. rbind ReadCompactNullableString (\<lambda>name'.
     rbind ReadUUID (\<lambda>topicID. rbind ReadBool (\<lambda>isInternal.
     rbind (read_make_array MetadataResponsePartition_read) (\<lambda>partitions.
     rbind ReadInt32 (\<lambda>topicAuthorizedOperations. rbind ReadTaggedFields (\<lambda>_.
     rret \<lparr>mrt_ErrorCode = errorCode, mrt_Name = name', mrt_TopicID = topicID, mrt_IsInternal = isInternal,
       mrt_Partitions = partitions, mrt_TopicAuthorizedOperations = topicAuthorizedOperations\<rparr>)))))))"

definition MetadataResponseTopic_valid :: "MetadataResponseTopic \<Rightarrow> bool" where
  "MetadataResponseTopic_valid m \<longleftrightarrow> length (mrt_TopicID m) = 16"

interpretation metadataResponseTopic: wire_codec MetadataResponseTopic_encode MetadataResponseTopic_read MetadataResponseTopic_valid
  by unfold_locales (simp_all add: MetadataResponseTopic_encode_def MetadataResponseTopic_read_def MetadataResponseTopic_valid_def Let_def appends_simps,
    (rule decodes_rbind decodes_rbind_last decodes_intros | simp)+)

lemmas [appends_simps] =
  NO_MATCH_append [OF metadataResponseTopic.write_array_append]

lemmas [decodes_intros] =
  metadataResponseTopic.make_array_decodes

record MetadataResponse =
  mr_ThrottleTimeMs :: i32
  mr_Brokers :: "MetadataResponseBroker list"
  mr_ClusterID :: "gostring option"
  mr_ControllerID :: i32
  mr_Topics :: "MetadataResponseTopic list"
  mr_ErrorCode :: i16

definition MetadataResponse_Encode :: "MetadataResponse \<Rightarrow> writer \<Rightarrow> writer" where
  "MetadataResponse_Encode m w =
     (let w = WriteInt32 (mr_ThrottleTimeMs m) w;
          w = write_array MetadataResponseBroker_encode (mr_Brokers m) w;
          w = WriteCompactNullableString (mr_ClusterID m) w;
          w = WriteInt32 (mr_ControllerID m) w;
          w = write_array MetadataResponseTopic_encode (mr_Topics m) w;
          w = WriteInt16 (mr_ErrorCode m) w
      in WriteEmptyTaggedFields w)"

definition MetadataResponse_read :: "MetadataResponse rd" where
  "MetadataResponse_read =
     rbind ReadInt32 (\<lambda>throttleTimeMs.
     rbind (read_make_array MetadataResponseBroker_read) (\<lambda>brokers.
     rbind ReadCompactNullableString (\<lambda>clusterID. rbind ReadInt32 (\<lambda>controllerID.
     rbind (read_make_array MetadataResponseTopic_read) (\<lambda>topics'. rbind ReadInt16 (\<lambda>errorCode.
     rbind ReadTaggedFields (\<lambda>_.
     rret \<lparr>mr_ThrottleTimeMs = throttleTimeMs, mr_Brokers = brokers, mr_ClusterID = clusterID,
       mr_ControllerID = controllerID, mr_Topics = topics', mr_ErrorCode = errorCode\<rparr>)))))))"

definition MetadataResponse_valid :: "MetadataResponse \<Rightarrow> bool" where
  "MetadataResponse_valid m \<longleftrightarrow> (\<forall>x\<in>set (mr_Topics m). MetadataResponseTopic_valid x)"

interpretation metadataResponse: wire_codec MetadataResponse_Encode MetadataResponse_read MetadataResponse_valid
  by unfold_locales (simp_all add: MetadataResponse_Encode_def MetadataResponse_read_def MetadataResponse_valid_def Let_def appends_simps,
    (rule decodes_rbind decodes_rbind_last decodes_intros | simp)+)

record TopicMetadataRequest =
  tmr_TopicId :: bytes
  tmr_Name :: "gostring option"

definition TopicMetadataRequest_wire :: "TopicMetadataRequest \<Rightarrow> writer \<Rightarrow> writer" where
  "TopicMetadataRequest_wire m w =
     (let w = WriteUUID (tmr_TopicId m) w;
          w = WriteCompactNullableString (tmr_Name m) w
      in WriteEmptyTaggedFields w)"

definition TopicMetadataRequest_decode :: "TopicMetadataRequest rd" where
  "TopicMetadataRequest_decode =
     rbind ReadUUID (\<lambda>topicId. rbind ReadCompactNullableString (\<lambda>name'.
     rbind ReadTaggedFields (\<lambda>_.
     rret \<lparr>tmr_TopicId = topicId, tmr_Name = name'\<rparr>)))"

definition TopicMetadataRequest_valid :: "TopicMetadataRequest \<Rightarrow> bool" where
  "TopicMetadataRequest_valid m \<longleftrightarrow> length (tmr_TopicId m) = 16"

interpretation topicMetadataRequest: wire_codec TopicMetadataRequest_wire TopicMetadataRequest_decode TopicMetadataRequest_valid
  by unfold_locales (simp_all add: TopicMetadataRequest_wire_def TopicMetadataRequest_decode_def TopicMetadataRequest_valid_def Let_def appends_simps,
    (rule decodes_rbind decodes_rbind_last decodes_intros | simp)+)

lemmas [appends_simps] =
  NO_MATCH_append [OF topicMetadataRequest.write_array_append]

lemmas [decodes_intros] =
  topicMetadataRequest.make_array_decodes

text \<open>A null array of topics asks for all of them.\<close>

definition MetaDataRequestVersion :: i16 where "MetaDataRequestVersion = 13"

record MetaDataRequest =
  mdq_Topics :: "TopicMetadataRequest list option"
  mdq_AllowAutoTopicCreation :: bool
  mdq_IncludeTopicAuthorizedOperations :: bool
  mdq_version :: i16

definition read_nullable_array :: "'a rd \<Rightarrow> 'a list option rd" where
  "read_nullable_array rd = rbind ReadCompactArrayLen (\<lambda>n.
     if n = -1 then rret None
     else if n < 0 then rpanic
     else rbind (rtimes (nat n) rd) (\<lambda>xs. rret (Some xs)))"

definition MetaDataRequest_Decode :: "MetaDataRequest rd" where
  "MetaDataRequest_Decode =
     rbind (read_nullable_array TopicMetadataRequest_decode) (\<lambda>topics.
     rbind ReadBool (\<lambda>allowAutoTopicCreation.
     rbind ReadBool (\<lambda>includeTopicAuthorizedOperations.
     rbind ReadTaggedFields (\<lambda>_.
     rret \<lparr>mdq_Topics = topics, mdq_AllowAutoTopicCreation = allowAutoTopicCreation,
       mdq_IncludeTopicAuthorizedOperations = includeTopicAuthorizedOperations,
       mdq_version = MetaDataRequestVersion\<rparr>))))"

definition write_nullable_array :: "('a \<Rightarrow> writer \<Rightarrow> writer) \<Rightarrow> 'a list option \<Rightarrow> writer \<Rightarrow> writer" where
  "write_nullable_array wr v w = (case v of None \<Rightarrow> WriteCompactArrayLen (-1) w | Some xs \<Rightarrow> write_array wr xs w)"

definition MetaDataRequest_wire :: "MetaDataRequest \<Rightarrow> writer \<Rightarrow> writer" where
  "MetaDataRequest_wire m w =
     (let w = write_nullable_array TopicMetadataRequest_wire (mdq_Topics m) w;
          w = WriteBool (mdq_AllowAutoTopicCreation m) w;
          w = WriteBool (mdq_IncludeTopicAuthorizedOperations m) w
      in WriteEmptyTaggedFields w)"

definition MetaDataRequest_valid :: "MetaDataRequest \<Rightarrow> bool" where
  "MetaDataRequest_valid m \<longleftrightarrow> mdq_version m = MetaDataRequestVersion \<and>
     (case mdq_Topics m of None \<Rightarrow> True | Some topics \<Rightarrow> \<forall>t\<in>set topics. TopicMetadataRequest_valid t)"

context wire_codec
begin

lemma nullable_array_append: "write_nullable_array wr v w = w @ write_nullable_array wr v []"
  by (simp add: write_nullable_array_def write_array_append [of _ w] compact_array_len.wr_append [of _ w] split: option.splits)

lemma nullable_array_decodes:
  assumes "case v of None \<Rightarrow> True | Some xs \<Rightarrow> \<forall>x\<in>set xs. valid x"
  shows "decodes (read_nullable_array rd) (write_nullable_array wr v []) v"
proof (cases v)
  case None
  then show ?thesis
    unfolding read_nullable_array_def write_nullable_array_def
    by (simp, intro decodes_rbind_last [OF compact_array_len.rd_wr]) (simp_all add: decodes_rret)
next
  case (Some xs)
  let ?n = "WriteCompactArrayLen (int (length xs)) []"
  have W: "write_nullable_array wr v [] = ?n @ fold wr xs []"
    by (simp add: Some write_nullable_array_def write_array_def fold_append)
  have ok: "\<forall>x\<in>set xs. valid x" using assms Some by simp
  show ?thesis
  proof (rule decodes_bounded)
    assume "int (length (write_nullable_array wr v [])) < 2 ^ 63"
    with length_fold [OF ok] have "int (length xs) < 2 ^ 63" unfolding W by simp
    then show "decodes (read_nullable_array rd) (write_nullable_array wr v []) v"
      unfolding W read_nullable_array_def using ok Some
      by (intro decodes_rbind [OF compact_array_len.rd_wr])
         (auto intro!: decodes_rbind_last [OF rtimes_fold] simp: decodes_rret)
  qed
qed

end

lemmas [appends_simps] = NO_MATCH_append [OF topicMetadataRequest.nullable_array_append]

interpretation metaDataRequest: wire_codec MetaDataRequest_wire MetaDataRequest_Decode MetaDataRequest_valid
proof
  show "MetaDataRequest_wire x w = w @ MetaDataRequest_wire x []" for x w
    by (simp add: MetaDataRequest_wire_def Let_def appends_simps)
  show "MetaDataRequest_wire x [] \<noteq> []" for x
    by (simp add: MetaDataRequest_wire_def Let_def appends_simps)
  show "decodes MetaDataRequest_Decode (MetaDataRequest_wire x []) x" if "MetaDataRequest_valid x" for x
    using that unfolding MetaDataRequest_Decode_def MetaDataRequest_wire_def MetaDataRequest_valid_def Let_def
    by (simp add: appends_simps)
       ((rule decodes_rbind decodes_rbind_last topicMetadataRequest.nullable_array_decodes decodes_intros | simp)+)
qed

section \<open>API versions\<close>

text \<open>
  A key is written with its tagged fields and the response with its throttle time, and neither
  decoder reads them. \<open>_read\<close> is what a client does.\<close>

record ApiKey =
  ak_ApiKey :: i16
  ak_MinVersion :: i16
  ak_MaxVersion :: i16

definition ApiKey_Encode :: "ApiKey \<Rightarrow> writer \<Rightarrow> writer" where
  "ApiKey_Encode m w =
     (let w = WriteInt16 (ak_ApiKey m) w;
          w = WriteInt16 (ak_MinVersion m) w;
          w = WriteInt16 (ak_MaxVersion m) w
      in WriteEmptyTaggedFields w)"

definition ApiKey_Decode :: "ApiKey rd" where
  "ApiKey_Decode = rbind ReadInt16 (\<lambda>apiKey. rbind ReadInt16 (\<lambda>minVersion. rbind ReadInt16 (\<lambda>maxVersion.
     rret \<lparr>ak_ApiKey = apiKey, ak_MinVersion = minVersion, ak_MaxVersion = maxVersion\<rparr>)))"

definition ApiKey_read :: "ApiKey rd" where
  "ApiKey_read = rbind ApiKey_Decode (\<lambda>m. rbind ReadTaggedFields (\<lambda>_. rret m))"

record ApiVersionResponse =
  avs_ErrorCode :: i16
  avs_ApiKeys :: "ApiKey list"
  avs_ThrottleTimeMs :: i32

definition ApiVersionResponse_Encode :: "ApiVersionResponse \<Rightarrow> writer \<Rightarrow> writer" where
  "ApiVersionResponse_Encode m w =
     (let w = WriteInt16 (avs_ErrorCode m) w;
          w = write_array ApiKey_Encode (avs_ApiKeys m) w;
          w = WriteInt32 (avs_ThrottleTimeMs m) w
      in WriteEmptyTaggedFields w)"

definition ApiVersionResponse_Decode :: "ApiVersionResponse rd" where
  "ApiVersionResponse_Decode =
     rbind ReadInt16 (\<lambda>errorCode. rbind (read_make_array ApiKey_Decode) (\<lambda>apiKeys.
     rret \<lparr>avs_ErrorCode = errorCode, avs_ApiKeys = apiKeys, avs_ThrottleTimeMs = 0\<rparr>))"

definition ApiVersionResponse_read :: "ApiVersionResponse rd" where
  "ApiVersionResponse_read =
     rbind ReadInt16 (\<lambda>errorCode. rbind (read_make_array ApiKey_read) (\<lambda>apiKeys.
     rbind ReadInt32 (\<lambda>throttleTimeMs. rbind ReadTaggedFields (\<lambda>_.
     rret \<lparr>avs_ErrorCode = errorCode, avs_ApiKeys = apiKeys, avs_ThrottleTimeMs = throttleTimeMs\<rparr>))))"

interpretation apiKey: wire_codec ApiKey_Encode ApiKey_read "\<lambda>_. True"
proof
  show "decodes ApiKey_read (ApiKey_Encode x []) x" for x
    unfolding ApiKey_read_def ApiKey_Decode_def rbind_assoc rbind_rret_left
    by (simp add: ApiKey_Encode_def Let_def appends_simps)
       ((rule decodes_rbind decodes_rbind_last decodes_intros | simp)+)
qed (simp_all add: ApiKey_Encode_def Let_def appends_simps)

lemmas [appends_simps] = NO_MATCH_append [OF apiKey.write_array_append]
lemmas [decodes_intros] = apiKey.make_array_decodes

interpretation apiVersionResponse: wire_codec ApiVersionResponse_Encode ApiVersionResponse_read "\<lambda>_. True"
  by unfold_locales (simp_all add: ApiVersionResponse_Encode_def ApiVersionResponse_read_def Let_def appends_simps,
    (rule decodes_rbind decodes_rbind_last decodes_intros | simp)+)

text \<open>The source's own decoder does not read back what the encoder writes.\<close>

lemma ApiVersionResponse_Decode_wrong:
  "fst (ApiVersionResponse_Decode (NewReader (ApiVersionResponse_Encode
     \<lparr>avs_ErrorCode = 0, avs_ApiKeys = [\<lparr>ak_ApiKey = 1, ak_MinVersion = 2, ak_MaxVersion = 3\<rparr>,
       \<lparr>ak_ApiKey = 256, ak_MinVersion = 0, ak_MaxVersion = 0\<rparr>], avs_ThrottleTimeMs = 0\<rparr> []))) =
   Ok \<lparr>avs_ErrorCode = 0, avs_ApiKeys = [\<lparr>ak_ApiKey = 1, ak_MinVersion = 2, ak_MaxVersion = 3\<rparr>,
       \<lparr>ak_ApiKey = 1, ak_MinVersion = 0, ak_MaxVersion = 0\<rparr>], avs_ThrottleTimeMs = 0\<rparr>"
  by code_simp

record ApiVersionRequest =
  avq_ClientSoftwareName :: gostring
  avq_ClientSoftwareVersion :: gostring
  avq_apiVersion :: i16

definition ApiVersionRequest_Encode :: "ApiVersionRequest \<Rightarrow> writer \<Rightarrow> writer" where
  "ApiVersionRequest_Encode m w =
     (let w = WriteCompactString (avq_ClientSoftwareName m) w
      in WriteCompactString (avq_ClientSoftwareVersion m) w)"

definition ApiVersionRequest_Decode :: "ApiVersionRequest rd" where
  "ApiVersionRequest_Decode =
     rbind ReadCompactString (\<lambda>clientSoftwareName.
     rbind ReadCompactString (\<lambda>clientSoftwareVersion.
     rret \<lparr>avq_ClientSoftwareName = clientSoftwareName, avq_ClientSoftwareVersion = clientSoftwareVersion,
       avq_apiVersion = 0\<rparr>))"

definition ApiVersionRequest_valid :: "ApiVersionRequest \<Rightarrow> bool" where
  "ApiVersionRequest_valid m \<longleftrightarrow> avq_apiVersion m = 0"

interpretation apiVersionRequest: wire_codec ApiVersionRequest_Encode ApiVersionRequest_Decode ApiVersionRequest_valid
  by unfold_locales (simp_all add: ApiVersionRequest_Encode_def ApiVersionRequest_Decode_def ApiVersionRequest_valid_def Let_def appends_simps
      compact_string.wr_nonempty,
    (rule decodes_rbind decodes_rbind_last decodes_intros | simp)+)

section \<open>Creating topics\<close>

record CreateTopicAssignment =
  cta_PartitionIndex :: i32
  cta_BrokerIds :: "i32 list"

definition CreateTopicAssignment_encode :: "CreateTopicAssignment \<Rightarrow> writer \<Rightarrow> writer" where
  "CreateTopicAssignment_encode m w =
     (let w = WriteInt32 (cta_PartitionIndex m) w;
          w = write_array WriteInt32 (cta_BrokerIds m) w
      in WriteUVarInt 0 w)"

definition CreateTopicAssignment_decode :: "CreateTopicAssignment rd" where
  "CreateTopicAssignment_decode =
     rbind ReadInt32 (\<lambda>partitionIndex. rbind (read_append_array ReadInt32) (\<lambda>brokerIds.
     rbind ReadTaggedFields (\<lambda>_.
     rret \<lparr>cta_PartitionIndex = partitionIndex, cta_BrokerIds = brokerIds\<rparr>)))"

interpretation createTopicAssignment: wire_codec CreateTopicAssignment_encode CreateTopicAssignment_decode "\<lambda>_. True"
  by unfold_locales (simp_all add: CreateTopicAssignment_encode_def CreateTopicAssignment_decode_def Let_def appends_simps,
    (rule decodes_rbind decodes_rbind_last decodes_intros | simp)+)

record CreateTopicConfig =
  ctc_Name :: gostring
  ctc_Value :: "gostring option"

definition CreateTopicConfig_encode :: "CreateTopicConfig \<Rightarrow> writer \<Rightarrow> writer" where
  "CreateTopicConfig_encode m w =
     (let w = WriteCompactString (ctc_Name m) w;
          w = WriteCompactNullableString (ctc_Value m) w
      in WriteUVarInt 0 w)"

definition CreateTopicConfig_decode :: "CreateTopicConfig rd" where
  "CreateTopicConfig_decode =
     rbind ReadCompactString (\<lambda>name'. rbind ReadCompactNullableString (\<lambda>value'.
     rbind ReadTaggedFields (\<lambda>_.
     rret \<lparr>ctc_Name = name', ctc_Value = value'\<rparr>)))"

interpretation createTopicConfig: wire_codec CreateTopicConfig_encode CreateTopicConfig_decode "\<lambda>_. True"
  by unfold_locales (simp_all add: CreateTopicConfig_encode_def CreateTopicConfig_decode_def Let_def appends_simps,
    (rule decodes_rbind decodes_rbind_last decodes_intros | simp)+)

lemmas [appends_simps] =
  NO_MATCH_append [OF createTopicAssignment.write_array_append]
  NO_MATCH_append [OF createTopicConfig.write_array_append]

lemmas [decodes_intros] =
  createTopicAssignment.append_array_decodes createTopicConfig.append_array_decodes

record CreateTopicData =
  ctd_Name :: gostring
  ctd_NumPartitions :: i32
  ctd_ReplicationFactor :: i16
  ctd_Assigments :: "CreateTopicAssignment list"
  ctd_Configs :: "CreateTopicConfig list"

definition CreateTopicData_encode :: "CreateTopicData \<Rightarrow> writer \<Rightarrow> writer" where
  "CreateTopicData_encode m w =
     (let w = WriteCompactString (ctd_Name m) w;
          w = WriteInt32 (ctd_NumPartitions m) w;
          w = WriteInt16 (ctd_ReplicationFactor m) w;
          w = write_array CreateTopicAssignment_encode (ctd_Assigments m) w;
          w = write_array CreateTopicConfig_encode (ctd_Configs m) w
      in WriteUVarInt 0 w)"

definition CreateTopicData_decode :: "CreateTopicData rd" where
  "CreateTopicData_decode =
     rbind ReadCompactString (\<lambda>name'. rbind ReadInt32 (\<lambda>numPartitions.
     rbind ReadInt16 (\<lambda>replicationFactor.
     rbind (read_append_array CreateTopicAssignment_decode) (\<lambda>assigments.
     rbind (read_append_array CreateTopicConfig_decode) (\<lambda>configs. rbind ReadTaggedFields (\<lambda>_.
     rret \<lparr>ctd_Name = name', ctd_NumPartitions = numPartitions, ctd_ReplicationFactor = replicationFactor,
       ctd_Assigments = assigments, ctd_Configs = configs\<rparr>))))))"

interpretation createTopicData: wire_codec CreateTopicData_encode CreateTopicData_decode "\<lambda>_. True"
  by unfold_locales (simp_all add: CreateTopicData_encode_def CreateTopicData_decode_def Let_def appends_simps,
    (rule decodes_rbind decodes_rbind_last decodes_intros | simp)+)

lemmas [appends_simps] =
  NO_MATCH_append [OF createTopicData.write_array_append]

lemmas [decodes_intros] =
  createTopicData.append_array_decodes

record CreateTopicsRequest =
  ctq_Topics :: "CreateTopicData list"
  ctq_TimeoutMs :: i32
  ctq_ValidateOnly :: bool
  ctq_version :: i16
  ctq_correlationId :: i32

definition CreateTopicsRequest_Encode :: "CreateTopicsRequest \<Rightarrow> writer \<Rightarrow> writer" where
  "CreateTopicsRequest_Encode m w =
     (let w = write_array CreateTopicData_encode (ctq_Topics m) w;
          w = WriteInt32 (ctq_TimeoutMs m) w;
          w = WriteBool (ctq_ValidateOnly m) w
      in WriteEmptyTaggedFields w)"

definition CreateTopicsRequest_Decode :: "CreateTopicsRequest rd" where
  "CreateTopicsRequest_Decode =
     rbind (read_append_array CreateTopicData_decode) (\<lambda>topics'. rbind ReadInt32 (\<lambda>timeoutMs.
     rbind ReadBool (\<lambda>validateOnly. rbind ReadTaggedFields (\<lambda>_.
     rret \<lparr>ctq_Topics = topics', ctq_TimeoutMs = timeoutMs, ctq_ValidateOnly = validateOnly, ctq_version = 0,
       ctq_correlationId = 0\<rparr>))))"

definition CreateTopicsRequest_valid :: "CreateTopicsRequest \<Rightarrow> bool" where
  "CreateTopicsRequest_valid m \<longleftrightarrow> ctq_version m = 0 \<and> ctq_correlationId m = 0"

interpretation createTopicsRequest: wire_codec CreateTopicsRequest_Encode CreateTopicsRequest_Decode CreateTopicsRequest_valid
  by unfold_locales (simp_all add: CreateTopicsRequest_Encode_def CreateTopicsRequest_Decode_def CreateTopicsRequest_valid_def Let_def appends_simps,
    (rule decodes_rbind decodes_rbind_last decodes_intros | simp)+)

record CreateTopicConfigResponse =
  ctcr_Name :: gostring
  ctcr_Value :: "gostring option"
  ctcr_ReadOnly :: bool
  ctcr_ConfigSource :: i8
  ctcr_IsSensitive :: bool
  ctcr_TopicConfigErrorCode :: i16

definition CreateTopicConfigResponse_encode :: "CreateTopicConfigResponse \<Rightarrow> writer \<Rightarrow> writer" where
  "CreateTopicConfigResponse_encode m w =
     (let w = WriteCompactString (ctcr_Name m) w;
          w = WriteCompactNullableString (ctcr_Value m) w;
          w = WriteBool (ctcr_ReadOnly m) w;
          w = WriteInt8 (ctcr_ConfigSource m) w;
          w = WriteBool (ctcr_IsSensitive m) w;
          w = WriteInt16 (ctcr_TopicConfigErrorCode m) w
      in WriteEmptyTaggedFields w)"

definition CreateTopicConfigResponse_decode :: "CreateTopicConfigResponse rd" where
  "CreateTopicConfigResponse_decode =
     rbind ReadCompactString (\<lambda>name'. rbind ReadCompactNullableString (\<lambda>value'.
     rbind ReadBool (\<lambda>readOnly. rbind ReadInt8 (\<lambda>configSource.
     rbind ReadBool (\<lambda>isSensitive. rbind ReadInt16 (\<lambda>topicConfigErrorCode.
     rbind ReadTaggedFields (\<lambda>_.
     rret \<lparr>ctcr_Name = name', ctcr_Value = value', ctcr_ReadOnly = readOnly, ctcr_ConfigSource = configSource,
       ctcr_IsSensitive = isSensitive, ctcr_TopicConfigErrorCode = topicConfigErrorCode\<rparr>)))))))"

interpretation createTopicConfigResponse: wire_codec CreateTopicConfigResponse_encode CreateTopicConfigResponse_decode "\<lambda>_. True"
  by unfold_locales (simp_all add: CreateTopicConfigResponse_encode_def CreateTopicConfigResponse_decode_def Let_def appends_simps,
    (rule decodes_rbind decodes_rbind_last decodes_intros | simp)+)

lemmas [appends_simps] =
  NO_MATCH_append [OF createTopicConfigResponse.write_array_append]

lemmas [decodes_intros] =
  createTopicConfigResponse.append_array_decodes

record CreateTopicResponseData =
  ctr_Name :: gostring
  ctr_TopicId :: bytes
  ctr_ErrorCode :: i16
  ctr_ErrorMessage :: "gostring option"
  ctr_NumPartitions :: i32
  ctr_ReplicationFactor :: i16
  ctr_Configs :: "CreateTopicConfigResponse list"

definition CreateTopicResponseData_encode :: "CreateTopicResponseData \<Rightarrow> writer \<Rightarrow> writer" where
  "CreateTopicResponseData_encode m w =
     (let w = WriteCompactString (ctr_Name m) w;
          w = WriteUUID (ctr_TopicId m) w;
          w = WriteInt16 (ctr_ErrorCode m) w;
          w = WriteCompactNullableString (ctr_ErrorMessage m) w;
          w = WriteInt32 (ctr_NumPartitions m) w;
          w = WriteInt16 (ctr_ReplicationFactor m) w;
          w = write_array CreateTopicConfigResponse_encode (ctr_Configs m) w
      in WriteEmptyTaggedFields w)"

definition CreateTopicResponseData_decode :: "CreateTopicResponseData rd" where
  "CreateTopicResponseData_decode =
     rbind ReadCompactString (\<lambda>name'. rbind ReadUUID (\<lambda>topicId.
     rbind ReadInt16 (\<lambda>errorCode. rbind ReadCompactNullableString (\<lambda>errorMessage.
     rbind ReadInt32 (\<lambda>numPartitions. rbind ReadInt16 (\<lambda>replicationFactor.
     rbind (read_append_array CreateTopicConfigResponse_decode) (\<lambda>configs.
     rbind ReadTaggedFields (\<lambda>_.
     rret \<lparr>ctr_Name = name', ctr_TopicId = topicId, ctr_ErrorCode = errorCode, ctr_ErrorMessage = errorMessage,
       ctr_NumPartitions = numPartitions, ctr_ReplicationFactor = replicationFactor, ctr_Configs = configs\<rparr>))))))))"

definition CreateTopicResponseData_valid :: "CreateTopicResponseData \<Rightarrow> bool" where
  "CreateTopicResponseData_valid m \<longleftrightarrow> length (ctr_TopicId m) = 16"

interpretation createTopicResponseData: wire_codec CreateTopicResponseData_encode CreateTopicResponseData_decode CreateTopicResponseData_valid
  by unfold_locales (simp_all add: CreateTopicResponseData_encode_def CreateTopicResponseData_decode_def CreateTopicResponseData_valid_def Let_def appends_simps,
    (rule decodes_rbind decodes_rbind_last decodes_intros | simp)+)

lemmas [appends_simps] =
  NO_MATCH_append [OF createTopicResponseData.write_array_append]

lemmas [decodes_intros] =
  createTopicResponseData.append_array_decodes

record CreateTopicsResponse =
  cts_ThrottleTimeMs :: i32
  cts_Topics :: "CreateTopicResponseData list"

definition CreateTopicsResponse_Encode :: "CreateTopicsResponse \<Rightarrow> writer \<Rightarrow> writer" where
  "CreateTopicsResponse_Encode m w =
     (let w = WriteInt32 (cts_ThrottleTimeMs m) w;
          w = write_array CreateTopicResponseData_encode (cts_Topics m) w
      in WriteEmptyTaggedFields w)"

definition CreateTopicsResponse_Decode :: "CreateTopicsResponse rd" where
  "CreateTopicsResponse_Decode =
     rbind ReadInt32 (\<lambda>throttleTimeMs.
     rbind (read_append_array CreateTopicResponseData_decode) (\<lambda>topics'.
     rbind ReadTaggedFields (\<lambda>_.
     rret \<lparr>cts_ThrottleTimeMs = throttleTimeMs, cts_Topics = topics'\<rparr>)))"

definition CreateTopicsResponse_valid :: "CreateTopicsResponse \<Rightarrow> bool" where
  "CreateTopicsResponse_valid m \<longleftrightarrow> (\<forall>x\<in>set (cts_Topics m). CreateTopicResponseData_valid x)"

interpretation createTopicsResponse: wire_codec CreateTopicsResponse_Encode CreateTopicsResponse_Decode CreateTopicsResponse_valid
  by unfold_locales (simp_all add: CreateTopicsResponse_Encode_def CreateTopicsResponse_Decode_def CreateTopicsResponse_valid_def Let_def appends_simps,
    (rule decodes_rbind decodes_rbind_last decodes_intros | simp)+)

end
