(* ===== verification/Kaf_ProduceMsg.thy ===== *)
theory Kaf_ProduceMsg
  imports Kaf_AdminMsg
begin

text \<open>
  The messages of the produce path (\<^verbatim>\<open>protocol/producer/*.go\<close>) and the decoder of record batches
  that the produce handler runs on what it is about to append.
\<close>

section \<open>Producer ids\<close>

record InitProducerIdRequest =
  ipq_TransactionalId :: "gostring option"
  ipq_TransactionTimeoutMs :: i32
  ipq_ProducerId :: i64
  ipq_ProducerEpoch :: i16

definition InitProducerIdRequest_wire :: "InitProducerIdRequest \<Rightarrow> writer \<Rightarrow> writer" where
  "InitProducerIdRequest_wire m w =
     (let w = WriteCompactNullableString (ipq_TransactionalId m) w;
          w = WriteInt32 (ipq_TransactionTimeoutMs m) w;
          w = WriteInt64 (ipq_ProducerId m) w;
          w = WriteInt16 (ipq_ProducerEpoch m) w
      in WriteEmptyTaggedFields w)"

definition InitProducerIdRequest_Decode :: "InitProducerIdRequest rd" where
  "InitProducerIdRequest_Decode =
     rbind ReadCompactNullableString (\<lambda>transactionalId. rbind ReadInt32 (\<lambda>transactionTimeoutMs.
     rbind ReadInt64 (\<lambda>producerId. rbind ReadInt16 (\<lambda>producerEpoch.
     rbind ReadTaggedFields (\<lambda>_.
     rret \<lparr>ipq_TransactionalId = transactionalId, ipq_TransactionTimeoutMs = transactionTimeoutMs,
       ipq_ProducerId = producerId, ipq_ProducerEpoch = producerEpoch\<rparr>)))))"

interpretation initProducerIdRequest: wire_codec InitProducerIdRequest_wire InitProducerIdRequest_Decode "\<lambda>_. True"
  by unfold_locales (simp_all add: InitProducerIdRequest_wire_def InitProducerIdRequest_Decode_def Let_def appends_simps,
    (rule decodes_rbind decodes_rbind_last decodes_intros | simp)+)

record InitProducerIdResponse =
  ips_ThrottleTimeMs :: i32
  ips_ErrorCode :: i16
  ips_ProducerId :: i64
  ips_ProducerEpoch :: i16

definition InitProducerIdResponse_Encode :: "InitProducerIdResponse \<Rightarrow> writer \<Rightarrow> writer" where
  "InitProducerIdResponse_Encode m w =
     (let w = WriteInt32 (ips_ThrottleTimeMs m) w;
          w = WriteInt16 (ips_ErrorCode m) w;
          w = WriteInt64 (ips_ProducerId m) w;
          w = WriteInt16 (ips_ProducerEpoch m) w
      in WriteEmptyTaggedFields w)"

definition InitProducerIdResponse_read :: "InitProducerIdResponse rd" where
  "InitProducerIdResponse_read =
     rbind ReadInt32 (\<lambda>throttleTimeMs. rbind ReadInt16 (\<lambda>errorCode.
     rbind ReadInt64 (\<lambda>producerId. rbind ReadInt16 (\<lambda>producerEpoch.
     rbind ReadTaggedFields (\<lambda>_.
     rret \<lparr>ips_ThrottleTimeMs = throttleTimeMs, ips_ErrorCode = errorCode, ips_ProducerId = producerId,
       ips_ProducerEpoch = producerEpoch\<rparr>)))))"

interpretation initProducerIdResponse: wire_codec InitProducerIdResponse_Encode InitProducerIdResponse_read "\<lambda>_. True"
  by unfold_locales (simp_all add: InitProducerIdResponse_Encode_def InitProducerIdResponse_read_def Let_def appends_simps,
    (rule decodes_rbind decodes_rbind_last decodes_intros | simp)+)

section \<open>Produce\<close>

record ProduceRequestPartitionData =
  ppd_Index :: i32
  ppd_Records :: "bytes option"

definition ProduceRequestPartitionData_wire :: "ProduceRequestPartitionData \<Rightarrow> writer \<Rightarrow> writer" where
  "ProduceRequestPartitionData_wire m w =
     (let w = WriteInt32 (ppd_Index m) w;
          w = WriteCompactRecords (ppd_Records m) w
      in WriteEmptyTaggedFields w)"

definition ProduceRequestPartitionData_decode :: "ProduceRequestPartitionData rd" where
  "ProduceRequestPartitionData_decode =
     rbind ReadInt32 (\<lambda>index'. rbind ReadCompactRecords (\<lambda>records'.
     rbind ReadTaggedFields (\<lambda>_.
     rret \<lparr>ppd_Index = index', ppd_Records = records'\<rparr>)))"

interpretation produceRequestPartitionData: wire_codec ProduceRequestPartitionData_wire ProduceRequestPartitionData_decode "\<lambda>_. True"
  by unfold_locales (simp_all add: ProduceRequestPartitionData_wire_def ProduceRequestPartitionData_decode_def Let_def appends_simps,
    (rule decodes_rbind decodes_rbind_last decodes_intros | simp)+)

lemmas [appends_simps] =
  NO_MATCH_append [OF produceRequestPartitionData.write_array_append]

lemmas [decodes_intros] =
  produceRequestPartitionData.make_array_decodes

text \<open>The decoder leaves the name of a topic empty: version 13 sends only its id.\<close>

record ProduceRequestTopicData =
  ptd_Name :: gostring
  ptd_TopicId :: bytes
  ptd_PartitionData :: "ProduceRequestPartitionData list"

definition ProduceRequestTopicData_wire :: "ProduceRequestTopicData \<Rightarrow> writer \<Rightarrow> writer" where
  "ProduceRequestTopicData_wire m w =
     (let w = WriteUUID (ptd_TopicId m) w;
          w = write_array ProduceRequestPartitionData_wire (ptd_PartitionData m) w
      in WriteEmptyTaggedFields w)"

definition ProduceRequestTopicData_decode :: "ProduceRequestTopicData rd" where
  "ProduceRequestTopicData_decode =
     rbind ReadUUID (\<lambda>topicId.
     rbind (read_make_array ProduceRequestPartitionData_decode) (\<lambda>partitionData.
     rbind ReadTaggedFields (\<lambda>_.
     rret \<lparr>ptd_Name = [], ptd_TopicId = topicId, ptd_PartitionData = partitionData\<rparr>)))"

definition ProduceRequestTopicData_valid :: "ProduceRequestTopicData \<Rightarrow> bool" where
  "ProduceRequestTopicData_valid m \<longleftrightarrow> ptd_Name m = [] \<and> length (ptd_TopicId m) = 16"

interpretation produceRequestTopicData: wire_codec ProduceRequestTopicData_wire ProduceRequestTopicData_decode ProduceRequestTopicData_valid
  by unfold_locales (simp_all add: ProduceRequestTopicData_wire_def ProduceRequestTopicData_decode_def ProduceRequestTopicData_valid_def Let_def appends_simps,
    (rule decodes_rbind decodes_rbind_last decodes_intros | simp)+)

lemmas [appends_simps] =
  NO_MATCH_append [OF produceRequestTopicData.write_array_append]

lemmas [decodes_intros] =
  produceRequestTopicData.make_array_decodes

record ProduceRequest =
  pq_TransactionId :: "gostring option"
  pq_Acks :: i16
  pq_TimeoutMs :: i32
  pq_TopicData :: "ProduceRequestTopicData list"

definition ProduceRequest_wire :: "ProduceRequest \<Rightarrow> writer \<Rightarrow> writer" where
  "ProduceRequest_wire m w =
     (let w = WriteCompactNullableString (pq_TransactionId m) w;
          w = WriteInt16 (pq_Acks m) w;
          w = WriteInt32 (pq_TimeoutMs m) w;
          w = write_array ProduceRequestTopicData_wire (pq_TopicData m) w
      in WriteEmptyTaggedFields w)"

definition ProduceRequest_Decode :: "ProduceRequest rd" where
  "ProduceRequest_Decode =
     rbind ReadCompactNullableString (\<lambda>transactionId. rbind ReadInt16 (\<lambda>acks.
     rbind ReadInt32 (\<lambda>timeoutMs.
     rbind (read_make_array ProduceRequestTopicData_decode) (\<lambda>topicData.
     rbind ReadTaggedFields (\<lambda>_.
     rret \<lparr>pq_TransactionId = transactionId, pq_Acks = acks, pq_TimeoutMs = timeoutMs, pq_TopicData = topicData\<rparr>)))))"

definition ProduceRequest_valid :: "ProduceRequest \<Rightarrow> bool" where
  "ProduceRequest_valid m \<longleftrightarrow> (\<forall>x\<in>set (pq_TopicData m). ProduceRequestTopicData_valid x)"

interpretation produceRequest: wire_codec ProduceRequest_wire ProduceRequest_Decode ProduceRequest_valid
  by unfold_locales (simp_all add: ProduceRequest_wire_def ProduceRequest_Decode_def ProduceRequest_valid_def Let_def appends_simps,
    (rule decodes_rbind decodes_rbind_last decodes_intros | simp)+)

record RecordError =
  re_BatchIndex :: i32
  re_BatchIndexErrorMessage :: "gostring option"

definition RecordError_encode :: "RecordError \<Rightarrow> writer \<Rightarrow> writer" where
  "RecordError_encode m w =
     (let w = WriteInt32 (re_BatchIndex m) w;
          w = WriteCompactNullableString (re_BatchIndexErrorMessage m) w
      in WriteEmptyTaggedFields w)"

definition RecordError_read :: "RecordError rd" where
  "RecordError_read =
     rbind ReadInt32 (\<lambda>batchIndex. rbind ReadCompactNullableString (\<lambda>batchIndexErrorMessage.
     rbind ReadTaggedFields (\<lambda>_.
     rret \<lparr>re_BatchIndex = batchIndex, re_BatchIndexErrorMessage = batchIndexErrorMessage\<rparr>)))"

interpretation recordError: wire_codec RecordError_encode RecordError_read "\<lambda>_. True"
  by unfold_locales (simp_all add: RecordError_encode_def RecordError_read_def Let_def appends_simps,
    (rule decodes_rbind decodes_rbind_last decodes_intros | simp)+)

lemmas [appends_simps] =
  NO_MATCH_append [OF recordError.write_array_append]

lemmas [decodes_intros] =
  recordError.make_array_decodes

record PartitionProduceResponse =
  ppr_Index :: i32
  ppr_ErrorCode :: i16
  ppr_BaseOffset :: i64
  ppr_LogAppendTimeMs :: i64
  ppr_LogStartOffset :: i64
  ppr_RecordErrors :: "RecordError list"
  ppr_ErrorMessage :: "gostring option"

definition PartitionProduceResponse_encode :: "PartitionProduceResponse \<Rightarrow> writer \<Rightarrow> writer" where
  "PartitionProduceResponse_encode m w =
     (let w = WriteInt32 (ppr_Index m) w;
          w = WriteInt16 (ppr_ErrorCode m) w;
          w = WriteInt64 (ppr_BaseOffset m) w;
          w = WriteInt64 (ppr_LogAppendTimeMs m) w;
          w = WriteInt64 (ppr_LogStartOffset m) w;
          w = write_array RecordError_encode (ppr_RecordErrors m) w;
          w = WriteCompactNullableString (ppr_ErrorMessage m) w
      in WriteEmptyTaggedFields w)"

definition PartitionProduceResponse_read :: "PartitionProduceResponse rd" where
  "PartitionProduceResponse_read =
     rbind ReadInt32 (\<lambda>index'. rbind ReadInt16 (\<lambda>errorCode.
     rbind ReadInt64 (\<lambda>baseOffset. rbind ReadInt64 (\<lambda>logAppendTimeMs.
     rbind ReadInt64 (\<lambda>logStartOffset. rbind (read_make_array RecordError_read) (\<lambda>recordErrors.
     rbind ReadCompactNullableString (\<lambda>errorMessage. rbind ReadTaggedFields (\<lambda>_.
     rret \<lparr>ppr_Index = index', ppr_ErrorCode = errorCode, ppr_BaseOffset = baseOffset,
       ppr_LogAppendTimeMs = logAppendTimeMs, ppr_LogStartOffset = logStartOffset,
       ppr_RecordErrors = recordErrors, ppr_ErrorMessage = errorMessage\<rparr>))))))))"

interpretation partitionProduceResponse: wire_codec PartitionProduceResponse_encode PartitionProduceResponse_read "\<lambda>_. True"
  by unfold_locales (simp_all add: PartitionProduceResponse_encode_def PartitionProduceResponse_read_def Let_def appends_simps,
    (rule decodes_rbind decodes_rbind_last decodes_intros | simp)+)

lemmas [appends_simps] =
  NO_MATCH_append [OF partitionProduceResponse.write_array_append]

lemmas [decodes_intros] =
  partitionProduceResponse.make_array_decodes

record TopicProduceResponse =
  tpr_TopicId :: bytes
  tpr_PartitionResponses :: "PartitionProduceResponse list"

definition TopicProduceResponse_encode :: "TopicProduceResponse \<Rightarrow> writer \<Rightarrow> writer" where
  "TopicProduceResponse_encode m w =
     (let w = WriteUUID (tpr_TopicId m) w;
          w = write_array PartitionProduceResponse_encode (tpr_PartitionResponses m) w
      in WriteEmptyTaggedFields w)"

definition TopicProduceResponse_read :: "TopicProduceResponse rd" where
  "TopicProduceResponse_read =
     rbind ReadUUID (\<lambda>topicId.
     rbind (read_make_array PartitionProduceResponse_read) (\<lambda>partitionResponses.
     rbind ReadTaggedFields (\<lambda>_.
     rret \<lparr>tpr_TopicId = topicId, tpr_PartitionResponses = partitionResponses\<rparr>)))"

definition TopicProduceResponse_valid :: "TopicProduceResponse \<Rightarrow> bool" where
  "TopicProduceResponse_valid m \<longleftrightarrow> length (tpr_TopicId m) = 16"

interpretation topicProduceResponse: wire_codec TopicProduceResponse_encode TopicProduceResponse_read TopicProduceResponse_valid
  by unfold_locales (simp_all add: TopicProduceResponse_encode_def TopicProduceResponse_read_def TopicProduceResponse_valid_def Let_def appends_simps,
    (rule decodes_rbind decodes_rbind_last decodes_intros | simp)+)

lemmas [appends_simps] =
  NO_MATCH_append [OF topicProduceResponse.write_array_append]

lemmas [decodes_intros] =
  topicProduceResponse.make_array_decodes

record NodeEndpoint =
  ne_NodeId :: i32
  ne_Host :: gostring
  ne_Port :: i32
  ne_Rack :: "gostring option"

definition NodeEndpoint_encode :: "NodeEndpoint \<Rightarrow> writer \<Rightarrow> writer" where
  "NodeEndpoint_encode m w =
     (let w = WriteInt32 (ne_NodeId m) w;
          w = WriteCompactString (ne_Host m) w;
          w = WriteInt32 (ne_Port m) w;
          w = WriteCompactNullableString (ne_Rack m) w
      in WriteEmptyTaggedFields w)"

definition NodeEndpoint_read :: "NodeEndpoint rd" where
  "NodeEndpoint_read =
     rbind ReadInt32 (\<lambda>nodeId. rbind ReadCompactString (\<lambda>host'. rbind ReadInt32 (\<lambda>port'.
     rbind ReadCompactNullableString (\<lambda>rack. rbind ReadTaggedFields (\<lambda>_.
     rret \<lparr>ne_NodeId = nodeId, ne_Host = host', ne_Port = port', ne_Rack = rack\<rparr>)))))"

interpretation nodeEndpoint: wire_codec NodeEndpoint_encode NodeEndpoint_read "\<lambda>_. True"
  by unfold_locales (simp_all add: NodeEndpoint_encode_def NodeEndpoint_read_def Let_def appends_simps,
    (rule decodes_rbind decodes_rbind_last decodes_intros | simp)+)

text \<open>The node endpoints of a produce response are not written.\<close>

record ProduceResponse =
  prs_Responses :: "TopicProduceResponse list"
  prs_ThrottleTimeMs :: i32
  prs_NodeEndpoints :: "NodeEndpoint list"

definition ProduceResponse_Encode :: "ProduceResponse \<Rightarrow> writer \<Rightarrow> writer" where
  "ProduceResponse_Encode m w =
     (let w = write_array TopicProduceResponse_encode (prs_Responses m) w;
          w = WriteInt32 (prs_ThrottleTimeMs m) w
      in WriteEmptyTaggedFields w)"

definition ProduceResponse_read :: "ProduceResponse rd" where
  "ProduceResponse_read =
     rbind (read_make_array TopicProduceResponse_read) (\<lambda>responses.
     rbind ReadInt32 (\<lambda>throttleTimeMs. rbind ReadTaggedFields (\<lambda>_.
     rret \<lparr>prs_Responses = responses, prs_ThrottleTimeMs = throttleTimeMs, prs_NodeEndpoints = []\<rparr>)))"

definition ProduceResponse_valid :: "ProduceResponse \<Rightarrow> bool" where
  "ProduceResponse_valid m \<longleftrightarrow> (\<forall>x\<in>set (prs_Responses m). TopicProduceResponse_valid x) \<and> prs_NodeEndpoints m = []"

interpretation produceResponse: wire_codec ProduceResponse_Encode ProduceResponse_read ProduceResponse_valid
  by unfold_locales (simp_all add: ProduceResponse_Encode_def ProduceResponse_read_def ProduceResponse_valid_def Let_def appends_simps,
    (rule decodes_rbind decodes_rbind_last decodes_intros | simp)+)


end
