(* ===== verification/Kaf_GroupMsg.thy ===== *)
theory Kaf_GroupMsg
  imports Kaf_ProduceMsg
begin

text \<open>
  The messages of the group protocol (\<^verbatim>\<open>protocol/consumer/*.go\<close>). The broker decodes requests
  and encodes responses; the other direction is done by clients. For each message the missing
  half is given here by the wire format (\<open>_wire\<close> for a request, \<open>_read\<close> for a response), so that
  both are checked against each other by the \<open>wire_codec\<close> contract.
\<close>

section \<open>Finding the coordinator\<close>

record FindCoordinatorRequest =
  fcq_KeyType :: i8
  fcq_CoordinatorKeys :: "gostring list"

definition FindCoordinatorRequest_wire :: "FindCoordinatorRequest \<Rightarrow> writer \<Rightarrow> writer" where
  "FindCoordinatorRequest_wire m w =
     (let w = WriteInt8 (fcq_KeyType m) w;
          w = write_array WriteCompactString (fcq_CoordinatorKeys m) w
      in WriteEmptyTaggedFields w)"

definition FindCoordinatorRequest_Decode :: "FindCoordinatorRequest rd" where
  "FindCoordinatorRequest_Decode =
     rbind ReadInt8 (\<lambda>keyType. rbind (read_make_array ReadCompactString) (\<lambda>coordinatorKeys.
     rbind ReadTaggedFields (\<lambda>_.
     rret \<lparr>fcq_KeyType = keyType, fcq_CoordinatorKeys = coordinatorKeys\<rparr>)))"

interpretation findCoordinatorRequest: wire_codec FindCoordinatorRequest_wire FindCoordinatorRequest_Decode "\<lambda>_. True"
  by unfold_locales (simp_all add: FindCoordinatorRequest_wire_def FindCoordinatorRequest_Decode_def Let_def appends_simps,
    (rule decodes_rbind decodes_rbind_last decodes_intros | simp)+)

record Coordinator =
  co_Key :: gostring
  co_NodeID :: i32
  co_Host :: gostring
  co_Port :: i32
  co_ErrorCode :: i16
  co_ErrorMessage :: "gostring option"

definition Coordinator_Encode :: "Coordinator \<Rightarrow> writer \<Rightarrow> writer" where
  "Coordinator_Encode m w =
     (let w = WriteCompactString (co_Key m) w;
          w = WriteInt32 (co_NodeID m) w;
          w = WriteCompactString (co_Host m) w;
          w = WriteInt32 (co_Port m) w;
          w = WriteInt16 (co_ErrorCode m) w;
          w = WriteCompactNullableString (co_ErrorMessage m) w
      in WriteEmptyTaggedFields w)"

definition Coordinator_read :: "Coordinator rd" where
  "Coordinator_read =
     rbind ReadCompactString (\<lambda>key'. rbind ReadInt32 (\<lambda>nodeID.
     rbind ReadCompactString (\<lambda>host'. rbind ReadInt32 (\<lambda>port'.
     rbind ReadInt16 (\<lambda>errorCode. rbind ReadCompactNullableString (\<lambda>errorMessage.
     rbind ReadTaggedFields (\<lambda>_.
     rret \<lparr>co_Key = key', co_NodeID = nodeID, co_Host = host', co_Port = port', co_ErrorCode = errorCode,
       co_ErrorMessage = errorMessage\<rparr>)))))))"

interpretation coordinator: wire_codec Coordinator_Encode Coordinator_read "\<lambda>_. True"
  by unfold_locales (simp_all add: Coordinator_Encode_def Coordinator_read_def Let_def appends_simps,
    (rule decodes_rbind decodes_rbind_last decodes_intros | simp)+)

lemmas [appends_simps] =
  NO_MATCH_append [OF coordinator.write_array_append]

lemmas [decodes_intros] =
  coordinator.make_array_decodes

record FindCoordinatorResponse =
  fcs_ThrottleTimeMs :: i32
  fcs_Coordinators :: "Coordinator list"

definition FindCoordinatorResponse_Encode :: "FindCoordinatorResponse \<Rightarrow> writer \<Rightarrow> writer" where
  "FindCoordinatorResponse_Encode m w =
     (let w = WriteInt32 (fcs_ThrottleTimeMs m) w;
          w = write_array Coordinator_Encode (fcs_Coordinators m) w
      in WriteEmptyTaggedFields w)"

definition FindCoordinatorResponse_read :: "FindCoordinatorResponse rd" where
  "FindCoordinatorResponse_read =
     rbind ReadInt32 (\<lambda>throttleTimeMs. rbind (read_make_array Coordinator_read) (\<lambda>coordinators.
     rbind ReadTaggedFields (\<lambda>_.
     rret \<lparr>fcs_ThrottleTimeMs = throttleTimeMs, fcs_Coordinators = coordinators\<rparr>)))"

interpretation findCoordinatorResponse: wire_codec FindCoordinatorResponse_Encode FindCoordinatorResponse_read "\<lambda>_. True"
  by unfold_locales (simp_all add: FindCoordinatorResponse_Encode_def FindCoordinatorResponse_read_def Let_def appends_simps,
    (rule decodes_rbind decodes_rbind_last decodes_intros | simp)+)

section \<open>Heartbeats\<close>

record HeartbeatRequest =
  hbq_GroupID :: gostring
  hbq_GenerationID :: i32
  hbq_MemberID :: gostring
  hbq_GroupInstanceID :: "gostring option"

definition HeartbeatRequest_wire :: "HeartbeatRequest \<Rightarrow> writer \<Rightarrow> writer" where
  "HeartbeatRequest_wire m w =
     (let w = WriteCompactString (hbq_GroupID m) w;
          w = WriteInt32 (hbq_GenerationID m) w;
          w = WriteCompactString (hbq_MemberID m) w;
          w = WriteCompactNullableString (hbq_GroupInstanceID m) w
      in WriteEmptyTaggedFields w)"

definition HeartbeatRequest_Decode :: "HeartbeatRequest rd" where
  "HeartbeatRequest_Decode =
     rbind ReadCompactString (\<lambda>groupID. rbind ReadInt32 (\<lambda>generationID.
     rbind ReadCompactString (\<lambda>memberID. rbind ReadCompactNullableString (\<lambda>groupInstanceID.
     rbind ReadTaggedFields (\<lambda>_.
     rret \<lparr>hbq_GroupID = groupID, hbq_GenerationID = generationID, hbq_MemberID = memberID,
       hbq_GroupInstanceID = groupInstanceID\<rparr>)))))"

interpretation heartbeatRequest: wire_codec HeartbeatRequest_wire HeartbeatRequest_Decode "\<lambda>_. True"
  by unfold_locales (simp_all add: HeartbeatRequest_wire_def HeartbeatRequest_Decode_def Let_def appends_simps,
    (rule decodes_rbind decodes_rbind_last decodes_intros | simp)+)

record HeartbeatResponse =
  hbs_ThrottleTimeMs :: i32
  hbs_ErrorCode :: i16

definition HeartbeatResponse_Encode :: "HeartbeatResponse \<Rightarrow> writer \<Rightarrow> writer" where
  "HeartbeatResponse_Encode m w =
     (let w = WriteInt32 (hbs_ThrottleTimeMs m) w;
          w = WriteInt16 (hbs_ErrorCode m) w
      in WriteEmptyTaggedFields w)"

definition HeartbeatResponse_read :: "HeartbeatResponse rd" where
  "HeartbeatResponse_read =
     rbind ReadInt32 (\<lambda>throttleTimeMs. rbind ReadInt16 (\<lambda>errorCode.
     rbind ReadTaggedFields (\<lambda>_.
     rret \<lparr>hbs_ThrottleTimeMs = throttleTimeMs, hbs_ErrorCode = errorCode\<rparr>)))"

interpretation heartbeatResponse: wire_codec HeartbeatResponse_Encode HeartbeatResponse_read "\<lambda>_. True"
  by unfold_locales (simp_all add: HeartbeatResponse_Encode_def HeartbeatResponse_read_def Let_def appends_simps,
    (rule decodes_rbind decodes_rbind_last decodes_intros | simp)+)

section \<open>Joining\<close>

record JoinGroupProtocol =
  jgp_Name :: gostring
  jgp_Metadata :: bytes

definition JoinGroupProtocol_wire :: "JoinGroupProtocol \<Rightarrow> writer \<Rightarrow> writer" where
  "JoinGroupProtocol_wire m w =
     (let w = WriteCompactString (jgp_Name m) w;
          w = WriteCompactBytes (jgp_Metadata m) w
      in WriteEmptyTaggedFields w)"

definition JoinGroupProtocol_decode :: "JoinGroupProtocol rd" where
  "JoinGroupProtocol_decode =
     rbind ReadCompactString (\<lambda>name'. rbind ReadCompactBytes (\<lambda>metadata.
     rbind ReadTaggedFields (\<lambda>_.
     rret \<lparr>jgp_Name = name', jgp_Metadata = metadata\<rparr>)))"

interpretation joinGroupProtocol: wire_codec JoinGroupProtocol_wire JoinGroupProtocol_decode "\<lambda>_. True"
  by unfold_locales (simp_all add: JoinGroupProtocol_wire_def JoinGroupProtocol_decode_def Let_def appends_simps,
    (rule decodes_rbind decodes_rbind_last decodes_intros | simp)+)

lemmas [appends_simps] =
  NO_MATCH_append [OF joinGroupProtocol.write_array_append]

lemmas [decodes_intros] =
  joinGroupProtocol.make_array_decodes

record JoinGroupRequest =
  jgq_GroupID :: gostring
  jgq_SessionTimeoutMs :: i32
  jgq_RebalanceTimeoutMs :: i32
  jgq_MemberID :: gostring
  jgq_GroupInstanceID :: "gostring option"
  jgq_ProtocolType :: gostring
  jgq_Protocols :: "JoinGroupProtocol list"
  jgq_Reason :: "gostring option"

definition JoinGroupRequest_wire :: "JoinGroupRequest \<Rightarrow> writer \<Rightarrow> writer" where
  "JoinGroupRequest_wire m w =
     (let w = WriteCompactString (jgq_GroupID m) w;
          w = WriteInt32 (jgq_SessionTimeoutMs m) w;
          w = WriteInt32 (jgq_RebalanceTimeoutMs m) w;
          w = WriteCompactString (jgq_MemberID m) w;
          w = WriteCompactNullableString (jgq_GroupInstanceID m) w;
          w = WriteCompactString (jgq_ProtocolType m) w;
          w = write_array JoinGroupProtocol_wire (jgq_Protocols m) w;
          w = WriteCompactNullableString (jgq_Reason m) w
      in WriteEmptyTaggedFields w)"

definition JoinGroupRequest_Decode :: "JoinGroupRequest rd" where
  "JoinGroupRequest_Decode =
     rbind ReadCompactString (\<lambda>groupID. rbind ReadInt32 (\<lambda>sessionTimeoutMs.
     rbind ReadInt32 (\<lambda>rebalanceTimeoutMs. rbind ReadCompactString (\<lambda>memberID.
     rbind ReadCompactNullableString (\<lambda>groupInstanceID. rbind ReadCompactString (\<lambda>protocolType.
     rbind (read_make_array JoinGroupProtocol_decode) (\<lambda>protocols.
     rbind ReadCompactNullableString (\<lambda>reason. rbind ReadTaggedFields (\<lambda>_.
     rret \<lparr>jgq_GroupID = groupID, jgq_SessionTimeoutMs = sessionTimeoutMs,
       jgq_RebalanceTimeoutMs = rebalanceTimeoutMs, jgq_MemberID = memberID,
       jgq_GroupInstanceID = groupInstanceID, jgq_ProtocolType = protocolType, jgq_Protocols = protocols,
       jgq_Reason = reason\<rparr>)))))))))"

interpretation joinGroupRequest: wire_codec JoinGroupRequest_wire JoinGroupRequest_Decode "\<lambda>_. True"
  by unfold_locales (simp_all add: JoinGroupRequest_wire_def JoinGroupRequest_Decode_def Let_def appends_simps,
    (rule decodes_rbind decodes_rbind_last decodes_intros | simp)+)

record JoinGroupMember =
  jgm_MemberID :: gostring
  jgm_GroupInstanceID :: "gostring option"
  jgm_Metadata :: bytes

definition JoinGroupMember_Encode :: "JoinGroupMember \<Rightarrow> writer \<Rightarrow> writer" where
  "JoinGroupMember_Encode m w =
     (let w = WriteCompactString (jgm_MemberID m) w;
          w = WriteCompactNullableString (jgm_GroupInstanceID m) w;
          w = WriteCompactBytes (jgm_Metadata m) w
      in WriteEmptyTaggedFields w)"

definition JoinGroupMember_read :: "JoinGroupMember rd" where
  "JoinGroupMember_read =
     rbind ReadCompactString (\<lambda>memberID. rbind ReadCompactNullableString (\<lambda>groupInstanceID.
     rbind ReadCompactBytes (\<lambda>metadata. rbind ReadTaggedFields (\<lambda>_.
     rret \<lparr>jgm_MemberID = memberID, jgm_GroupInstanceID = groupInstanceID, jgm_Metadata = metadata\<rparr>))))"

interpretation joinGroupMember: wire_codec JoinGroupMember_Encode JoinGroupMember_read "\<lambda>_. True"
  by unfold_locales (simp_all add: JoinGroupMember_Encode_def JoinGroupMember_read_def Let_def appends_simps,
    (rule decodes_rbind decodes_rbind_last decodes_intros | simp)+)

lemmas [appends_simps] =
  NO_MATCH_append [OF joinGroupMember.write_array_append]

lemmas [decodes_intros] =
  joinGroupMember.make_array_decodes

record JoinGroupResponse =
  jgs_ThrottleTimeMs :: i32
  jgs_ErrorCode :: i16
  jgs_GenerationID :: i32
  jgs_ProtocolType :: "gostring option"
  jgs_ProtocolName :: "gostring option"
  jgs_Leader :: gostring
  jgs_SkipAssignment :: bool
  jgs_MemberID :: gostring
  jgs_Members :: "JoinGroupMember list"

definition JoinGroupResponse_Encode :: "JoinGroupResponse \<Rightarrow> writer \<Rightarrow> writer" where
  "JoinGroupResponse_Encode m w =
     (let w = WriteInt32 (jgs_ThrottleTimeMs m) w;
          w = WriteInt16 (jgs_ErrorCode m) w;
          w = WriteInt32 (jgs_GenerationID m) w;
          w = WriteCompactNullableString (jgs_ProtocolType m) w;
          w = WriteCompactNullableString (jgs_ProtocolName m) w;
          w = WriteCompactString (jgs_Leader m) w;
          w = WriteBool (jgs_SkipAssignment m) w;
          w = WriteCompactString (jgs_MemberID m) w;
          w = write_array JoinGroupMember_Encode (jgs_Members m) w
      in WriteEmptyTaggedFields w)"

definition JoinGroupResponse_read :: "JoinGroupResponse rd" where
  "JoinGroupResponse_read =
     rbind ReadInt32 (\<lambda>throttleTimeMs. rbind ReadInt16 (\<lambda>errorCode.
     rbind ReadInt32 (\<lambda>generationID. rbind ReadCompactNullableString (\<lambda>protocolType.
     rbind ReadCompactNullableString (\<lambda>protocolName. rbind ReadCompactString (\<lambda>leader'.
     rbind ReadBool (\<lambda>skipAssignment. rbind ReadCompactString (\<lambda>memberID.
     rbind (read_make_array JoinGroupMember_read) (\<lambda>members'. rbind ReadTaggedFields (\<lambda>_.
     rret \<lparr>jgs_ThrottleTimeMs = throttleTimeMs, jgs_ErrorCode = errorCode, jgs_GenerationID = generationID,
       jgs_ProtocolType = protocolType, jgs_ProtocolName = protocolName, jgs_Leader = leader',
       jgs_SkipAssignment = skipAssignment, jgs_MemberID = memberID, jgs_Members = members'\<rparr>))))))))))"

interpretation joinGroupResponse: wire_codec JoinGroupResponse_Encode JoinGroupResponse_read "\<lambda>_. True"
  by unfold_locales (simp_all add: JoinGroupResponse_Encode_def JoinGroupResponse_read_def Let_def appends_simps,
    (rule decodes_rbind decodes_rbind_last decodes_intros | simp)+)

section \<open>Leaving\<close>

record LeaveGroupMember =
  lgm_MemberID :: gostring
  lgm_GroupInstanceID :: "gostring option"
  lgm_Reason :: "gostring option"

definition LeaveGroupMember_wire :: "LeaveGroupMember \<Rightarrow> writer \<Rightarrow> writer" where
  "LeaveGroupMember_wire m w =
     (let w = WriteCompactString (lgm_MemberID m) w;
          w = WriteCompactNullableString (lgm_GroupInstanceID m) w;
          w = WriteCompactNullableString (lgm_Reason m) w
      in WriteEmptyTaggedFields w)"

definition LeaveGroupMember_decode :: "LeaveGroupMember rd" where
  "LeaveGroupMember_decode =
     rbind ReadCompactString (\<lambda>memberID. rbind ReadCompactNullableString (\<lambda>groupInstanceID.
     rbind ReadCompactNullableString (\<lambda>reason. rbind ReadTaggedFields (\<lambda>_.
     rret \<lparr>lgm_MemberID = memberID, lgm_GroupInstanceID = groupInstanceID, lgm_Reason = reason\<rparr>))))"

interpretation leaveGroupMember: wire_codec LeaveGroupMember_wire LeaveGroupMember_decode "\<lambda>_. True"
  by unfold_locales (simp_all add: LeaveGroupMember_wire_def LeaveGroupMember_decode_def Let_def appends_simps,
    (rule decodes_rbind decodes_rbind_last decodes_intros | simp)+)

lemmas [appends_simps] =
  NO_MATCH_append [OF leaveGroupMember.write_array_append]

lemmas [decodes_intros] =
  leaveGroupMember.make_array_decodes

record LeaveGroupRequest =
  lgq_GroupID :: gostring
  lgq_Members :: "LeaveGroupMember list"

definition LeaveGroupRequest_wire :: "LeaveGroupRequest \<Rightarrow> writer \<Rightarrow> writer" where
  "LeaveGroupRequest_wire m w =
     (let w = WriteCompactString (lgq_GroupID m) w;
          w = write_array LeaveGroupMember_wire (lgq_Members m) w
      in WriteEmptyTaggedFields w)"

definition LeaveGroupRequest_Decode :: "LeaveGroupRequest rd" where
  "LeaveGroupRequest_Decode =
     rbind ReadCompactString (\<lambda>groupID.
     rbind (read_make_array LeaveGroupMember_decode) (\<lambda>members'. rbind ReadTaggedFields (\<lambda>_.
     rret \<lparr>lgq_GroupID = groupID, lgq_Members = members'\<rparr>)))"

interpretation leaveGroupRequest: wire_codec LeaveGroupRequest_wire LeaveGroupRequest_Decode "\<lambda>_. True"
  by unfold_locales (simp_all add: LeaveGroupRequest_wire_def LeaveGroupRequest_Decode_def Let_def appends_simps,
    (rule decodes_rbind decodes_rbind_last decodes_intros | simp)+)

record LeaveGroupMemberResponse =
  lgmr_MemberID :: gostring
  lgmr_GroupInstanceID :: "gostring option"
  lgmr_ErrorCode :: i16

definition LeaveGroupMemberResponse_Encode :: "LeaveGroupMemberResponse \<Rightarrow> writer \<Rightarrow> writer" where
  "LeaveGroupMemberResponse_Encode m w =
     (let w = WriteCompactString (lgmr_MemberID m) w;
          w = WriteCompactNullableString (lgmr_GroupInstanceID m) w;
          w = WriteInt16 (lgmr_ErrorCode m) w
      in WriteEmptyTaggedFields w)"

definition LeaveGroupMemberResponse_read :: "LeaveGroupMemberResponse rd" where
  "LeaveGroupMemberResponse_read =
     rbind ReadCompactString (\<lambda>memberID. rbind ReadCompactNullableString (\<lambda>groupInstanceID.
     rbind ReadInt16 (\<lambda>errorCode. rbind ReadTaggedFields (\<lambda>_.
     rret \<lparr>lgmr_MemberID = memberID, lgmr_GroupInstanceID = groupInstanceID, lgmr_ErrorCode = errorCode\<rparr>))))"

interpretation leaveGroupMemberResponse: wire_codec LeaveGroupMemberResponse_Encode LeaveGroupMemberResponse_read "\<lambda>_. True"
  by unfold_locales (simp_all add: LeaveGroupMemberResponse_Encode_def LeaveGroupMemberResponse_read_def Let_def appends_simps,
    (rule decodes_rbind decodes_rbind_last decodes_intros | simp)+)

lemmas [appends_simps] =
  NO_MATCH_append [OF leaveGroupMemberResponse.write_array_append]

lemmas [decodes_intros] =
  leaveGroupMemberResponse.make_array_decodes

record LeaveGroupResponse =
  lgs_ThrottleTimeMs :: i32
  lgs_ErrorCode :: i16
  lgs_Members :: "LeaveGroupMemberResponse list"

definition LeaveGroupResponse_Encode :: "LeaveGroupResponse \<Rightarrow> writer \<Rightarrow> writer" where
  "LeaveGroupResponse_Encode m w =
     (let w = WriteInt32 (lgs_ThrottleTimeMs m) w;
          w = WriteInt16 (lgs_ErrorCode m) w;
          w = write_array LeaveGroupMemberResponse_Encode (lgs_Members m) w
      in WriteEmptyTaggedFields w)"

definition LeaveGroupResponse_read :: "LeaveGroupResponse rd" where
  "LeaveGroupResponse_read =
     rbind ReadInt32 (\<lambda>throttleTimeMs. rbind ReadInt16 (\<lambda>errorCode.
     rbind (read_make_array LeaveGroupMemberResponse_read) (\<lambda>members'.
     rbind ReadTaggedFields (\<lambda>_.
     rret \<lparr>lgs_ThrottleTimeMs = throttleTimeMs, lgs_ErrorCode = errorCode, lgs_Members = members'\<rparr>))))"

interpretation leaveGroupResponse: wire_codec LeaveGroupResponse_Encode LeaveGroupResponse_read "\<lambda>_. True"
  by unfold_locales (simp_all add: LeaveGroupResponse_Encode_def LeaveGroupResponse_read_def Let_def appends_simps,
    (rule decodes_rbind decodes_rbind_last decodes_intros | simp)+)

section \<open>Synchronising\<close>

record SyncGroupAssignment =
  sga_MemberID :: gostring
  sga_Assignment :: bytes

definition SyncGroupAssignment_wire :: "SyncGroupAssignment \<Rightarrow> writer \<Rightarrow> writer" where
  "SyncGroupAssignment_wire m w =
     (let w = WriteCompactString (sga_MemberID m) w;
          w = WriteCompactBytes (sga_Assignment m) w
      in WriteEmptyTaggedFields w)"

definition SyncGroupAssignment_decode :: "SyncGroupAssignment rd" where
  "SyncGroupAssignment_decode =
     rbind ReadCompactString (\<lambda>memberID. rbind ReadCompactBytes (\<lambda>assignment'.
     rbind ReadTaggedFields (\<lambda>_.
     rret \<lparr>sga_MemberID = memberID, sga_Assignment = assignment'\<rparr>)))"

interpretation syncGroupAssignment: wire_codec SyncGroupAssignment_wire SyncGroupAssignment_decode "\<lambda>_. True"
  by unfold_locales (simp_all add: SyncGroupAssignment_wire_def SyncGroupAssignment_decode_def Let_def appends_simps,
    (rule decodes_rbind decodes_rbind_last decodes_intros | simp)+)

lemmas [appends_simps] =
  NO_MATCH_append [OF syncGroupAssignment.write_array_append]

lemmas [decodes_intros] =
  syncGroupAssignment.make_array_decodes

record SyncGroupRequest =
  sgq_GroupID :: gostring
  sgq_GenerationID :: i32
  sgq_MemberID :: gostring
  sgq_GroupInstanceID :: "gostring option"
  sgq_ProtocolType :: "gostring option"
  sgq_ProtocolName :: "gostring option"
  sgq_Assignments :: "SyncGroupAssignment list"

definition SyncGroupRequest_wire :: "SyncGroupRequest \<Rightarrow> writer \<Rightarrow> writer" where
  "SyncGroupRequest_wire m w =
     (let w = WriteCompactString (sgq_GroupID m) w;
          w = WriteInt32 (sgq_GenerationID m) w;
          w = WriteCompactString (sgq_MemberID m) w;
          w = WriteCompactNullableString (sgq_GroupInstanceID m) w;
          w = WriteCompactNullableString (sgq_ProtocolType m) w;
          w = WriteCompactNullableString (sgq_ProtocolName m) w;
          w = write_array SyncGroupAssignment_wire (sgq_Assignments m) w
      in WriteEmptyTaggedFields w)"

definition SyncGroupRequest_Decode :: "SyncGroupRequest rd" where
  "SyncGroupRequest_Decode =
     rbind ReadCompactString (\<lambda>groupID. rbind ReadInt32 (\<lambda>generationID.
     rbind ReadCompactString (\<lambda>memberID. rbind ReadCompactNullableString (\<lambda>groupInstanceID.
     rbind ReadCompactNullableString (\<lambda>protocolType.
     rbind ReadCompactNullableString (\<lambda>protocolName.
     rbind (read_make_array SyncGroupAssignment_decode) (\<lambda>assignments.
     rbind ReadTaggedFields (\<lambda>_.
     rret \<lparr>sgq_GroupID = groupID, sgq_GenerationID = generationID, sgq_MemberID = memberID,
       sgq_GroupInstanceID = groupInstanceID, sgq_ProtocolType = protocolType, sgq_ProtocolName = protocolName,
       sgq_Assignments = assignments\<rparr>))))))))"

interpretation syncGroupRequest: wire_codec SyncGroupRequest_wire SyncGroupRequest_Decode "\<lambda>_. True"
  by unfold_locales (simp_all add: SyncGroupRequest_wire_def SyncGroupRequest_Decode_def Let_def appends_simps,
    (rule decodes_rbind decodes_rbind_last decodes_intros | simp)+)

record SyncGroupResponse =
  sgs_ThrottleTimeMs :: i32
  sgs_ErrorCode :: i16
  sgs_ProtocolType :: "gostring option"
  sgs_ProtocolName :: "gostring option"
  sgs_Assignment :: bytes

definition SyncGroupResponse_Encode :: "SyncGroupResponse \<Rightarrow> writer \<Rightarrow> writer" where
  "SyncGroupResponse_Encode m w =
     (let w = WriteInt32 (sgs_ThrottleTimeMs m) w;
          w = WriteInt16 (sgs_ErrorCode m) w;
          w = WriteCompactNullableString (sgs_ProtocolType m) w;
          w = WriteCompactNullableString (sgs_ProtocolName m) w;
          w = WriteCompactBytes (sgs_Assignment m) w
      in WriteEmptyTaggedFields w)"

definition SyncGroupResponse_read :: "SyncGroupResponse rd" where
  "SyncGroupResponse_read =
     rbind ReadInt32 (\<lambda>throttleTimeMs. rbind ReadInt16 (\<lambda>errorCode.
     rbind ReadCompactNullableString (\<lambda>protocolType.
     rbind ReadCompactNullableString (\<lambda>protocolName. rbind ReadCompactBytes (\<lambda>assignment'.
     rbind ReadTaggedFields (\<lambda>_.
     rret \<lparr>sgs_ThrottleTimeMs = throttleTimeMs, sgs_ErrorCode = errorCode, sgs_ProtocolType = protocolType,
       sgs_ProtocolName = protocolName, sgs_Assignment = assignment'\<rparr>))))))"

interpretation syncGroupResponse: wire_codec SyncGroupResponse_Encode SyncGroupResponse_read "\<lambda>_. True"
  by unfold_locales (simp_all add: SyncGroupResponse_Encode_def SyncGroupResponse_read_def Let_def appends_simps,
    (rule decodes_rbind decodes_rbind_last decodes_intros | simp)+)

section \<open>Committing offsets\<close>

record OffsetCommitPartition =
  ocp_PartitionIndex :: i32
  ocp_CommittedOffset :: i64
  ocp_CommittedLeaderEpoch :: i32
  ocp_CommittedMetadata :: "gostring option"

definition OffsetCommitPartition_wire :: "OffsetCommitPartition \<Rightarrow> writer \<Rightarrow> writer" where
  "OffsetCommitPartition_wire m w =
     (let w = WriteInt32 (ocp_PartitionIndex m) w;
          w = WriteInt64 (ocp_CommittedOffset m) w;
          w = WriteInt32 (ocp_CommittedLeaderEpoch m) w;
          w = WriteCompactNullableString (ocp_CommittedMetadata m) w
      in WriteEmptyTaggedFields w)"

definition OffsetCommitPartition_decode :: "OffsetCommitPartition rd" where
  "OffsetCommitPartition_decode =
     rbind ReadInt32 (\<lambda>partitionIndex. rbind ReadInt64 (\<lambda>committedOffset.
     rbind ReadInt32 (\<lambda>committedLeaderEpoch.
     rbind ReadCompactNullableString (\<lambda>committedMetadata. rbind ReadTaggedFields (\<lambda>_.
     rret \<lparr>ocp_PartitionIndex = partitionIndex, ocp_CommittedOffset = committedOffset,
       ocp_CommittedLeaderEpoch = committedLeaderEpoch, ocp_CommittedMetadata = committedMetadata\<rparr>)))))"

interpretation offsetCommitPartition: wire_codec OffsetCommitPartition_wire OffsetCommitPartition_decode "\<lambda>_. True"
  by unfold_locales (simp_all add: OffsetCommitPartition_wire_def OffsetCommitPartition_decode_def Let_def appends_simps,
    (rule decodes_rbind decodes_rbind_last decodes_intros | simp)+)

lemmas [appends_simps] =
  NO_MATCH_append [OF offsetCommitPartition.write_array_append]

lemmas [decodes_intros] =
  offsetCommitPartition.make_array_decodes

record OffsetCommitTopic =
  oct_Topic :: gostring
  oct_Partitions :: "OffsetCommitPartition list"

definition OffsetCommitTopic_wire :: "OffsetCommitTopic \<Rightarrow> writer \<Rightarrow> writer" where
  "OffsetCommitTopic_wire m w =
     (let w = WriteCompactString (oct_Topic m) w;
          w = write_array OffsetCommitPartition_wire (oct_Partitions m) w
      in WriteEmptyTaggedFields w)"

definition OffsetCommitTopic_decode :: "OffsetCommitTopic rd" where
  "OffsetCommitTopic_decode =
     rbind ReadCompactString (\<lambda>topic'.
     rbind (read_make_array OffsetCommitPartition_decode) (\<lambda>partitions.
     rbind ReadTaggedFields (\<lambda>_.
     rret \<lparr>oct_Topic = topic', oct_Partitions = partitions\<rparr>)))"

interpretation offsetCommitTopic: wire_codec OffsetCommitTopic_wire OffsetCommitTopic_decode "\<lambda>_. True"
  by unfold_locales (simp_all add: OffsetCommitTopic_wire_def OffsetCommitTopic_decode_def Let_def appends_simps,
    (rule decodes_rbind decodes_rbind_last decodes_intros | simp)+)

lemmas [appends_simps] =
  NO_MATCH_append [OF offsetCommitTopic.write_array_append]

lemmas [decodes_intros] =
  offsetCommitTopic.make_array_decodes

record OffsetCommitRequest =
  ocq_GroupID :: gostring
  ocq_GenerationIDOrMemberEpoch :: i32
  ocq_MemberID :: gostring
  ocq_GroupInstanceID :: "gostring option"
  ocq_Topics :: "OffsetCommitTopic list"

definition OffsetCommitRequest_wire :: "OffsetCommitRequest \<Rightarrow> writer \<Rightarrow> writer" where
  "OffsetCommitRequest_wire m w =
     (let w = WriteCompactString (ocq_GroupID m) w;
          w = WriteInt32 (ocq_GenerationIDOrMemberEpoch m) w;
          w = WriteCompactString (ocq_MemberID m) w;
          w = WriteCompactNullableString (ocq_GroupInstanceID m) w;
          w = write_array OffsetCommitTopic_wire (ocq_Topics m) w
      in WriteEmptyTaggedFields w)"

definition OffsetCommitRequest_Decode :: "OffsetCommitRequest rd" where
  "OffsetCommitRequest_Decode =
     rbind ReadCompactString (\<lambda>groupID. rbind ReadInt32 (\<lambda>generationIDOrMemberEpoch.
     rbind ReadCompactString (\<lambda>memberID. rbind ReadCompactNullableString (\<lambda>groupInstanceID.
     rbind (read_make_array OffsetCommitTopic_decode) (\<lambda>topics'. rbind ReadTaggedFields (\<lambda>_.
     rret \<lparr>ocq_GroupID = groupID, ocq_GenerationIDOrMemberEpoch = generationIDOrMemberEpoch, ocq_MemberID = memberID,
       ocq_GroupInstanceID = groupInstanceID, ocq_Topics = topics'\<rparr>))))))"

interpretation offsetCommitRequest: wire_codec OffsetCommitRequest_wire OffsetCommitRequest_Decode "\<lambda>_. True"
  by unfold_locales (simp_all add: OffsetCommitRequest_wire_def OffsetCommitRequest_Decode_def Let_def appends_simps,
    (rule decodes_rbind decodes_rbind_last decodes_intros | simp)+)

record OffsetCommitResponsePartition =
  ocrp_PartitionIndex :: i32
  ocrp_ErrorCode :: i16

definition OffsetCommitResponsePartition_Encode :: "OffsetCommitResponsePartition \<Rightarrow> writer \<Rightarrow> writer" where
  "OffsetCommitResponsePartition_Encode m w =
     (let w = WriteInt32 (ocrp_PartitionIndex m) w;
          w = WriteInt16 (ocrp_ErrorCode m) w
      in WriteEmptyTaggedFields w)"

definition OffsetCommitResponsePartition_read :: "OffsetCommitResponsePartition rd" where
  "OffsetCommitResponsePartition_read =
     rbind ReadInt32 (\<lambda>partitionIndex. rbind ReadInt16 (\<lambda>errorCode.
     rbind ReadTaggedFields (\<lambda>_.
     rret \<lparr>ocrp_PartitionIndex = partitionIndex, ocrp_ErrorCode = errorCode\<rparr>)))"

interpretation offsetCommitResponsePartition: wire_codec OffsetCommitResponsePartition_Encode OffsetCommitResponsePartition_read "\<lambda>_. True"
  by unfold_locales (simp_all add: OffsetCommitResponsePartition_Encode_def OffsetCommitResponsePartition_read_def Let_def appends_simps,
    (rule decodes_rbind decodes_rbind_last decodes_intros | simp)+)

lemmas [appends_simps] =
  NO_MATCH_append [OF offsetCommitResponsePartition.write_array_append]

lemmas [decodes_intros] =
  offsetCommitResponsePartition.make_array_decodes

record OffsetCommitResponseTopic =
  ocrt_Topic :: gostring
  ocrt_Partitions :: "OffsetCommitResponsePartition list"

definition OffsetCommitResponseTopic_Encode :: "OffsetCommitResponseTopic \<Rightarrow> writer \<Rightarrow> writer" where
  "OffsetCommitResponseTopic_Encode m w =
     (let w = WriteCompactString (ocrt_Topic m) w;
          w = write_array OffsetCommitResponsePartition_Encode (ocrt_Partitions m) w
      in WriteEmptyTaggedFields w)"

definition OffsetCommitResponseTopic_read :: "OffsetCommitResponseTopic rd" where
  "OffsetCommitResponseTopic_read =
     rbind ReadCompactString (\<lambda>topic'.
     rbind (read_make_array OffsetCommitResponsePartition_read) (\<lambda>partitions.
     rbind ReadTaggedFields (\<lambda>_.
     rret \<lparr>ocrt_Topic = topic', ocrt_Partitions = partitions\<rparr>)))"

interpretation offsetCommitResponseTopic: wire_codec OffsetCommitResponseTopic_Encode OffsetCommitResponseTopic_read "\<lambda>_. True"
  by unfold_locales (simp_all add: OffsetCommitResponseTopic_Encode_def OffsetCommitResponseTopic_read_def Let_def appends_simps,
    (rule decodes_rbind decodes_rbind_last decodes_intros | simp)+)

lemmas [appends_simps] =
  NO_MATCH_append [OF offsetCommitResponseTopic.write_array_append]

lemmas [decodes_intros] =
  offsetCommitResponseTopic.make_array_decodes

record OffsetCommitResponse =
  ocs_ThrottleTimeMs :: i32
  ocs_Topics :: "OffsetCommitResponseTopic list"

definition OffsetCommitResponse_Encode :: "OffsetCommitResponse \<Rightarrow> writer \<Rightarrow> writer" where
  "OffsetCommitResponse_Encode m w =
     (let w = WriteInt32 (ocs_ThrottleTimeMs m) w;
          w = write_array OffsetCommitResponseTopic_Encode (ocs_Topics m) w
      in WriteEmptyTaggedFields w)"

definition OffsetCommitResponse_read :: "OffsetCommitResponse rd" where
  "OffsetCommitResponse_read =
     rbind ReadInt32 (\<lambda>throttleTimeMs.
     rbind (read_make_array OffsetCommitResponseTopic_read) (\<lambda>topics'.
     rbind ReadTaggedFields (\<lambda>_.
     rret \<lparr>ocs_ThrottleTimeMs = throttleTimeMs, ocs_Topics = topics'\<rparr>)))"

interpretation offsetCommitResponse: wire_codec OffsetCommitResponse_Encode OffsetCommitResponse_read "\<lambda>_. True"
  by unfold_locales (simp_all add: OffsetCommitResponse_Encode_def OffsetCommitResponse_read_def Let_def appends_simps,
    (rule decodes_rbind decodes_rbind_last decodes_intros | simp)+)

section \<open>Fetching offsets\<close>

record OffsetFetchTopic =
  oft_Topic :: gostring
  oft_PartitionIndexes :: "i32 list"

definition OffsetFetchTopic_wire :: "OffsetFetchTopic \<Rightarrow> writer \<Rightarrow> writer" where
  "OffsetFetchTopic_wire m w =
     (let w = WriteCompactString (oft_Topic m) w;
          w = write_array WriteInt32 (oft_PartitionIndexes m) w
      in WriteEmptyTaggedFields w)"

definition OffsetFetchTopic_decode :: "OffsetFetchTopic rd" where
  "OffsetFetchTopic_decode =
     rbind ReadCompactString (\<lambda>topic'. rbind (read_make_array ReadInt32) (\<lambda>partitionIndexes.
     rbind ReadTaggedFields (\<lambda>_.
     rret \<lparr>oft_Topic = topic', oft_PartitionIndexes = partitionIndexes\<rparr>)))"

interpretation offsetFetchTopic: wire_codec OffsetFetchTopic_wire OffsetFetchTopic_decode "\<lambda>_. True"
  by unfold_locales (simp_all add: OffsetFetchTopic_wire_def OffsetFetchTopic_decode_def Let_def appends_simps,
    (rule decodes_rbind decodes_rbind_last decodes_intros | simp)+)

lemmas [appends_simps] =
  NO_MATCH_append [OF offsetFetchTopic.write_array_append]

lemmas [decodes_intros] =
  offsetFetchTopic.make_array_decodes

record OffsetFetchGroup =
  ofg_GroupID :: gostring
  ofg_Topics :: "OffsetFetchTopic list"

definition OffsetFetchGroup_wire :: "OffsetFetchGroup \<Rightarrow> writer \<Rightarrow> writer" where
  "OffsetFetchGroup_wire m w =
     (let w = WriteCompactString (ofg_GroupID m) w;
          w = write_array OffsetFetchTopic_wire (ofg_Topics m) w
      in WriteEmptyTaggedFields w)"

definition OffsetFetchGroup_decode :: "OffsetFetchGroup rd" where
  "OffsetFetchGroup_decode =
     rbind ReadCompactString (\<lambda>groupID.
     rbind (read_make_array OffsetFetchTopic_decode) (\<lambda>topics'. rbind ReadTaggedFields (\<lambda>_.
     rret \<lparr>ofg_GroupID = groupID, ofg_Topics = topics'\<rparr>)))"

interpretation offsetFetchGroup: wire_codec OffsetFetchGroup_wire OffsetFetchGroup_decode "\<lambda>_. True"
  by unfold_locales (simp_all add: OffsetFetchGroup_wire_def OffsetFetchGroup_decode_def Let_def appends_simps,
    (rule decodes_rbind decodes_rbind_last decodes_intros | simp)+)

lemmas [appends_simps] =
  NO_MATCH_append [OF offsetFetchGroup.write_array_append]

lemmas [decodes_intros] =
  offsetFetchGroup.make_array_decodes

record OffsetFetchRequest =
  ofq_Groups :: "OffsetFetchGroup list"
  ofq_RequireStable :: bool

definition OffsetFetchRequest_wire :: "OffsetFetchRequest \<Rightarrow> writer \<Rightarrow> writer" where
  "OffsetFetchRequest_wire m w =
     (let w = write_array OffsetFetchGroup_wire (ofq_Groups m) w;
          w = WriteBool (ofq_RequireStable m) w
      in WriteEmptyTaggedFields w)"

definition OffsetFetchRequest_Decode :: "OffsetFetchRequest rd" where
  "OffsetFetchRequest_Decode =
     rbind (read_make_array OffsetFetchGroup_decode) (\<lambda>groups. rbind ReadBool (\<lambda>requireStable.
     rbind ReadTaggedFields (\<lambda>_.
     rret \<lparr>ofq_Groups = groups, ofq_RequireStable = requireStable\<rparr>)))"

interpretation offsetFetchRequest: wire_codec OffsetFetchRequest_wire OffsetFetchRequest_Decode "\<lambda>_. True"
  by unfold_locales (simp_all add: OffsetFetchRequest_wire_def OffsetFetchRequest_Decode_def Let_def appends_simps,
    (rule decodes_rbind decodes_rbind_last decodes_intros | simp)+)

record OffsetFetchResponsePartition =
  ofrp_PartitionIndex :: i32
  ofrp_CommittedOffset :: i64
  ofrp_CommittedLeaderEpoch :: i32
  ofrp_Metadata :: "gostring option"
  ofrp_ErrorCode :: i16

definition OffsetFetchResponsePartition_Encode :: "OffsetFetchResponsePartition \<Rightarrow> writer \<Rightarrow> writer" where
  "OffsetFetchResponsePartition_Encode m w =
     (let w = WriteInt32 (ofrp_PartitionIndex m) w;
          w = WriteInt64 (ofrp_CommittedOffset m) w;
          w = WriteInt32 (ofrp_CommittedLeaderEpoch m) w;
          w = WriteCompactNullableString (ofrp_Metadata m) w;
          w = WriteInt16 (ofrp_ErrorCode m) w
      in WriteEmptyTaggedFields w)"

definition OffsetFetchResponsePartition_read :: "OffsetFetchResponsePartition rd" where
  "OffsetFetchResponsePartition_read =
     rbind ReadInt32 (\<lambda>partitionIndex. rbind ReadInt64 (\<lambda>committedOffset.
     rbind ReadInt32 (\<lambda>committedLeaderEpoch. rbind ReadCompactNullableString (\<lambda>metadata.
     rbind ReadInt16 (\<lambda>errorCode. rbind ReadTaggedFields (\<lambda>_.
     rret \<lparr>ofrp_PartitionIndex = partitionIndex, ofrp_CommittedOffset = committedOffset,
       ofrp_CommittedLeaderEpoch = committedLeaderEpoch, ofrp_Metadata = metadata, ofrp_ErrorCode = errorCode\<rparr>))))))"

interpretation offsetFetchResponsePartition: wire_codec OffsetFetchResponsePartition_Encode OffsetFetchResponsePartition_read "\<lambda>_. True"
  by unfold_locales (simp_all add: OffsetFetchResponsePartition_Encode_def OffsetFetchResponsePartition_read_def Let_def appends_simps,
    (rule decodes_rbind decodes_rbind_last decodes_intros | simp)+)

lemmas [appends_simps] =
  NO_MATCH_append [OF offsetFetchResponsePartition.write_array_append]

lemmas [decodes_intros] =
  offsetFetchResponsePartition.make_array_decodes

record OffsetFetchResponseTopic =
  ofrt_Topic :: gostring
  ofrt_Partitions :: "OffsetFetchResponsePartition list"

definition OffsetFetchResponseTopic_Encode :: "OffsetFetchResponseTopic \<Rightarrow> writer \<Rightarrow> writer" where
  "OffsetFetchResponseTopic_Encode m w =
     (let w = WriteCompactString (ofrt_Topic m) w;
          w = write_array OffsetFetchResponsePartition_Encode (ofrt_Partitions m) w
      in WriteEmptyTaggedFields w)"

definition OffsetFetchResponseTopic_read :: "OffsetFetchResponseTopic rd" where
  "OffsetFetchResponseTopic_read =
     rbind ReadCompactString (\<lambda>topic'.
     rbind (read_make_array OffsetFetchResponsePartition_read) (\<lambda>partitions.
     rbind ReadTaggedFields (\<lambda>_.
     rret \<lparr>ofrt_Topic = topic', ofrt_Partitions = partitions\<rparr>)))"

interpretation offsetFetchResponseTopic: wire_codec OffsetFetchResponseTopic_Encode OffsetFetchResponseTopic_read "\<lambda>_. True"
  by unfold_locales (simp_all add: OffsetFetchResponseTopic_Encode_def OffsetFetchResponseTopic_read_def Let_def appends_simps,
    (rule decodes_rbind decodes_rbind_last decodes_intros | simp)+)

lemmas [appends_simps] =
  NO_MATCH_append [OF offsetFetchResponseTopic.write_array_append]

lemmas [decodes_intros] =
  offsetFetchResponseTopic.make_array_decodes

record OffsetFetchResponseGroup =
  ofrg_GroupID :: gostring
  ofrg_Topics :: "OffsetFetchResponseTopic list"
  ofrg_ErrorCode :: i16

definition OffsetFetchResponseGroup_Encode :: "OffsetFetchResponseGroup \<Rightarrow> writer \<Rightarrow> writer" where
  "OffsetFetchResponseGroup_Encode m w =
     (let w = WriteCompactString (ofrg_GroupID m) w;
          w = write_array OffsetFetchResponseTopic_Encode (ofrg_Topics m) w;
          w = WriteInt16 (ofrg_ErrorCode m) w
      in WriteEmptyTaggedFields w)"

definition OffsetFetchResponseGroup_read :: "OffsetFetchResponseGroup rd" where
  "OffsetFetchResponseGroup_read =
     rbind ReadCompactString (\<lambda>groupID.
     rbind (read_make_array OffsetFetchResponseTopic_read) (\<lambda>topics'.
     rbind ReadInt16 (\<lambda>errorCode. rbind ReadTaggedFields (\<lambda>_.
     rret \<lparr>ofrg_GroupID = groupID, ofrg_Topics = topics', ofrg_ErrorCode = errorCode\<rparr>))))"

interpretation offsetFetchResponseGroup: wire_codec OffsetFetchResponseGroup_Encode OffsetFetchResponseGroup_read "\<lambda>_. True"
  by unfold_locales (simp_all add: OffsetFetchResponseGroup_Encode_def OffsetFetchResponseGroup_read_def Let_def appends_simps,
    (rule decodes_rbind decodes_rbind_last decodes_intros | simp)+)

lemmas [appends_simps] =
  NO_MATCH_append [OF offsetFetchResponseGroup.write_array_append]

lemmas [decodes_intros] =
  offsetFetchResponseGroup.make_array_decodes

record OffsetFetchResponse =
  ofs_ThrottleTimeMs :: i32
  ofs_Groups :: "OffsetFetchResponseGroup list"

definition OffsetFetchResponse_Encode :: "OffsetFetchResponse \<Rightarrow> writer \<Rightarrow> writer" where
  "OffsetFetchResponse_Encode m w =
     (let w = WriteInt32 (ofs_ThrottleTimeMs m) w;
          w = write_array OffsetFetchResponseGroup_Encode (ofs_Groups m) w
      in WriteEmptyTaggedFields w)"

definition OffsetFetchResponse_read :: "OffsetFetchResponse rd" where
  "OffsetFetchResponse_read =
     rbind ReadInt32 (\<lambda>throttleTimeMs.
     rbind (read_make_array OffsetFetchResponseGroup_read) (\<lambda>groups. rbind ReadTaggedFields (\<lambda>_.
     rret \<lparr>ofs_ThrottleTimeMs = throttleTimeMs, ofs_Groups = groups\<rparr>)))"

interpretation offsetFetchResponse: wire_codec OffsetFetchResponse_Encode OffsetFetchResponse_read "\<lambda>_. True"
  by unfold_locales (simp_all add: OffsetFetchResponse_Encode_def OffsetFetchResponse_read_def Let_def appends_simps,
    (rule decodes_rbind decodes_rbind_last decodes_intros | simp)+)

end
