(* ===== verification/Kaf_FetchMsg.thy ===== *)
theory Kaf_FetchMsg
  imports Kaf_GroupMsg
begin

text \<open>
  Fetch requests and responses (\<^verbatim>\<open>protocol/fetch/*.go\<close>), with their tagged fields. The text an
  error is wrapped in is left out.
\<close>

declare WriteUVarInt_0 [simp del]

section \<open>Requests\<close>

record ReplicaState =
  rst_ReplicaId :: i32
  rst_ReplicaEpoch :: i64

record FetchPartition =
  fp_Partition :: i32
  fp_CurrentLeaderEpoch :: i32
  fp_FetchOffset :: i64
  fp_LastFetchedEpoch :: i32
  fp_LogStartOffset :: i64
  fp_PartitionMaxBytes :: i32
  fp_ReplicaDirectoryId :: "bytes option"
  fp_HighWatermark :: "i64 option"

definition FetchPartition_encodeTaggedFields :: "FetchPartition \<Rightarrow> writer \<Rightarrow> writer" where
  "FetchPartition_encodeTaggedFields p w =
     (let count = (if fp_ReplicaDirectoryId p \<noteq> None then 1 else 0) + (if fp_HighWatermark p \<noteq> None then 1 else 0);
          w = WriteUVarInt count w;
          w = (case fp_ReplicaDirectoryId p of
                 None \<Rightarrow> w | Some dir \<Rightarrow> WriteUUID dir (WriteUVarInt 16 (WriteUVarInt 0 w)))
      in case fp_HighWatermark p of
           None \<Rightarrow> w | Some hw \<Rightarrow> WriteInt64 hw (WriteUVarInt 8 (WriteUVarInt 1 w)))"

definition FetchPartition_encode :: "FetchPartition \<Rightarrow> writer \<Rightarrow> writer" where
  "FetchPartition_encode p w =
     (let w = WriteInt32 (fp_Partition p) w;
          w = WriteInt32 (fp_CurrentLeaderEpoch p) w;
          w = WriteInt64 (fp_FetchOffset p) w;
          w = WriteInt32 (fp_LastFetchedEpoch p) w;
          w = WriteInt64 (fp_LogStartOffset p) w;
          w = WriteInt32 (fp_PartitionMaxBytes p) w
      in FetchPartition_encodeTaggedFields p w)"

text \<open>The loop over the tagged fields; an unknown tag is skipped with \<^verbatim>\<open>ReadRawBytes\<close>.\<close>

primrec partition_tags :: "nat \<Rightarrow> FetchPartition \<Rightarrow> FetchPartition rd" where
  "partition_tags 0 p = rret p"
| "partition_tags (Suc n) p =
     rbind ReadUVarInt (\<lambda>tag. rbind ReadUVarInt (\<lambda>size.
     if tag = 0 then rbind ReadUUID (\<lambda>dir. partition_tags n (p\<lparr>fp_ReplicaDirectoryId := Some dir\<rparr>))
     else if tag = 1 then rbind ReadInt64 (\<lambda>hw. partition_tags n (p\<lparr>fp_HighWatermark := Some hw\<rparr>))
     else rbind (ReadRawBytes (sint size)) (\<lambda>_. partition_tags n p)))"

definition FetchPartition_decodeTaggedFields :: "FetchPartition \<Rightarrow> FetchPartition rd" where
  "FetchPartition_decodeTaggedFields p = rbind ReadUVarInt (\<lambda>count. partition_tags (unat count) p)"

definition FetchPartition_decode :: "FetchPartition rd" where
  "FetchPartition_decode =
     rbind ReadInt32 (\<lambda>part. rbind ReadInt32 (\<lambda>currentLeaderEpoch. rbind ReadInt64 (\<lambda>fetchOffset.
     rbind ReadInt32 (\<lambda>lastFetchedEpoch. rbind ReadInt64 (\<lambda>logStartOffset. rbind ReadInt32 (\<lambda>partitionMaxBytes.
     FetchPartition_decodeTaggedFields
       \<lparr>fp_Partition = part, fp_CurrentLeaderEpoch = currentLeaderEpoch, fp_FetchOffset = fetchOffset,
        fp_LastFetchedEpoch = lastFetchedEpoch, fp_LogStartOffset = logStartOffset,
        fp_PartitionMaxBytes = partitionMaxBytes, fp_ReplicaDirectoryId = None, fp_HighWatermark = None\<rparr>))))))"

definition FetchPartition_valid :: "FetchPartition \<Rightarrow> bool" where
  "FetchPartition_valid p \<longleftrightarrow> (case fp_ReplicaDirectoryId p of None \<Rightarrow> True | Some dir \<Rightarrow> length dir = 16)"

lemma uvarint_bind: "decodes (f v) bs x \<Longrightarrow> decodes (rbind ReadUVarInt f) (WriteUVarInt v [] @ bs) x"
  by (rule decodes_rbind [OF uvarint.rd_wr]) simp_all

lemma FetchPartition_tags_append:
  "FetchPartition_encodeTaggedFields p w = w @ FetchPartition_encodeTaggedFields p []"
  by (simp add: FetchPartition_encodeTaggedFields_def Let_def appends_simps split: option.splits)

lemma partition_tags_2: "partition_tags 2 = partition_tags (Suc (Suc 0))"
  by (simp only: numeral_2_eq_2)

lemma FetchPartition_tags_decodes:
  assumes "FetchPartition_valid p"
  shows "decodes (FetchPartition_decodeTaggedFields (p\<lparr>fp_ReplicaDirectoryId := None, fp_HighWatermark := None\<rparr>))
    (FetchPartition_encodeTaggedFields p []) p"
  using assms
  by (cases "fp_ReplicaDirectoryId p"; cases "fp_HighWatermark p")
       (simp_all add: FetchPartition_valid_def FetchPartition_decodeTaggedFields_def FetchPartition_encodeTaggedFields_def
          Let_def appends_simps,
        (rule uvarint_bind decodes_rbind decodes_rbind_last decodes_intros | simp add: partition_tags_2)+)

lemmas [appends_simps] = NO_MATCH_append [OF FetchPartition_tags_append]

interpretation fetchPartition: wire_codec FetchPartition_encode FetchPartition_decode FetchPartition_valid
proof
  show "FetchPartition_encode x w = w @ FetchPartition_encode x []" for x w
    by (simp add: FetchPartition_encode_def Let_def appends_simps)
  show "FetchPartition_encode x [] \<noteq> []" for x
    by (simp add: FetchPartition_encode_def Let_def appends_simps WriteInt32_def)
  show "decodes FetchPartition_decode (FetchPartition_encode x []) x" if "FetchPartition_valid x" for x
    unfolding FetchPartition_decode_def FetchPartition_encode_def using FetchPartition_tags_decodes [OF that]
    by (cases x) (simp add: Let_def appends_simps, (rule decodes_rbind decodes_intros | simp)+)
qed

lemmas [appends_simps] = NO_MATCH_append [OF fetchPartition.write_array_append]
lemmas [decodes_intros] = fetchPartition.make_array_decodes

record FetchTopic =
  ft_TopicId :: bytes
  ft_Partitions :: "FetchPartition list"

definition FetchTopic_encode :: "FetchTopic \<Rightarrow> writer \<Rightarrow> writer" where
  "FetchTopic_encode m w =
     (let w = WriteUUID (ft_TopicId m) w;
          w = write_array FetchPartition_encode (ft_Partitions m) w
      in WriteEmptyTaggedFields w)"

definition FetchTopic_decode :: "FetchTopic rd" where
  "FetchTopic_decode =
     rbind ReadUUID (\<lambda>topicId. rbind (read_make_array FetchPartition_decode) (\<lambda>partitions.
     rbind ReadTaggedFields (\<lambda>_.
     rret \<lparr>ft_TopicId = topicId, ft_Partitions = partitions\<rparr>)))"

definition FetchTopic_valid :: "FetchTopic \<Rightarrow> bool" where
  "FetchTopic_valid m \<longleftrightarrow> length (ft_TopicId m) = 16 \<and> (\<forall>x\<in>set (ft_Partitions m). FetchPartition_valid x)"

interpretation fetchTopic: wire_codec FetchTopic_encode FetchTopic_decode FetchTopic_valid
  by unfold_locales (simp_all add: FetchTopic_encode_def FetchTopic_decode_def FetchTopic_valid_def Let_def appends_simps,
    (rule decodes_rbind decodes_rbind_last decodes_intros | simp)+)

record ForgottenTopic =
  fgt_TopicId :: bytes
  fgt_Partitions :: "i32 list"

definition ForgottenTopic_encode :: "ForgottenTopic \<Rightarrow> writer \<Rightarrow> writer" where
  "ForgottenTopic_encode m w =
     (let w = WriteUUID (fgt_TopicId m) w;
          w = write_array WriteInt32 (fgt_Partitions m) w
      in WriteEmptyTaggedFields w)"

definition ForgottenTopic_decode :: "ForgottenTopic rd" where
  "ForgottenTopic_decode =
     rbind ReadUUID (\<lambda>topicId. rbind (read_make_array ReadInt32) (\<lambda>partitions.
     rbind ReadTaggedFields (\<lambda>_.
     rret \<lparr>fgt_TopicId = topicId, fgt_Partitions = partitions\<rparr>)))"

definition ForgottenTopic_valid :: "ForgottenTopic \<Rightarrow> bool" where
  "ForgottenTopic_valid m \<longleftrightarrow> length (fgt_TopicId m) = 16"

interpretation forgottenTopic: wire_codec ForgottenTopic_encode ForgottenTopic_decode ForgottenTopic_valid
  by unfold_locales (simp_all add: ForgottenTopic_encode_def ForgottenTopic_decode_def ForgottenTopic_valid_def Let_def appends_simps,
    (rule decodes_rbind decodes_rbind_last decodes_intros | simp)+)

lemmas [appends_simps] =
  NO_MATCH_append [OF fetchTopic.write_array_append] NO_MATCH_append [OF forgottenTopic.write_array_append]
lemmas [decodes_intros] = fetchTopic.make_array_decodes forgottenTopic.make_array_decodes

record FetchRequest =
  fq_MaxWaitMs :: i32
  fq_MinBytes :: i32
  fq_MaxBytes :: i32
  fq_IsolationLevel :: i8
  fq_SessionId :: i32
  fq_SessionEpoch :: i32
  fq_Topics :: "FetchTopic list"
  fq_ForgottenTopics :: "ForgottenTopic list"
  fq_RackId :: gostring
  fq_ClusterId :: "gostring option"
  fq_ReplicaState :: "ReplicaState option"

definition FetchRequest_encodeTaggedFields :: "FetchRequest \<Rightarrow> writer \<Rightarrow> writer" where
  "FetchRequest_encodeTaggedFields f w =
     (let count = (if fq_ClusterId f \<noteq> None then 1 else 0) + (if fq_ReplicaState f \<noteq> None then 1 else 0);
          w = WriteUVarInt count w;
          w = (case fq_ClusterId f of
                 None \<Rightarrow> w
               | Some s \<Rightarrow>
                   let size = UVarIntSize (of_nat (length s + 1)) + length s in
                   WriteCompactNullableString (fq_ClusterId f) (WriteUVarInt (of_nat size) (WriteUVarInt 0 w)))
      in case fq_ReplicaState f of
           None \<Rightarrow> w
         | Some rs \<Rightarrow>
             WriteInt64 (rst_ReplicaEpoch rs) (WriteInt32 (rst_ReplicaId rs) (WriteUVarInt 12 (WriteUVarInt 1 w))))"

definition FetchRequest_Encode :: "FetchRequest \<Rightarrow> writer \<Rightarrow> writer" where
  "FetchRequest_Encode f w =
     (let w = WriteInt32 (fq_MaxWaitMs f) w;
          w = WriteInt32 (fq_MinBytes f) w;
          w = WriteInt32 (fq_MaxBytes f) w;
          w = WriteInt8 (fq_IsolationLevel f) w;
          w = WriteInt32 (fq_SessionId f) w;
          w = WriteInt32 (fq_SessionEpoch f) w;
          w = write_array FetchTopic_encode (fq_Topics f) w;
          w = write_array ForgottenTopic_encode (fq_ForgottenTopics f) w;
          w = WriteCompactString (fq_RackId f) w
      in FetchRequest_encodeTaggedFields f w)"

primrec request_tags :: "nat \<Rightarrow> FetchRequest \<Rightarrow> FetchRequest rd" where
  "request_tags 0 f = rret f"
| "request_tags (Suc n) f =
     rbind ReadUVarInt (\<lambda>tag. rbind ReadUVarInt (\<lambda>size.
     if tag = 0 then rbind ReadCompactNullableString (\<lambda>c. request_tags n (f\<lparr>fq_ClusterId := c\<rparr>))
     else if tag = 1 then
       rbind ReadInt32 (\<lambda>replicaId. rbind ReadInt64 (\<lambda>replicaEpoch.
       request_tags n (f\<lparr>fq_ReplicaState := Some \<lparr>rst_ReplicaId = replicaId, rst_ReplicaEpoch = replicaEpoch\<rparr>\<rparr>)))
     else rbind (ReadRawBytes (sint size)) (\<lambda>_. request_tags n f)))"

definition FetchRequest_decodeTaggedFields :: "FetchRequest \<Rightarrow> FetchRequest rd" where
  "FetchRequest_decodeTaggedFields f = rbind ReadUVarInt (\<lambda>count. request_tags (unat count) f)"

definition FetchRequest_Decode :: "FetchRequest rd" where
  "FetchRequest_Decode =
     rbind ReadInt32 (\<lambda>maxWaitMs. rbind ReadInt32 (\<lambda>minBytes. rbind ReadInt32 (\<lambda>maxBytes. rbind ReadInt8 (\<lambda>isolationLevel.
     rbind ReadInt32 (\<lambda>sessionId. rbind ReadInt32 (\<lambda>sessionEpoch.
     rbind (read_make_array FetchTopic_decode) (\<lambda>topics'. rbind (read_make_array ForgottenTopic_decode) (\<lambda>forgottenTopics.
     rbind ReadCompactString (\<lambda>rackId.
     FetchRequest_decodeTaggedFields
       \<lparr>fq_MaxWaitMs = maxWaitMs, fq_MinBytes = minBytes, fq_MaxBytes = maxBytes, fq_IsolationLevel = isolationLevel,
        fq_SessionId = sessionId, fq_SessionEpoch = sessionEpoch, fq_Topics = topics', fq_ForgottenTopics = forgottenTopics,
        fq_RackId = rackId, fq_ClusterId = None, fq_ReplicaState = None\<rparr>)))))))))"

definition FetchRequest_valid :: "FetchRequest \<Rightarrow> bool" where
  "FetchRequest_valid f \<longleftrightarrow> (\<forall>t\<in>set (fq_Topics f). FetchTopic_valid t) \<and> (\<forall>t\<in>set (fq_ForgottenTopics f). ForgottenTopic_valid t)"

lemma FetchRequest_tags_append:
  "FetchRequest_encodeTaggedFields p w = w @ FetchRequest_encodeTaggedFields p []"
  by (simp add: FetchRequest_encodeTaggedFields_def Let_def appends_simps split: option.splits)

lemma request_tags_2: "request_tags 2 = request_tags (Suc (Suc 0))"
  by (simp only: numeral_2_eq_2)

lemma FetchRequest_tags_decodes:
  "decodes (FetchRequest_decodeTaggedFields (f\<lparr>fq_ClusterId := None, fq_ReplicaState := None\<rparr>))
    (FetchRequest_encodeTaggedFields f []) f"
  by (cases "fq_ClusterId f"; cases "fq_ReplicaState f")
       (simp_all add: FetchRequest_decodeTaggedFields_def FetchRequest_encodeTaggedFields_def
          Let_def appends_simps,
        (rule uvarint_bind decodes_rbind decodes_rbind_last decodes_intros | simp add: request_tags_2)+)

lemmas [appends_simps] = NO_MATCH_append [OF FetchRequest_tags_append]

interpretation fetchRequest: wire_codec FetchRequest_Encode FetchRequest_Decode FetchRequest_valid
proof
  show "FetchRequest_Encode x w = w @ FetchRequest_Encode x []" for x w
    by (simp add: FetchRequest_Encode_def Let_def appends_simps)
  show "FetchRequest_Encode x [] \<noteq> []" for x
    by (simp add: FetchRequest_Encode_def Let_def appends_simps WriteInt32_def)
  show "decodes FetchRequest_Decode (FetchRequest_Encode x []) x" if "FetchRequest_valid x" for x
    using that FetchRequest_tags_decodes [of x] unfolding FetchRequest_Decode_def FetchRequest_Encode_def FetchRequest_valid_def
    by (cases x) (simp add: Let_def appends_simps, (rule decodes_rbind decodes_intros | simp)+)
qed

section \<open>Responses\<close>

record AbortedTransaction =
  abt_ProducerId :: i64
  abt_FirstOffset :: i64

definition AbortedTransaction_encode :: "AbortedTransaction \<Rightarrow> writer \<Rightarrow> writer" where
  "AbortedTransaction_encode m w =
     (let w = WriteInt64 (abt_ProducerId m) w;
          w = WriteInt64 (abt_FirstOffset m) w
      in WriteEmptyTaggedFields w)"

definition AbortedTransaction_decode :: "AbortedTransaction rd" where
  "AbortedTransaction_decode =
     rbind ReadInt64 (\<lambda>producerId. rbind ReadInt64 (\<lambda>firstOffset.
     rbind ReadTaggedFields (\<lambda>_.
     rret \<lparr>abt_ProducerId = producerId, abt_FirstOffset = firstOffset\<rparr>)))"

interpretation abortedTransaction: wire_codec AbortedTransaction_encode AbortedTransaction_decode "\<lambda>_. True"
  by unfold_locales (simp_all add: AbortedTransaction_encode_def AbortedTransaction_decode_def Let_def appends_simps,
    (rule decodes_rbind decodes_rbind_last decodes_intros | simp)+)

record NodeEndpoint =
  fne_NodeId :: i32
  fne_Host :: gostring
  fne_Port :: i32
  fne_Rack :: "gostring option"

definition NodeEndpoint_encode :: "NodeEndpoint \<Rightarrow> writer \<Rightarrow> writer" where
  "NodeEndpoint_encode m w =
     (let w = WriteInt32 (fne_NodeId m) w;
          w = WriteCompactString (fne_Host m) w;
          w = WriteInt32 (fne_Port m) w;
          w = WriteCompactNullableString (fne_Rack m) w
      in WriteEmptyTaggedFields w)"

definition NodeEndpoint_read :: "NodeEndpoint rd" where
  "NodeEndpoint_read =
     rbind ReadInt32 (\<lambda>nodeId. rbind ReadCompactString (\<lambda>host'. rbind ReadInt32 (\<lambda>port'.
     rbind ReadCompactNullableString (\<lambda>rack. rbind ReadTaggedFields (\<lambda>_.
     rret \<lparr>fne_NodeId = nodeId, fne_Host = host', fne_Port = port', fne_Rack = rack\<rparr>)))))"

interpretation nodeEndpoint: wire_codec NodeEndpoint_encode NodeEndpoint_read "\<lambda>_. True"
  by unfold_locales (simp_all add: NodeEndpoint_encode_def NodeEndpoint_read_def Let_def appends_simps,
    (rule decodes_rbind decodes_rbind_last decodes_intros | simp)+)

lemmas [appends_simps] =
  NO_MATCH_append [OF abortedTransaction.write_array_append] NO_MATCH_append [OF nodeEndpoint.write_array_append]
lemmas [decodes_intros] = abortedTransaction.append_array_decodes

record DivergingEpoch =
  dve_Epoch :: i32
  dve_EndOffset :: i64

record CurrentLeader =
  cld_LeaderId :: i32
  cld_LeaderEpoch :: i32

record SnapshotId =
  sid_EndOffset :: i64
  sid_Epoch :: i32

record FetchPartitionResponse =
  fpr_PartitionIndex :: i32
  fpr_ErrorCode :: i16
  fpr_HighWatermark :: i64
  fpr_LastStableOffset :: i64
  fpr_LogStartOffset :: i64
  fpr_AbortedTransactions :: "AbortedTransaction list"
  fpr_PreferredReadReplica :: i32
  fpr_Records :: "bytes option"
  fpr_DivergingEpoch :: "DivergingEpoch option"
  fpr_CurrentLeader :: "CurrentLeader option"
  fpr_SnapshotId :: "SnapshotId option"

text \<open>A tagged field: its number, its size and its payload, written to a buffer of its own first.\<close>

definition write_tag :: "u64 \<Rightarrow> bytes \<Rightarrow> writer \<Rightarrow> writer" where
  "write_tag tag payload w = WriteRaw payload (WriteUVarInt (of_nat (length payload)) (WriteUVarInt tag w))"

definition FetchPartitionResponse_encodeTaggedFields :: "FetchPartitionResponse \<Rightarrow> writer \<Rightarrow> writer" where
  "FetchPartitionResponse_encodeTaggedFields p w =
     (let count = (if fpr_DivergingEpoch p \<noteq> None then 1 else 0) + (if fpr_CurrentLeader p \<noteq> None then 1 else 0) +
            (if fpr_SnapshotId p \<noteq> None then 1 else 0);
          w = WriteUVarInt count w;
          w = (case fpr_DivergingEpoch p of
                 None \<Rightarrow> w
               | Some d \<Rightarrow> write_tag 0 (WriteInt64 (dve_EndOffset d) (WriteInt32 (dve_Epoch d) (NewWriter 12))) w);
          w = (case fpr_CurrentLeader p of
                 None \<Rightarrow> w
               | Some l \<Rightarrow> write_tag 1 (WriteInt32 (cld_LeaderEpoch l) (WriteInt32 (cld_LeaderId l) (NewWriter 8))) w)
      in case fpr_SnapshotId p of
           None \<Rightarrow> w
         | Some i \<Rightarrow> write_tag 2 (WriteInt32 (sid_Epoch i) (WriteInt64 (sid_EndOffset i) (NewWriter 12))) w)"

definition EncodePartitionPreRecords :: "FetchPartitionResponse \<Rightarrow> int \<Rightarrow> writer \<Rightarrow> writer" where
  "EncodePartitionPreRecords p recordsSize w =
     (let w = WriteInt32 (fpr_PartitionIndex p) w;
          w = WriteInt16 (fpr_ErrorCode p) w;
          w = WriteInt64 (fpr_HighWatermark p) w;
          w = WriteInt64 (fpr_LastStableOffset p) w;
          w = WriteInt64 (fpr_LogStartOffset p) w;
          w = write_array AbortedTransaction_encode (fpr_AbortedTransactions p) w;
          w = WriteInt32 (fpr_PreferredReadReplica p) w
      in if recordsSize < 0 then WriteUVarInt 0 w else WriteUVarInt (word_of_int (recordsSize + 1)) w)"

definition EncodePartitionPostRecords :: "FetchPartitionResponse \<Rightarrow> writer \<Rightarrow> writer" where
  "EncodePartitionPostRecords p w = FetchPartitionResponse_encodeTaggedFields p w"

definition FetchPartitionResponse_encode :: "FetchPartitionResponse \<Rightarrow> writer \<Rightarrow> writer" where
  "FetchPartitionResponse_encode p w =
     (let w = WriteInt32 (fpr_PartitionIndex p) w;
          w = WriteInt16 (fpr_ErrorCode p) w;
          w = WriteInt64 (fpr_HighWatermark p) w;
          w = WriteInt64 (fpr_LastStableOffset p) w;
          w = WriteInt64 (fpr_LogStartOffset p) w;
          w = write_array AbortedTransaction_encode (fpr_AbortedTransactions p) w;
          w = WriteInt32 (fpr_PreferredReadReplica p) w;
          w = WriteCompactRecords (fpr_Records p) w
      in FetchPartitionResponse_encodeTaggedFields p w)"

definition FetchPartitionResponse_decode :: "FetchPartitionResponse rd" where
  "FetchPartitionResponse_decode =
     rbind ReadInt32 (\<lambda>partitionIndex. rbind ReadInt16 (\<lambda>errorCode. rbind ReadInt64 (\<lambda>highWatermark.
     rbind ReadInt64 (\<lambda>lastStableOffset. rbind ReadInt64 (\<lambda>logStartOffset.
     rbind (read_append_array AbortedTransaction_decode) (\<lambda>abortedTransactions.
     rbind ReadInt32 (\<lambda>preferredReadReplica. rbind ReadCompactRecords (\<lambda>records'. rbind ReadTaggedFields (\<lambda>_.
     rret \<lparr>fpr_PartitionIndex = partitionIndex, fpr_ErrorCode = errorCode, fpr_HighWatermark = highWatermark,
       fpr_LastStableOffset = lastStableOffset, fpr_LogStartOffset = logStartOffset,
       fpr_AbortedTransactions = abortedTransactions, fpr_PreferredReadReplica = preferredReadReplica,
       fpr_Records = records', fpr_DivergingEpoch = None, fpr_CurrentLeader = None, fpr_SnapshotId = None\<rparr>)))))))))"

text \<open>The decoder skips tagged fields, so they come back unset.\<close>

definition untagged :: "FetchPartitionResponse \<Rightarrow> FetchPartitionResponse" where
  "untagged p = p\<lparr>fpr_DivergingEpoch := None, fpr_CurrentLeader := None, fpr_SnapshotId := None\<rparr>"

lemma write_tag_append: "write_tag t p w = w @ write_tag t p []"
  by (simp add: write_tag_def appends_simps)

lemmas [appends_simps] = NO_MATCH_append [where wr = "write_tag t" for t, OF write_tag_append]

lemma skip_tagged_decodes: "decodes skip_tagged (write_tag t p []) ()"
proof (rule decodes_bounded)
  assume "int (length (write_tag t p [])) < 2 ^ 63"
  then have len: "int (length p) < 2 ^ 63" by (simp add: write_tag_def appends_simps WriteRaw_def)
  have "decodes (rbind (require (int (length p))) (\<lambda>_ r. (Ok (), r\<lparr>pos := wrap64 (pos r + int (length p))\<rparr>))) p ()"
    by (rule decodesI) (simp add: rbind_def require_def wrap64_id)
  then show "decodes skip_tagged (write_tag t p []) ()"
    using len sint_of_nat_64 [of "length p"]
    by (simp add: skip_tagged_def write_tag_def appends_simps WriteRaw_def) ((rule uvarint_bind | simp)+)
qed

lemma skip_tags_decodes: "decodes (rtimes (length ts) skip_tagged) (concat (map (\<lambda>(t, p). write_tag t p []) ts)) (map (\<lambda>_. ()) ts)"
proof (induction ts)
  case Nil
  show ?case by (simp add: decodes_rret)
next
  case (Cons t ts)
  then show ?case
    by (cases t) (auto intro!: decodes_rbind [OF skip_tagged_decodes] decodes_rbind_last [OF Cons] simp: decodes_rret)
qed

lemma tagged_fields_skipped:
  assumes "unat n = length ts" "bs = concat (map (\<lambda>(t, p). write_tag t p []) ts)"
  shows "decodes ReadTaggedFields (WriteUVarInt n [] @ bs) ()"
  unfolding ReadTaggedFields_def assms(2)
  by (rule uvarint_bind) (simp add: assms(1), rule decodes_rbind_last [OF skip_tags_decodes], simp add: decodes_rret)

lemma FetchPartitionResponse_tags_append:
  "FetchPartitionResponse_encodeTaggedFields p w = w @ FetchPartitionResponse_encodeTaggedFields p []"
  by (simp add: FetchPartitionResponse_encodeTaggedFields_def Let_def appends_simps
      split: option.splits)

lemma FetchPartitionResponse_tags_decodes:
  "decodes ReadTaggedFields (FetchPartitionResponse_encodeTaggedFields p []) ()"
proof -
  let ?t0 = "case fpr_DivergingEpoch p of None \<Rightarrow> [] :: (u64 \<times> bytes) list
    | Some d \<Rightarrow> [(0, WriteInt64 (dve_EndOffset d) (WriteInt32 (dve_Epoch d) []))]"
  let ?t1 = "case fpr_CurrentLeader p of None \<Rightarrow> [] :: (u64 \<times> bytes) list
    | Some l \<Rightarrow> [(1, WriteInt32 (cld_LeaderEpoch l) (WriteInt32 (cld_LeaderId l) []))]"
  let ?t2 = "case fpr_SnapshotId p of None \<Rightarrow> [] :: (u64 \<times> bytes) list
    | Some i \<Rightarrow> [(2, WriteInt32 (sid_Epoch i) (WriteInt64 (sid_EndOffset i) []))]"
  let ?n = "(if fpr_DivergingEpoch p \<noteq> None then 1 else 0) + (if fpr_CurrentLeader p \<noteq> None then 1 else 0) +
      (if fpr_SnapshotId p \<noteq> None then 1 else 0) :: u64"
  have "FetchPartitionResponse_encodeTaggedFields p [] =
      WriteUVarInt ?n [] @ concat (map (\<lambda>(t, p). write_tag t p []) (?t0 @ ?t1 @ ?t2))"
    unfolding FetchPartitionResponse_encodeTaggedFields_def Let_def
    by (cases "fpr_DivergingEpoch p"; cases "fpr_CurrentLeader p"; cases "fpr_SnapshotId p")
      (simp_all add: NewWriter_def NO_MATCH_append [where wr = "write_tag t" for t, OF write_tag_append])
  moreover have "unat ?n = length (?t0 @ ?t1 @ ?t2)"
    by (cases "fpr_DivergingEpoch p"; cases "fpr_CurrentLeader p"; cases "fpr_SnapshotId p") simp_all
  ultimately show ?thesis by (simp only: tagged_fields_skipped [OF _ refl])
qed

lemmas [appends_simps] = NO_MATCH_append [OF FetchPartitionResponse_tags_append]

lemma FetchPartitionResponse_append: "FetchPartitionResponse_encode p w = w @ FetchPartitionResponse_encode p []"
  by (simp add: FetchPartitionResponse_encode_def Let_def appends_simps)

lemma FetchPartitionResponse_decodes:
  "decodes FetchPartitionResponse_decode (FetchPartitionResponse_encode p []) (untagged p)"
  unfolding FetchPartitionResponse_decode_def FetchPartitionResponse_encode_def untagged_def
  by (cases p) (simp add: Let_def appends_simps,
    (rule decodes_rbind decodes_rbind_last FetchPartitionResponse_tags_decodes decodes_intros | simp)+)

interpretation fetchPartitionResponse: wire_codec FetchPartitionResponse_encode FetchPartitionResponse_decode
  "\<lambda>p. untagged p = p"
proof
  show "FetchPartitionResponse_encode x [] \<noteq> []" for x
    by (simp add: FetchPartitionResponse_encode_def Let_def appends_simps WriteInt32_def)
  show "decodes FetchPartitionResponse_decode (FetchPartitionResponse_encode x []) x" if "untagged x = x" for x
    using FetchPartitionResponse_decodes [of x] that by simp
qed (rule FetchPartitionResponse_append)

text \<open>The two halves around the records are the whole encoding, wherever the records are written.\<close>

lemma encode_halves:
  "FetchPartitionResponse_encode (p\<lparr>fpr_Records := Some b\<rparr>) w =
     EncodePartitionPostRecords p (EncodePartitionPreRecords p (int (length b)) w @ b)"
  "FetchPartitionResponse_encode (p\<lparr>fpr_Records := None\<rparr>) w =
     EncodePartitionPostRecords p (EncodePartitionPreRecords p (-1) w)"
proof -
  have tags: "FetchPartitionResponse_encodeTaggedFields (p\<lparr>fpr_Records := r\<rparr>) = FetchPartitionResponse_encodeTaggedFields p" for r
    by (rule ext) (simp add: FetchPartitionResponse_encodeTaggedFields_def)
  have n: "(word_of_int (int (length b) + 1) :: u64) = of_nat (length b + 1)" by simp
  show "FetchPartitionResponse_encode (p\<lparr>fpr_Records := Some b\<rparr>) w =
     EncodePartitionPostRecords p (EncodePartitionPreRecords p (int (length b)) w @ b)"
    "FetchPartitionResponse_encode (p\<lparr>fpr_Records := None\<rparr>) w =
     EncodePartitionPostRecords p (EncodePartitionPreRecords p (-1) w)"
    unfolding FetchPartitionResponse_encode_def EncodePartitionPostRecords_def EncodePartitionPreRecords_def Let_def tags n
    by (simp_all add: WriteCompactRecords_def)
qed

lemmas [appends_simps] = NO_MATCH_append [OF fetchPartitionResponse.write_array_append]
lemmas [decodes_intros] = fetchPartitionResponse.make_array_decodes

record FetchTopicResponse =
  ftr_TopicId :: bytes
  ftr_Partitions :: "FetchPartitionResponse list"

definition FetchTopicResponse_encode :: "FetchTopicResponse \<Rightarrow> writer \<Rightarrow> writer" where
  "FetchTopicResponse_encode m w =
     (let w = WriteUUID (ftr_TopicId m) w;
          w = write_array FetchPartitionResponse_encode (ftr_Partitions m) w
      in WriteEmptyTaggedFields w)"

definition FetchTopicResponse_decode :: "FetchTopicResponse rd" where
  "FetchTopicResponse_decode =
     rbind ReadUUID (\<lambda>topicId.
     rbind (read_make_array FetchPartitionResponse_decode) (\<lambda>partitions.
     rbind ReadTaggedFields (\<lambda>_.
     rret \<lparr>ftr_TopicId = topicId, ftr_Partitions = partitions\<rparr>)))"

definition FetchTopicResponse_valid :: "FetchTopicResponse \<Rightarrow> bool" where
  "FetchTopicResponse_valid m \<longleftrightarrow> length (ftr_TopicId m) = 16 \<and> (\<forall>x\<in>set (ftr_Partitions m). untagged x = x)"

interpretation fetchTopicResponse: wire_codec FetchTopicResponse_encode FetchTopicResponse_decode FetchTopicResponse_valid
  by unfold_locales (simp_all add: FetchTopicResponse_encode_def FetchTopicResponse_decode_def FetchTopicResponse_valid_def Let_def appends_simps,
    (rule decodes_rbind decodes_rbind_last decodes_intros | simp)+)

lemmas [appends_simps] = NO_MATCH_append [OF fetchTopicResponse.write_array_append]
lemmas [decodes_intros] = fetchTopicResponse.make_array_decodes

record FetchResponse =
  frs_ThrottleTimeMs :: i32
  frs_ErrorCode :: i16
  frs_SessionId :: i32
  frs_Responses :: "FetchTopicResponse list"
  frs_NodeEndpoints :: "NodeEndpoint list"

definition FetchResponse_encodeTaggedFields :: "FetchResponse \<Rightarrow> writer \<Rightarrow> writer" where
  "FetchResponse_encodeTaggedFields f w =
     (if frs_NodeEndpoints f = [] then WriteEmptyTaggedFields w
      else write_tag 0 (write_array NodeEndpoint_encode (frs_NodeEndpoints f)
             (NewWriter (50 * int (length (frs_NodeEndpoints f))))) (WriteUVarInt 1 w))"

definition EncodeHeader :: "FetchResponse \<Rightarrow> int \<Rightarrow> writer \<Rightarrow> writer" where
  "EncodeHeader f topicsLen w =
     (let w = WriteInt32 (frs_ThrottleTimeMs f) w;
          w = WriteInt16 (frs_ErrorCode f) w;
          w = WriteInt32 (frs_SessionId f) w
      in WriteCompactArrayLen topicsLen w)"

definition EncodeFooter :: "FetchResponse \<Rightarrow> writer \<Rightarrow> writer" where
  "EncodeFooter f w = FetchResponse_encodeTaggedFields f w"

definition FetchResponse_Encode :: "FetchResponse \<Rightarrow> writer \<Rightarrow> writer" where
  "FetchResponse_Encode f w =
     (let w = WriteInt32 (frs_ThrottleTimeMs f) w;
          w = WriteInt16 (frs_ErrorCode f) w;
          w = WriteInt32 (frs_SessionId f) w;
          w = write_array FetchTopicResponse_encode (frs_Responses f) w
      in FetchResponse_encodeTaggedFields f w)"

definition FetchResponse_Decode :: "FetchResponse rd" where
  "FetchResponse_Decode =
     rbind ReadInt32 (\<lambda>throttleTimeMs. rbind ReadInt16 (\<lambda>errorCode. rbind ReadInt32 (\<lambda>sessionId.
     rbind (read_make_array FetchTopicResponse_decode) (\<lambda>responses. rbind ReadTaggedFields (\<lambda>_.
     rret \<lparr>frs_ThrottleTimeMs = throttleTimeMs, frs_ErrorCode = errorCode, frs_SessionId = sessionId,
       frs_Responses = responses, frs_NodeEndpoints = []\<rparr>)))))"

definition FetchResponse_valid :: "FetchResponse \<Rightarrow> bool" where
  "FetchResponse_valid f \<longleftrightarrow> (\<forall>t\<in>set (frs_Responses f). FetchTopicResponse_valid t)"

lemma FetchResponse_tags_append:
  "FetchResponse_encodeTaggedFields f w = w @ FetchResponse_encodeTaggedFields f []"
  by (simp add: FetchResponse_encodeTaggedFields_def appends_simps)

lemma FetchResponse_tags_decodes: "decodes ReadTaggedFields (FetchResponse_encodeTaggedFields f []) ()"
  using tagged_fields_skipped [of 1 "[(0, write_array NodeEndpoint_encode (frs_NodeEndpoints f) [])]", OF _ refl]
  by (auto simp: FetchResponse_encodeTaggedFields_def NewWriter_def
      NO_MATCH_append [where wr = "write_tag t" for t, OF write_tag_append] intro: decodes_intros)

lemmas [appends_simps] = NO_MATCH_append [OF FetchResponse_tags_append]

text \<open>A fetch response is read back by the fetching broker, except for the endpoints it does not use.\<close>

lemma FetchResponse_decodes:
  assumes "FetchResponse_valid f"
  shows "decodes FetchResponse_Decode (FetchResponse_Encode f []) (f\<lparr>frs_NodeEndpoints := []\<rparr>)"
  using assms unfolding FetchResponse_Decode_def FetchResponse_Encode_def FetchResponse_valid_def
  by (cases f) (simp add: Let_def appends_simps,
    (rule decodes_rbind decodes_rbind_last FetchResponse_tags_decodes decodes_intros | simp)+)

text \<open>The pieces the handler writes one by one make the encoding of the whole response.\<close>

lemma streamed_pieces:
  "FetchResponse_Encode f w =
     EncodeFooter f (fold FetchTopicResponse_encode (frs_Responses f) (EncodeHeader f (int (length (frs_Responses f))) w))"
  by (simp add: FetchResponse_Encode_def EncodeHeader_def EncodeFooter_def Let_def write_array_def)


end
