(* ===== verification/Kaf_TopicStore.thy ===== *)
theory Kaf_TopicStore
  imports Kaf_FetchMsg
begin

text \<open>
  The topics a broker knows (\<^verbatim>\<open>storage/topic.go\<close>): by identifier, by name, the commit log of
  every partition and the sidecar with \<^verbatim>\<open>min.insync.replicas\<close>. The text of an identifier is
  the business of the UUID library, so the functions that use it take it as a parameter.
\<close>

section \<open>State\<close>

record TopicMeta =
  tm_Name :: gostring
  tm_TopicId :: gostring
  tm_NumPartitions :: i32
  tm_ReplicationFactor :: i16
  tm_MinInsyncReplicas :: i16

record TopicStore =
  ts_topics :: "(bytes \<times> CreateTopicResponseData) list"
  ts_topicNames :: "(gostring \<times> bytes) list"
  ts_commitLogs :: "(gostring \<times> commitLog) list"
  ts_metas :: "(bytes \<times> TopicMeta) list"

definition NewTopicStore :: TopicStore where
  "NewTopicStore = \<lparr>ts_topics = [], ts_topicNames = [], ts_commitLogs = [], ts_metas = []\<rparr>"

section \<open>Operations\<close>

definition GetMinInsyncReplicas :: "bytes \<Rightarrow> TopicStore \<Rightarrow> i16" where
  "GetMinInsyncReplicas topicId t =
     (case map_of (ts_metas t) topicId of
        Some m \<Rightarrow> if 0 < sint (tm_MinInsyncReplicas m) then tm_MinInsyncReplicas m else 1
      | None \<Rightarrow> 1)"

definition SetTopicMeta :: "bytes \<Rightarrow> TopicMeta \<Rightarrow> TopicStore \<Rightarrow> TopicStore" where
  "SetTopicMeta topicId meta t = t\<lparr>ts_metas := AList.update topicId meta (ts_metas t)\<rparr>"

text \<open>\<open>uuid_String\<close> is the canonical text of an identifier.\<close>

definition log_key :: "(bytes \<Rightarrow> gostring) \<Rightarrow> bytes \<Rightarrow> i32 \<Rightarrow> gostring" where
  "log_key uuid_String topicId pidx = uuid_String topicId @ str ''-'' @ fmt_d (sint pidx)"

definition AddCommitLog :: "(bytes \<Rightarrow> gostring) \<Rightarrow> bytes \<Rightarrow> i32 \<Rightarrow> commitLog \<Rightarrow> TopicStore \<Rightarrow> TopicStore" where
  "AddCommitLog uuid_String topicId pidx log t =
     t\<lparr>ts_commitLogs := AList.update (log_key uuid_String topicId pidx) log (ts_commitLogs t)\<rparr>"

definition GetCommitLog :: "(bytes \<Rightarrow> gostring) \<Rightarrow> bytes \<Rightarrow> i32 \<Rightarrow> TopicStore \<Rightarrow> commitLog option" where
  "GetCommitLog uuid_String topicId pidx t = map_of (ts_commitLogs t) (log_key uuid_String topicId pidx)"

definition topic_data :: "gostring \<Rightarrow> bytes \<Rightarrow> i32 \<Rightarrow> i16 \<Rightarrow> CreateTopicResponseData" where
  "topic_data name topicId numPartitions replicationFactor =
     \<lparr>ctr_Name = name, ctr_TopicId = topicId, ctr_ErrorCode = 0, ctr_ErrorMessage = None,
      ctr_NumPartitions = numPartitions, ctr_ReplicationFactor = replicationFactor, ctr_Configs = []\<rparr>"

definition RegisterTopic :: "bytes \<Rightarrow> gostring \<Rightarrow> i32 \<Rightarrow> TopicStore \<Rightarrow> TopicStore" where
  "RegisterTopic topicId name numPartitions t =
     (if map_of (ts_topics t) topicId \<noteq> None then t
      else t\<lparr>ts_topics := AList.update topicId (topic_data name topicId numPartitions 1) (ts_topics t),
             ts_topicNames := AList.update name topicId (ts_topicNames t)\<rparr>)"

definition AddTopic :: "CreateTopicResponseData \<Rightarrow> TopicStore \<Rightarrow> unit res \<times> TopicStore" where
  "AddTopic topicData t =
     (if map_of (ts_topics t) (ctr_TopicId topicData) \<noteq> None then (Err (KafErr ErrTopicAlreadyExists), t)
      else (Ok (),
        t\<lparr>ts_topics := AList.update (ctr_TopicId topicData) topicData (ts_topics t),
          ts_topicNames := AList.update (ctr_Name topicData) (ctr_TopicId topicData) (ts_topicNames t)\<rparr>))"

definition GetTopic :: "bytes \<Rightarrow> TopicStore \<Rightarrow> CreateTopicResponseData res" where
  "GetTopic topicId t =
     (case map_of (ts_topics t) topicId of
        None \<Rightarrow> Err (KafErr ErrInvalidTopicException)
      | Some topicData \<Rightarrow> Ok topicData)"

definition GetTopicByName :: "gostring \<Rightarrow> TopicStore \<Rightarrow> CreateTopicResponseData res" where
  "GetTopicByName topicName t =
     (case map_of (ts_topicNames t) topicName of
        None \<Rightarrow> Err (GoErr ''topic name not found'')
      | Some topicId \<Rightarrow> GetTopic topicId t)"

definition partition_metadata :: "PartitionStateStore \<Rightarrow> gostring \<Rightarrow> i32 \<Rightarrow> MetadataResponsePartition" where
  "partition_metadata pss name idx =
     (case GetPartitionState name idx pss of
        None \<Rightarrow>
          \<lparr>mrp_ErrorCode = ErrLeaderNotAvailable, mrp_PartitionIndex = idx, mrp_LeaderID = 0, mrp_LeaderEpoch = 0,
           mrp_ReplicaNodes = [], mrp_IsrNodes = [], mrp_OfflineReplicas = []\<rparr>
      | Some ps \<Rightarrow>
          \<lparr>mrp_ErrorCode = 0, mrp_PartitionIndex = idx, mrp_LeaderID = ps_LeaderBrokerID ps,
           mrp_LeaderEpoch = ps_LeaderEpoch ps, mrp_ReplicaNodes = ps_Replicas ps, mrp_IsrNodes = ps_ISR ps,
           mrp_OfflineReplicas = [0]\<rparr>)"

definition topic_metadata :: "(i32 \<Rightarrow> MetadataResponsePartition) \<Rightarrow> CreateTopicResponseData \<Rightarrow> MetadataResponseTopic" where
  "topic_metadata part topicData =
     \<lparr>mrt_ErrorCode = 0, mrt_Name = Some (ctr_Name topicData), mrt_TopicID = ctr_TopicId topicData,
      mrt_IsInternal = False,
      mrt_Partitions = map (\<lambda>n. part (of_nat n)) [0..<nat (sint (ctr_NumPartitions topicData))],
      mrt_TopicAuthorizedOperations = 0\<rparr>"

fun topics_metadata ::
  "(CreateTopicResponseData \<Rightarrow> MetadataResponseTopic) \<Rightarrow> TopicStore \<Rightarrow> bytes list \<Rightarrow> MetadataResponseTopic list res" where
  "topics_metadata f t [] = Ok []"
| "topics_metadata f t (topicId # topicIds) =
     (case map_of (ts_topics t) topicId of
        None \<Rightarrow> Err (KafErr ErrInvalidTopicException)
      | Some topicData \<Rightarrow> res_bind (topics_metadata f t topicIds) (\<lambda>topics. Ok (f topicData # topics)))"

definition GetTopicMetadataByNames ::
  "gostring list \<Rightarrow> PartitionStateStore \<Rightarrow> TopicStore \<Rightarrow> MetadataResponseTopic list res" where
  "GetTopicMetadataByNames topicNames pss t =
     (let topicIds = List.map_filter (map_of (ts_topicNames t)) topicNames
      in topics_metadata (\<lambda>topicData. topic_metadata (partition_metadata pss (ctr_Name topicData)) topicData) t topicIds)"

definition GetTopicMetadata :: "bytes list \<Rightarrow> TopicStore \<Rightarrow> MetadataResponseTopic list res" where
  "GetTopicMetadata topicIds t =
     topics_metadata (topic_metadata (\<lambda>idx.
       \<lparr>mrp_ErrorCode = 0, mrp_PartitionIndex = idx, mrp_LeaderID = 1, mrp_LeaderEpoch = 1,
        mrp_ReplicaNodes = [1], mrp_IsrNodes = [1], mrp_OfflineReplicas = [1]\<rparr>)) t topicIds"

text \<open>\<open>uuid_FromString\<close> parses the text of an identifier.\<close>

definition AddTopicMetadata :: "(gostring \<Rightarrow> bytes option) \<Rightarrow> TopicMeta \<Rightarrow> TopicStore \<Rightarrow> unit res \<times> TopicStore" where
  "AddTopicMetadata uuid_FromString metaData t =
     (case uuid_FromString (tm_TopicId metaData) of
        None \<Rightarrow> (Err (GoErr ''topic id is not a valid uuid''), t)
      | Some topicId \<Rightarrow>
          if map_of (ts_topics t) topicId \<noteq> None then (Err (KafErr ErrTopicAlreadyExists), t)
          else (Ok (),
            t\<lparr>ts_topics := AList.update topicId (topic_data (tm_Name metaData) topicId (tm_NumPartitions metaData)
                  (tm_ReplicationFactor metaData)) (ts_topics t),
              ts_topicNames := AList.update (tm_Name metaData) topicId (ts_topicNames t),
              ts_metas := AList.update topicId metaData (ts_metas t)\<rparr>))"

section \<open>The invariant\<close>

text \<open>
  A topic is stored under its own identifier and every name leads to a topic. Two topics may
  carry one name: the name then leads to the one registered last.
\<close>

definition topics_ok :: "TopicStore \<Rightarrow> bool" where
  "topics_ok t \<longleftrightarrow>
     (\<forall>(i, d)\<in>set (ts_topics t). ctr_TopicId d = i \<and> map_of (ts_topicNames t) (ctr_Name d) \<noteq> None) \<and>
     (\<forall>(name, i)\<in>set (ts_topicNames t). \<exists>d. map_of (ts_topics t) i = Some d \<and> ctr_Name d = name)"

lemma topics_ok_new: "topics_ok NewTopicStore"
  by (simp add: topics_ok_def NewTopicStore_def)

lemma set_update_cases: "(a, b) \<in> set (AList.update k v xs) \<Longrightarrow> (a = k \<and> b = v) \<or> (a, b) \<in> set xs"
  by (induction xs) (auto split: if_splits)

lemma topics_ok_insert:
  assumes ok: "topics_ok t" and new: "map_of (ts_topics t) i = None" and d: "ctr_TopicId d = i"
  shows "topics_ok (t\<lparr>ts_topics := AList.update i d (ts_topics t),
    ts_topicNames := AList.update (ctr_Name d) i (ts_topicNames t)\<rparr>)"
proof -
  have "ctr_TopicId d' = j \<and> map_of (AList.update (ctr_Name d) i (ts_topicNames t)) (ctr_Name d') \<noteq> None"
    if "(j, d') \<in> set (AList.update i d (ts_topics t))" for j d'
    using set_update_cases [OF that] ok d by (auto simp: topics_ok_def update_conv')
  moreover have "\<exists>d'. map_of (AList.update i d (ts_topics t)) j = Some d' \<and> ctr_Name d' = name"
    if "(name, j) \<in> set (AList.update (ctr_Name d) i (ts_topicNames t))" for name j
    using set_update_cases [OF that] ok new by (auto simp: topics_ok_def update_conv')
  ultimately show ?thesis by (auto simp: topics_ok_def)
qed

lemma topics_ok_RegisterTopic: "topics_ok t \<Longrightarrow> topics_ok (RegisterTopic i name n t)"
  using topics_ok_insert [of t i "topic_data name i n 1"] by (auto simp: RegisterTopic_def topic_data_def)

lemma topics_ok_AddTopic: "topics_ok t \<Longrightarrow> topics_ok (snd (AddTopic d t))"
  using topics_ok_insert [of t "ctr_TopicId d" d] by (auto simp: AddTopic_def)

lemma topics_ok_metas: "topics_ok (t\<lparr>ts_metas := m\<rparr>) = topics_ok t" "topics_ok (t\<lparr>ts_commitLogs := l\<rparr>) = topics_ok t"
  by (simp_all add: topics_ok_def)

lemma topics_ok_AddTopicMetadata: "topics_ok t \<Longrightarrow> topics_ok (snd (AddTopicMetadata f m t))"
proof (cases "f (tm_TopicId m)")
  case (Some i)
  assume "topics_ok t"
  then show ?thesis
    using Some topics_ok_metas(1) topics_ok_insert [of t i "topic_data (tm_Name m) i (tm_NumPartitions m) (tm_ReplicationFactor m)"]
    by (auto simp: AddTopicMetadata_def topic_data_def)
qed (simp add: AddTopicMetadata_def)

lemma topics_ok_store [simp]:
  "topics_ok (SetTopicMeta i m t) = topics_ok t" "topics_ok (AddCommitLog u i n c t) = topics_ok t"
  by (simp_all add: topics_ok_def SetTopicMeta_def AddCommitLog_def)

lemma GetTopic_id: "topics_ok t \<Longrightarrow> GetTopic i t = Ok d \<Longrightarrow> ctr_TopicId d = i"
  by (auto simp: GetTopic_def topics_ok_def dest!: map_of_SomeD split: option.splits)

lemma GetTopicByName_name: "topics_ok t \<Longrightarrow> GetTopicByName n t = Ok d \<Longrightarrow> ctr_Name d = n"
  by (auto simp: GetTopicByName_def GetTopic_def topics_ok_def dest!: map_of_SomeD [of "ts_topicNames t"] split: option.splits)

lemma topics_metadata_ok:
  "\<forall>i\<in>set is. map_of (ts_topics t) i \<noteq> None \<Longrightarrow>
    topics_metadata f t is = Ok (map (\<lambda>i. f (the (map_of (ts_topics t) i))) is)"
  by (induction "is") auto

text \<open>With the invariant the metadata query never fails and leaves unknown names out.\<close>

lemma GetTopicMetadataByNames_ok:
  assumes "topics_ok t"
  shows "\<exists>ms. GetTopicMetadataByNames names pss t = Ok ms \<and>
    map mrt_Name ms = map Some (filter (\<lambda>n. map_of (ts_topicNames t) n \<noteq> None) names)"
proof -
  let ?is = "List.map_filter (map_of (ts_topicNames t)) names"
  have known: "\<forall>i\<in>set ?is. map_of (ts_topics t) i \<noteq> None"
    using assms by (fastforce simp: topics_ok_def map_filter_def dest: map_of_SomeD)
  have nm: "ctr_Name (the (map_of (ts_topics t) i)) = n" if "map_of (ts_topicNames t) n = Some i" for n i
    using assms map_of_SomeD [OF that] by (fastforce simp: topics_ok_def)
  have "map (\<lambda>i. Some (ctr_Name (the (map_of (ts_topics t) i)))) ?is =
      map Some (filter (\<lambda>n. map_of (ts_topicNames t) n \<noteq> None) names)"
    by (induction names) (auto simp: map_filter_simps nm split: option.splits)
  then show ?thesis
    unfolding GetTopicMetadataByNames_def Let_def topics_metadata_ok [OF known]
    by (simp add: topic_metadata_def comp_def)
qed

lemma log_key_inj:
  assumes "log_key S i p = log_key S j q" "length i = 16" "length j = 16"
    and S: "\<forall>u. length u = 16 \<longrightarrow> length (S u) = 36" "\<forall>u v. length u = 16 \<longrightarrow> length v = 16 \<longrightarrow> S u = S v \<longrightarrow> u = v"
  shows "i = j \<and> p = q"
proof -
  have "S i = S j" "fmt_d (sint p) = fmt_d (sint q)" using assms by (auto simp: log_key_def)
  then have "ParseInt (fmt_d (sint p)) = ParseInt (fmt_d (sint q))" by simp
  then have "sint p = sint q"
    using sint_greater_eq [of p] sint_less [of p] sint_greater_eq [of q] sint_less [of q]
    by (simp add: ParseInt_fmt_d)
  with \<open>S i = S j\<close> S(2) assms(2,3) show ?thesis by (simp add: sint_inj)
qed

text \<open>Storing a partition's log does not touch another partition's.\<close>

lemma GetCommitLog_Add:
  assumes "length i = 16" "length j = 16" "\<forall>u. length u = 16 \<longrightarrow> length (S u) = 36"
    "\<forall>u v. length u = 16 \<longrightarrow> length v = 16 \<longrightarrow> S u = S v \<longrightarrow> u = v"
  shows "GetCommitLog S j q (AddCommitLog S i p c t) = (if i = j \<and> p = q then Some c else GetCommitLog S j q t)"
  using log_key_inj [OF _ assms(1,2) assms(3,4), of p q]
  by (auto simp: GetCommitLog_def AddCommitLog_def update_conv')

end
