(* ===== verification/Kaf_Broker.thy ===== *)
theory Kaf_Broker
  imports Kaf_TopicStore
begin

text \<open>
  A broker: the registry of the cluster's brokers (\<^verbatim>\<open>server/broker_registry.go\<close>), the state
  behind \<^verbatim>\<open>IBrokerContext\<close> (\<^verbatim>\<open>server/server.go\<close>, \<^verbatim>\<open>server/replica_fetcher_manager.go\<close>) and
  the handlers of the control plane: broker registration and heartbeat, producer ids, offsets
  and metadata queries and topic creation (\<^verbatim>\<open>api/*.go\<close>).
\<close>

section \<open>The registry\<close>

record BrokerInfo =
  bi_BrokerId :: i32
  bi_Host :: gostring
  bi_Port :: i32
  bi_Epoch :: i64
  bi_MetadataOffset :: i64
  bi_LastSeen :: int

type_synonym BrokerRegistry = "(i32 \<times> BrokerInfo) list"

definition NewBrokerRegistry :: BrokerRegistry where
  "NewBrokerRegistry = []"

definition RegisterBroker :: "int \<Rightarrow> i32 \<Rightarrow> gostring \<Rightarrow> i32 \<Rightarrow> BrokerRegistry \<Rightarrow> i64 \<times> BrokerRegistry" where
  "RegisterBroker now ident host port r =
     (let newEpoch = (case map_of r ident of Some existing \<Rightarrow> bi_Epoch existing + 1 | None \<Rightarrow> 1)
      in (newEpoch, AList.update ident
            \<lparr>bi_BrokerId = ident, bi_Host = host, bi_Port = port, bi_Epoch = newEpoch, bi_MetadataOffset = 0,
             bi_LastSeen = now\<rparr> r))"

definition ValidateAndUpdate :: "int \<Rightarrow> i32 \<Rightarrow> i64 \<Rightarrow> i64 \<Rightarrow> BrokerRegistry \<Rightarrow> unit res \<times> BrokerRegistry" where
  "ValidateAndUpdate now ident epoch metadataOffset r =
     (case map_of r ident of
        None \<Rightarrow> (Err (GoErr ''broker not found''), r)
      | Some info \<Rightarrow>
          if bi_Epoch info \<noteq> epoch then (Err (GoErr ''stale epoch''), r)
          else (Ok (), AList.update ident (info\<lparr>bi_MetadataOffset := metadataOffset, bi_LastSeen := now\<rparr>) r))"

definition GetMetadataOffset :: "i32 \<Rightarrow> BrokerRegistry \<Rightarrow> i64" where
  "GetMetadataOffset ident r = (case map_of r ident of Some info \<Rightarrow> bi_MetadataOffset info | None \<Rightarrow> 0)"

definition MaxInt32 :: i32 where "MaxInt32 = 0x7fffffff"

definition LowestBrokerID :: "BrokerRegistry \<Rightarrow> i32" where
  "LowestBrokerID r =
     (let lowest = fold (\<lambda>ident lowest. if sint ident < sint lowest then ident else lowest) (map fst r) MaxInt32
      in if lowest = MaxInt32 then -1 else lowest)"

definition registry_All :: "BrokerRegistry \<Rightarrow> BrokerInfo list" where
  "registry_All r = map snd r"

definition registry_Addr :: "i32 \<Rightarrow> BrokerRegistry \<Rightarrow> gostring" where
  "registry_Addr ident r =
     (case map_of r ident of Some info \<Rightarrow> bi_Host info @ str '':'' @ fmt_d (sint (bi_Port info)) | None \<Rightarrow> [])"

definition GetBrokerAddr :: "i32 \<Rightarrow> BrokerRegistry \<Rightarrow> gostring \<times> i32" where
  "GetBrokerAddr ident r = (case map_of r ident of Some info \<Rightarrow> (bi_Host info, bi_Port info) | None \<Rightarrow> ([], 0))"

section \<open>The broker\<close>

text \<open>A fetcher copies a partition from its leader into a log of its own.\<close>

record ReplicaFetcher =
  rf_client :: i32
  rf_topicID :: bytes
  rf_topicName :: gostring
  rf_partition :: i32
  rf_fetchOffset :: int
  rf_brokerId :: i32
  rf_commitLog :: commitLog
  rf_highWatermark :: int

definition NewReplicaFetcher :: "i32 \<Rightarrow> gostring \<Rightarrow> bytes \<Rightarrow> i32 \<Rightarrow> i32 \<Rightarrow> commitLog \<Rightarrow> ReplicaFetcher" where
  "NewReplicaFetcher client topicName topicId pidx brokerID log =
     \<lparr>rf_client = client, rf_topicID = topicId, rf_topicName = topicName, rf_partition = pidx, rf_fetchOffset = 0,
      rf_brokerId = brokerID, rf_commitLog = log, rf_highWatermark = 0\<rparr>"

record BrokerClient =
  bc_brokerId :: i32
  bc_addr :: gostring
  bc_nextCorrelationId :: i32

definition NewBrokerClient :: "i32 \<Rightarrow> gostring \<Rightarrow> BrokerClient" where
  "NewBrokerClient brokerId addr = \<lparr>bc_brokerId = brokerId, bc_addr = addr, bc_nextCorrelationId = 1\<rparr>"

text \<open>
  The metadata log is the commit log and the partition state that the stores hold for the topic
  \<^verbatim>\<open>__cluster_metadata\<close>; \<open>s_metaInit\<close> tells whether it has been opened. \<open>s_snapshotDirs\<close> holds the
  directory of each partition, where its producer snapshots go, \<open>s_sent\<close> the completions sent to
  waiting produce requests, \<open>s_groupOuts\<close> what the group coordinator sent, and \<open>s_nextChan\<close> numbers
  the channels made for requests that wait.
\<close>

record Server =
  s_brokerID :: i32
  s_topicStore :: TopicStore
  s_groupStore :: GroupStore
  s_pss :: PartitionStateStore
  s_fetchers :: "(gostring \<times> ReplicaFetcher) list"
  s_brokerClients :: "(i32 \<times> BrokerClient) list"
  s_brokerRegistry :: BrokerRegistry
  s_metaInit :: bool
  s_pidManager :: PidManager
  s_brokerEpoch :: i64
  s_snapshotDirs :: "(gostring \<times> dir) list"
  s_sent :: "completion list"
  s_nextChan :: nat
  s_groupOuts :: "g_out list"

text \<open>
  What surrounds one request: the clock in nanoseconds and in milliseconds, the failures of the
  storage operations and of writing \<^verbatim>\<open>meta.json\<close>, the files of a partition's directory, which peers
  answer a dial, the identifiers the UUID library hands out, and for each channel what arrives on
  it before the deadline (\<open>None\<close> when the timer fires first) and whether the timer is preferred to
  a value that is already there.
\<close>

record env =
  e_now :: int
  e_millis :: i64
  e_faults :: cl_faults
  e_snap :: snap_faults
  e_meta_fails :: bool
  e_disk :: "gostring \<Rightarrow> i32 \<Rightarrow> dir"
  e_dials :: "gostring \<Rightarrow> bool"
  e_newV7 :: "nat \<Rightarrow> bytes"
  e_arrives :: "nat \<Rightarrow> go_err option option"
  e_timer :: "nat \<Rightarrow> bool"

text \<open>A broker with empty disks, no failures and peers that answer.\<close>

definition sample_env :: env where
  "sample_env = \<lparr>e_now = 0, e_millis = 0, e_faults = no_cl_faults, e_snap = no_snap_faults, e_meta_fails = False,
     e_disk = (\<lambda>_ _. []), e_dials = (\<lambda>_. True), e_newV7 = (\<lambda>n. replicate 15 0 @ [of_nat n + 2]),
     e_arrives = (\<lambda>_. None), e_timer = (\<lambda>_. False)\<rparr>"

definition NewServer :: "env \<Rightarrow> i32 \<Rightarrow> gostring \<Rightarrow> i32 \<Rightarrow> Server" where
  "NewServer e brokerID advertisedHost port =
     \<lparr>s_brokerID = brokerID, s_topicStore = NewTopicStore, s_groupStore = NewGroupStore, s_pss = NewPartitionStateStore,
      s_fetchers = [], s_brokerClients = [],
      s_brokerRegistry = snd (RegisterBroker (e_now e) brokerID
        (if advertisedHost = [] then str ''localhost'' else advertisedHost) port NewBrokerRegistry),
      s_metaInit = False, s_pidManager = NewPidManager, s_brokerEpoch = 0, s_snapshotDirs = [], s_sent = [],
      s_nextChan = 0, s_groupOuts = []\<rparr>"

definition IsController :: "Server \<Rightarrow> bool" where
  "IsController s \<longleftrightarrow> s_brokerID s = LowestBrokerID (s_brokerRegistry s)"

definition GetAllBrokerIDs :: "Server \<Rightarrow> i32 list" where
  "GetAllBrokerIDs s = sort_key sint (map bi_BrokerId (registry_All (s_brokerRegistry s)))"

definition ClusterMetadataTopicID :: bytes where
  "ClusterMetadataTopicID = [0, 0, 0, 0, 0, 0, 0, 0, 0, 0, 0, 0, 0, 0, 0, 1]"

definition metadata_topic :: gostring where
  "metadata_topic = str ''__cluster_metadata''"

definition GetMetadataLog :: "(bytes \<Rightarrow> gostring) \<Rightarrow> Server \<Rightarrow> MetadataLog" where
  "GetMetadataLog uuid_String s =
     (if s_metaInit s
      then \<lparr>ml_commitLog = GetCommitLog uuid_String ClusterMetadataTopicID 0 (s_topicStore s),
            ml_ps = GetPartitionState metadata_topic 0 (s_pss s)\<rparr>
      else NewMetadataLog)"

text \<open>\<open>metadata_append\<close> is \<^verbatim>\<open>GetMetadataLog().Append\<close> with its effects on the shared log and state.\<close>

definition metadata_append :: "(bytes \<Rightarrow> gostring) \<Rightarrow> env \<Rightarrow> bytes \<Rightarrow> Server \<Rightarrow> unit res \<times> Server" where
  "metadata_append uuid_String e val s =
     (case MetadataLog_Append (e_faults e) (e_millis e) (e_now e) val (GetMetadataLog uuid_String s) of
        (r, m, done) \<Rightarrow>
          let s = (case ml_commitLog m of
                     Some cl \<Rightarrow> s\<lparr>s_topicStore := AddCommitLog uuid_String ClusterMetadataTopicID 0 cl (s_topicStore s)\<rparr>
                   | None \<Rightarrow> s);
              s = (case ml_ps m of
                     Some ps \<Rightarrow> s\<lparr>s_pss := AList.update (partition_key metadata_topic 0) ps (s_pss s)\<rparr>
                   | None \<Rightarrow> s)
          in (r, s\<lparr>s_sent := s_sent s @ done\<rparr>))"

text \<open>
  \<^verbatim>\<open>AddFetcher\<close>: nothing happens when there is a fetcher already, the leader cannot be dialled,
  the log cannot be opened or the topic is unknown.
\<close>

definition dialBrokerClientLocked :: "env \<Rightarrow> i32 \<Rightarrow> Server \<Rightarrow> unit res \<times> Server" where
  "dialBrokerClientLocked e brokerId s =
     (let addr = registry_Addr brokerId (s_brokerRegistry s) in
      if addr = [] then (Err (GoErr ''broker not in registry''), s)
      else if \<not> e_dials e addr then (Err OSErr, s)
      else (Ok (), s\<lparr>s_brokerClients := AList.update brokerId (NewBrokerClient brokerId addr) (s_brokerClients s)\<rparr>))"

definition AddFetcher :: "env \<Rightarrow> gostring \<Rightarrow> i32 \<Rightarrow> i32 \<Rightarrow> Server \<Rightarrow> Server" where
  "AddFetcher e topicName pidx leaderBrokerId s =
     (let key = partition_key topicName pidx in
      if map_of (s_fetchers s) key \<noteq> None then s
      else case (if map_of (s_brokerClients s) leaderBrokerId \<noteq> None then (Ok (), s)
                 else dialBrokerClientLocked e leaderBrokerId s) of
             (Ok _, s) \<Rightarrow>
               (case NewCommitLog (e_faults e) defaultCommitLogConfig (e_disk e topicName pidx) of
                  Ok log \<Rightarrow>
                    (case GetTopicByName topicName (s_topicStore s) of
                       Ok topicData \<Rightarrow>
                         s\<lparr>s_fetchers := AList.update key
                             (NewReplicaFetcher leaderBrokerId topicName (ctr_TopicId topicData) pidx (s_brokerID s) log)
                             (s_fetchers s)\<rparr>
                     | _ \<Rightarrow> s)
                | _ \<Rightarrow> s)
           | (_, s) \<Rightarrow> s)"

definition StartFollowerFetch :: "env \<Rightarrow> gostring \<Rightarrow> i32 \<Rightarrow> i32 \<Rightarrow> Server \<Rightarrow> Server" where
  "StartFollowerFetch e topicName pidx leaderID s = AddFetcher e topicName pidx leaderID s"

definition StopFetcher :: "gostring \<Rightarrow> i32 \<Rightarrow> Server \<Rightarrow> Server" where
  "StopFetcher topicName pidx s = s\<lparr>s_fetchers := AList.delete (partition_key topicName pidx) (s_fetchers s)\<rparr>"

definition RegisterBrokerClient :: "env \<Rightarrow> i32 \<Rightarrow> gostring \<Rightarrow> Server \<Rightarrow> unit res \<times> Server" where
  "RegisterBrokerClient e brokerId addr s =
     (if map_of (s_brokerClients s) brokerId \<noteq> None then (Err (GoErr ''broker client already exists''), s)
      else if \<not> e_dials e addr then (Err OSErr, s)
      else (Ok (), s\<lparr>s_brokerClients := AList.update brokerId (NewBrokerClient brokerId addr) (s_brokerClients s)\<rparr>))"

section \<open>Broker registration and heartbeat\<close>

fun plaintext_listener :: "BrokerListener list \<Rightarrow> gostring \<times> i32" where
  "plaintext_listener [] = ([], 0)"
| "plaintext_listener (l # ls) =
     (if bl_Name l = str ''PLAINTEXT'' then (bl_Host l, bl_Port l) else plaintext_listener ls)"

definition registration_response :: "i16 \<Rightarrow> i64 \<Rightarrow> BrokerRegistrationResponse" where
  "registration_response code epoch = \<lparr>brs_ThrottleTimeMs = 0, brs_ErrorCode = code, brs_BrokerEpoch = epoch\<rparr>"

definition broker_registration ::
  "(bytes \<Rightarrow> gostring) \<Rightarrow> env \<Rightarrow> BrokerRegistrationRequest \<Rightarrow> Server \<Rightarrow> BrokerRegistrationResponse res \<times> Server" where
  "broker_registration uuid_String e req s =
     (if \<not> IsController s then (Ok (registration_response ErrNotController 0), s)
      else if sint (brq_BrokerId req) \<le> 0 then (Ok (registration_response ErrInvalidRequest 0), s)
      else let (host, port) = plaintext_listener (brq_Listeners req);
               (host, port) = (if host = [] \<and> brq_Listeners req \<noteq> []
                               then (bl_Host (hd (brq_Listeners req)), bl_Port (hd (brq_Listeners req)))
                               else (host, port));
               (epoch, reg) = RegisterBroker (e_now e) (brq_BrokerId req) host port (s_brokerRegistry s)
           in case metadata_append uuid_String e
                     (BrokerRecord_Encode \<lparr>br_BrokerId = brq_BrokerId req, br_Host = host, br_Port = port, br_Epoch = epoch\<rparr>)
                     (s\<lparr>s_brokerRegistry := reg\<rparr>) of
                (Panic, s) \<Rightarrow> (Panic, s)
              | (_, s) \<Rightarrow> (Ok (registration_response 0 epoch), s))"

definition HandleBrokerRegistrationApi ::
  "(bytes \<Rightarrow> gostring) \<Rightarrow> env \<Rightarrow> RequestHeader \<Rightarrow> reader \<Rightarrow> conn \<Rightarrow> Server \<Rightarrow> unit res \<times> conn \<times> Server" where
  "HandleBrokerRegistrationApi uuid_String e header =
     handle BrokerRegistrationRequest_Decode (broker_registration uuid_String e) BrokerRegistrationResponse_Encode
       (plain_header header)"

definition fenceThreshold :: int where "fenceThreshold = 10"

definition broker_heartbeat ::
  "(bytes \<Rightarrow> gostring) \<Rightarrow> env \<Rightarrow> BrokerHeartbeatRequest \<Rightarrow> Server \<Rightarrow> BrokerHeartbeatResponse res \<times> Server" where
  "broker_heartbeat uuid_String e req s =
     (let resp = \<lparr>bhs_ThrottleTimeMs = 0, bhs_ErrorCode = 0, bhs_IsCaughtUp = False, bhs_IsFenced = False,
                  bhs_ShouldShutDown = False\<rparr>
      in if \<not> IsController s then (Ok (resp\<lparr>bhs_ErrorCode := ErrNotController\<rparr>), s)
         else case ValidateAndUpdate (e_now e) (bhq_BrokerId req) (bhq_BrokerEpoch req) (bhq_CurrentMetadataOffset req)
                     (s_brokerRegistry s) of
                (Ok _, reg) \<Rightarrow>
                  let newestOffset = MetadataLog_NewestOffset (GetMetadataLog uuid_String s);
                      current = sint (bhq_CurrentMetadataOffset req)
                  in (Ok (resp\<lparr>bhs_IsCaughtUp := (current \<ge> newestOffset),
                               bhs_IsFenced := (wrap64 (newestOffset - current) > fenceThreshold),
                               bhs_ShouldShutDown := bhq_WantShutDown req\<rparr>),
                      s\<lparr>s_brokerRegistry := reg\<rparr>)
              | (_, _) \<Rightarrow> (Ok (resp\<lparr>bhs_ErrorCode := ErrStaleBrokerEpoch\<rparr>), s))"

definition HandleBrokerHeartbeatApi ::
  "(bytes \<Rightarrow> gostring) \<Rightarrow> env \<Rightarrow> RequestHeader \<Rightarrow> reader \<Rightarrow> conn \<Rightarrow> Server \<Rightarrow> unit res \<times> conn \<times> Server" where
  "HandleBrokerHeartbeatApi uuid_String e header =
     handle BrokerHeartbeatRequest_Decode (broker_heartbeat uuid_String e) BrokerHeartbeatResponse_Encode
       (plain_header header)"

section \<open>Producer ids\<close>

definition init_producer_id ::
  "(bytes \<Rightarrow> gostring) \<Rightarrow> env \<Rightarrow> InitProducerIdRequest \<Rightarrow> Server \<Rightarrow> InitProducerIdResponse res \<times> Server" where
  "init_producer_id uuid_String e req s =
     (let refused = (\<lambda>code. \<lparr>ips_ThrottleTimeMs = 0, ips_ErrorCode = code, ips_ProducerId = -1, ips_ProducerEpoch = -1\<rparr>)
      in if ipq_TransactionalId req \<noteq> None then (Ok (refused ErrInvalidRequest), s)
         else if \<not> IsController s then (Ok (refused ErrNotController), s)
         else case AllocateOne (metadata_append uuid_String e) (s_pidManager s) s of
                (Ok pid, m, s) \<Rightarrow>
                  (Ok \<lparr>ips_ThrottleTimeMs = 0, ips_ErrorCode = 0, ips_ProducerId = pid, ips_ProducerEpoch = 0\<rparr>,
                   s\<lparr>s_pidManager := m\<rparr>)
              | (Err _, m, s) \<Rightarrow> (Ok (refused ErrKafkaStorageError), s\<lparr>s_pidManager := m\<rparr>)
              | (Panic, m, s) \<Rightarrow> (Panic, s\<lparr>s_pidManager := m\<rparr>))"

definition HandleInitProducerIdApi ::
  "(bytes \<Rightarrow> gostring) \<Rightarrow> env \<Rightarrow> RequestHeader \<Rightarrow> reader \<Rightarrow> conn \<Rightarrow> Server \<Rightarrow> unit res \<times> conn \<times> Server" where
  "HandleInitProducerIdApi uuid_String e header =
     handle InitProducerIdRequest_Decode (init_producer_id uuid_String e) InitProducerIdResponse_Encode (reply_header header)"

section \<open>Offsets and metadata queries\<close>

definition ListOffsetsLatest :: i64 where "ListOffsetsLatest = -1"
definition ListOffsetsEarliest :: i64 where "ListOffsetsEarliest = -2"

definition list_offset ::
  "(bytes \<Rightarrow> gostring) \<Rightarrow> TopicStore \<Rightarrow> bytes \<Rightarrow> ListOffsetsPartition \<Rightarrow> ListOffsetsResponsePartition" where
  "list_offset uuid_String store topicId part =
     (let resp = \<lparr>lorp_PartitionIndex = lop_PartitionIndex part, lorp_ErrorCode = 0, lorp_Timestamp = -1,
                  lorp_Offset = 0, lorp_LeaderEpoch = 0\<rparr>
      in case GetCommitLog uuid_String topicId (lop_PartitionIndex part) store of
           None \<Rightarrow> resp\<lparr>lorp_ErrorCode := ErrUnknownTopicOrPartition, lorp_Offset := -1\<rparr>
         | Some cl \<Rightarrow>
             resp\<lparr>lorp_Offset :=
               (if lop_Timestamp part = ListOffsetsEarliest then word_of_int (OldestOffset cl)
                else if lop_Timestamp part = ListOffsetsLatest then word_of_int (NewestOffset cl)
                else word_of_int (NewestOffset cl + 1))\<rparr>)"

definition list_offsets ::
  "(bytes \<Rightarrow> gostring) \<Rightarrow> ListOffsetsRequest \<Rightarrow> TopicStore \<Rightarrow> ListOffsetsResponse res \<times> TopicStore" where
  "list_offsets uuid_String req store =
     (Ok \<lparr>los_ThrottleTimeMs = 0,
          los_Topics = map (\<lambda>topic.
            let topicId = (case GetTopicByName (lot_Name topic) store of
                             Ok topicMeta \<Rightarrow> ctr_TopicId topicMeta | _ \<Rightarrow> replicate 16 0)
            in \<lparr>lort_Name = lot_Name topic,
                lort_Partitions = map (list_offset uuid_String store topicId) (lot_Partitions topic)\<rparr>) (loq_Topics req)\<rparr>,
      store)"

definition HandleListOffsetsApi ::
  "(bytes \<Rightarrow> gostring) \<Rightarrow> RequestHeader \<Rightarrow> reader \<Rightarrow> conn \<Rightarrow> TopicStore \<Rightarrow> unit res \<times> conn \<times> TopicStore" where
  "HandleListOffsetsApi uuid_String header =
     handle ListOffsetsRequest_Decode (list_offsets uuid_String) ListOffsetsResponse_Encode (reply_header header)"

text \<open>A topic without a name is dereferenced, so the request panics.\<close>

definition meta_data :: "MetaDataRequest \<Rightarrow> Server \<Rightarrow> MetadataResponse res \<times> Server" where
  "meta_data req s =
     (let topics = (case mdq_Topics req of Some ts \<Rightarrow> ts | None \<Rightarrow> []) in
      if \<exists>t\<in>set topics. tmr_Name t = None then (Panic, s)
      else let topicNames = map (the \<circ> tmr_Name) topics;
               topicsMetaData = (case GetTopicMetadataByNames topicNames (s_pss s) (s_topicStore s) of Ok ms \<Rightarrow> ms | _ \<Rightarrow> []);
               allIDs = GetAllBrokerIDs s
           in (Ok \<lparr>mr_ThrottleTimeMs = 0,
                   mr_Brokers = map (\<lambda>ident. case GetBrokerAddr ident (s_brokerRegistry s) of (host, port) \<Rightarrow>
                     \<lparr>mrb_NodeID = ident, mrb_Host = host, mrb_Port = port, mrb_Rack = None\<rparr>) allIDs,
                   mr_ClusterID = Some (str ''my-cluster''),
                   mr_ControllerID = (if allIDs \<noteq> [] then hd allIDs else 1),
                   mr_Topics = topicsMetaData, mr_ErrorCode = 0\<rparr>, s))"

definition HandleMetaData :: "RequestHeader \<Rightarrow> reader \<Rightarrow> conn \<Rightarrow> Server \<Rightarrow> unit res \<times> conn \<times> Server" where
  "HandleMetaData header = handle MetaDataRequest_Decode meta_data MetadataResponse_Encode (reply_header header)"

section \<open>Clients of these handlers\<close>

interpretation registration_rpc: rpc BrokerRegistrationRequest_Encode BrokerRegistrationRequest_Decode BrokerRegistrationRequest_valid BrokerRegistrationResponse_Encode BrokerRegistrationResponse_Decode "\<lambda>_. True"
  by unfold_locales

interpretation broker_heartbeat_rpc: rpc BrokerHeartbeatRequest_Encode BrokerHeartbeatRequest_Decode "\<lambda>_. True" BrokerHeartbeatResponse_Encode BrokerHeartbeatResponse_Decode "\<lambda>_. True"
  by unfold_locales

interpretation init_producer_id_rpc: rpc InitProducerIdRequest_wire InitProducerIdRequest_Decode "\<lambda>_. True" InitProducerIdResponse_Encode InitProducerIdResponse_read "\<lambda>_. True"
  by unfold_locales

interpretation list_offsets_rpc: rpc ListOffsetsRequest_wire ListOffsetsRequest_Decode "\<lambda>_. True" ListOffsetsResponse_Encode ListOffsetsResponse_read "\<lambda>_. True"
  by unfold_locales

interpretation meta_data_rpc: rpc MetaDataRequest_wire MetaDataRequest_Decode MetaDataRequest_valid MetadataResponse_Encode MetadataResponse_read MetadataResponse_valid
  by unfold_locales

section \<open>Epochs\<close>

text \<open>What happens to a registry: registrations and heartbeats, of any broker.\<close>

datatype registry_op = Registers i32 gostring i32 | Beats i32 i64 i64

fun registry_run :: "int \<Rightarrow> registry_op \<Rightarrow> BrokerRegistry \<Rightarrow> BrokerRegistry" where
  "registry_run now (Registers ident host port) r = snd (RegisterBroker now ident host port r)"
| "registry_run now (Beats ident epoch off) r = snd (ValidateAndUpdate now ident epoch off r)"

fun registers :: "i32 \<Rightarrow> registry_op \<Rightarrow> bool" where
  "registers ident (Registers j _ _) = (j = ident)"
| "registers ident (Beats _ _ _) = False"

lemma registry_run_epoch:
  assumes "map_of r ident = Some b"
  shows "\<exists>b'. map_of (registry_run now op r) ident = Some b' \<and>
    bi_Epoch b' = (if registers ident op then bi_Epoch b + 1 else bi_Epoch b)"
  using assms by (cases op) (auto simp: RegisterBroker_def ValidateAndUpdate_def Let_def update_conv' split: option.splits)

lemma registry_fold_epoch:
  "map_of r ident = Some b \<Longrightarrow>
     \<exists>b'. map_of (fold (registry_run now) ops r) ident = Some b' \<and> bi_Epoch b' = bi_Epoch b + of_nat (length (filter (registers ident) ops))"
proof (induction ops arbitrary: r b)
  case (Cons op ops)
  obtain b1 where b1: "map_of (registry_run now op r) ident = Some b1"
    "bi_Epoch b1 = (if registers ident op then bi_Epoch b + 1 else bi_Epoch b)"
    using registry_run_epoch [OF Cons.prems] by blast
  show ?case using Cons.IH [OF b1(1)] b1(2) by (auto simp: algebra_simps)
qed simp

text \<open>
  C17. A broker that has been replaced is fenced. The epoch a registration hands out is accepted by
  the controller's heartbeat handler until the same broker id registers again, and refused with
  STALE_BROKER_EPOCH after that, whatever other brokers register and whatever heartbeats arrive in
  between (for fewer than 2^64 registrations); a refused heartbeat changes nothing.
\<close>

theorem stale_broker_fenced:
  assumes reg: "RegisterBroker now ident host port r = (ep, r')"
    and n: "n = length (filter (registers ident) ops)" "n < 2 ^ 64"
    and s: "IsController s" "s_brokerRegistry s = fold (registry_run now') ops r'"
    and req: "bhq_BrokerId req = ident" "bhq_BrokerEpoch req = ep"
  shows "(n = 0 \<longrightarrow> (\<exists>resp s'. broker_heartbeat S e req s = (Ok resp, s') \<and> bhs_ErrorCode resp = 0 \<and>
      GetMetadataOffset ident (s_brokerRegistry s') = bhq_CurrentMetadataOffset req)) \<and>
    (n \<noteq> 0 \<longrightarrow> (\<exists>resp. broker_heartbeat S e req s = (Ok resp, s) \<and> bhs_ErrorCode resp = ErrStaleBrokerEpoch))"
proof -
  obtain b where "map_of r' ident = Some b" "bi_Epoch b = ep"
    using reg by (auto simp: RegisterBroker_def Let_def update_conv')
  then obtain b' where b: "map_of (s_brokerRegistry s) ident = Some b'" "bi_Epoch b' = ep + of_nat n"
    using registry_fold_epoch [of r' ident b now' ops] s(2) n(1) by auto
  have "(of_nat n :: i64) = 0 \<longleftrightarrow> n = 0"
    using n(2) by (simp add: word_unat_eq_iff unsigned_of_nat take_bit_nat_eq_self)
  then have "bi_Epoch b' = ep \<longleftrightarrow> n = 0" using b(2) by simp
  then show ?thesis
    using b(1) s(1) req
    by (auto simp: broker_heartbeat_def ValidateAndUpdate_def Let_def GetMetadataOffset_def update_conv')
qed

theorem stale_broker_fenced_witness:
  "let s = NewServer sample_env 1 [] 9092; r = RegisterBroker 0 2 (str ''h'') 9093 (s_brokerRegistry s);
       req = \<lparr>bhq_BrokerId = 2, bhq_BrokerEpoch = fst r, bhq_CurrentMetadataOffset = 4, bhq_WantFence = False, bhq_WantShutDown = False\<rparr>;
       s2 = s\<lparr>s_brokerRegistry := fold (registry_run 9) [Beats 2 1 3, Registers 2 (str ''h'') 9093] (snd r)\<rparr>
   in \<exists>resp. broker_heartbeat (\<lambda>_. []) sample_env req s2 = (Ok resp, s2) \<and> bhs_ErrorCode resp = ErrStaleBrokerEpoch"
proof -
  let ?s = "NewServer sample_env 1 [] 9092"
  let ?r = "RegisterBroker 0 2 (str ''h'') 9093 (s_brokerRegistry ?s)"
  let ?req = "\<lparr>bhq_BrokerId = 2, bhq_BrokerEpoch = fst ?r, bhq_CurrentMetadataOffset = 4, bhq_WantFence = False, bhq_WantShutDown = False\<rparr>"
  let ?ops = "[Beats 2 1 3, Registers 2 (str ''h'') 9093]"
  let ?s2 = "?s\<lparr>s_brokerRegistry := fold (registry_run 9) ?ops (snd ?r)\<rparr>"
  have "IsController ?s2"
    by (simp add: IsController_def NewServer_def RegisterBroker_def NewBrokerRegistry_def ValidateAndUpdate_def LowestBrokerID_def
        MaxInt32_def Let_def)
  from stale_broker_fenced [OF _ _ _ this, of 0 2 "str ''h''" 9093 "s_brokerRegistry ?s" "fst ?r" "snd ?r" 1 ?ops 9 ?req "\<lambda>_. []" sample_env]
  show ?thesis by (simp add: Let_def)
qed

end
