(* ===== verification/Kaf_Cluster.thy ===== *)
theory Kaf_Cluster
  imports Kaf_Broker
begin

text \<open>
  How topics come into being: creation on the controller (\<^verbatim>\<open>api/create_topics_api.go\<close>), the
  metadata records that tell the other brokers, their application there, and recovery at
  start-up (\<^verbatim>\<open>server/server.go\<close>).
\<close>

section \<open>Creating topics\<close>

definition topic_char :: "byte \<Rightarrow> bool" where
  "topic_char c \<longleftrightarrow> (97 \<le> c \<and> c \<le> 122) \<or> (65 \<le> c \<and> c \<le> 90) \<or> (48 \<le> c \<and> c \<le> 57) \<or> c = 46 \<or> c = 95 \<or> c = 45"

definition validateTopicData :: "CreateTopicData \<Rightarrow> i16" where
  "validateTopicData topicData =
     (if ctd_Name topicData = [] then ErrInvalidTopicException
      else if \<not> list_all topic_char (ctd_Name topicData) then ErrInvalidTopicException
      else if sint (ctd_NumPartitions topicData) \<le> 0 then ErrInvalidTopicException
      else if sint (ctd_ReplicationFactor topicData) \<le> 0 then ErrInvalidTopicException
      else 0)"

definition validate_one :: "(nat \<Rightarrow> bytes) \<Rightarrow> nat \<times> CreateTopicData \<Rightarrow> CreateTopicResponseData" where
  "validate_one newV7 = (\<lambda>(idx, topicData).
     let isValidTopic = validateTopicData topicData;
         topicConfigs = map (\<lambda>conf. \<lparr>ctcr_Name = ctc_Name conf, ctcr_Value = ctc_Value conf, ctcr_ReadOnly = False,
           ctcr_ConfigSource = 0, ctcr_IsSensitive = False, ctcr_TopicConfigErrorCode = 0\<rparr>) (ctd_Configs topicData)
     in if isValidTopic = 0
        then \<lparr>ctr_Name = ctd_Name topicData, ctr_TopicId = newV7 idx, ctr_ErrorCode = 0, ctr_ErrorMessage = None,
              ctr_NumPartitions = ctd_NumPartitions topicData, ctr_ReplicationFactor = ctd_ReplicationFactor topicData,
              ctr_Configs = topicConfigs\<rparr>
        else \<lparr>ctr_Name = [], ctr_TopicId = replicate 16 0, ctr_ErrorCode = isValidTopic, ctr_ErrorMessage = None,
              ctr_NumPartitions = 0, ctr_ReplicationFactor = 0, ctr_Configs = []\<rparr>)"

definition validateTopics :: "(nat \<Rightarrow> bytes) \<Rightarrow> CreateTopicData list \<Rightarrow> CreateTopicResponseData list" where
  "validateTopics newV7 topics = map (validate_one newV7) (enumerate 0 topics)"

text \<open>\<^verbatim>\<open>strconv.ParseInt(s, 10, 16)\<close>\<close>

definition ParseInt16 :: "gostring \<Rightarrow> i16 res" where
  "ParseInt16 s = res_bind (ParseInt s) (\<lambda>n.
     if - (2 ^ 15) \<le> n \<and> n < 2 ^ 15 then Ok (word_of_int n) else Err (GoErr ''value out of range''))"

fun parse_config :: "CreateTopicConfigResponse list \<Rightarrow> i16 \<Rightarrow> i16 res" where
  "parse_config [] minISR = Ok minISR"
| "parse_config (c # cs) minISR =
     (case ctcr_Value c of
        None \<Rightarrow> parse_config cs minISR
      | Some val \<Rightarrow>
          if ctcr_Name c = str ''min.insync.replicas'' then res_bind (ParseInt16 val) (parse_config cs)
          else parse_config cs minISR)"

definition parseTopicConfig :: "CreateTopicConfigResponse list \<Rightarrow> i16 res" where
  "parseTopicConfig configs = parse_config configs 1"

text \<open>Loops over partitions: one stops at the first error, the other carries on after it.\<close>

fun until_error :: "('a \<Rightarrow> 's \<Rightarrow> unit res \<times> 's) \<Rightarrow> 'a list \<Rightarrow> 's \<Rightarrow> unit res \<times> 's" where
  "until_error f [] s = (Ok (), s)"
| "until_error f (x # xs) s = (case f x s of (Ok _, s) \<Rightarrow> until_error f xs s | (r, s) \<Rightarrow> (r, s))"

fun each :: "('a \<Rightarrow> 's \<Rightarrow> unit res \<times> 's) \<Rightarrow> 'a list \<Rightarrow> 's \<Rightarrow> unit res \<times> 's" where
  "each f [] s = (Ok (), s)"
| "each f (x # xs) s = (case f x s of (Panic, s) \<Rightarrow> (Panic, s) | (_, s) \<Rightarrow> each f xs s)"

definition partitions_of :: "i32 \<Rightarrow> i32 list" where
  "partitions_of n = map of_nat [0..<nat (sint n)]"

text \<open>
  A new log is stored and, when the partition's state tracks producers, gets the hook that
  writes a snapshot when a segment is rolled.
\<close>

definition attach_log ::
  "(bytes \<Rightarrow> gostring) \<Rightarrow> env \<Rightarrow> gostring \<Rightarrow> bytes \<Rightarrow> i32 \<Rightarrow> commitLog \<Rightarrow> Server \<Rightarrow> Server" where
  "attach_log uuid_String e topicName topicId pidx log s =
     (case GetPartitionState topicName pidx (s_pss s) of
        Some ps \<Rightarrow>
          if ps_Idempotence ps = None
          then s\<lparr>s_topicStore := AddCommitLog uuid_String topicId pidx log (s_topicStore s)\<rparr>
          else s\<lparr>s_topicStore := AddCommitLog uuid_String topicId pidx (SetSegmentRollHook True log) (s_topicStore s),
                 s_snapshotDirs := AList.update (partition_key topicName pidx) (e_disk e topicName pidx) (s_snapshotDirs s)\<rparr>
      | None \<Rightarrow> s\<lparr>s_topicStore := AddCommitLog uuid_String topicId pidx log (s_topicStore s)\<rparr>)"

definition create_partition_storage ::
  "(bytes \<Rightarrow> gostring) \<Rightarrow> env \<Rightarrow> CreateTopicResponseData \<Rightarrow> i32 \<Rightarrow> Server \<Rightarrow> unit res \<times> Server" where
  "create_partition_storage uuid_String e topicData numPar s =
     (case NewCommitLog (e_faults e) defaultCommitLogConfig (e_disk e (ctr_Name topicData) numPar) of
        Ok log \<Rightarrow> (Ok (), attach_log uuid_String e (ctr_Name topicData) (ctr_TopicId topicData) numPar log s)
      | Err err \<Rightarrow> (Err err, s)
      | Panic \<Rightarrow> (Panic, s))"

definition createTopicStorage ::
  "(bytes \<Rightarrow> gostring) \<Rightarrow> env \<Rightarrow> CreateTopicResponseData \<Rightarrow> i16 \<Rightarrow> Server \<Rightarrow> unit res \<times> Server" where
  "createTopicStorage uuid_String e topicData configMinISR s =
     (let minISR = (if 0 < sint configMinISR then configMinISR else 1);
          meta = \<lparr>tm_Name = ctr_Name topicData, tm_TopicId = uuid_String (ctr_TopicId topicData),
                  tm_NumPartitions = ctr_NumPartitions topicData, tm_ReplicationFactor = ctr_ReplicationFactor topicData,
                  tm_MinInsyncReplicas = minISR\<rparr>
      in if e_meta_fails e then (Err (GoErr ''failed to save topic meta''), s)
         else until_error (create_partition_storage uuid_String e topicData) (partitions_of (ctr_NumPartitions topicData))
                (s\<lparr>s_topicStore := SetTopicMeta (ctr_TopicId topicData) meta (s_topicStore s)\<rparr>))"

definition start_follower :: "env \<Rightarrow> gostring \<Rightarrow> i32 \<Rightarrow> Server \<Rightarrow> Server" where
  "start_follower e name pidx s =
     (case GetPartitionState name pidx (s_pss s) of
        Some ps \<Rightarrow> if ps_LeaderBrokerID ps \<noteq> s_brokerID s then StartFollowerFetch e name pidx (ps_LeaderBrokerID ps) s else s
      | None \<Rightarrow> s)"

definition publish_partition ::
  "(bytes \<Rightarrow> gostring) \<Rightarrow> env \<Rightarrow> CreateTopicResponseData \<Rightarrow> i32 \<Rightarrow> Server \<Rightarrow> unit res \<times> Server" where
  "publish_partition uuid_String e topicData pidx s =
     (case GetPartitionState (ctr_Name topicData) pidx (s_pss s) of
        None \<Rightarrow> (Ok (), s)
      | Some ps \<Rightarrow>
          metadata_append uuid_String e (PartitionRecord_Encode
            \<lparr>pr_TopicId = ctr_TopicId topicData, pr_PartitionId = pidx, pr_Leader = ps_LeaderBrokerID ps,
             pr_LeaderEpoch = 0, pr_Replicas = ps_Replicas ps, pr_ISR = ps_ISR ps\<rparr>) s)"

definition create_topic ::
  "(bytes \<Rightarrow> gostring) \<Rightarrow> env \<Rightarrow> i32 list \<Rightarrow> CreateTopicResponseData \<Rightarrow> Server \<Rightarrow> unit res \<times> Server" where
  "create_topic uuid_String e knownBrokers topicData s =
     (if ctr_ErrorCode topicData \<noteq> 0 then (Ok (), s)
      else let name = ctr_Name topicData; parts = partitions_of (ctr_NumPartitions topicData) in
        case AssignReplicas name (ctr_NumPartitions topicData) (scast (ctr_ReplicationFactor topicData)) knownBrokers
               (s_pss s) of
          Ok pss \<Rightarrow>
            let s = s\<lparr>s_pss := pss, s_topicStore := snd (AddTopic topicData (s_topicStore s))\<rparr>;
                minISR = (case parseTopicConfig (ctr_Configs topicData) of Ok n \<Rightarrow> n | _ \<Rightarrow> 1)
            in (case createTopicStorage uuid_String e topicData minISR s of
                  (Panic, s) \<Rightarrow> (Panic, s)
                | (_, s) \<Rightarrow>
                    let s = fold (start_follower e name) parts s in
                    (case metadata_append uuid_String e (TopicRecord_Encode
                            \<lparr>tr_TopicId = ctr_TopicId topicData, tr_Name = name,
                             tr_NumPartitions = ctr_NumPartitions topicData, tr_MinInsyncReplicas = minISR\<rparr>) s of
                       (Panic, s) \<Rightarrow> (Panic, s)
                     | (_, s) \<Rightarrow> each (publish_partition uuid_String e topicData) parts s))
        | _ \<Rightarrow> (Panic, s))"

definition create_topics ::
  "(bytes \<Rightarrow> gostring) \<Rightarrow> env \<Rightarrow> CreateTopicsRequest \<Rightarrow> Server \<Rightarrow> CreateTopicsResponse res \<times> Server" where
  "create_topics uuid_String e req s =
     (let topics = validateTopics (e_newV7 e) (ctq_Topics req);
          knownBrokers = (if GetAllBrokerIDs s = [] then [s_brokerID s] else GetAllBrokerIDs s)
      in case each (create_topic uuid_String e knownBrokers) topics s of
           (Panic, s) \<Rightarrow> (Panic, s)
         | (_, s) \<Rightarrow> (Ok \<lparr>cts_ThrottleTimeMs = 0, cts_Topics = topics\<rparr>, s))"

definition HandleCreateTopics ::
  "(bytes \<Rightarrow> gostring) \<Rightarrow> env \<Rightarrow> RequestHeader \<Rightarrow> reader \<Rightarrow> conn \<Rightarrow> Server \<Rightarrow> unit res \<times> conn \<times> Server" where
  "HandleCreateTopics uuid_String e header =
     handle CreateTopicsRequest_Decode (create_topics uuid_String e) CreateTopicsResponse_Encode (reply_header header)"

section \<open>Applying metadata records\<close>

definition recover_producers :: "env \<Rightarrow> gostring \<Rightarrow> i32 \<Rightarrow> commitLog \<Rightarrow> Server \<Rightarrow> Server" where
  "recover_producers e topicName pidx log s =
     (case GetPartitionState topicName pidx (s_pss s) of
        Some ps \<Rightarrow>
          if ps_Idempotence ps = None then s
          else let psm = NewProducerStateManager (Some (e_disk e topicName pidx)) (ps_Idempotence ps);
                   psm = snd (Recover (e_snap e) (clf_stat (e_faults e)) (e_now e) (Some log) psm)
               in s\<lparr>s_pss := AList.update (partition_key topicName pidx) (ps\<lparr>ps_Idempotence := psm_state psm\<rparr>) (s_pss s)\<rparr>
      | None \<Rightarrow> s)"

definition createPartitionLog ::
  "(bytes \<Rightarrow> gostring) \<Rightarrow> env \<Rightarrow> gostring \<Rightarrow> bytes \<Rightarrow> i32 \<Rightarrow> Server \<Rightarrow> unit res \<times> Server" where
  "createPartitionLog uuid_String e topicName topicId partitionId s =
     (case NewCommitLog (e_faults e) defaultCommitLogConfig (e_disk e topicName partitionId) of
        Ok cl \<Rightarrow>
          let s = s\<lparr>s_pss := SetLeader topicName partitionId (s_brokerID s) (s_pss s)\<rparr>;
              s = attach_log uuid_String e topicName topicId partitionId cl s
          in (Ok (), recover_producers e topicName partitionId cl s)
      | Err err \<Rightarrow> (Err err, s)
      | Panic \<Rightarrow> (Panic, s))"

text \<open>A value too short to name its type panics in the message about it.\<close>

definition ApplyMetadataRecord :: "(bytes \<Rightarrow> gostring) \<Rightarrow> env \<Rightarrow> bytes \<Rightarrow> Server \<Rightarrow> unit res \<times> Server" where
  "ApplyMetadataRecord uuid_String e val s =
     (case Decode val of
        Panic \<Rightarrow> (Panic, s)
      | Err err \<Rightarrow> (Err err, s)
      | Ok None \<Rightarrow> (if val = [] then (Panic, s) else (Ok (), s))
      | Ok (Some (Broker_Record r)) \<Rightarrow>
          (Ok (), s\<lparr>s_brokerRegistry :=
             snd (RegisterBroker (e_now e) (br_BrokerId r) (br_Host r) (br_Port r) (s_brokerRegistry s))\<rparr>)
      | Ok (Some (Topic_Record r)) \<Rightarrow>
          let minISR = (if sint (tr_MinInsyncReplicas r) \<le> 0 then 1 else tr_MinInsyncReplicas r);
              meta = \<lparr>tm_Name = tr_Name r, tm_TopicId = uuid_String (tr_TopicId r), tm_NumPartitions = tr_NumPartitions r,
                      tm_ReplicationFactor = 1, tm_MinInsyncReplicas = minISR\<rparr>
          in (Ok (), s\<lparr>s_topicStore := SetTopicMeta (tr_TopicId r) meta
                (RegisterTopic (tr_TopicId r) (tr_Name r) (tr_NumPartitions r) (s_topicStore s))\<rparr>)
      | Ok (Some (ProducerIds_Record r)) \<Rightarrow>
          (Ok (), s\<lparr>s_pidManager := SeedFromLog (pi_NextProducerId r) (s_pidManager s)\<rparr>)
      | Ok (Some (Partition_Record r)) \<Rightarrow>
          (case GetTopic (pr_TopicId r) (s_topicStore s) of
             Ok topicData \<Rightarrow>
               let topicName = ctr_Name topicData;
                   s = s\<lparr>s_pss := SetPartitionState topicName (pr_PartitionId r) (pr_Leader r) (pr_LeaderEpoch r)
                          (pr_Replicas r) (pr_ISR r) (s_pss s)\<rparr>
               in if pr_Leader r = s_brokerID s
                  then (case createPartitionLog uuid_String e topicName (pr_TopicId r) (pr_PartitionId r) s of
                          (Panic, s) \<Rightarrow> (Panic, s)
                        | (_, s) \<Rightarrow> (Ok (), s))
                  else (Ok (), AddFetcher e topicName (pr_PartitionId r) (pr_Leader r) s)
           | _ \<Rightarrow> (Ok (), s)))"

section \<open>Start-up\<close>

definition initMetadataLog :: "(bytes \<Rightarrow> gostring) \<Rightarrow> env \<Rightarrow> Server \<Rightarrow> unit res \<times> Server" where
  "initMetadataLog uuid_String e s =
     (case NewCommitLog (e_faults e) defaultCommitLogConfig (e_disk e metadata_topic 0) of
        Ok cl \<Rightarrow>
          let controllerID = LowestBrokerID (s_brokerRegistry s) in
          (Ok (), s\<lparr>s_metaInit := True,
             s_topicStore := AddCommitLog uuid_String ClusterMetadataTopicID 0 cl
               (RegisterTopic ClusterMetadataTopicID metadata_topic 1 (s_topicStore s)),
             s_pss := SetPartitionState metadata_topic 0 controllerID 0 [controllerID] [controllerID] (s_pss s)\<rparr>)
      | Err err \<Rightarrow> (Err err, s)
      | Panic \<Rightarrow> (Panic, s))"

text \<open>\<^verbatim>\<open>strconv.Atoi\<close> of what follows the topic's name; a name that does not parse is partition 0.\<close>

definition TrimPrefix :: "gostring \<Rightarrow> gostring \<Rightarrow> gostring" where
  "TrimPrefix s prefix = (if take (length prefix) s = prefix then drop (length prefix) s else s)"

definition parsePartitionIndex :: "gostring \<Rightarrow> gostring \<Rightarrow> i32" where
  "parsePartitionIndex dirName topicName =
     (case ParseInt (TrimPrefix dirName (topicName @ str ''-'')) of Ok idx \<Rightarrow> word_of_int idx | _ \<Rightarrow> 0)"

definition recover_partition ::
  "(bytes \<Rightarrow> gostring) \<Rightarrow> (gostring \<Rightarrow> bytes option) \<Rightarrow> env \<Rightarrow> TopicMeta \<Rightarrow> gostring \<times> dir \<Rightarrow> Server \<Rightarrow> unit res \<times> Server" where
  "recover_partition uuid_String uuid_FromString e meta = (\<lambda>(partEntry, files) s.
     let partitionIndex = parsePartitionIndex partEntry (tm_Name meta);
         e = e\<lparr>e_disk := (\<lambda>_ _. files)\<rparr>
     in case NewCommitLog (e_faults e) defaultCommitLogConfig files of
          Ok cl \<Rightarrow>
            (case uuid_FromString (tm_TopicId meta) of
               None \<Rightarrow> (Err (GoErr ''invalid uuid''), s)
             | Some topicId \<Rightarrow>
                 let s = s\<lparr>s_pss := SetLeader (tm_Name meta) partitionIndex (s_brokerID s) (s_pss s)\<rparr>;
                     s = attach_log uuid_String e (tm_Name meta) topicId partitionIndex cl s
                 in (Ok (), recover_producers e (tm_Name meta) partitionIndex cl s))
        | Err err \<Rightarrow> (Err err, s)
        | Panic \<Rightarrow> (Panic, s))"

text \<open>
  The log directory as it is listed: per topic directory what \<^verbatim>\<open>meta.json\<close> holds (\<open>None\<close> when it
  cannot be read) and the partition directories (\<open>None\<close> when they cannot be listed). A log
  directory that does not exist has no entries.
\<close>

definition recover_topic_dir ::
  "(bytes \<Rightarrow> gostring) \<Rightarrow> (gostring \<Rightarrow> bytes option) \<Rightarrow> env \<Rightarrow> TopicMeta option \<times> (gostring \<times> dir) list option \<Rightarrow>
     Server \<Rightarrow> unit res \<times> Server" where
  "recover_topic_dir uuid_String uuid_FromString e = (\<lambda>(meta, parts) s.
     case meta of
       None \<Rightarrow> (Ok (), s)
     | Some meta \<Rightarrow>
         (case AddTopicMetadata uuid_FromString meta (s_topicStore s) of
            (Ok _, ts) \<Rightarrow>
              let s = s\<lparr>s_topicStore := ts\<rparr> in
              (case parts of
                 None \<Rightarrow> (Err OSErr, s)
               | Some parts \<Rightarrow> until_error (recover_partition uuid_String uuid_FromString e meta) parts s)
          | (Err _, ts) \<Rightarrow> (Ok (), s)
          | (Panic, ts) \<Rightarrow> (Panic, s)))"

definition recoverTopic ::
  "(bytes \<Rightarrow> gostring) \<Rightarrow> (gostring \<Rightarrow> bytes option) \<Rightarrow> env \<Rightarrow> (TopicMeta option \<times> (gostring \<times> dir) list option) list res \<Rightarrow>
     Server \<Rightarrow> unit res \<times> Server" where
  "recoverTopic uuid_String uuid_FromString e entries s =
     (case entries of
        Ok entries \<Rightarrow> until_error (recover_topic_dir uuid_String uuid_FromString e) entries s
      | Err err \<Rightarrow> (Err err, s)
      | Panic \<Rightarrow> (Panic, s))"

definition server_Start ::
  "(bytes \<Rightarrow> gostring) \<Rightarrow> (gostring \<Rightarrow> bytes option) \<Rightarrow> env \<Rightarrow> (TopicMeta option \<times> (gostring \<times> dir) list option) list res \<Rightarrow>
     Server \<Rightarrow> (unit res \<times> Server) option" where
  "server_Start uuid_String uuid_FromString e entries s =
     (case recoverTopic uuid_String uuid_FromString e entries s of
        (Ok _, s) \<Rightarrow>
          (case initMetadataLog uuid_String e s of
             (Ok _, s) \<Rightarrow>
               (case recoverPidManager
                       (\<lambda>st. Replay (clf_stat (e_faults e)) False max_pid (GetMetadataLog uuid_String s) st)
                       (s_brokerID s) (s_brokerEpoch s) (s_pidManager s) of
                  None \<Rightarrow> None
                | Some (Ok m) \<Rightarrow> Some (Ok (), s\<lparr>s_pidManager := m\<rparr>)
                | Some (Err err) \<Rightarrow> Some (Err err, s)
                | Some Panic \<Rightarrow> Some (Panic, s))
           | (r, s) \<Rightarrow> Some (r, s))
      | (r, s) \<Rightarrow> Some (r, s))"

section \<open>Clients of these handlers\<close>

interpretation create_topics_rpc: rpc CreateTopicsRequest_Encode CreateTopicsRequest_Decode CreateTopicsRequest_valid CreateTopicsResponse_Encode CreateTopicsResponse_Decode CreateTopicsResponse_valid
  by unfold_locales

end
