(* ===== verification/Kaf_Produce.thy ===== *)
theory Kaf_Produce
  imports Kaf_Cluster
begin

text \<open>
  The produce handler (\<^verbatim>\<open>api/produce_api.go\<close>): for every partition of the request the checks,
  the duplicate gate, the append with the snapshot hook, the partition state and the purgatory.
\<close>

section \<open>Handler\<close>

record partitionResult =
  pt_index :: i32
  pt_baseOffset :: i64
  pt_errorCode :: i16
  pt_suppressed :: bool
  pt_recordsAppended :: nat
  pt_bytesAppended :: nat

record topicResult =
  tp_name :: gostring
  tp_topicId :: bytes
  tp_partitions :: "partitionResult list"

definition AckAtMostOnce :: i16 where "AckAtMostOnce = 0"
definition AckAtLeastOnce :: i16 where "AckAtLeastOnce = 1"
definition AckExactlyOnce :: i16 where "AckExactlyOnce = -1"

definition validateValidAcks :: "i16 \<Rightarrow> bool" where
  "validateValidAcks ack \<longleftrightarrow> ack = AckAtMostOnce \<or> ack = AckAtLeastOnce \<or> ack = AckExactlyOnce"

definition put_partition :: "gostring \<Rightarrow> i32 \<Rightarrow> PartitionState \<Rightarrow> Server \<Rightarrow> Server" where
  "put_partition name pidx ps s = s\<lparr>s_pss := AList.update (partition_key name pidx) ps (s_pss s)\<rparr>"

text \<open>The hook of a rolled segment: a snapshot of the partition's producers into its directory.\<close>

definition run_roll_hook :: "env \<Rightarrow> gostring \<Rightarrow> i32 \<Rightarrow> PartitionState \<Rightarrow> int option \<Rightarrow> Server \<Rightarrow> Server" where
  "run_roll_hook e name pidx ps rolled s =
     (case rolled of
        None \<Rightarrow> s
      | Some newBase \<Rightarrow>
          let key = partition_key name pidx;
              psm = OnSegmentRoll (e_snap e) newBase
                (NewProducerStateManager (map_of (s_snapshotDirs s) key) (ps_Idempotence ps))
          in case psm_dir psm of
               Some d \<Rightarrow> s\<lparr>s_snapshotDirs := AList.update key d (s_snapshotDirs s)\<rparr>
             | None \<Rightarrow> s)"

text \<open>
  The \<^verbatim>\<open>acks=-1\<close> branch: the waiter is parked and woken at once when the watermark is already
  past it; otherwise the surroundings decide what the \<^verbatim>\<open>select\<close> sees.
\<close>

definition await_replicas ::
  "env \<Rightarrow> int \<Rightarrow> partitionResult \<Rightarrow> PartitionState \<Rightarrow> Server \<Rightarrow> partitionResult \<times> PartitionState \<times> Server" where
  "await_replicas e lastOffset pr ps s =
     (let ch = s_nextChan s;
          w = \<lparr>w_RequiredOffset = lastOffset, w_ISRSnapshot = ps_ISR ps, w_Done = ch\<rparr>;
          ps = ps\<lparr>ps_Purgatory := Purgatory_Add w (ps_Purgatory ps)\<rparr>;
          (ps, done) = complete_waiters (GetHWM ps) ps;
          outcome = (if (ch, None) \<in> set done then (if e_timer e ch then None else Some None) else e_arrives e ch);
          code = (case outcome of None \<Rightarrow> ErrRequestTimedOut | Some None \<Rightarrow> 0 | Some (Some err) \<Rightarrow> err_id err)
      in (pr\<lparr>pt_errorCode := code\<rparr>, ps, s\<lparr>s_nextChan := ch + 1, s_sent := s_sent s @ done\<rparr>))"

definition produce_append ::
  "(bytes \<Rightarrow> gostring) \<Rightarrow> env \<Rightarrow> i16 \<Rightarrow> bytes \<Rightarrow> gostring \<Rightarrow> partitionResult \<Rightarrow> bytes \<Rightarrow> RecordBatch \<Rightarrow> PartitionState \<Rightarrow>
     Server \<Rightarrow> partitionResult res \<times> Server" where
  "produce_append uuid_String e acks topicId name pr records batch ps s =
     (let pidx = pt_index pr; n = length (rb_Records batch) in
      case GetCommitLog uuid_String topicId pidx (s_topicStore s) of
        None \<Rightarrow> (Ok (pr\<lparr>pt_errorCode := ErrUnknownTopicOrPartition\<rparr>), s)
      | Some cl \<Rightarrow>
          (case commitLog_AppendRaw (e_faults e) (e_now e) records (of_nat n) cl of
             (out, cl, rolled) \<Rightarrow>
               let s = s\<lparr>s_topicStore := AddCommitLog uuid_String topicId pidx cl (s_topicStore s)\<rparr> in
               (case out of
                  Err _ \<Rightarrow> (Ok (pr\<lparr>pt_errorCode := ErrKafkaStorageError\<rparr>), s)
                | Panic \<Rightarrow> (Panic, s)
                | Ok baseOffset \<Rightarrow>
                    let s = run_roll_hook e name pidx ps rolled s;
                        pr = pr\<lparr>pt_recordsAppended := n, pt_bytesAppended := length records\<rparr>;
                        pid = rb_ProducerId batch; firstSeq = rb_BaseSequence batch;
                        lastSeq = firstSeq + of_nat n - 1;
                        ps = (case ps_Idempotence ps of
                                Some st \<Rightarrow>
                                  if 0 \<le> sint pid
                                  then ps\<lparr>ps_Idempotence := Some (Record (sint (e_millis e)) pid (rb_ProducerEpoch batch)
                                         firstSeq lastSeq (word_of_int baseOffset) st)\<rparr>
                                  else ps
                              | None \<Rightarrow> ps);
                        lastOffset = baseOffset + int n - 1;
                        (ps, done) = OnLeaderAppend lastOffset ps;
                        s = s\<lparr>s_sent := s_sent s @ done\<rparr>
                    in if acks = AckAtMostOnce then (Ok (pr\<lparr>pt_suppressed := True\<rparr>), put_partition name pidx ps s)
                       else if acks = AckAtLeastOnce
                       then (Ok (pr\<lparr>pt_baseOffset := word_of_int baseOffset\<rparr>), put_partition name pidx ps s)
                       else case await_replicas e lastOffset pr ps s of
                              (pr, ps, s) \<Rightarrow>
                                (Ok (pr\<lparr>pt_baseOffset := word_of_int baseOffset\<rparr>), put_partition name pidx ps s))))"

definition produce_batch ::
  "(bytes \<Rightarrow> gostring) \<Rightarrow> env \<Rightarrow> i16 \<Rightarrow> bytes \<Rightarrow> gostring \<Rightarrow> partitionResult \<Rightarrow> bytes \<Rightarrow> RecordBatch \<Rightarrow> PartitionState \<Rightarrow>
     Server \<Rightarrow> partitionResult res \<times> Server" where
  "produce_batch uuid_String e acks topicId name pr records batch ps s =
     (let pid = rb_ProducerId batch; firstSeq = rb_BaseSequence batch;
          lastSeq = firstSeq + of_nat (length (rb_Records batch)) - 1
      in case ps_Idempotence ps of
           Some st \<Rightarrow>
             if 0 \<le> sint pid then
               (case Validate (sint (e_millis e)) pid (rb_ProducerEpoch batch) firstSeq lastSeq st of
                  (out, st) \<Rightarrow>
                    let ps = ps\<lparr>ps_Idempotence := Some st\<rparr>; s = put_partition name (pt_index pr) ps s in
                    (case out of
                       Err err \<Rightarrow> (Ok (pr\<lparr>pt_errorCode := err_id err\<rparr>), s)
                     | Panic \<Rightarrow> (Panic, s)
                     | Ok (cachedBase, dup) \<Rightarrow>
                         if dup then (Ok (pr\<lparr>pt_baseOffset := cachedBase\<rparr>), s)
                         else produce_append uuid_String e acks topicId name pr records batch ps s))
             else produce_append uuid_String e acks topicId name pr records batch ps s
         | None \<Rightarrow> produce_append uuid_String e acks topicId name pr records batch ps s)"

definition produce_partition ::
  "(bytes \<Rightarrow> gostring) \<Rightarrow> (bytes \<Rightarrow> bytes option) \<Rightarrow> env \<Rightarrow> i16 \<Rightarrow> bytes \<Rightarrow> gostring \<Rightarrow> ProduceRequestPartitionData \<Rightarrow>
     Server \<Rightarrow> partitionResult res \<times> Server" where
  "produce_partition uuid_String snappy e acks topicId name part s =
     (let pr = \<lparr>pt_index = ppd_Index part, pt_baseOffset = 0, pt_errorCode = 0, pt_suppressed = False,
                pt_recordsAppended = 0, pt_bytesAppended = 0\<rparr>;
          fail = (\<lambda>code. (Ok (pr\<lparr>pt_errorCode := code\<rparr>), s))
      in if \<not> validateValidAcks acks then fail ErrInvalidRequiredAcks
         else case GetPartitionState name (ppd_Index part) (s_pss s) of
                None \<Rightarrow> fail ErrErrNotLeaderForPartition
              | Some ps \<Rightarrow>
                  if ps_LeaderBrokerID ps \<noteq> s_brokerID s then fail ErrErrNotLeaderForPartition
                  else if acks = AckExactlyOnce \<and>
                    sint (of_nat (length (ps_ISR ps)) :: i16) < sint (GetMinInsyncReplicas topicId (s_topicStore s))
                  then fail ErrNotEnoughReplicas
                  else (case ppd_Records part of
                          None \<Rightarrow> (Ok pr, s)
                        | Some records \<Rightarrow>
                            (case DecodeRecordBatch snappy records of
                               Err _ \<Rightarrow> fail ErrCorruptMessage
                             | Panic \<Rightarrow> (Panic, s)
                             | Ok batch \<Rightarrow> produce_batch uuid_String e acks topicId name pr records batch ps s)))"

text \<open>Loops that collect a result per round.\<close>

fun collect :: "('a \<Rightarrow> 's \<Rightarrow> 'b res \<times> 's) \<Rightarrow> 'a list \<Rightarrow> 's \<Rightarrow> 'b list res \<times> 's" where
  "collect f [] s = (Ok [], s)"
| "collect f (x # xs) s =
     (case f x s of
        (Ok y, s) \<Rightarrow> (case collect f xs s of (Ok ys, s) \<Rightarrow> (Ok (y # ys), s) | (Err e, s) \<Rightarrow> (Err e, s) | (Panic, s) \<Rightarrow> (Panic, s))
      | (Err e, s) \<Rightarrow> (Err e, s)
      | (Panic, s) \<Rightarrow> (Panic, s))"

text \<open>A topic the broker does not know is left out of the results.\<close>

fun produce_topics ::
  "(bytes \<Rightarrow> gostring) \<Rightarrow> (bytes \<Rightarrow> bytes option) \<Rightarrow> env \<Rightarrow> i16 \<Rightarrow> ProduceRequestTopicData list \<Rightarrow> Server \<Rightarrow>
     topicResult list res \<times> Server" where
  "produce_topics uuid_String snappy e acks [] s = (Ok [], s)"
| "produce_topics uuid_String snappy e acks (topic # topics) s =
     (case GetTopic (ptd_TopicId topic) (s_topicStore s) of
        Ok topicMeta \<Rightarrow>
          (case collect (produce_partition uuid_String snappy e acks (ptd_TopicId topic) (ctr_Name topicMeta))
                  (ptd_PartitionData topic) s of
             (Ok prs, s) \<Rightarrow>
               (case produce_topics uuid_String snappy e acks topics s of
                  (Ok ts, s) \<Rightarrow>
                    (Ok (\<lparr>tp_name = ptd_Name topic, tp_topicId = ptd_TopicId topic, tp_partitions = prs\<rparr> # ts), s)
                | (Err err, s) \<Rightarrow> (Err err, s)
                | (Panic, s) \<Rightarrow> (Panic, s))
           | (Err err, s) \<Rightarrow> (Err err, s)
           | (Panic, s) \<Rightarrow> (Panic, s))
      | _ \<Rightarrow> produce_topics uuid_String snappy e acks topics s)"

definition produce_response :: "topicResult list \<Rightarrow> ProduceResponse" where
  "produce_response results =
     \<lparr>prs_Responses = map (\<lambda>tr. \<lparr>tpr_TopicId = tp_topicId tr,
        tpr_PartitionResponses = map (\<lambda>pr.
          \<lparr>ppr_Index = pt_index pr, ppr_ErrorCode = pt_errorCode pr, ppr_BaseOffset = pt_baseOffset pr,
           ppr_LogAppendTimeMs = -1, ppr_LogStartOffset = pt_baseOffset pr, ppr_RecordErrors = [],
           ppr_ErrorMessage = (if pt_errorCode pr \<noteq> 0 then Some (ErrorMessage (pt_errorCode pr)) else None)\<rparr>)
          (tp_partitions tr)\<rparr>) results,
      prs_ThrottleTimeMs = 0, prs_NodeEndpoints = []\<rparr>"

definition writeProduceApiResponse ::
  "RequestHeader \<Rightarrow> topicResult list \<Rightarrow> i16 \<Rightarrow> conn \<Rightarrow> unit res \<times> conn" where
  "writeProduceApiResponse header results acks c =
     (if acks = 0 then (Ok (), c)
      else WriteFraming (reply_header header) (\<lambda>w. Ok (ProduceResponse_Encode (produce_response results) w)) c)"

definition HandleProduceApiKeys ::
  "(bytes \<Rightarrow> gostring) \<Rightarrow> (bytes \<Rightarrow> bytes option) \<Rightarrow> env \<Rightarrow> RequestHeader \<Rightarrow> reader \<Rightarrow> conn \<Rightarrow> Server \<Rightarrow>
     unit res \<times> conn \<times> Server" where
  "HandleProduceApiKeys uuid_String snappy e header r c s =
     (case fst (ProduceRequest_Decode r) of
        Err err \<Rightarrow> (Err err, c, s)
      | Panic \<Rightarrow> (Panic, c, s)
      | Ok req \<Rightarrow>
          (case produce_topics uuid_String snappy e (pq_Acks req) (pq_TopicData req) s of
             (Ok results, s) \<Rightarrow>
               (case writeProduceApiResponse header results (pq_Acks req) c of (out, c) \<Rightarrow> (out, c, s))
           | (Err err, s) \<Rightarrow> (Err err, c, s)
           | (Panic, s) \<Rightarrow> (Panic, c, s)))"

section \<open>Retries\<close>

text \<open>A producer that sends the batch it sent last again is told where it is.\<close>

lemma lookupRing_record:
  assumes "ring_inv p" "lookupRing p f l = None" "0 \<le> sint f"
  shows "lookupRing (record_batch now e f l b p) f l = Some b"
proof -
  let ?new = "\<lparr>rs_FirstSeq = f, rs_LastSeq = l, rs_BaseOffset = b, rs_LeaderEpoch = -1\<rparr>"
  let ?ring = "(pl_Ring p)[pl_RingHead p := ?new]"
  have h: "pl_RingHead p < length (pl_Ring p)" using assms(1) by (auto simp: ring_inv_def)
  then have "?new \<in> set ?ring" "set ?ring \<subseteq> insert ?new (set (pl_Ring p))"
    using set_update_memI set_update_subset_insert by fast+
  moreover have "\<forall>s\<in>set (pl_Ring p). filled s \<longrightarrow> (rs_FirstSeq s, rs_LastSeq s) \<noteq> (f, l)"
    using assms(2) by (simp add: lookupRing_def lookup_slots_None)
  moreover have "filled ?new" using assms(3) by (simp add: filled_def)
  ultimately show ?thesis
    using lookup_slots_None [of ?ring f l] lookup_slots_Some [of ?ring f l]
    by (cases "lookup_slots ?ring f l") (auto simp: lookupRing_def record_batch_def)
qed

lemma Validate_retry:
  assumes "\<And>p. map_of st pid = Some p \<Longrightarrow> ring_inv p \<and> lookupRing p f l = None"
    and "0 \<le> sint f" "sint f \<le> sint l" "sint l < 2 ^ 31 - 1"
    and "now' - sint now \<le> producerIdExpirationMs"
  shows "Validate now' pid e f l (Record (sint (now :: i64)) pid e f l b st) = (Ok (b, True), Record (sint now) pid e f l b st)"
proof -
  let ?p = "case map_of st pid of Some p \<Rightarrow> p | None \<Rightarrow> newProducerBatchLog e"
  have p: "ring_inv ?p" "lookupRing ?p f l = None"
    using assms(1) ring_inv_new [of e]
    by (auto simp: lookupRing_def lookup_slots_None newProducerBatchLog_def not_filled_empty split: option.splits)
  define st' where "st' = Record (sint now) pid e f l b st"
  obtain q where q: "map_of st' pid = Some q" "lookupRing q f l = Some b" "pl_LastEpoch q = e" "pl_LastSeq q = l"
      "pl_LastTimestamp q = now"
    using lookupRing_record [OF p assms(2), of "sint now" e b] by (simp add: st'_def map_of_Record record_batch_def)
  have "sint (l + 1) = sint l + 1" using assms(4) by (rule sint_succ)
  then have "f \<noteq> l + 1" "\<not> sint f > sint (l + 1)" "l \<noteq> 0x7fffffff" using assms(3,4) by auto
  then have "Validate now' pid e f l st' = (Ok (b, True), st')"
    using q assms(5) by (simp add: Validate_def expire_def Let_def)
  then show ?thesis by (simp add: st'_def)
qed

lemma sint_seq_end:
  assumes "0 \<le> sint (f :: i32)" "0 < n" "sint f + int n < 2 ^ 31"
  shows "sint (f + of_nat n - 1) = sint f + int n - 1"
proof -
  have "f + of_nat n - 1 = word_of_int (sint f + int n - 1)" by simp
  then show ?thesis using assms by (simp add: sint_sbintrunc' signed_take_bit_int_eq_self del: of_int_add of_int_diff)
qed

lemma OnLeaderAppend_fields [simp]:
  "ps_Idempotence (fst (OnLeaderAppend o' ps)) = ps_Idempotence ps"
  "ps_LeaderBrokerID (fst (OnLeaderAppend o' ps)) = ps_LeaderBrokerID ps"
  "ps_ISR (fst (OnLeaderAppend o' ps)) = ps_ISR ps"
  by (auto simp: OnLeaderAppend_def AdvanceHWM_def advance_locked_def append_locked_def complete_waiters_def Let_def
      split: prod.split option.split)

lemma await_replicas_fields [simp]:
  "ps_Idempotence (fst (snd (await_replicas e o' pr ps s))) = ps_Idempotence ps"
  "ps_LeaderBrokerID (fst (snd (await_replicas e o' pr ps s))) = ps_LeaderBrokerID ps"
  "ps_ISR (fst (snd (await_replicas e o' pr ps s))) = ps_ISR ps"
  "pt_index (fst (await_replicas e o' pr ps s)) = pt_index pr"
  "pt_recordsAppended (fst (await_replicas e o' pr ps s)) = pt_recordsAppended pr"
  "s_topicStore (snd (snd (await_replicas e o' pr ps s))) = s_topicStore s"
  "s_brokerID (snd (snd (await_replicas e o' pr ps s))) = s_brokerID s"
  by (simp_all add: await_replicas_def Let_def complete_waiters_def split_beta)

lemma run_roll_hook_fields [simp]:
  "s_topicStore (run_roll_hook e n i ps r s) = s_topicStore s" "s_pss (run_roll_hook e n i ps r s) = s_pss s"
  "s_brokerID (run_roll_hook e n i ps r s) = s_brokerID s"
  by (auto simp: run_roll_hook_def Let_def split: option.split)

lemma put_partition_fields [simp]:
  "GetPartitionState n i (s_pss (put_partition n i ps s)) = Some ps"
  "s_topicStore (put_partition n i ps s) = s_topicStore s" "s_brokerID (put_partition n i ps s) = s_brokerID s"
  by (simp_all add: put_partition_def GetPartitionState_def update_conv')

lemma put_partition_same: "GetPartitionState n i (s_pss s) = Some ps \<Longrightarrow> put_partition n i ps s = s"
proof -
  have "map_of xs k = Some v \<Longrightarrow> AList.update k v xs = xs" for k v and xs :: "(gostring \<times> PartitionState) list"
    by (induction xs) (auto split: if_splits)
  then show "GetPartitionState n i (s_pss s) = Some ps \<Longrightarrow> put_partition n i ps s = s"
    by (simp add: put_partition_def GetPartitionState_def)
qed

text \<open>What a successful append leaves behind.\<close>

lemma produce_append_effect:
  assumes "produce_append S e acks u n pr recs b ps s = (Ok pr', s')" "pt_recordsAppended pr' \<noteq> pt_recordsAppended pr"
    and "acks \<noteq> AckAtMostOnce"
  obtains cl base cl' r ps' where "GetCommitLog S u (pt_index pr) (s_topicStore s) = Some cl"
    "commitLog_AppendRaw (e_faults e) (e_now e) recs (of_nat (length (rb_Records b))) cl = (Ok base, cl', r)"
    "s_topicStore s' = AddCommitLog S u (pt_index pr) cl' (s_topicStore s)" "s_brokerID s' = s_brokerID s"
    "GetPartitionState n (pt_index pr) (s_pss s') = Some ps'" "ps_LeaderBrokerID ps' = ps_LeaderBrokerID ps"
    "ps_ISR ps' = ps_ISR ps" "pt_baseOffset pr' = word_of_int base" "pt_recordsAppended pr' = length (rb_Records b)"
    "\<And>st. ps_Idempotence ps = Some st \<Longrightarrow> 0 \<le> sint (rb_ProducerId b) \<Longrightarrow>
       ps_Idempotence ps' = Some (Record (sint (e_millis e)) (rb_ProducerId b) (rb_ProducerEpoch b) (rb_BaseSequence b)
         (rb_BaseSequence b + of_nat (length (rb_Records b)) - 1) (word_of_int base) st)"
proof -
  obtain cl where cl: "GetCommitLog S u (pt_index pr) (s_topicStore s) = Some cl"
    using assms(1,2) by (auto simp: produce_append_def Let_def split: option.splits)
  obtain out cl' r where app: "commitLog_AppendRaw (e_faults e) (e_now e) recs (of_nat (length (rb_Records b))) cl = (out, cl', r)"
    by (rule prod_cases3)
  then obtain base where base: "out = Ok base"
    using assms(1,2) cl by (auto simp: produce_append_def Let_def split: res.splits)
  show ?thesis
    using assms that [OF cl app [unfolded base]] cl app base
    by (auto simp: produce_append_def Let_def split_beta split: if_splits option.splits)
qed

text \<open>
  C5. A retried batch is not appended twice. When a produce request with acknowledgements appended
  a producer's new batch, the same request sent again within the expiry time is answered without
  error with the base offset of the first append and changes nothing: the broker's whole state is
  the same. This holds also when the first request timed out waiting for replicas, so a retry
  with acks=-1 is acknowledged whether or not the batch has been replicated.
\<close>

theorem produce_retry_appends_once:
  assumes first: "produce_partition S z e acks u n part s = (Ok pr, s')" "pt_recordsAppended pr \<noteq> 0" "acks \<noteq> AckAtMostOnce"
    and batch: "ppd_Records part = Some recs" "DecodeRecordBatch z recs = Ok b" "0 \<le> sint (rb_ProducerId b)"
    and st: "GetPartitionState n (ppd_Index part) (s_pss s) = Some ps" "ps_Idempotence ps = Some st"
    and new: "\<forall>p. map_of st (rb_ProducerId b) = Some p \<longrightarrow> ring_inv p \<and>
      lookupRing p (rb_BaseSequence b) (rb_BaseSequence b + of_nat (length (rb_Records b)) - 1) = None"
    and seq: "0 \<le> sint (rb_BaseSequence b)" "sint (rb_BaseSequence b) + int (length (rb_Records b)) < 2 ^ 31"
    and time: "sint (e_millis e') - sint (e_millis e) \<le> producerIdExpirationMs"
  shows "produce_partition S z e' acks u n part s' =
      (Ok \<lparr>pt_index = ppd_Index part, pt_baseOffset = pt_baseOffset pr, pt_errorCode = 0, pt_suppressed = False,
           pt_recordsAppended = 0, pt_bytesAppended = 0\<rparr>, s')"
proof -
  let ?f = "rb_BaseSequence b" and ?pid = "rb_ProducerId b" and ?ep = "rb_ProducerEpoch b" and ?i = "ppd_Index part"
  let ?l = "?f + of_nat (length (rb_Records b)) - 1"
  let ?pr = "\<lparr>pt_index = ?i, pt_baseOffset = 0, pt_errorCode = 0, pt_suppressed = False, pt_recordsAppended = 0, pt_bytesAppended = 0\<rparr>"
  have chk: "validateValidAcks acks" "ps_LeaderBrokerID ps = s_brokerID s"
    "\<not> (acks = AckExactlyOnce \<and> sint (of_nat (length (ps_ISR ps)) :: i16) < sint (GetMinInsyncReplicas u (s_topicStore s)))"
    and run: "produce_batch S e acks u n ?pr recs b ps s = (Ok pr, s')"
    using first(1,2) st(1) batch by (auto simp: produce_partition_def Let_def split: if_splits)
  obtain out st1 where v: "Validate (sint (e_millis e)) ?pid ?ep ?f ?l st = (out, st1)" by (rule prod.exhaust)
  let ?ps1 = "ps\<lparr>ps_Idempotence := Some st1\<rparr>" and ?s1 = "put_partition n ?i (ps\<lparr>ps_Idempotence := Some st1\<rparr>) s"
  have app: "produce_append S e acks u n ?pr recs b ?ps1 ?s1 = (Ok pr, s')"
    using run first(2) st(2) batch(3) v by (auto simp: produce_batch_def Let_def split: res.splits if_splits)
  obtain cl base cl' r ps' where eff: "s_topicStore s' = AddCommitLog S u ?i cl' (s_topicStore ?s1)" "s_brokerID s' = s_brokerID ?s1"
    "GetPartitionState n ?i (s_pss s') = Some ps'" "ps_LeaderBrokerID ps' = ps_LeaderBrokerID ?ps1"
    "ps_ISR ps' = ps_ISR ?ps1" "pt_baseOffset pr = word_of_int base" "pt_recordsAppended pr = length (rb_Records b)"
    "ps_Idempotence ps' = Some (Record (sint (e_millis e)) ?pid ?ep ?f ?l (word_of_int base) st1)"
    by (rule produce_append_effect [OF app]) (use first(2,3) batch(3) in auto)
  have l: "sint ?l = sint ?f + int (length (rb_Records b)) - 1"
    using seq first(2) eff(7) by (intro sint_seq_end) auto
  have "map_of st1 ?pid = None \<or> map_of st1 ?pid = map_of st ?pid"
    using v by (auto simp: Validate_def expire_def Let_def delete_conv' split: if_splits option.splits)
  then have "Validate (sint (e_millis e')) ?pid ?ep ?f ?l (Record (sint (e_millis e)) ?pid ?ep ?f ?l (word_of_int base) st1) =
      (Ok (word_of_int base, True), Record (sint (e_millis e)) ?pid ?ep ?f ?l (word_of_int base) st1)"
    using new seq time l eff(7) first(2) by (intro Validate_retry) auto
  moreover have "ps'\<lparr>ps_Idempotence := Some (Record (sint (e_millis e)) ?pid ?ep ?f ?l (word_of_int base) st1)\<rparr> = ps'"
    using eff(8) by (cases ps') simp
  then have "put_partition n ?i (ps'\<lparr>ps_Idempotence := Some (Record (sint (e_millis e)) ?pid ?ep ?f ?l (word_of_int base) st1)\<rparr>) s' = s'"
    by (simp only: put_partition_same [OF eff(3)])
  ultimately show ?thesis
    using chk eff batch first(2,3)
    by (auto simp: produce_partition_def produce_batch_def Let_def GetMinInsyncReplicas_def AddCommitLog_def)
qed

text \<open>A batch with one record of producer 7, and a broker that leads a partition.\<close>

definition retry_batch :: bytes where
  "retry_batch = [0, 0, 0, 0, 0, 0, 0, 0, 0, 0, 0, 57, 0, 0, 0, 0, 2, 0, 0, 0, 0, 0, 0, 0, 0, 0, 0] @ replicate 16 0 @
     [0, 0, 0, 0, 0, 0, 0, 7, 0, 0, 0, 0, 0, 0, 0, 0, 0, 1] @ [14, 0, 0, 0, 1, 2, 65, 0]"

definition sample_partition :: PartitionState where
  "sample_partition = new_partition (str ''t'') 0 1 0 [1] [1]"

definition leader_of :: "PartitionState \<Rightarrow> commitLog \<Rightarrow> Server" where
  "leader_of ps cl = (NewServer sample_env 1 [] 9092)
     \<lparr>s_pss := [(partition_key (str ''t'') 0, ps)],
      s_topicStore := AddCommitLog (\<lambda>_. []) (replicate 16 9) 0 cl (RegisterTopic (replicate 16 9) (str ''t'') 1 NewTopicStore)\<rparr>"

lemma retry_batch_decodes:
  "\<exists>b. DecodeRecordBatch (\<lambda>_. None) retry_batch = Ok b \<and> rb_ProducerId b = 7 \<and> rb_BaseSequence b = 0 \<and> length (rb_Records b) = 1"
proof -
  have "(case DecodeRecordBatch (\<lambda>_. None) retry_batch of
      Ok b \<Rightarrow> rb_ProducerId b = 7 \<and> rb_BaseSequence b = 0 \<and> length (rb_Records b) = 1 | _ \<Rightarrow> False)"
    by code_simp
  then show ?thesis by (auto split: res.splits)
qed

lemma retry_batch_wf: "wf_batch retry_batch" "batch_count retry_batch = 1"
  by code_simp+

lemma leader_produces:
  "\<exists>cl s' pr. produce_partition (\<lambda>_. []) (\<lambda>_. None) sample_env 1 (replicate 16 9) (str ''t'')
     \<lparr>ppd_Index = 0, ppd_Records = Some retry_batch\<rparr> (leader_of sample_partition cl) = (Ok pr, s') \<and> pt_recordsAppended pr = 1 \<and> pt_baseOffset pr = 0"
proof -
  obtain c where c: "cl_rep c [[]]" "\<not> cl_isClosed c" "cl_nextOffset c = 0"
    "ActiveSegmentBaseOffset c = 0" "seg_maxBytes (cl_activeSegment c) = 1048576"
    using empty_log by blast
  obtain c' h where a: "commitLog_AppendRaw no_cl_faults 0 retry_batch 1 c = (Ok 0, c', h)"
    using AppendRaw_rep [OF c(1,2) retry_batch_wf(1), of 1 0] c by (auto simp: retry_batch_wf)
  obtain b where b: "DecodeRecordBatch (\<lambda>_. None) retry_batch = Ok b" "rb_ProducerId b = 7" "rb_BaseSequence b = 0"
    "length (rb_Records b) = 1" using retry_batch_decodes by blast
  show ?thesis
    by (rule exI [of _ c])
       (simp add: produce_partition_def leader_of_def a b Let_def validateValidAcks_def AckAtLeastOnce_def AckExactlyOnce_def
        AckAtMostOnce_def GetPartitionState_def new_partition_def NewServer_def produce_batch_def NewIdempotenceState_def
        Validate_def expire_def produce_append_def GetCommitLog_def AddCommitLog_def NewTopicStore_def sample_env_def
        RegisterTopic_def sample_partition_def
        put_partition_def split_beta)
qed

theorem produce_retry_appends_once_witness:
  "\<exists>cl s' pr. produce_partition (\<lambda>_. []) (\<lambda>_. None) sample_env 1 (replicate 16 9) (str ''t'')
     \<lparr>ppd_Index = 0, ppd_Records = Some retry_batch\<rparr> (leader_of sample_partition cl) = (Ok pr, s') \<and> pt_recordsAppended pr = 1 \<and>
     produce_partition (\<lambda>_. []) (\<lambda>_. None) (sample_env\<lparr>e_millis := 500\<rparr>) 1 (replicate 16 9) (str ''t'')
     \<lparr>ppd_Index = 0, ppd_Records = Some retry_batch\<rparr> s' =
       (Ok \<lparr>pt_index = 0, pt_baseOffset = 0, pt_errorCode = 0, pt_suppressed = False, pt_recordsAppended = 0, pt_bytesAppended = 0\<rparr>, s')"
proof -
  obtain cl s' pr where p: "produce_partition (\<lambda>_. []) (\<lambda>_. None) sample_env 1 (replicate 16 9) (str ''t'')
     \<lparr>ppd_Index = 0, ppd_Records = Some retry_batch\<rparr> (leader_of sample_partition cl) = (Ok pr, s')" "pt_recordsAppended pr = 1" "pt_baseOffset pr = 0"
    using leader_produces by blast
  obtain b where b: "DecodeRecordBatch (\<lambda>_. None) retry_batch = Ok b" "rb_ProducerId b = 7" "rb_BaseSequence b = 0"
    "length (rb_Records b) = 1" using retry_batch_decodes by blast
  have "produce_partition (\<lambda>_. []) (\<lambda>_. None) (sample_env\<lparr>e_millis := 500\<rparr>) 1 (replicate 16 9) (str ''t'')
     \<lparr>ppd_Index = 0, ppd_Records = Some retry_batch\<rparr> s' =
       (Ok \<lparr>pt_index = 0, pt_baseOffset = pt_baseOffset pr, pt_errorCode = 0, pt_suppressed = False, pt_recordsAppended = 0,
            pt_bytesAppended = 0\<rparr>, s')"
    using produce_retry_appends_once [OF p(1), where recs = retry_batch and b = b and ps = sample_partition
        and st = "[]" and e' = "sample_env\<lparr>e_millis := 500\<rparr>"] p(2) b
    by (simp add: AckAtMostOnce_def leader_of_def GetPartitionState_def new_partition_def sample_partition_def NewIdempotenceState_def
        sample_env_def producerIdExpirationMs_def)
  then show ?thesis using p by auto
qed

end
