(* ===== verification/Kaf_Fetch.thy ===== *)
theory Kaf_Fetch
  imports Kaf_Produce
begin

text \<open>
  Reading and replication: the fetch handler (\<^verbatim>\<open>api/fetch_api.go\<close>), which streams record regions
  out of the log files, the client side of a fetch (\<^verbatim>\<open>server/broker_client.go\<close>), the fetchers that
  copy partitions (\<^verbatim>\<open>server/replica_fetcher.go\<close>) and cluster metadata
  (\<^verbatim>\<open>server/metadata_fetcher.go\<close>), and the manager of in-sync replicas
  (\<^verbatim>\<open>server/isr_manager.go\<close>).
\<close>

section \<open>The handler\<close>

definition is_replica :: "FetchRequest \<Rightarrow> i32 option" where
  "is_replica req =
     (case fq_ReplicaState req of
        Some rs \<Rightarrow> if 0 < sint (rst_ReplicaId rs) then Some (rst_ReplicaId rs) else None
      | None \<Rightarrow> None)"

definition fetch_error :: "i32 \<Rightarrow> i16 \<Rightarrow> FetchPartitionResponse" where
  "fetch_error pidx code =
     \<lparr>fpr_PartitionIndex = pidx, fpr_ErrorCode = code, fpr_HighWatermark = 0, fpr_LastStableOffset = 0,
      fpr_LogStartOffset = 0, fpr_AbortedTransactions = [], fpr_PreferredReadReplica = -1, fpr_Records = None,
      fpr_DivergingEpoch = None, fpr_CurrentLeader = None, fpr_SnapshotId = None\<rparr>"

text \<open>The region a reader gets: found in the log, then clipped to what it may see.\<close>

definition visible_region ::
  "env \<Rightarrow> int \<Rightarrow> int \<Rightarrow> int \<Rightarrow> commitLog \<Rightarrow> (int \<times> RecordsRegion option) res option" where
  "visible_region e fetchOffset maxBytes maxVisible cl =
     (case FindRecords (clf_stat (e_faults e)) fetchOffset maxBytes cl of
        None \<Rightarrow> None
      | Some Panic \<Rightarrow> Some Panic
      | Some (Ok (Some reg)) \<Rightarrow>
          (case ClipRegionToOffset (Some reg) maxVisible of
             Panic \<Rightarrow> Some Panic
           | Ok (Some clipped) \<Rightarrow> Some (Ok (rr_LogStart reg, if rr_Size clipped > 0 then Some clipped else None))
           | _ \<Rightarrow> Some (Ok (rr_LogStart reg, None)))
      | Some _ \<Rightarrow> Some (Ok (0, None)))"

text \<open>One partition of the request; \<open>None\<close> when the search for the region does not return.\<close>

definition fetch_partition ::
  "(bytes \<Rightarrow> gostring) \<Rightarrow> env \<Rightarrow> i32 option \<Rightarrow> bytes \<Rightarrow> FetchPartition \<Rightarrow> Server \<Rightarrow>
     ((FetchPartitionResponse \<times> RecordsRegion option) res \<times> Server) option" where
  "fetch_partition uuid_String e replica topicId part s =
     (let pidx = fp_Partition part; fail = (\<lambda>code. Some (Ok (fetch_error pidx code, None), s)) in
      case GetTopic topicId (s_topicStore s) of
        Ok topicMeta \<Rightarrow>
          (case GetPartitionState (ctr_Name topicMeta) pidx (s_pss s) of
             None \<Rightarrow> fail ErrUnknownTopicOrPartition
           | Some ps \<Rightarrow>
               if ps_LeaderBrokerID ps \<noteq> s_brokerID s then fail ErrErrNotLeaderForPartition
               else (case GetCommitLog uuid_String topicId pidx (s_topicStore s) of
                       None \<Rightarrow> fail ErrUnknownTopicOrPartition
                     | Some cl \<Rightarrow>
                         let fetchOffset = sint (fp_FetchOffset part);
                             (ps, done) = (case replica of
                                 Some rid \<Rightarrow> UpdateReplicaLEO (e_now e) rid fetchOffset ps
                               | None \<Rightarrow> (ps, []));
                             s = (put_partition (ctr_Name topicMeta) pidx ps s)\<lparr>s_sent := s_sent s @ done\<rparr>;
                             maxVisible = (if replica = None then ps_HWM ps else ps_LEO ps)
                         in (case visible_region e fetchOffset (sint (fp_PartitionMaxBytes part)) maxVisible cl of
                               None \<Rightarrow> None
                             | Some (Ok (logStart, region)) \<Rightarrow>
                                 Some (Ok ((fetch_error pidx 0)\<lparr>fpr_HighWatermark := word_of_int (ps_HWM ps),
                                   fpr_LastStableOffset := word_of_int (ps_HWM ps),
                                   fpr_LogStartOffset := word_of_int logStart\<rparr>, region), s)
                             | Some (Err err) \<Rightarrow> Some (Err err, s)
                             | Some Panic \<Rightarrow> Some (Panic, s))))
      | _ \<Rightarrow> fail ErrUnknownTopicOrPartition)"

fun collect_opt :: "('a \<Rightarrow> 's \<Rightarrow> ('b res \<times> 's) option) \<Rightarrow> 'a list \<Rightarrow> 's \<Rightarrow> ('b list res \<times> 's) option" where
  "collect_opt f [] s = Some (Ok [], s)"
| "collect_opt f (x # xs) s =
     (case f x s of
        None \<Rightarrow> None
      | Some (Ok y, s) \<Rightarrow>
          (case collect_opt f xs s of
             None \<Rightarrow> None
           | Some (Ok ys, s) \<Rightarrow> Some (Ok (y # ys), s)
           | Some (Err e, s) \<Rightarrow> Some (Err e, s)
           | Some (Panic, s) \<Rightarrow> Some (Panic, s))
      | Some (Err e, s) \<Rightarrow> Some (Err e, s)
      | Some (Panic, s) \<Rightarrow> Some (Panic, s))"

type_synonym fetch_result = "bytes \<times> (FetchPartitionResponse \<times> RecordsRegion option) list"

definition fetch_topic ::
  "(bytes \<Rightarrow> gostring) \<Rightarrow> env \<Rightarrow> i32 option \<Rightarrow> FetchTopic \<Rightarrow> Server \<Rightarrow> (fetch_result res \<times> Server) option" where
  "fetch_topic uuid_String e replica t s =
     (case collect_opt (fetch_partition uuid_String e replica (ft_TopicId t)) (ft_Partitions t) s of
        None \<Rightarrow> None
      | Some (Ok parts, s) \<Rightarrow> Some (Ok (ft_TopicId t, parts), s)
      | Some (Err err, s) \<Rightarrow> Some (Err err, s)
      | Some (Panic, s) \<Rightarrow> Some (Panic, s))"

definition fetch_topics ::
  "(bytes \<Rightarrow> gostring) \<Rightarrow> env \<Rightarrow> FetchRequest \<Rightarrow> Server \<Rightarrow> (fetch_result list res \<times> Server) option" where
  "fetch_topics uuid_String e req s = collect_opt (fetch_topic uuid_String e (is_replica req)) (fq_Topics req) s"

section \<open>Streaming the response\<close>

text \<open>A segment of the payload: bytes in memory, or a region of a file.\<close>

datatype ioSegment = Data bytes | Region (seg_file: bytes) (seg_offset: int) (seg_size: int)

fun ioSegment_size :: "ioSegment \<Rightarrow> int" where
  "ioSegment_size (Data b) = int (length b)"
| "ioSegment_size (Region file off n) = n"

type_synonym stream = "writer \<times> ioSegment list"

definition stream_snapshot :: "stream \<Rightarrow> stream" where
  "stream_snapshot = (\<lambda>(w, segs). if w = [] then (w, segs) else ([], segs @ [Data w]))"

definition stream_partition :: "FetchPartitionResponse \<times> RecordsRegion option \<Rightarrow> stream \<Rightarrow> stream" where
  "stream_partition = (\<lambda>(pr, region) (w, segs).
     let (w, segs) = (case region of
           Some r \<Rightarrow>
             let (w, segs) = stream_snapshot (EncodePartitionPreRecords pr (rr_Size r) w, segs)
             in (w, segs @ [Region (case rr_File r of Some f \<Rightarrow> f | None \<Rightarrow> []) (rr_FileOffset r) (rr_Size r)])
         | None \<Rightarrow> (EncodePartitionPreRecords pr (-1) w, segs))
     in (EncodePartitionPostRecords pr w, segs))"

definition stream_topic :: "fetch_result \<Rightarrow> stream \<Rightarrow> stream" where
  "stream_topic = (\<lambda>(topicId, parts) (w, segs).
     let w = WriteCompactArrayLen (int (length parts)) (WriteUUID topicId w);
         (w, segs) = fold stream_partition parts (w, segs)
     in (WriteEmptyTaggedFields w, segs))"

definition fetch_header :: "i32 \<Rightarrow> FetchResponse" where
  "fetch_header sessionId =
     \<lparr>frs_ThrottleTimeMs = 0, frs_ErrorCode = 0, frs_SessionId = sessionId, frs_Responses = [], frs_NodeEndpoints = []\<rparr>"

definition stream_response :: "i32 \<Rightarrow> fetch_result list \<Rightarrow> ioSegment list" where
  "stream_response sessionId results =
     (let resp = fetch_header sessionId;
          (w, segs) = fold stream_topic results (EncodeHeader resp (int (length results)) (NewWriter 512), []);
          w = EncodeFooter resp w
      in snd (stream_snapshot (w, segs)))"

text \<open>
  Sending a file region: over TCP the section is copied up to the end of the file, otherwise it
  is read whole first.
\<close>

fun send_segment :: "bool \<Rightarrow> ioSegment \<Rightarrow> conn \<Rightarrow> unit res \<times> conn" where
  "send_segment isTCP (Data b) c = conn_Write b c"
| "send_segment isTCP (Region file off n) c =
     (if isTCP then conn_Write (sub (nat off) (nat n) file) c
      else case file_ReadAt file (nat n) off of
             Ok buf \<Rightarrow> conn_Write buf c
           | Err e \<Rightarrow> (Err e, c)
           | Panic \<Rightarrow> (Panic, c))"

definition HandleFetchApiKeys ::
  "(bytes \<Rightarrow> gostring) \<Rightarrow> env \<Rightarrow> bool \<Rightarrow> RequestHeader \<Rightarrow> reader \<Rightarrow> conn \<Rightarrow> Server \<Rightarrow> (unit res \<times> conn \<times> Server) option" where
  "HandleFetchApiKeys uuid_String e isTCP header r c s =
     (case fst (FetchRequest_Decode r) of
        Err err \<Rightarrow> Some (Err err, c, s)
      | Panic \<Rightarrow> Some (Panic, c, s)
      | Ok req \<Rightarrow>
          (case fetch_topics uuid_String e req s of
             None \<Rightarrow> None
           | Some (Err err, s) \<Rightarrow> Some (Err err, c, s)
           | Some (Panic, s) \<Rightarrow> Some (Panic, c, s)
           | Some (Ok results, s) \<Rightarrow>
               let segs = stream_response (fq_SessionId req) results;
                   totalPayload = sum_list (map ioSegment_size segs);
                   rhdrBytes = ResponseHeader_Encode (reply_header header) (NewWriter 8);
                   frameSz = be_enc 4 (word_of_int (int (length rhdrBytes) + totalPayload) :: u32)
               in (case until_error (\<lambda>f. f) (conn_Write frameSz # conn_Write rhdrBytes # map (send_segment isTCP) segs) c of
                     (out, c) \<Rightarrow> Some (out, c, s))))"

section \<open>The client of a fetch\<close>

definition fetch_request_header :: "BrokerClient \<Rightarrow> RequestHeader" where
  "fetch_request_header bc =
     \<lparr>rqh_ApiKey = 1, rqh_ApiVersion = 18, rqh_CorrelationId = bc_nextCorrelationId bc,
      rqh_ClientId = Some (str ''broker-client'')\<rparr>"

text \<open>The frame the client sends, and what it makes of the stream it gets back.\<close>

definition client_request :: "BrokerClient \<Rightarrow> FetchRequest \<Rightarrow> bytes" where
  "client_request bc req =
     (let payload = FetchRequest_Encode req (RequestHeader_Encode (fetch_request_header bc) (NewWriter 512))
      in be_enc 4 (of_nat (length payload) :: u32) @ payload)"

definition client_response :: "bytes \<Rightarrow> FetchResponse res" where
  "client_response inp =
     (case fst (ReadFraming inp) of
        Ok framing \<Rightarrow>
          fst (rbind (ResponseHeader_Decode \<lparr>rsh_CorrelationId = 0, rsh_ApiVersion = 18, rsh_ApiKey = 1\<rparr>)
                 (\<lambda>_. FetchResponse_Decode) (NewReader (case framing of Some b \<Rightarrow> b | None \<Rightarrow> [])))
      | Err e \<Rightarrow> Err e
      | Panic \<Rightarrow> Panic)"

definition BrokerClient_Fetch :: "(bytes \<Rightarrow> bytes) \<Rightarrow> FetchRequest \<Rightarrow> BrokerClient \<Rightarrow> FetchResponse res \<times> BrokerClient" where
  "BrokerClient_Fetch peer req bc =
     (client_response (peer (client_request bc req)), bc\<lparr>bc_nextCorrelationId := bc_nextCorrelationId bc + 1\<rparr>)"

section \<open>Copying a partition\<close>

function count_loop :: "bytes \<Rightarrow> nat \<Rightarrow> i32 \<Rightarrow> i32 res" where
  "count_loop raw p acc =
     (if p < length raw then
        if length raw - p < 61 then Err UnexpectedEOF
        else let batchLen = unat (be_dec (sub (p + 8) 4 raw) :: u32) in
          if batchLen < 12 then Err UnexpectedEOF
          else count_loop raw (p + (12 + batchLen)) (acc + be_dec (sub (p + 57) 4 raw))
      else Ok acc)"
  by pat_completeness auto
termination
  by (relation "measure (\<lambda>(raw, p, _). length raw - p)") auto

declare count_loop.simps [simp del]

definition countRecordsInRecordBatches :: "bytes \<Rightarrow> i32 res" where
  "countRecordsInRecordBatches raw = count_loop raw 0 0"

definition replica_request :: "ReplicaFetcher \<Rightarrow> FetchRequest" where
  "replica_request rf =
     \<lparr>fq_MaxWaitMs = 500, fq_MinBytes = 1, fq_MaxBytes = 52428800, fq_IsolationLevel = 0, fq_SessionId = 0,
      fq_SessionEpoch = 0,
      fq_Topics = [\<lparr>ft_TopicId = rf_topicID rf,
        ft_Partitions = [\<lparr>fp_Partition = rf_partition rf, fp_CurrentLeaderEpoch = -1,
          fp_FetchOffset = word_of_int (rf_fetchOffset rf), fp_LastFetchedEpoch = -1,
          fp_LogStartOffset = word_of_int (OldestOffset (rf_commitLog rf)), fp_PartitionMaxBytes = 10485760,
          fp_ReplicaDirectoryId = None, fp_HighWatermark = None\<rparr>]\<rparr>],
      fq_ForgottenTopics = [], fq_RackId = [], fq_ClusterId = None,
      fq_ReplicaState = Some \<lparr>rst_ReplicaId = rf_brokerId rf, rst_ReplicaEpoch = -1\<rparr>\<rparr>"

text \<open>What a fetcher does with one partition of a response.\<close>

definition replica_apply :: "env \<Rightarrow> FetchPartitionResponse \<Rightarrow> ReplicaFetcher \<Rightarrow> unit res \<times> ReplicaFetcher" where
  "replica_apply e part rf =
     (if fpr_ErrorCode part \<noteq> 0 then (Ok (), rf)
      else case fpr_Records part of
             None \<Rightarrow> (Ok (), rf\<lparr>rf_highWatermark := sint (fpr_HighWatermark part)\<rparr>)
           | Some records \<Rightarrow>
               if records = [] then (Ok (), rf\<lparr>rf_highWatermark := sint (fpr_HighWatermark part)\<rparr>)
               else (case countRecordsInRecordBatches records of
                       Ok recordCount \<Rightarrow>
                         if sint recordCount \<le> 0 then (Ok (), rf)
                         else (case commitLog_AppendRaw (e_faults e) (e_now e) records recordCount (rf_commitLog rf) of
                                 (Ok baseOffset, log, _) \<Rightarrow>
                                   (Ok (), rf\<lparr>rf_commitLog := log, rf_fetchOffset := baseOffset + sint recordCount,
                                      rf_highWatermark := sint (fpr_HighWatermark part)\<rparr>)
                               | (Err _, log, _) \<Rightarrow> (Ok (), rf\<lparr>rf_commitLog := log\<rparr>)
                               | (Panic, log, _) \<Rightarrow> (Panic, rf\<lparr>rf_commitLog := log\<rparr>))
                     | Panic \<Rightarrow> (Panic, rf)
                     | Err _ \<Rightarrow> (Ok (), rf)))"

text \<open>One round of \<^verbatim>\<open>ReplicaFetcher.Run\<close>; a failed fetch is retried later.\<close>

definition replica_round :: "env \<Rightarrow> (bytes \<Rightarrow> bytes) \<Rightarrow> BrokerClient \<Rightarrow> ReplicaFetcher \<Rightarrow> unit res \<times> BrokerClient \<times> ReplicaFetcher" where
  "replica_round e peer bc rf =
     (case BrokerClient_Fetch peer (replica_request rf) bc of
        (Ok resp, bc) \<Rightarrow>
          (case each (replica_apply e) (concat (map ftr_Partitions (frs_Responses resp))) rf of (out, rf) \<Rightarrow> (out, bc, rf))
      | (Err _, bc) \<Rightarrow> (Ok (), bc, rf)
      | (Panic, bc) \<Rightarrow> (Panic, bc, rf))"

section \<open>Copying cluster metadata\<close>

record MetadataFetcher =
  mf_fetchOffset :: int
  mf_currentOffset :: int

definition metadata_request :: "i32 \<Rightarrow> MetadataFetcher \<Rightarrow> FetchRequest" where
  "metadata_request brokerID mf =
     \<lparr>fq_MaxWaitMs = 500, fq_MinBytes = 1, fq_MaxBytes = 10485760, fq_IsolationLevel = 0, fq_SessionId = 0,
      fq_SessionEpoch = -1,
      fq_Topics = [\<lparr>ft_TopicId = ClusterMetadataTopicID,
        ft_Partitions = [\<lparr>fp_Partition = 0, fp_CurrentLeaderEpoch = -1,
          fp_FetchOffset = word_of_int (mf_fetchOffset mf), fp_LastFetchedEpoch = -1, fp_LogStartOffset = 0,
          fp_PartitionMaxBytes = 10485760, fp_ReplicaDirectoryId = None, fp_HighWatermark = None\<rparr>]\<rparr>],
      fq_ForgottenTopics = [], fq_RackId = [], fq_ClusterId = None,
      fq_ReplicaState = Some \<lparr>rst_ReplicaId = brokerID, rst_ReplicaEpoch = -1\<rparr>\<rparr>"

definition metadata_apply ::
  "(bytes \<Rightarrow> gostring) \<Rightarrow> env \<Rightarrow> FetchPartitionResponse \<Rightarrow> MetadataFetcher \<times> Server \<Rightarrow> unit res \<times> MetadataFetcher \<times> Server" where
  "metadata_apply uuid_String e part = (\<lambda>(mf, s).
     if fpr_ErrorCode part \<noteq> 0 then (Ok (), mf, s)
     else case fpr_Records part of
            None \<Rightarrow> (Ok (), mf, s)
          | Some records \<Rightarrow>
              if records = [] then (Ok (), mf, s)
              else (case DecodeRecordValues records of
                      Ok values \<Rightarrow>
                        (case each (ApplyMetadataRecord uuid_String e) values s of
                           (Panic, s) \<Rightarrow> (Panic, mf, s)
                         | (_, s) \<Rightarrow>
                             (case countRecordsInRecordBatches records of
                                Ok recordCount \<Rightarrow>
                                  if 0 < sint recordCount
                                  then let o' = mf_fetchOffset mf + sint recordCount in
                                    (Ok (), mf\<lparr>mf_fetchOffset := o', mf_currentOffset := o'\<rparr>, s)
                                  else (Ok (), mf, s)
                              | Err _ \<Rightarrow> (Ok (), mf, s)
                              | Panic \<Rightarrow> (Panic, mf, s)))
                    | Err err \<Rightarrow> (Err err, mf, s)
                    | Panic \<Rightarrow> (Panic, mf, s)))"

definition metadata_round ::
  "(bytes \<Rightarrow> gostring) \<Rightarrow> env \<Rightarrow> (bytes \<Rightarrow> bytes) \<Rightarrow> BrokerClient \<Rightarrow> MetadataFetcher \<Rightarrow> Server \<Rightarrow>
     unit res \<times> BrokerClient \<times> MetadataFetcher \<times> Server" where
  "metadata_round uuid_String e peer bc mf s =
     (case BrokerClient_Fetch peer (metadata_request (s_brokerID s) mf) bc of
        (Ok resp, bc) \<Rightarrow>
          (case each (metadata_apply uuid_String e) (concat (map ftr_Partitions (frs_Responses resp))) (mf, s) of
             (out, mf, s) \<Rightarrow> (out, bc, mf, s))
      | (Err err, bc) \<Rightarrow> (Err err, bc, mf, s)
      | (Panic, bc) \<Rightarrow> (Panic, bc, mf, s))"

section \<open>In-sync replicas\<close>

definition defaultISRLagMax :: int where "defaultISRLagMax = 10 * 1000000000"

definition isr_shrink :: "int \<Rightarrow> PartitionSnapshot \<Rightarrow> PartitionState \<times> bool \<Rightarrow> PartitionState \<times> bool" where
  "isr_shrink now snap =
     fold (\<lambda>f (ps, changed).
       if f = sn_LeaderBrokerID snap then (ps, changed)
       else (case sn_LastCaughtUp snap f of
               Some last' \<Rightarrow> if now - last' > defaultISRLagMax then (RemoveFromISR f ps, True) else (ps, changed)
             | None \<Rightarrow> (RemoveFromISR f ps, True))) (sn_ISR snap)"

definition isr_expand :: "PartitionSnapshot \<Rightarrow> PartitionState \<times> bool \<Rightarrow> PartitionState \<times> bool" where
  "isr_expand snap =
     fold (\<lambda>r (ps, changed).
       if r = sn_LeaderBrokerID snap \<or> r \<in> set (sn_ISR snap) then (ps, changed)
       else (case sn_ReplicaLEO snap r of
               Some leo \<Rightarrow> if leo \<ge> sn_HWM snap then (AddToISR r ps, True) else (ps, changed)
             | None \<Rightarrow> (ps, changed))) (sn_Replicas snap)"

definition publishPartitionRecord :: "(bytes \<Rightarrow> gostring) \<Rightarrow> env \<Rightarrow> PartitionState \<Rightarrow> Server \<Rightarrow> unit res \<times> Server" where
  "publishPartitionRecord uuid_String e ps s =
     (case GetTopicByName (ps_TopicName ps) (s_topicStore s) of
        Ok topicData \<Rightarrow>
          let snap = PartitionState_Snapshot ps in
          metadata_append uuid_String e (PartitionRecord_Encode
            \<lparr>pr_TopicId = ctr_TopicId topicData, pr_PartitionId = ps_PartitionIndex ps, pr_Leader = sn_LeaderBrokerID snap,
             pr_LeaderEpoch = sn_LeaderEpoch snap, pr_Replicas = sn_Replicas snap, pr_ISR = sn_ISR snap\<rparr>) s
      | _ \<Rightarrow> (Ok (), s))"

definition checkMinISR :: "PartitionState \<Rightarrow> Server \<Rightarrow> PartitionState \<times> completion list" where
  "checkMinISR ps s =
     (case GetTopicByName (ps_TopicName ps) (s_topicStore s) of
        Ok topicData \<Rightarrow>
          if sint (of_nat (length (ps_ISR ps)) :: i16) < sint (GetMinInsyncReplicas (ctr_TopicId topicData) (s_topicStore s))
          then (case FailAll (KafErr ErrNotEnoughReplicasAfterAppend) (ps_Purgatory ps) of
                  (p, done) \<Rightarrow> (ps\<lparr>ps_Purgatory := p\<rparr>, done))
          else (ps, [])
      | _ \<Rightarrow> (ps, []))"

text \<open>One partition of a tick, by its key in the store.\<close>

definition tick_partition :: "(bytes \<Rightarrow> gostring) \<Rightarrow> env \<Rightarrow> gostring \<Rightarrow> Server \<Rightarrow> unit res \<times> Server" where
  "tick_partition uuid_String e key s =
     (case map_of (s_pss s) key of
        None \<Rightarrow> (Ok (), s)
      | Some ps \<Rightarrow>
          let snap = PartitionState_Snapshot ps;
              (ps, changed) = isr_expand snap (isr_shrink (e_now e) snap (ps, False));
              s = s\<lparr>s_pss := AList.update key ps (s_pss s)\<rparr>
          in if \<not> changed then (Ok (), s)
             else (case publishPartitionRecord uuid_String e ps s of
                     (Panic, s) \<Rightarrow> (Panic, s)
                   | (_, s) \<Rightarrow>
                       (case map_of (s_pss s) key of
                          None \<Rightarrow> (Ok (), s)
                        | Some ps \<Rightarrow>
                            let (ps, done) = AdvanceHWM ps; (ps, failed) = checkMinISR ps s in
                            (Ok (), s\<lparr>s_pss := AList.update key ps (s_pss s), s_sent := s_sent s @ done @ failed\<rparr>))))"

definition isr_tick :: "(bytes \<Rightarrow> gostring) \<Rightarrow> env \<Rightarrow> Server \<Rightarrow> unit res \<times> Server" where
  "isr_tick uuid_String e s =
     each (tick_partition uuid_String e)
       (map fst (filter (\<lambda>(_, ps). ps_LeaderBrokerID ps = s_brokerID s) (s_pss s))) s"

section \<open>What a reader sees\<close>

text \<open>The region of a file lies inside it.\<close>

definition region_ok :: "RecordsRegion \<Rightarrow> bool" where
  "region_ok r \<longleftrightarrow> (\<exists>file. rr_File r = Some file \<and> 0 \<le> rr_FileOffset r \<and> 0 \<le> rr_Size r \<and>
     rr_FileOffset r + rr_Size r \<le> int (length file))"

lemma visible_region_batches:
  assumes rep: "cl_rep cl bss" "\<not> cl_isClosed cl" and f: "OldestOffset cl \<le> f" "f < cl_nextOffset cl"
    and e: "\<not> clf_stat (e_faults e)"
  obtains as cs ds region where "concat bss = as @ cs @ ds" "cs \<noteq> []" "batch_base (hd cs) \<le> f" "f \<le> batch_last (hd cs) + 1"
    "\<forall>b\<in>set cs. wf_batch b" "length cs = 1 \<or> mb \<le> 0 \<or> int (length (concat cs)) \<le> mb"
    "visible_region e f mb mv cl = Some (Ok (OldestOffset cl, region))"
    "case region of None \<Rightarrow> mv \<le> batch_last (hd cs)
       | Some r \<Rightarrow> region_ok r \<and> batch_last (hd cs) < mv \<and> region_bytes r = concat (takeWhile (\<lambda>b. batch_last b < mv) cs)"
    "found_at mb f (concat bss) cs"
proof -
  obtain as cs ds pre post r where r: "FindRecords False f mb cl = Some (Ok (Some r))" "concat bss = as @ cs @ ds"
    "region_bytes r = concat cs" "cs \<noteq> []" "batch_base (hd cs) \<le> f" "f \<le> batch_last (hd cs) + 1"
    "length cs = 1 \<or> mb \<le> 0 \<or> int (length (region_bytes r)) \<le> mb"
    "r = \<lparr>rr_File = Some (pre @ concat cs @ post), rr_FileOffset = int (length pre), rr_Size = int (length (concat cs)),
      rr_LEO = cl_nextOffset cl, rr_LogStart = OldestOffset cl\<rparr>" "\<forall>b\<in>set cs. wf_batch b"
    "found_at mb f (concat bss) cs"
    by (rule FindRecords_batches [OF rep f, where mb = mb])
  let ?vs = "takeWhile (\<lambda>b. batch_last b < mv) cs"
  let ?r = "\<lparr>rr_File = Some (pre @ concat cs @ post), rr_FileOffset = int (length pre), rr_Size = int (length (concat ?vs)),
      rr_LEO = cl_nextOffset cl, rr_LogStart = OldestOffset cl\<rparr>"
  obtain c cs' where cs: "cs = c # cs'" using r(4) by (cases cs) auto
  have "61 \<le> length c" using r(9) by (simp add: cs wf_batch_def)
  then have pos: "0 < int (length (concat ?vs)) \<longleftrightarrow> batch_last (hd cs) < mv"
    by (cases "batch_last c < mv") (auto simp: cs)
  have clip: "ClipRegionToOffset (Some r) mv = Ok (Some ?r)" unfolding r(8) by (rule ClipRegion_batches [OF r(9)])
  have split: "concat cs = concat ?vs @ concat (dropWhile (\<lambda>b. batch_last b < mv) cs)"
    by (metis concat_append takeWhile_dropWhile_id)
  have "length (concat ?vs) \<le> length (concat cs)" by (subst split) simp
  then have "region_ok ?r" by (simp add: region_ok_def)
  moreover have "region_bytes ?r = concat ?vs"
    by (simp only: split) (simp add: region_bytes_def sub_def)
  moreover have "visible_region e f mb mv cl =
      Some (Ok (OldestOffset cl, if batch_last (hd cs) < mv then Some ?r else None))"
    using e r(1,8) clip pos by (simp add: visible_region_def)
  ultimately show ?thesis
    using that [OF r(2,4-6,9), of "if batch_last (hd cs) < mv then Some ?r else None"] r(3,7,10)
    by (cases "batch_last (hd cs) < mv") simp_all
qed

text \<open>
  C6. A reader sees whole batches of the log and nothing past what it may see. A fetch inside the
  log from the leader of a partition answers with the watermark and the start of the log, and its
  records are a run of whole batches of the log, the first of which holds the fetch offset or ends
  right before it, cut before the first batch that reaches the limit: the high watermark for a
  consumer, the end of the log for a replica. There are no records only when that first batch is
  itself past the limit.
\<close>

theorem fetch_sees_committed:
  assumes topic: "GetTopic u (s_topicStore s) = Ok topicMeta" "GetPartitionState (ctr_Name topicMeta) (fp_Partition part) (s_pss s) = Some ps"
    and leads: "ps_LeaderBrokerID ps = s_brokerID s" "GetCommitLog S u (fp_Partition part) (s_topicStore s) = Some cl"
    and log: "cl_rep cl bss" "\<not> cl_isClosed cl" "\<not> clf_stat (e_faults e)"
    and off: "OldestOffset cl \<le> sint (fp_FetchOffset part)" "sint (fp_FetchOffset part) < cl_nextOffset cl"
    and ps': "ps' = (case replica of Some rid \<Rightarrow> fst (UpdateReplicaLEO (e_now e) rid (sint (fp_FetchOffset part)) ps) | None \<Rightarrow> ps)"
    and mv: "mv = (if replica = None then ps_HWM ps' else ps_LEO ps')"
  shows "\<exists>as cs ds pr region s'. fetch_partition S e replica u part s = Some (Ok (pr, region), s') \<and>
    fpr_ErrorCode pr = 0 \<and> fpr_HighWatermark pr = word_of_int (ps_HWM ps') \<and> fpr_LogStartOffset pr = word_of_int (OldestOffset cl) \<and>
    concat bss = as @ cs @ ds \<and> cs \<noteq> [] \<and>
    batch_base (hd cs) \<le> sint (fp_FetchOffset part) \<and> sint (fp_FetchOffset part) \<le> batch_last (hd cs) + 1 \<and>
    (case region of
       None \<Rightarrow> mv \<le> batch_last (hd cs)
     | Some r \<Rightarrow> batch_last (hd cs) < mv \<and> region_bytes r = concat (takeWhile (\<lambda>b. batch_last b < mv) cs))"
proof -
  let ?f = "sint (fp_FetchOffset part)" and ?mb = "sint (fp_PartitionMaxBytes part)"
  obtain as cs ds region where v: "concat bss = as @ cs @ ds" "cs \<noteq> []" "batch_base (hd cs) \<le> ?f" "?f \<le> batch_last (hd cs) + 1"
    "visible_region e ?f ?mb mv cl = Some (Ok (OldestOffset cl, region))"
    "case region of None \<Rightarrow> mv \<le> batch_last (hd cs)
       | Some r \<Rightarrow> region_ok r \<and> batch_last (hd cs) < mv \<and> region_bytes r = concat (takeWhile (\<lambda>b. batch_last b < mv) cs)"
    by (rule visible_region_batches [OF log(1,2) off log(3), where mb = ?mb and mv = mv])
  obtain d where d: "(case replica of Some rid \<Rightarrow> UpdateReplicaLEO (e_now e) rid ?f ps | None \<Rightarrow> (ps, [])) = (ps', d)"
    using ps' by (cases "UpdateReplicaLEO (e_now e) (the replica) ?f ps") (auto split: option.splits)
  let ?pr = "(fetch_error (fp_Partition part) 0)\<lparr>fpr_HighWatermark := word_of_int (ps_HWM ps'),
    fpr_LastStableOffset := word_of_int (ps_HWM ps'), fpr_LogStartOffset := word_of_int (OldestOffset cl)\<rparr>"
  have "\<exists>s'. fetch_partition S e replica u part s = Some (Ok (?pr, region), s')"
    using topic leads d v(5) mv by (auto simp: fetch_partition_def Let_def)
  moreover have "fpr_ErrorCode ?pr = 0" "fpr_HighWatermark ?pr = word_of_int (ps_HWM ps')"
    "fpr_LogStartOffset ?pr = word_of_int (OldestOffset cl)" by (simp_all add: fetch_error_def)
  moreover have "case region of None \<Rightarrow> mv \<le> batch_last (hd cs)
     | Some r \<Rightarrow> batch_last (hd cs) < mv \<and> region_bytes r = concat (takeWhile (\<lambda>b. batch_last b < mv) cs)"
    using v(6) by (simp split: option.splits)
  ultimately show ?thesis using v(1-4) by blast
qed

theorem fetch_sees_committed_witness:
  "\<exists>cl pr r s'. fetch_partition (\<lambda>_. []) sample_env None (replicate 16 9)
     \<lparr>fp_Partition = 0, fp_CurrentLeaderEpoch = -1, fp_FetchOffset = 0, fp_LastFetchedEpoch = -1, fp_LogStartOffset = 0,
      fp_PartitionMaxBytes = 1024, fp_ReplicaDirectoryId = None, fp_HighWatermark = None\<rparr>
     (leader_of (sample_partition\<lparr>ps_LEO := 1, ps_HWM := 1\<rparr>) cl) = Some (Ok (pr, Some r), s') \<and>
     fpr_HighWatermark pr = 1 \<and> region_bytes r = sample_batch"
proof -
  obtain cl bss where cl: "cl_rep cl bss" "\<not> cl_isClosed cl" "concat bss = [sample_batch]" "cl_nextOffset cl = 1" "OldestOffset cl = 0"
    using one_batch_log by blast
  have b: "batch_last sample_batch = 0" by code_simp
  let ?ps = "sample_partition\<lparr>ps_LEO := 1, ps_HWM := 1\<rparr>"
  let ?part = "\<lparr>fp_Partition = 0, fp_CurrentLeaderEpoch = -1, fp_FetchOffset = 0, fp_LastFetchedEpoch = -1, fp_LogStartOffset = 0,
      fp_PartitionMaxBytes = 1024, fp_ReplicaDirectoryId = None, fp_HighWatermark = None\<rparr>"
  have "\<exists>as cs ds pr region s'. fetch_partition (\<lambda>_. []) sample_env None (replicate 16 9) ?part (leader_of ?ps cl) =
      Some (Ok (pr, region), s') \<and>
    fpr_ErrorCode pr = 0 \<and> fpr_HighWatermark pr = word_of_int (ps_HWM ?ps) \<and> fpr_LogStartOffset pr = word_of_int (OldestOffset cl) \<and>
    concat bss = as @ cs @ ds \<and> cs \<noteq> [] \<and> batch_base (hd cs) \<le> sint (fp_FetchOffset ?part) \<and>
    sint (fp_FetchOffset ?part) \<le> batch_last (hd cs) + 1 \<and>
    (case region of
       None \<Rightarrow> 1 \<le> batch_last (hd cs)
     | Some r \<Rightarrow> batch_last (hd cs) < 1 \<and> region_bytes r = concat (takeWhile (\<lambda>b. batch_last b < 1) cs))"
    by (rule fetch_sees_committed [where topicMeta = "topic_data (str ''t'') (replicate 16 9) 1 1" and ps = ?ps])
       (simp_all add: cl leader_of_def GetTopic_def AddCommitLog_def RegisterTopic_def NewTopicStore_def topic_data_def
         GetPartitionState_def sample_partition_def new_partition_def NewServer_def GetCommitLog_def sample_env_def no_cl_faults_def)
  then show ?thesis
    using cl b by (intro exI [of _ cl]) (auto simp: Cons_eq_append_conv append_eq_Cons_conv split: option.splits)
qed

section \<open>The streamed response\<close>

text \<open>The response a fetch stands for, with the bytes of the regions in place.\<close>

definition fetch_response :: "i32 \<Rightarrow> fetch_result list \<Rightarrow> FetchResponse" where
  "fetch_response sessionId results =
     (fetch_header sessionId)\<lparr>frs_Responses := map (\<lambda>(topicId, parts).
        \<lparr>ftr_TopicId = topicId,
         ftr_Partitions = map (\<lambda>(pr, region). pr\<lparr>fpr_Records := map_option region_bytes region\<rparr>) parts\<rparr>) results\<rparr>"

definition regions_ok :: "fetch_result list \<Rightarrow> bool" where
  "regions_ok results \<longleftrightarrow> (\<forall>(topicId, parts)\<in>set results. \<forall>(pr, region)\<in>set parts. \<forall>r. region = Some r \<longrightarrow> region_ok r)"

fun seg_bytes :: "ioSegment \<Rightarrow> bytes" where
  "seg_bytes (Data b) = b"
| "seg_bytes (Region file off n) = sub (nat off) (nat n) file"

definition stream_bytes :: "stream \<Rightarrow> bytes" where
  "stream_bytes st = concat (map seg_bytes (snd st)) @ fst st"

lemma region_ok_bytes:
  assumes "region_ok r"
  shows "int (length (region_bytes r)) = rr_Size r"
    "seg_bytes (Region (case rr_File r of Some f \<Rightarrow> f | None \<Rightarrow> []) (rr_FileOffset r) (rr_Size r)) = region_bytes r"
  using assms by (auto simp: region_ok_def region_bytes_def sub_def)

lemma stream_snapshot_bytes: "stream_bytes (stream_snapshot st) = stream_bytes st"
  by (cases st) (simp add: stream_snapshot_def stream_bytes_def)

lemma stream_snapshot_flushes: "fst (stream_snapshot st) = []"
  by (cases st) (simp add: stream_snapshot_def)

lemma PreRecords_append: "EncodePartitionPreRecords p n w = w @ EncodePartitionPreRecords p n []"
  by (simp add: EncodePartitionPreRecords_def Let_def appends_simps)

lemma PostRecords_append: "EncodePartitionPostRecords p w = w @ EncodePartitionPostRecords p []"
  unfolding EncodePartitionPostRecords_def by (rule FetchPartitionResponse_tags_append)

lemmas halves_append = NO_MATCH_append [where wr = "EncodePartitionPreRecords p" for p, OF PreRecords_append]
  NO_MATCH_append [OF PostRecords_append]

lemma stream_partition_bytes:
  assumes "\<forall>r. region = Some r \<longrightarrow> region_ok r"
  shows "stream_bytes (stream_partition (pr, region) st) =
    FetchPartitionResponse_encode (pr\<lparr>fpr_Records := map_option region_bytes region\<rparr>) (stream_bytes st)"
proof (cases region)
  case None
  then show ?thesis
    by (cases st) (simp add: stream_partition_def encode_halves(2) stream_bytes_def Let_def halves_append)
next
  case (Some r)
  note r = region_ok_bytes [OF assms [rule_format, OF Some]]
  obtain w segs where st: "st = (w, segs)" by (rule prod.exhaust)
  obtain w' segs' where sn: "stream_snapshot (EncodePartitionPreRecords pr (rr_Size r) w, segs) = (w', segs')" by (rule prod.exhaust)
  have w': "w' = []" using stream_snapshot_flushes [of "(EncodePartitionPreRecords pr (rr_Size r) w, segs)"] sn by simp
  have b: "concat (map seg_bytes segs') = concat (map seg_bytes segs) @ EncodePartitionPreRecords pr (rr_Size r) w"
    using stream_snapshot_bytes [of "(EncodePartitionPreRecords pr (rr_Size r) w, segs)"] by (simp add: sn w' stream_bytes_def)
  have "stream_bytes (stream_partition (pr, region) st) =
      EncodePartitionPostRecords pr ((concat (map seg_bytes segs) @ EncodePartitionPreRecords pr (rr_Size r) w) @ region_bytes r)"
    by (simp add: stream_partition_def st Some sn w' stream_bytes_def b r del: seg_bytes.simps)
       (simp add: halves_append)
  then show ?thesis
    by (simp add: Some encode_halves(1) r(1) stream_bytes_def st halves_append)
qed

lemma stream_topic_bytes:
  assumes "\<forall>(pr, region)\<in>set parts. \<forall>r. region = Some r \<longrightarrow> region_ok r"
  shows "stream_bytes (stream_topic (topicId, parts) st) = FetchTopicResponse_encode
    \<lparr>ftr_TopicId = topicId, ftr_Partitions = map (\<lambda>(pr, region). pr\<lparr>fpr_Records := map_option region_bytes region\<rparr>) parts\<rparr>
    (stream_bytes st)"
proof -
  have parts: "stream_bytes (fold stream_partition ps st) =
      fold FetchPartitionResponse_encode (map (\<lambda>(pr, region). pr\<lparr>fpr_Records := map_option region_bytes region\<rparr>) ps) (stream_bytes st)"
    if "\<forall>(pr, region)\<in>set ps. \<forall>r. region = Some r \<longrightarrow> region_ok r" for ps st
    using that by (induction ps arbitrary: st) (auto simp: stream_partition_bytes split: prod.splits)
  obtain w segs where st: "st = (w, segs)" by (rule prod.exhaust)
  let ?w = "WriteCompactArrayLen (int (length parts)) (WriteUUID topicId w)"
  obtain w' segs' where f: "fold stream_partition parts (?w, segs) = (w', segs')" by (rule prod.exhaust)
  have hd: "stream_bytes (?w, segs) = WriteCompactArrayLen (int (length parts)) (WriteUUID topicId (stream_bytes st))"
    by (simp add: stream_bytes_def st appends_simps)
  have "stream_bytes (w', segs') = fold FetchPartitionResponse_encode
      (map (\<lambda>(pr, region). pr\<lparr>fpr_Records := map_option region_bytes region\<rparr>) parts)
      (WriteCompactArrayLen (int (length parts)) (WriteUUID topicId (stream_bytes st)))"
    using parts [OF assms, of "(?w, segs)"] by (simp only: f hd)
  moreover have "stream_bytes (stream_topic (topicId, parts) st) = WriteEmptyTaggedFields (stream_bytes (w', segs'))"
    by (simp add: stream_topic_def st Let_def f stream_bytes_def WriteEmptyTaggedFields_def)
  ultimately show ?thesis
    by (simp add: FetchTopicResponse_encode_def write_array_def Let_def)
qed

lemma stream_response_bytes:
  assumes "regions_ok results"
  shows "concat (map seg_bytes (stream_response sid results)) = FetchResponse_Encode (fetch_response sid results) []"
proof -
  have topics: "stream_bytes (fold stream_topic rs st) = fold FetchTopicResponse_encode (frs_Responses (fetch_response sid rs)) (stream_bytes st)"
    if "regions_ok rs" for rs st
    using that
    by (induction rs arbitrary: st) (auto simp: regions_ok_def fetch_response_def stream_topic_bytes split: prod.splits)
  let ?h = "fetch_header sid"
  obtain w segs where f: "fold stream_topic results (EncodeHeader ?h (int (length results)) [], []) = (w, segs)" by (rule prod.exhaust)
  obtain w' segs' where sn: "stream_snapshot (EncodeFooter ?h w, segs) = (w', segs')" by (rule prod.exhaust)
  have w': "w' = []" using stream_snapshot_flushes [of "(EncodeFooter ?h w, segs)"] sn by simp
  have "concat (map seg_bytes segs') = concat (map seg_bytes segs) @ EncodeFooter ?h w"
    using stream_snapshot_bytes [of "(EncodeFooter ?h w, segs)"] by (simp add: sn w' stream_bytes_def)
  also have "\<dots> = EncodeFooter ?h (concat (map seg_bytes segs) @ w)"
    using FetchResponse_tags_append [of ?h w] FetchResponse_tags_append [of ?h "concat (map seg_bytes segs) @ w"]
    by (simp add: EncodeFooter_def)
  also have "concat (map seg_bytes segs) @ w = fold FetchTopicResponse_encode (frs_Responses (fetch_response sid results))
      (EncodeHeader ?h (int (length results)) [])"
    using topics [OF assms, of "(EncodeHeader ?h (int (length results)) [], [])"] by (simp add: f stream_bytes_def)
  finally have "concat (map seg_bytes (stream_response sid results)) = EncodeFooter ?h (fold FetchTopicResponse_encode
      (frs_Responses (fetch_response sid results)) (EncodeHeader ?h (int (length results)) []))"
    by (simp add: stream_response_def Let_def NewWriter_def f sn)
  moreover have "EncodeHeader (fetch_response sid results) = EncodeHeader ?h" "EncodeFooter (fetch_response sid results) = EncodeFooter ?h"
    "length (frs_Responses (fetch_response sid results)) = length results"
    by (simp_all add: fun_eq_iff EncodeHeader_def EncodeFooter_def FetchResponse_encodeTaggedFields_def fetch_response_def)
  ultimately show ?thesis by (simp add: streamed_pieces)
qed

text \<open>Every region of the stream lies inside its file, so all of it is sent.\<close>

fun seg_ok :: "ioSegment \<Rightarrow> bool" where
  "seg_ok (Data b) = True"
| "seg_ok (Region file off n) = (0 \<le> off \<and> 0 \<le> n \<and> off + n \<le> int (length file))"

lemma stream_snapshot_ok: "list_all seg_ok (snd st) \<Longrightarrow> list_all seg_ok (snd (stream_snapshot st))"
  by (cases st) (simp add: stream_snapshot_def)

lemma stream_partition_ok:
  assumes "\<forall>r. snd p = Some r \<longrightarrow> region_ok r" "list_all seg_ok (snd st)"
  shows "list_all seg_ok (snd (stream_partition p st))"
proof -
  obtain pr region where p: "p = (pr, region)" by (rule prod.exhaust)
  obtain w segs where st: "st = (w, segs)" by (rule prod.exhaust)
  have "seg_ok (Region (case rr_File r of Some f \<Rightarrow> f | None \<Rightarrow> []) (rr_FileOffset r) (rr_Size r))" if "region = Some r" for r
    using assms(1) p that by (auto simp: region_ok_def)
  moreover have "list_all seg_ok (snd (stream_snapshot (w', segs)))" for w'
    by (rule stream_snapshot_ok) (use assms(2) st in simp)
  ultimately show ?thesis
    using assms(2) by (cases region) (auto simp: stream_partition_def p st split_beta)
qed

lemma stream_response_ok: "regions_ok results \<Longrightarrow> list_all seg_ok (stream_response sid results)"
proof -
  have parts: "list_all seg_ok (snd (fold stream_partition ps st))"
    if "\<forall>(pr, region)\<in>set ps. \<forall>r. region = Some r \<longrightarrow> region_ok r" "list_all seg_ok (snd st)" for ps st
    using that
  proof (induction ps arbitrary: st)
    case (Cons p ps)
    have "list_all seg_ok (snd (stream_partition p st))" by (rule stream_partition_ok) (use Cons.prems in auto)
    then show ?case using Cons.IH Cons.prems(1) by simp
  qed simp
  have topic: "list_all seg_ok (snd (stream_topic (t, ps) st))"
    if "\<forall>(pr, region)\<in>set ps. \<forall>r. region = Some r \<longrightarrow> region_ok r" "list_all seg_ok (snd st)" for t ps st
    using parts [OF that(1)] that(2) by (cases st) (simp add: stream_topic_def Let_def split_beta)
  have topics: "list_all seg_ok (snd (fold stream_topic rs st))" if "regions_ok rs" "list_all seg_ok (snd st)" for rs st
    using that
  proof (induction rs arbitrary: st)
    case (Cons r rs)
    have "list_all seg_ok (snd (stream_topic (fst r, snd r) st))" by (rule topic) (use Cons.prems in \<open>simp_all add: regions_ok_def split_beta\<close>)
    then show ?case using Cons.IH Cons.prems(1) by (simp add: regions_ok_def)
  qed simp
  assume r: "regions_ok results"
  show "list_all seg_ok (stream_response sid results)"
    unfolding stream_response_def Let_def split_beta
    by (rule stream_snapshot_ok) (simp add: topics [OF r])
qed

lemma seg_ok_size: "list_all seg_ok segs \<Longrightarrow> sum_list (map ioSegment_size segs) = int (length (concat (map seg_bytes segs)))"
proof (induction segs)
  case (Cons x segs)
  then show ?case by (cases x) (auto simp: sub_def)
qed simp

lemma send_segments:
  "list_all seg_ok segs \<Longrightarrow> budget c = None \<Longrightarrow>
     until_error (\<lambda>f. f) (map (send_segment tcp) segs) c = (Ok (), c\<lparr>sent := sent c @ concat (map seg_bytes segs)\<rparr>)"
proof (induction segs arbitrary: c)
  case (Cons x segs)
  then show ?case by (cases x) (auto simp: conn_Write_def file_ReadAt_def)
qed simp

lemma HandleFetch_sends:
  assumes "fst (FetchRequest_Decode r) = Ok req" "fetch_topics S e req s = Some (Ok results, s')" "regions_ok results" "budget c = None"
  shows "HandleFetchApiKeys S e tcp header r c s = Some (Ok (), c\<lparr>sent := sent c @
    be_enc 4 (of_nat (length (ResponseHeader_Encode (reply_header header) [] @ FetchResponse_Encode (fetch_response (fq_SessionId req) results) [])) :: u32) @
    ResponseHeader_Encode (reply_header header) [] @ FetchResponse_Encode (fetch_response (fq_SessionId req) results) []\<rparr>, s')"
proof -
  let ?segs = "stream_response (fq_SessionId req) results"
  note ok = stream_response_ok [OF assms(3), of "fq_SessionId req"] and b = stream_response_bytes [OF assms(3), of "fq_SessionId req"]
  show ?thesis
    using assms(1,2,4) send_segments [OF ok] seg_ok_size [OF ok]
    by (simp add: HandleFetchApiKeys_def Let_def NewWriter_def b conn_Write_def)
qed

text \<open>The shape of the results: one per requested topic, without tagged fields.\<close>

lemma collect_opt_all:
  "(\<And>x s y s'. f x s = Some (Ok y, s') \<Longrightarrow> P x y) \<Longrightarrow> collect_opt f xs s = Some (Ok ys, s') \<Longrightarrow> list_all2 P xs ys"
proof (induction xs arbitrary: s ys)
  case (Cons x xs)
  then obtain y s1 zs where "f x s = Some (Ok y, s1)" "collect_opt f xs s1 = Some (Ok zs, s')" "ys = y # zs"
    by (auto split: option.splits res.splits)
  then show ?case using Cons.IH [of s1 zs] Cons.prems(1) by auto
qed simp

lemma fetch_partition_untagged: "fetch_partition S e rep u part s = Some (Ok y, s') \<Longrightarrow> untagged (fst y) = fst y"
  by (auto simp: fetch_partition_def Let_def untagged_def fetch_error_def split: res.splits option.splits if_splits prod.splits)

lemma list_all2_in: "list_all2 P xs ys \<Longrightarrow> y \<in> set ys \<Longrightarrow> \<exists>x\<in>set xs. P x y"
  by (induction rule: list_all2_induct) auto

lemma fetch_topic_shape:
  assumes "fetch_topic S e rep t s = Some (Ok y, s')"
  shows "fst y = ft_TopicId t \<and> (\<forall>p\<in>set (snd y). untagged (fst p) = fst p)"
proof -
  obtain ps where ps: "collect_opt (fetch_partition S e rep (ft_TopicId t)) (ft_Partitions t) s = Some (Ok ps, s')" "y = (ft_TopicId t, ps)"
    using assms by (auto simp: fetch_topic_def split: option.splits res.splits)
  have "list_all2 (\<lambda>_ p. untagged (fst p) = fst p) (ft_Partitions t) ps"
    using ps(1) by (rule collect_opt_all [rotated]) (rule fetch_partition_untagged)
  then show ?thesis using ps(2) by (auto dest: list_all2_in)
qed

lemma fetch_response_valid:
  assumes "fetch_topics S e req s = Some (Ok results, s')" "FetchRequest_valid req"
  shows "FetchResponse_valid (fetch_response sid results)"
proof -
  have all: "list_all2 (\<lambda>t y. fst y = ft_TopicId t \<and> (\<forall>p\<in>set (snd y). untagged (fst p) = fst p)) (fq_Topics req) results"
    using assms(1) unfolding fetch_topics_def by (rule collect_opt_all [rotated]) (rule fetch_topic_shape)
  have "length (fst y) = 16 \<and> (\<forall>p\<in>set (snd y). untagged (fst p) = fst p)" if "y \<in> set results" for y
    using list_all2_in [OF all that] assms(2) by (auto simp: FetchRequest_valid_def FetchTopic_valid_def)
  moreover have "untagged (p\<lparr>fpr_Records := r\<rparr>) = p\<lparr>fpr_Records := r\<rparr>" if "untagged p = p" for p r
    using that by (cases p) (simp add: untagged_def)
  ultimately show ?thesis
    by (auto simp: FetchResponse_valid_def fetch_response_def FetchTopicResponse_valid_def) (metis fst_conv)
qed

lemma client_reads_fetch:
  assumes "fetch_topics S e req s = Some (Ok results, s')" "FetchRequest_valid req"
    and "rqh_ApiKey header = 1" "rqh_ApiVersion header = 18"
    and p: "p = ResponseHeader_Encode (reply_header header) [] @ FetchResponse_Encode (fetch_response sid results) []"
    and "length p \<le> MaxPayloadSize"
  shows "client_response (be_enc 4 (of_nat (length p) :: u32) @ p) = Ok (fetch_response sid results)"
proof -
  let ?f = "fetch_response sid results" and ?h = "reply_header header"
  have h: "\<lparr>rsh_CorrelationId = 0, rsh_ApiVersion = 18, rsh_ApiKey = 1\<rparr> = ?h\<lparr>rsh_CorrelationId := 0\<rparr>"
    using assms(3,4) by (simp add: reply_header_def)
  have "?f\<lparr>frs_NodeEndpoints := []\<rparr> = ?f" by (simp add: fetch_response_def fetch_header_def)
  then have "decodes (rbind (ResponseHeader_Decode (?h\<lparr>rsh_CorrelationId := 0\<rparr>)) (\<lambda>_. FetchResponse_Decode)) p ?f"
    unfolding p using FetchResponse_decodes [OF fetch_response_valid [OF assms(1,2)], of sid]
    by (intro decodes_rbind [OF response_header_decodes]) simp
  from decodesD [OF this, of "[]" "[]"]
  have "fst (rbind (ResponseHeader_Decode (?h\<lparr>rsh_CorrelationId := 0\<rparr>)) (\<lambda>_. FetchResponse_Decode) (NewReader p)) = Ok ?f"
    using assms(6) by (simp add: NewReader_def MaxPayloadSize_def)
  moreover have "p \<noteq> []" by (simp add: p ResponseHeader_Encode_def Let_def appends_simps WriteInt32_def)
  ultimately show ?thesis
    using ReadFraming_frame [of p "[]"] assms(6) by (simp add: client_response_def h)
qed

end
