(* ===== verification/Kaf_Replica.thy ===== *)
theory Kaf_Replica
  imports Kaf_Fetch
begin

text \<open>
  Replication as a whole: who is in sync after a tick of \<^verbatim>\<open>server/isr_manager.go\<close>, what a
  follower's log holds after a round of \<^verbatim>\<open>server/replica_fetcher.go\<close>, how a partition's state
  travels through the metadata log, and what is left of it after a restart.
\<close>

section \<open>In-sync replicas after a tick\<close>

text \<open>Replicas that have not caught up for too long.\<close>

definition isr_lags :: "int \<Rightarrow> PartitionState \<Rightarrow> i32 \<Rightarrow> bool" where
  "isr_lags now ps f \<longleftrightarrow> f \<noteq> ps_LeaderBrokerID ps \<and>
     (case ps_LastCaughtUp ps f of Some last' \<Rightarrow> now - last' > defaultISRLagMax | None \<Rightarrow> True)"

definition isr_catches_up :: "PartitionState \<Rightarrow> i32 \<Rightarrow> bool" where
  "isr_catches_up ps r \<longleftrightarrow> r \<noteq> ps_LeaderBrokerID ps \<and> r \<notin> set (ps_ISR ps) \<and>
     (case ps_ReplicaLEO ps r of Some leo \<Rightarrow> leo \<ge> ps_HWM ps | None \<Rightarrow> False)"

lemma shrink_loop:
  "fst (fold (\<lambda>f (ps, changed). if P f then (RemoveFromISR f ps, True) else (ps, changed)) fs (ps, c)) =
     ps\<lparr>ps_ISR := filter (\<lambda>f. \<not> (f \<in> set fs \<and> P f)) (ps_ISR ps)\<rparr>"
proof (induction fs arbitrary: ps c)
  case (Cons f fs)
  show ?case
    by (simp add: Cons.IH RemoveFromISR_def) (cases ps; auto intro!: filter_cong)
qed (cases ps, simp)

lemma expand_loop:
  "set (ps_ISR (fst (fold (\<lambda>r (ps, changed). if P r then (AddToISR r ps, True) else (ps, changed)) rs (ps, c)))) =
     set (ps_ISR ps) \<union> {r \<in> set rs. P r}"
proof (induction rs arbitrary: ps c)
  case (Cons r rs)
  show ?case by (simp add: Cons.IH AddToISR_def) auto
qed simp

lemma shrink_isr:
  "fst (isr_shrink now (PartitionState_Snapshot ps) (ps, c)) = ps\<lparr>ps_ISR := filter (\<lambda>f. \<not> isr_lags now ps f) (ps_ISR ps)\<rparr>"
proof -
  have "isr_shrink now (PartitionState_Snapshot ps) =
      fold (\<lambda>f (q, changed). if isr_lags now ps f then (RemoveFromISR f q, True) else (q, changed)) (ps_ISR ps)"
    unfolding isr_shrink_def by (rule arg_cong2 [where f = fold]) (auto simp: isr_lags_def PartitionState_Snapshot_def fun_eq_iff split: option.splits)
  then show ?thesis by (simp add: shrink_loop cong: filter_cong)
qed

lemma expand_isr:
  "set (ps_ISR (fst (isr_expand (PartitionState_Snapshot ps) (q, c)))) =
     set (ps_ISR q) \<union> {r \<in> set (ps_Replicas ps). isr_catches_up ps r}"
proof -
  have "isr_expand (PartitionState_Snapshot ps) =
      fold (\<lambda>r (q, changed). if isr_catches_up ps r then (AddToISR r q, True) else (q, changed)) (ps_Replicas ps)"
    unfolding isr_expand_def by (rule arg_cong2 [where f = fold]) (auto simp: isr_catches_up_def PartitionState_Snapshot_def fun_eq_iff split: option.splits)
  then show ?thesis by (simp add: expand_loop)
qed

lemma expand_hwm: "ps_HWM (fst (isr_expand snap qc)) = ps_HWM (fst qc)"
proof -
  have "ps_HWM (fst (fold (\<lambda>r (q, changed).
       if r = sn_LeaderBrokerID snap \<or> r \<in> set (sn_ISR snap) then (q, changed)
       else (case sn_ReplicaLEO snap r of
               Some leo \<Rightarrow> if leo \<ge> sn_HWM snap then (AddToISR r q, True) else (q, changed)
             | None \<Rightarrow> (q, changed))) rs qc)) = ps_HWM (fst qc)" for rs
    by (induction rs arbitrary: qc) (auto simp: AddToISR_def split: option.splits prod.splits)
  then show ?thesis by (simp add: isr_expand_def)
qed

lemma tick_isr:
  "isr_expand (PartitionState_Snapshot ps) (isr_shrink now (PartitionState_Snapshot ps) (ps, False)) = (ps', ch) \<Longrightarrow>
     set (ps_ISR ps') = {f \<in> set (ps_ISR ps). \<not> isr_lags now ps f} \<union> {r \<in> set (ps_Replicas ps). isr_catches_up ps r} \<and>
     ps_HWM ps' = ps_HWM ps"
proof -
  let ?q = "ps\<lparr>ps_ISR := filter (\<lambda>f. \<not> isr_lags now ps f) (ps_ISR ps)\<rparr>"
  assume tick: "isr_expand (PartitionState_Snapshot ps) (isr_shrink now (PartitionState_Snapshot ps) (ps, False)) = (ps', ch)"
  obtain c where "isr_shrink now (PartitionState_Snapshot ps) (ps, False) = (?q, c)"
    using shrink_isr [of now ps False] by (metis prod.collapse)
  then have "ps' = fst (isr_expand (PartitionState_Snapshot ps) (?q, c))" using tick by simp
  then show ?thesis using expand_isr [of ps ?q c] expand_hwm [of "PartitionState_Snapshot ps" "(?q, c)"] by simp
qed

lemma AdvanceHWM_isr: "ps_ISR (fst (AdvanceHWM ps)) = ps_ISR ps" "ps_HWM ps \<le> ps_HWM (fst (AdvanceHWM ps))"
  by (auto simp: AdvanceHWM_def advance_locked_def complete_waiters_def Let_def split: prod.splits)

lemma checkMinISR_isr: "ps_ISR (fst (checkMinISR ps s)) = ps_ISR ps" "ps_HWM (fst (checkMinISR ps s)) = ps_HWM ps"
  by (auto simp: checkMinISR_def split: res.splits prod.splits)

lemma metadata_append_pss:
  "key \<noteq> partition_key metadata_topic 0 \<Longrightarrow> map_of (s_pss (snd (metadata_append S e v s))) key = map_of (s_pss s) key"
  by (auto simp: metadata_append_def Let_def update_conv' split: prod.splits option.splits)

lemma publish_pss:
  "key \<noteq> partition_key metadata_topic 0 \<Longrightarrow> map_of (s_pss (snd (publishPartitionRecord S e ps s))) key = map_of (s_pss s) key"
  by (auto simp: publishPartitionRecord_def Let_def metadata_append_pss split: res.splits)

text \<open>
  C15. A tick of the in-sync-replica checker leaves a partition with exactly the right members:
  those that were in sync and have caught up with the leader within the last ten seconds, the
  leader itself, and every replica outside the set whose log has reached the high watermark.
  Shrinking the set never lowers the high watermark.
\<close>

theorem isr_tick_membership:
  assumes ps: "map_of (s_pss s) key = Some ps" "key \<noteq> partition_key metadata_topic 0"
    and tick: "tick_partition S e key s = (Ok (), s')"
  shows "\<exists>ps'. map_of (s_pss s') key = Some ps' \<and>
    set (ps_ISR ps') = {f \<in> set (ps_ISR ps). \<not> isr_lags (e_now e) ps f} \<union> {r \<in> set (ps_Replicas ps). isr_catches_up ps r} \<and>
    ps_HWM ps \<le> ps_HWM ps'"
proof -
  obtain q ch where q: "isr_expand (PartitionState_Snapshot ps) (isr_shrink (e_now e) (PartitionState_Snapshot ps) (ps, False)) = (q, ch)"
    by (rule prod.exhaust)
  let ?s = "s\<lparr>s_pss := AList.update key q (s_pss s)\<rparr>"
  obtain out s1 where pub: "publishPartitionRecord S e q ?s = (out, s1)" by (rule prod.exhaust)
  have get: "map_of (s_pss s1) key = Some q"
    using publish_pss [OF ps(2), of S e q ?s] pub by (simp add: update_conv')
  obtain p1 d1 where a: "AdvanceHWM q = (p1, d1)" by (rule prod.exhaust)
  obtain p2 d2 where m: "checkMinISR p1 s1 = (p2, d2)" by (rule prod.exhaust)
  have "ps_ISR p2 = ps_ISR q \<and> ps_HWM q \<le> ps_HWM p2"
    using AdvanceHWM_isr [of q] checkMinISR_isr [of p1 s1] a m by simp
  then show ?thesis
    using tick ps(1) tick_isr [OF q] q pub get a m
    by (auto simp: tick_partition_def Let_def update_conv' split: if_splits res.splits)
qed

definition lagging_partition :: PartitionState where
  "lagging_partition = (new_partition (str ''t'') 0 1 0 [1, 2, 3] [1, 2])\<lparr>ps_ReplicaLEO := [3 \<mapsto> 0]\<rparr>"

theorem isr_tick_membership_witness:
  "let s = (NewServer sample_env 1 [] 9092)\<lparr>s_pss := [(partition_key (str ''t'') 0, lagging_partition)]\<rparr>;
       s' = snd (tick_partition (\<lambda>_. []) sample_env (partition_key (str ''t'') 0) s)
   in \<exists>ps'. map_of (s_pss s') (partition_key (str ''t'') 0) = Some ps' \<and> set (ps_ISR ps') = {1, 3}"
proof -
  let ?k = "partition_key (str ''t'') 0"
  let ?s = "(NewServer sample_env 1 [] 9092)\<lparr>s_pss := [(?k, lagging_partition)]\<rparr>"
  have k: "?k \<noteq> partition_key metadata_topic 0" by code_simp
  have t: "fst (tick_partition (\<lambda>_. []) sample_env ?k ?s) = Ok ()"
    by (simp add: tick_partition_def Let_def publishPartitionRecord_def GetTopicByName_def NewServer_def NewTopicStore_def update_conv'
        split: prod.splits)
  then obtain s' where t: "tick_partition (\<lambda>_. []) sample_env ?k ?s = (Ok (), s')" by (metis prod.collapse)
  obtain ps' where ps': "map_of (s_pss s') ?k = Some ps'"
    "set (ps_ISR ps') = {f \<in> set (ps_ISR lagging_partition). \<not> isr_lags (e_now sample_env) lagging_partition f} \<union>
       {r \<in> set (ps_Replicas lagging_partition). isr_catches_up lagging_partition r}"
    using isr_tick_membership [OF _ k t, of lagging_partition] by auto
  have "set (ps_ISR ps') = {1, 3}"
    unfolding ps'(2) by (auto simp: lagging_partition_def new_partition_def isr_lags_def isr_catches_up_def)
  then show ?thesis using ps'(1) t by (simp add: Let_def)
qed

section \<open>What a replica does with a batch\<close>

lemma count_one_batch:
  assumes wf: "wf_batch d" and c: "batch_count d < 2 ^ 31"
  shows "\<exists>n. countRecordsInRecordBatches d = Ok n \<and> sint n = batch_count d"
proof -
  let ?len = "be_dec (sub 8 4 d) :: u32" and ?n = "be_dec (sub 57 4 d) :: i32"
  have l: "sint ?len = int (length d) - 12" "61 \<le> length d" using wf by (auto simp: wf_batch_def)
  have u: "unat ?len = length d - 12" using l uint_sint_nonneg [of ?len] by (simp add: unat_eq_nat_uint nat_diff_distrib)
  have "countRecordsInRecordBatches d = Ok ?n"
    unfolding countRecordsInRecordBatches_def
    by (subst count_loop.simps) (use l u in \<open>auto simp add: Let_def count_loop.simps [of d "length d"]\<close>)
  moreover have "sint ?n = batch_count d"
    using c order_trans [OF _ uint_ge_0 [of ?n], of "- (2 ^ 31)"] by (simp add: batch_count_def sint_uint signed_take_bit_int_eq_self)
  ultimately show ?thesis by blast
qed

lemma replica_appends:
  assumes log: "cl_rep (rf_commitLog rf) bss" "\<not> cl_isClosed (rf_commitLog rf)"
    and bound: "cl_nextOffset (rf_commitLog rf) < 2 ^ 63"
      "cl_nextOffset (rf_commitLog rf) - ActiveSegmentBaseOffset (rf_commitLog rf) < 2 ^ 32"
      "seg_maxBytes (cl_activeSegment (rf_commitLog rf)) \<le> 2 ^ 32"
    and d: "wf_batch d" "batch_count d < 2 ^ 31"
    and part: "fpr_ErrorCode part = 0" "fpr_Records part = Some d" and e: "e_faults e = no_cl_faults"
  shows "\<exists>rf' bss'. replica_apply e part rf = (Ok (), rf') \<and> cl_rep (rf_commitLog rf') bss' \<and> \<not> cl_isClosed (rf_commitLog rf') \<and>
    concat bss' = concat bss @ [patch_base (cl_nextOffset (rf_commitLog rf)) d] \<and>
    cl_nextOffset (rf_commitLog rf') = cl_nextOffset (rf_commitLog rf) + batch_count d \<and>
    rf_fetchOffset rf' = cl_nextOffset (rf_commitLog rf') \<and> rf_highWatermark rf' = sint (fpr_HighWatermark part)"
proof -
  obtain n where n: "countRecordsInRecordBatches d = Ok n" "sint n = batch_count d"
    using count_one_batch [OF d] by blast
  obtain c' h bss' where a: "commitLog_AppendRaw no_cl_faults (e_now e) d n (rf_commitLog rf) = (Ok (cl_nextOffset (rf_commitLog rf)), c', h)"
    "cl_rep c' bss'" "concat bss' = concat bss @ [patch_base (cl_nextOffset (rf_commitLog rf)) d]"
    "cl_nextOffset c' = cl_nextOffset (rf_commitLog rf) + sint n" "\<not> cl_isClosed c'"
    using AppendRaw_rep [OF log d(1) n(2) bound, of "e_now e"] by blast
  have "d \<noteq> []" "0 < batch_count d" using d(1) by (auto simp: wf_batch_def)
  then have "replica_apply e part rf =
      (Ok (), rf\<lparr>rf_commitLog := c', rf_fetchOffset := cl_nextOffset (rf_commitLog rf) + sint n,
         rf_highWatermark := sint (fpr_HighWatermark part)\<rparr>)"
    using part n a(1) e by (simp add: replica_apply_def)
  then show ?thesis using a n by auto
qed

text \<open>
  C16. A replica that is in step makes an exact copy. When a response carries the batch that
  follows the replica's log, applying it succeeds, the copy is the leader's batch byte for byte,
  the next fetch asks for the offset after it, which is again the end of the replica's log, and
  the leader's high watermark is taken over.
\<close>

theorem replica_in_step:
  assumes "cl_rep (rf_commitLog rf) bss" "\<not> cl_isClosed (rf_commitLog rf)"
    "cl_nextOffset (rf_commitLog rf) < 2 ^ 63"
    "cl_nextOffset (rf_commitLog rf) - ActiveSegmentBaseOffset (rf_commitLog rf) < 2 ^ 32"
    "seg_maxBytes (cl_activeSegment (rf_commitLog rf)) \<le> 2 ^ 32"
    "wf_batch d" "batch_count d < 2 ^ 31"
    "fpr_ErrorCode part = 0" "fpr_Records part = Some d" "e_faults e = no_cl_faults"
    and "batch_base d = cl_nextOffset (rf_commitLog rf)"
  shows "\<exists>rf' bss'. replica_apply e part rf = (Ok (), rf') \<and> cl_rep (rf_commitLog rf') bss' \<and>
    concat bss' = concat bss @ [d] \<and> rf_fetchOffset rf' = batch_last d + 1 \<and>
    cl_nextOffset (rf_commitLog rf') = batch_last d + 1 \<and> rf_highWatermark rf' = sint (fpr_HighWatermark part)"
proof -
  have "patch_base (batch_base d) d = d" "batch_base d + batch_count d = batch_last d + 1"
    using assms(6) by (auto simp: wf_batch_def batch_last_def intro!: patch_base_same)
  then show ?thesis using replica_appends [OF assms(1-10)] assms(11) by (metis)
qed

definition sample_part :: FetchPartitionResponse where
  "sample_part = (fetch_error 0 0)\<lparr>fpr_HighWatermark := 1, fpr_Records := Some sample_batch\<rparr>"

theorem replica_in_step_witness:
  "\<exists>cl rf' bss'. NewCommitLog no_cl_faults sample_config [] = Ok cl \<and>
     replica_apply sample_env sample_part (NewReplicaFetcher 1 (str ''t'') (replicate 16 9) 0 2 cl) = (Ok (), rf') \<and>
     cl_rep (rf_commitLog rf') bss' \<and> concat bss' = [sample_batch] \<and> rf_fetchOffset rf' = 1 \<and> rf_highWatermark rf' = 1"
proof -
  obtain c where c: "NewCommitLog no_cl_faults sample_config [] = Ok c" "cl_rep c [[]]" "\<not> cl_isClosed c"
    "cl_nextOffset c = 0" "ActiveSegmentBaseOffset c = 0" "seg_maxBytes (cl_activeSegment c) = 1048576"
    using empty_log by blast
  have b: "batch_base sample_batch = 0" "batch_last sample_batch = 0" "batch_count sample_batch < 2 ^ 31" by code_simp+
  show ?thesis
    using replica_in_step [of "NewReplicaFetcher 1 (str ''t'') (replicate 16 9) 0 2 c" "[[]]" sample_batch sample_part sample_env]
      c b sample_batch_wf
    by (auto simp: NewReplicaFetcher_def sample_part_def fetch_error_def sample_env_def)
qed

text \<open>
  C39. A restarted replica copies what it already has. A new fetcher asks its leader for offset 0
  whatever its log holds, and the answer, the first batch of a log it has a copy of, is appended
  again under the next offset of the replica's log: the replica then holds a batch the leader does
  not have, at an offset past the leader's.
\<close>

theorem replica_restart_duplicates:
  assumes log: "cl_rep cl bss" "\<not> cl_isClosed cl" "concat bss = b # bs" "0 < cl_nextOffset cl" "cl_nextOffset cl < 2 ^ 63"
      "cl_nextOffset cl - ActiveSegmentBaseOffset cl < 2 ^ 32" "seg_maxBytes (cl_activeSegment cl) \<le> 2 ^ 32"
    and b: "wf_batch b" "batch_count b < 2 ^ 31"
    and part: "fpr_ErrorCode part = 0" "fpr_Records part = Some b" and e: "e_faults e = no_cl_faults"
    and rf: "rf = NewReplicaFetcher leader topic u pidx self cl"
  shows "map (map fp_FetchOffset \<circ> ft_Partitions) (fq_Topics (replica_request rf)) = [[0]] \<and>
    (\<exists>rf' bss'. replica_apply e part rf = (Ok (), rf') \<and> cl_rep (rf_commitLog rf') bss' \<and>
      concat bss' = b # bs @ [patch_base (cl_nextOffset cl) b] \<and> batch_base (patch_base (cl_nextOffset cl) b) = cl_nextOffset cl)"
proof -
  have "batch_base (patch_base (cl_nextOffset cl) b) = cl_nextOffset cl"
    using b(1) log(4,5) by (intro patch_base_fields(4)) (auto simp: wf_batch_def)
  moreover have "map (map fp_FetchOffset \<circ> ft_Partitions) (fq_Topics (replica_request rf)) = [[0]]"
    by (simp add: replica_request_def rf NewReplicaFetcher_def)
  moreover have "rf_commitLog rf = cl" by (simp add: rf NewReplicaFetcher_def)
  ultimately show ?thesis
    using replica_appends [of rf bss b part e] log b part e by fastforce
qed

theorem replica_restart_duplicates_witness:
  "\<exists>cl rf' bss'. replica_apply sample_env sample_part (NewReplicaFetcher 1 (str ''t'') (replicate 16 9) 0 2 cl) = (Ok (), rf') \<and>
     cl_rep (rf_commitLog rf') bss' \<and> concat bss' = [sample_batch, patch_base 1 sample_batch]"
proof -
  obtain c where c: "cl_rep c [[]]" "\<not> cl_isClosed c" "cl_nextOffset c = 0" "ActiveSegmentBaseOffset c = 0"
    "seg_maxBytes (cl_activeSegment c) = 1048576"
    using empty_log by blast
  have "\<not> IsFull (cl_activeSegment c)"
    using c(1,5) by (cases "cl_segments c") (auto simp: IsFull_def cl_rep_def cl_activeSegment_def seg_rep_def dest: chained_length split: if_splits)
  then obtain c' h where a: "cl_rep c' [[sample_batch]]" "cl_nextOffset c' = 1" "\<not> cl_isClosed c'"
    "seg_BaseOffset (hd (cl_segments c')) = seg_BaseOffset (hd (cl_segments c))"
    "seg_maxBytes (cl_activeSegment c') = seg_maxBytes (cl_activeSegment c)"
    using AppendRaw_rep [OF c(1,2) sample_batch_wf, of 1 7] c by (auto simp: sample_batch_count patch_sample)
  have one: "length (cl_segments c) = 1" "length (cl_segments c') = 1"
    using a(1) c(1) by (auto simp: cl_rep_def dest!: chained_length)
  then have "ActiveSegmentBaseOffset c' = ActiveSegmentBaseOffset c"
    using a(4) by (auto simp: ActiveSegmentBaseOffset_def cl_activeSegment_def length_Suc_conv)
  moreover have "batch_count sample_batch < 2 ^ 31" by code_simp
  ultimately show ?thesis
    using replica_restart_duplicates [of c' "[[sample_batch]]" sample_batch "[]" sample_part sample_env _ 1 "str ''t''" "replicate 16 9" 0 2]
      a c sample_batch_wf
    by (auto simp: sample_part_def fetch_error_def sample_env_def)
qed

section \<open>After a restart\<close>

lemma NewCommitLog_open: "NewCommitLog fl cfg d = Ok c \<Longrightarrow> \<not> cl_isClosed c"
  by (cases "loadSegments fl cfg d") (auto simp: NewCommitLog_def)

lemma roll_hook_rep [simp]:
  "cl_rep (SetSegmentRollHook h c) bss = cl_rep c bss" "cl_isClosed (SetSegmentRollHook h c) = cl_isClosed c"
  "OldestOffset (SetSegmentRollHook h c) = OldestOffset c" "cl_nextOffset (SetSegmentRollHook h c) = cl_nextOffset c"
  by (simp_all add: SetSegmentRollHook_def cl_rep_def OldestOffset_def)

lemma contiguous_last: "contiguous b bs \<Longrightarrow> 0 \<le> b \<Longrightarrow> x \<in> set bs \<Longrightarrow> 0 \<le> batch_last x"
proof (induction bs arbitrary: b)
  case (Cons y bs)
  have "0 \<le> batch_last y" using Cons.prems by (auto simp: batch_last_def wf_batch_def)
  then show ?case using Cons.prems Cons.IH [of "batch_last y + 1"] by auto
qed simp

lemma cl_rep_last: "cl_rep c bss \<Longrightarrow> x \<in> set (concat bss) \<Longrightarrow> 0 \<le> batch_last x"
proof -
  assume rep: "cl_rep c bss" and x: "x \<in> set (concat bss)"
  then obtain bs where "bs \<in> set bss" "x \<in> set bs" by auto
  then obtain i where i: "i < length bss" "x \<in> set (bss ! i)" by (auto simp: in_set_conv_nth [of bs])
  then have "seg_rep (cl_segments c ! i) (bss ! i)"
    using rep chained_length [of "cl_segments c" bss] by (intro chained_rep) (auto simp: cl_rep_def)
  then show ?thesis using contiguous_last [OF _ _ i(2)] by (auto simp: seg_rep_def)
qed

lemma hides_at_zero:
  assumes "cl_rep cl bss" "\<not> cl_isClosed cl" "OldestOffset cl \<le> f" "f < cl_nextOffset cl" "\<not> clf_stat (e_faults e)"
  shows "visible_region e f mb 0 cl = Some (Ok (OldestOffset cl, None))"
proof -
  obtain as cs ds region where v: "concat bss = as @ cs @ ds" "cs \<noteq> []"
    "visible_region e f mb 0 cl = Some (Ok (OldestOffset cl, region))"
    "case region of None \<Rightarrow> 0 \<le> batch_last (hd cs)
       | Some r \<Rightarrow> region_ok r \<and> batch_last (hd cs) < 0 \<and> region_bytes r = concat (takeWhile (\<lambda>b. batch_last b < 0) cs)"
    by (rule visible_region_batches [OF assms, where mb = mb and mv = 0])
  have "0 \<le> batch_last (hd cs)" using v(1,2) by (intro cl_rep_last [OF assms(1)]) (auto)
  then show ?thesis using v(3,4) by (auto split: option.splits)
qed

text \<open>
  C40. A restart hides what was committed. A partition's log survives a clean restart, but its high
  watermark does not: the broker that recovers the directory leads the partition with a watermark
  of 0, so a consumer that asks for any offset of the log gets an empty answer without an error.
\<close>

theorem restart_hides_records:
  assumes log: "cl_rep c bss" "\<not> cl_isClosed c" "cl_nextOffset c < 2 ^ 63"
    and close: "commitLog_Close no_seg_faults c = (Ok (), c1, fs)"
    and meta: "F (tm_TopicId meta) = Some u" "fp_Partition part = parsePartitionIndex entry (tm_Name meta)"
    and fresh: "map_of (ts_topics (s_topicStore s)) u = None"
      "GetPartitionState (tm_Name meta) (fp_Partition part) (s_pss s) = None"
    and e: "e_faults e = no_cl_faults"
    and off: "OldestOffset c \<le> sint (fp_FetchOffset part)" "sint (fp_FetchOffset part) < cl_nextOffset c"
  shows "\<exists>s' pr s''. recover_topic_dir S F e (Some meta, Some [(entry, dir_of fs)]) s = (Ok (), s') \<and>
    fetch_partition S e None u part s' = Some (Ok (pr, None), s'') \<and> fpr_ErrorCode pr = 0 \<and> fpr_HighWatermark pr = 0"
proof -
  let ?i = "fp_Partition part" and ?n = "tm_Name meta"
  have cfg: "0 < cfg_SegmentMaxBytes defaultCommitLogConfig" by (simp add: defaultCommitLogConfig_def)
  obtain cl where cl: "NewCommitLog no_cl_faults defaultCommitLogConfig (dir_of fs) = Ok cl" "cl_rep cl bss"
    "cl_nextOffset cl = cl_nextOffset c" "map seg_BaseOffset (cl_segments cl) = map seg_BaseOffset (cl_segments c)"
    using recover_rep [OF log cfg] close by auto
  have oldest: "OldestOffset cl = OldestOffset c"
    using cl(2,4) log(1) by (cases "cl_segments cl"; cases "cl_segments c") (auto simp: OldestOffset_def cl_rep_def)
  let ?cl = "SetSegmentRollHook True cl"
  have vis: "visible_region e (sint (fp_FetchOffset part)) mb 0 ?cl = Some (Ok (OldestOffset ?cl, None))" for mb
    by (rule hides_at_zero [where bss = bss])
       (use cl(2,3) off oldest NewCommitLog_open [OF cl(1)] e in \<open>simp_all add: no_cl_faults_def\<close>)
  let ?s' = "snd (recover_topic_dir S F e (Some meta, Some [(entry, dir_of fs)]) s)"
  note recover = recover_topic_dir_def AddTopicMetadata_def recover_partition_def attach_log_def recover_producers_def Let_def
    SetLeader_def GetPartitionState_def update_conv' new_partition_def
  have "fst (recover_topic_dir S F e (Some meta, Some [(entry, dir_of fs)]) s) = Ok ()"
    using meta fresh cl(1) e by (simp add: recover)
  then have s': "recover_topic_dir S F e (Some meta, Some [(entry, dir_of fs)]) s = (Ok (), ?s')" by (metis prod.collapse)
  have "GetTopic u (s_topicStore ?s') = Ok (topic_data ?n u (tm_NumPartitions meta) (tm_ReplicationFactor meta))"
    using meta fresh cl(1) e by (simp add: recover GetTopic_def AddCommitLog_def)
  moreover have "GetCommitLog S u ?i (s_topicStore ?s') = Some ?cl"
    using meta fresh cl(1) e by (simp add: recover GetCommitLog_def AddCommitLog_def)
  moreover have "\<exists>ps. GetPartitionState ?n ?i (s_pss ?s') = Some ps \<and> ps_LeaderBrokerID ps = s_brokerID ?s' \<and> ps_HWM ps = 0"
    using meta fresh cl(1) e by (simp add: recover)
  ultimately have "\<exists>pr s''. fetch_partition S e None u part ?s' = Some (Ok (pr, None), s'') \<and> fpr_ErrorCode pr = 0 \<and>
      fpr_HighWatermark pr = 0"
    using vis by (auto simp: fetch_partition_def Let_def topic_data_def fetch_error_def)
  then show ?thesis using s' by blast
qed

theorem restart_hides_records_witness:
  "\<exists>c c1 fs s' pr s''. commitLog_Close no_seg_faults c = (Ok (), c1, fs) \<and>
     recover_topic_dir (\<lambda>_. []) (\<lambda>_. Some (replicate 16 9)) sample_env
       (Some \<lparr>tm_Name = str ''t'', tm_TopicId = [], tm_NumPartitions = 1, tm_ReplicationFactor = 1, tm_MinInsyncReplicas = 1\<rparr>,
        Some [(str ''t-0'', dir_of fs)]) (NewServer sample_env 1 [] 9092) = (Ok (), s') \<and>
     fetch_partition (\<lambda>_. []) sample_env None (replicate 16 9)
       \<lparr>fp_Partition = 0, fp_CurrentLeaderEpoch = -1, fp_FetchOffset = 0, fp_LastFetchedEpoch = -1, fp_LogStartOffset = 0,
        fp_PartitionMaxBytes = 1024, fp_ReplicaDirectoryId = None, fp_HighWatermark = None\<rparr> s' = Some (Ok (pr, None), s'') \<and>
     fpr_ErrorCode pr = 0"
proof -
  obtain c bss where c: "cl_rep c bss" "\<not> cl_isClosed c" "concat bss = [sample_batch]" "cl_nextOffset c = 1" "OldestOffset c = 0"
    using one_batch_log by blast
  obtain c1 fs where fs: "commitLog_Close no_seg_faults c = (Ok (), c1, fs)"
    using recover_rep [OF c(1,2), of sample_config] c(4) by (auto simp: sample_config_def)
  have p: "parsePartitionIndex (str ''t-0'') (str ''t'') = 0"
    by (simp add: parsePartitionIndex_def TrimPrefix_def str_def ParseInt_def)
  let ?part = "\<lparr>fp_Partition = 0, fp_CurrentLeaderEpoch = -1, fp_FetchOffset = 0, fp_LastFetchedEpoch = -1, fp_LogStartOffset = 0,
        fp_PartitionMaxBytes = 1024, fp_ReplicaDirectoryId = None, fp_HighWatermark = None\<rparr>"
  let ?meta = "\<lparr>tm_Name = str ''t'', tm_TopicId = [], tm_NumPartitions = 1, tm_ReplicationFactor = 1, tm_MinInsyncReplicas = 1\<rparr>"
  have "\<exists>s' pr s''. recover_topic_dir (\<lambda>_. []) (\<lambda>_. Some (replicate 16 9)) sample_env
      (Some ?meta, Some [(str ''t-0'', dir_of fs)]) (NewServer sample_env 1 [] 9092) = (Ok (), s') \<and>
    fetch_partition (\<lambda>_. []) sample_env None (replicate 16 9) ?part s' = Some (Ok (pr, None), s'') \<and>
    fpr_ErrorCode pr = 0 \<and> fpr_HighWatermark pr = 0"
    by (rule restart_hides_records [OF c(1,2) _ fs])
       (simp_all add: c p NewServer_def NewTopicStore_def NewPartitionStateStore_def GetPartitionState_def sample_env_def)
  then show ?thesis using fs by blast
qed

section \<open>How the other brokers learn of a partition\<close>

lemma SetLeader_same:
  "GetPartitionState n i p = Some ps \<Longrightarrow> \<exists>ps'. GetPartitionState n i (SetLeader n i b p) = Some ps' \<and>
     ps_LeaderBrokerID ps' = b \<and> ps_Replicas ps' = ps_Replicas ps \<and> ps_ISR ps' = ps_ISR ps"
  by (auto simp: SetLeader_def GetPartitionState_def Let_def update_conv')

lemma recover_producers_state:
  "GetPartitionState n i (s_pss s) = Some ps \<Longrightarrow> \<exists>ps'. GetPartitionState n i (s_pss (recover_producers e n i log s)) = Some ps' \<and>
     ps_LeaderBrokerID ps' = ps_LeaderBrokerID ps \<and> ps_Replicas ps' = ps_Replicas ps \<and> ps_ISR ps' = ps_ISR ps"
  by (auto simp: recover_producers_def GetPartitionState_def Let_def update_conv')

lemma attach_log_pss [simp]: "s_pss (attach_log S e n u i log s) = s_pss s"
  by (auto simp: attach_log_def split: option.splits)

lemma AddFetcher_pss [simp]: "s_pss (AddFetcher e n i l s) = s_pss s"
  by (auto simp: AddFetcher_def dialBrokerClientLocked_def Let_def split: res.splits option.splits prod.splits if_splits)

lemma createPartitionLog_state:
  assumes "GetPartitionState n i (s_pss s) = Some ps" "ps_LeaderBrokerID ps = s_brokerID s"
    "createPartitionLog S e n u i s = (out, s')"
  shows "\<exists>ps'. GetPartitionState n i (s_pss s') = Some ps' \<and> ps_LeaderBrokerID ps' = s_brokerID s \<and>
     ps_Replicas ps' = ps_Replicas ps \<and> ps_ISR ps' = ps_ISR ps"
proof (cases "NewCommitLog (e_faults e) defaultCommitLogConfig (e_disk e n i)")
  case (Ok cl)
  let ?s = "attach_log S e n u i cl (s\<lparr>s_pss := SetLeader n i (s_brokerID s) (s_pss s)\<rparr>)"
  obtain p1 where p1: "GetPartitionState n i (s_pss ?s) = Some p1" "ps_LeaderBrokerID p1 = s_brokerID s"
    "ps_Replicas p1 = ps_Replicas ps" "ps_ISR p1 = ps_ISR ps"
    using SetLeader_same [OF assms(1)] by fastforce
  show ?thesis using recover_producers_state [OF p1(1), of e cl] p1 assms(3) Ok by (auto simp: createPartitionLog_def Let_def)
qed (use assms in \<open>auto simp: createPartitionLog_def\<close>)

lemma apply_partition_record:
  assumes valid: "meta_valid (Partition_Record r)" and topic: "GetTopic (pr_TopicId r) (s_topicStore s) = Ok t"
    and log: "NewCommitLog (e_faults e) defaultCommitLogConfig (e_disk e (ctr_Name t) (pr_PartitionId r)) \<noteq> Panic"
  shows "\<exists>s' ps. ApplyMetadataRecord S e (PartitionRecord_Encode r) s = (Ok (), s') \<and>
    GetPartitionState (ctr_Name t) (pr_PartitionId r) (s_pss s') = Some ps \<and> ps_LeaderBrokerID ps = pr_Leader r \<and>
    ps_Replicas ps = pr_Replicas r \<and> ps_ISR ps = pr_ISR r"
proof -
  have d: "Decode (PartitionRecord_Encode r) = Ok (Some (Partition_Record r))" using Decode_encode [OF valid] by simp
  let ?p = "new_partition (ctr_Name t) (pr_PartitionId r) (pr_Leader r) (pr_LeaderEpoch r) (pr_Replicas r) (pr_ISR r)"
  let ?s = "s\<lparr>s_pss := SetPartitionState (ctr_Name t) (pr_PartitionId r) (pr_Leader r) (pr_LeaderEpoch r)
                          (pr_Replicas r) (pr_ISR r) (s_pss s)\<rparr>"
  have p: "GetPartitionState (ctr_Name t) (pr_PartitionId r) (s_pss ?s) = Some ?p"
    by (simp add: SetPartitionState_def GetPartitionState_def update_conv')
  show ?thesis
  proof (cases "pr_Leader r = s_brokerID s")
    case True
    obtain out s' where c: "createPartitionLog S e (ctr_Name t) (pr_TopicId r) (pr_PartitionId r) ?s = (out, s')"
      by (rule prod.exhaust)
    have "out \<noteq> Panic" using c log by (auto simp: createPartitionLog_def Let_def split: res.splits)
    then show ?thesis
      using createPartitionLog_state [OF p _ c] True c d topic
      by (auto simp: ApplyMetadataRecord_def Let_def new_partition_def split: res.splits)
  next
    case False
    then show ?thesis using p d topic by (simp add: ApplyMetadataRecord_def Let_def) (simp add: new_partition_def)
  qed
qed

lemma WriteUVarInt_length: "unat v < 2 ^ (7 * n) \<Longrightarrow> 0 < n \<Longrightarrow> length (WriteUVarInt v w) \<le> length w + n"
proof (induction n arbitrary: v w)
  case (Suc n)
  show ?case
  proof (cases "v \<ge> 0x80")
    case True
    then have "n \<noteq> 0" using Suc.prems(1) by (cases n) (auto simp: word_le_nat_alt)
    moreover have "unat (drop_bit 7 v) < 2 ^ (7 * n)"
      unfolding unat_drop_bit_eq using Suc.prems(1)
      by (simp add: drop_bit_eq_div power_add less_mult_imp_div_less mult.commute)
    ultimately show ?thesis using Suc.IH [of "drop_bit 7 v" "w @ [ucast v OR 0x80]"] True
      by (simp add: WriteUVarInt.simps [of v])
  qed (simp add: WriteUVarInt.simps [of v])
qed simp

lemma encodeRecord_length: "length (encodeRecord v) \<le> length v + 61"
proof -
  have l: "length (writeZigzagVarInt x w) \<le> length w + 10" for x w
    unfolding writeZigzagVarInt_def
    by (rule WriteUVarInt_length) (use unsigned_less [of "zigzag x", where 'a = nat] in simp_all)
  define b1 where "b1 = writeZigzagVarInt 0 [0]"
  define b2 where "b2 = writeZigzagVarInt 0 b1"
  define b3 where "b3 = writeZigzagVarInt (-1) b2"
  define b4 where "b4 = writeZigzagVarInt (of_nat (length v)) b3"
  define b5 where "b5 = writeZigzagVarInt 0 (b4 @ v)"
  have "length b1 \<le> 1 + 10" using l [of 0 "[0]"] by (simp add: b1_def)
  moreover have "length b2 \<le> length b1 + 10" "length b3 \<le> length b2 + 10" "length b4 \<le> length b3 + 10"
    "length b5 \<le> length (b4 @ v) + 10" by (simp_all only: b2_def b3_def b4_def b5_def l)
  moreover have "length (encodeRecord v) = length (writeZigzagVarInt (of_nat (length b5)) []) + length b5"
    by (simp add: encodeRecord_def Let_def b1_def b2_def b3_def b4_def b5_def)
  moreover note l [of "of_nat (length b5)" "[]"]
  ultimately show ?thesis by simp
qed

text \<open>
  C14. A partition travels through the metadata log unchanged. The record that topic creation
  appends for a partition, fetched by another broker as the batch the log made of it, is applied
  there without an error: the broker then knows the partition with the same leader, replicas and
  in-sync replicas, and its fetcher has moved on by one record.
\<close>

theorem followers_learn_partition:
  assumes state: "GetPartitionState (ctr_Name t) i (s_pss sc) = Some ps"
    and fits: "length (ctr_TopicId t) = 16" "length (ps_Replicas ps) < 2 ^ 20" "length (ps_ISR ps) < 2 ^ 20"
    and topic: "GetTopic (ctr_TopicId t) (s_topicStore s) = Ok t'" "ctr_Name t' = ctr_Name t"
    and log: "NewCommitLog (e_faults e) defaultCommitLogConfig (e_disk e (ctr_Name t) i) \<noteq> Panic"
  shows "\<exists>val. publish_partition S e0 t i sc = metadata_append S e0 val sc \<and>
    (\<forall>(part :: FetchPartitionResponse) o' now. fpr_ErrorCode part = 0 \<longrightarrow> fpr_Records part = Some (patch_base o' (EncodeAsRecordBatch now val)) \<longrightarrow>
      (\<exists>mf' s' ps'. metadata_apply S e part (mf, s) = (Ok (), mf', s') \<and> mf_fetchOffset mf' = mf_fetchOffset mf + 1 \<and>
         GetPartitionState (ctr_Name t) i (s_pss s') = Some ps' \<and> ps_LeaderBrokerID ps' = ps_LeaderBrokerID ps \<and>
         ps_Replicas ps' = ps_Replicas ps \<and> ps_ISR ps' = ps_ISR ps))"
proof -
  let ?r = "\<lparr>pr_TopicId = ctr_TopicId t, pr_PartitionId = i, pr_Leader = ps_LeaderBrokerID ps, pr_LeaderEpoch = 0,
    pr_Replicas = ps_Replicas ps, pr_ISR = ps_ISR ps\<rparr>"
  let ?v = "PartitionRecord_Encode ?r"
  show ?thesis
  proof (intro exI [of _ ?v] conjI allI impI)
    show "publish_partition S e0 t i sc = metadata_append S e0 ?v sc" using state by (simp add: publish_partition_def)
    fix part :: FetchPartitionResponse and o' now
    assume part: "fpr_ErrorCode part = 0" "fpr_Records part = Some (patch_base o' (EncodeAsRecordBatch now ?v))"
    have sum4: "sum_list (map (\<lambda>x. length (be_enc 4 (x :: i32))) xs) = 4 * length xs" for xs by (induction xs) auto
    have "length ?v < 2 ^ 30" using fits sum4 by (simp add: PartitionRecord_Encode_def length_concat comp_def)
    then have small: "length (encodeRecord ?v) < 2 ^ 31 - 61" using encodeRecord_length [of ?v] by simp
    let ?b = "patch_base o' (EncodeAsRecordBatch now ?v)"
    have ne: "?v \<noteq> []" by (simp add: PartitionRecord_Encode_def)
    have vals: "DecodeRecordValues ?b = Ok [?v]"
      using DecodeRecordValues_batches [of "[(o', now, ?v)]"] ne small by simp
    have wf: "wf_batch ?b" "batch_count ?b = 1"
      using EncodeAsRecordBatch_fields [OF small, of now] by (auto simp: patch_base_wf batch_count_def patch_base_fields)
    obtain n where n: "countRecordsInRecordBatches ?b = Ok n" "sint n = 1" using count_one_batch [OF wf(1)] wf(2) by auto
    have b: "?b \<noteq> []" using wf(1) by (auto simp: wf_batch_def)
    obtain s' ps' where a: "ApplyMetadataRecord S e ?v s = (Ok (), s')" "GetPartitionState (ctr_Name t) i (s_pss s') = Some ps'"
      "ps_LeaderBrokerID ps' = ps_LeaderBrokerID ps" "ps_Replicas ps' = ps_Replicas ps" "ps_ISR ps' = ps_ISR ps"
      using apply_partition_record [of ?r s t' e S] topic log fits by auto
    show "\<exists>mf' s' ps'. metadata_apply S e part (mf, s) = (Ok (), mf', s') \<and> mf_fetchOffset mf' = mf_fetchOffset mf + 1 \<and>
           GetPartitionState (ctr_Name t) i (s_pss s') = Some ps' \<and> ps_LeaderBrokerID ps' = ps_LeaderBrokerID ps \<and>
           ps_Replicas ps' = ps_Replicas ps \<and> ps_ISR ps' = ps_ISR ps"
      using part vals n b a by (simp add: metadata_apply_def Let_def)
  qed
qed

theorem followers_learn_partition_witness:
  "let sc = (NewServer sample_env 1 [] 9092)\<lparr>s_pss := [(partition_key (str ''t'') 0, sample_partition)]\<rparr>;
       s = (NewServer sample_env 2 [] 9093)\<lparr>s_topicStore := RegisterTopic (replicate 16 9) (str ''t'') 1 NewTopicStore\<rparr>;
       t = topic_data (str ''t'') (replicate 16 9) 1 1
   in \<exists>val mf' s' ps'. publish_partition (\<lambda>_. []) sample_env t 0 sc = metadata_append (\<lambda>_. []) sample_env val sc \<and>
     metadata_apply (\<lambda>_. []) sample_env (sample_part\<lparr>fpr_Records := Some (patch_base 3 (EncodeAsRecordBatch 5 val))\<rparr>)
       (\<lparr>mf_fetchOffset = 3, mf_currentOffset = 3\<rparr>, s) = (Ok (), mf', s') \<and> mf_fetchOffset mf' = 4 \<and>
     GetPartitionState (str ''t'') 0 (s_pss s') = Some ps' \<and> ps_LeaderBrokerID ps' = 1 \<and> ps_ISR ps' = [1]"
proof -
  let ?sc = "(NewServer sample_env 1 [] 9092)\<lparr>s_pss := [(partition_key (str ''t'') 0, sample_partition)]\<rparr>"
  let ?s = "(NewServer sample_env 2 [] 9093)\<lparr>s_topicStore := RegisterTopic (replicate 16 9) (str ''t'') 1 NewTopicStore\<rparr>"
  let ?t = "topic_data (str ''t'') (replicate 16 9) 1 1" and ?mf = "\<lparr>mf_fetchOffset = 3, mf_currentOffset = 3\<rparr>"
  have sample_part_ok: "fpr_ErrorCode (sample_part\<lparr>fpr_Records := Some b\<rparr>) = 0" "fpr_Records (sample_part\<lparr>fpr_Records := Some b\<rparr>) = Some b" for b
    by (simp_all add: sample_part_def fetch_error_def)
  obtain cs where "NewSegment no_seg_faults ([], [], []) 0 defaultCommitLogConfig = Ok cs"
    using NewSegment_rep [of 0 "[]" "[]" "[]" defaultCommitLogConfig] by (auto simp: defaultCommitLogConfig_def)
  then have "NewCommitLog (e_faults sample_env) defaultCommitLogConfig (e_disk sample_env (ctr_Name ?t) 0) \<noteq> Panic"
    by (simp add: NewCommitLog_def loadSegments_def sample_env_def no_cl_faults_def segment_files_def dir_open_def)
  then have "\<exists>val. publish_partition (\<lambda>_. []) sample_env ?t 0 ?sc = metadata_append (\<lambda>_. []) sample_env val ?sc \<and>
    (\<forall>(part :: FetchPartitionResponse) o' now. fpr_ErrorCode part = 0 \<longrightarrow> fpr_Records part = Some (patch_base o' (EncodeAsRecordBatch now val)) \<longrightarrow>
      (\<exists>mf' s' ps'. metadata_apply (\<lambda>_. []) sample_env part (?mf, ?s) = (Ok (), mf', s') \<and> mf_fetchOffset mf' = mf_fetchOffset ?mf + 1 \<and>
         GetPartitionState (ctr_Name ?t) 0 (s_pss s') = Some ps' \<and> ps_LeaderBrokerID ps' = ps_LeaderBrokerID sample_partition \<and>
         ps_Replicas ps' = ps_Replicas sample_partition \<and> ps_ISR ps' = ps_ISR sample_partition))"
    by (intro followers_learn_partition [where t' = ?t])
       (simp_all add: topic_data_def GetPartitionState_def sample_partition_def new_partition_def GetTopic_def RegisterTopic_def NewTopicStore_def)
  then obtain val mf' s' ps' where
    "publish_partition (\<lambda>_. []) sample_env ?t 0 ?sc = metadata_append (\<lambda>_. []) sample_env val ?sc"
    "metadata_apply (\<lambda>_. []) sample_env (sample_part\<lparr>fpr_Records := Some (patch_base 3 (EncodeAsRecordBatch 5 val))\<rparr>) (?mf, ?s) = (Ok (), mf', s')"
    "mf_fetchOffset mf' = mf_fetchOffset ?mf + 1" "GetPartitionState (ctr_Name ?t) 0 (s_pss s') = Some ps'"
    "ps_LeaderBrokerID ps' = ps_LeaderBrokerID sample_partition" "ps_ISR ps' = ps_ISR sample_partition"
    using sample_part_ok by metis
  then show ?thesis
    unfolding Let_def by (intro exI [of _ val] exI [of _ mf'] exI [of _ s'] exI [of _ ps'])
      (simp add: topic_data_def sample_partition_def new_partition_def)
qed

end
