(* ===== verification/Kaf_Conn.thy ===== *)
theory Kaf_Conn
  imports Kaf_Replica
begin

text \<open>
  The handlers of consumer groups (\<^verbatim>\<open>api/join_group_api.go\<close> and its neighbours) and of the
  version query, the dispatch on the API key and the loop of a connection
  (\<^verbatim>\<open>server/conn.go\<close>).
\<close>

section \<open>Group handlers\<close>

definition heartbeat_api :: "HeartbeatRequest \<Rightarrow> GroupStore \<Rightarrow> HeartbeatResponse res \<times> GroupStore" where
  "heartbeat_api req gs =
     (case Heartbeat (hbq_GroupID req) (hbq_MemberID req) (hbq_GenerationID req) gs of
        (out, gs) \<Rightarrow> (Ok \<lparr>hbs_ThrottleTimeMs = 0, hbs_ErrorCode = scast out\<rparr>, gs))"

definition HandleHeartbeatApi :: "RequestHeader \<Rightarrow> reader \<Rightarrow> conn \<Rightarrow> GroupStore \<Rightarrow> unit res \<times> conn \<times> GroupStore" where
  "HandleHeartbeatApi header = handle HeartbeatRequest_Decode heartbeat_api HeartbeatResponse_Encode (reply_header header)"

text \<open>The members leave one by one; the clean-ups this schedules are returned with the store.\<close>

fun leave_members ::
  "gostring \<Rightarrow> LeaveGroupMember list \<Rightarrow> GroupStore \<times> g_out list \<Rightarrow> LeaveGroupMemberResponse list res \<times> GroupStore \<times> g_out list" where
  "leave_members groupId [] st = (Ok [], st)"
| "leave_members groupId (m # ms) st =
     (case LeaveGroup groupId (lgm_MemberID m) (fst st) of
        Ok (out, outs, gs) \<Rightarrow>
          (case leave_members groupId ms (gs, snd st @ outs) of
             (Ok rs, st) \<Rightarrow>
               (Ok (\<lparr>lgmr_MemberID = lgm_MemberID m, lgmr_GroupInstanceID = lgm_GroupInstanceID m,
                     lgmr_ErrorCode = (case out of Err e \<Rightarrow> err_id e | _ \<Rightarrow> 0)\<rparr> # rs), st)
           | (Err e, st) \<Rightarrow> (Err e, st)
           | (Panic, st) \<Rightarrow> (Panic, st))
      | Err e \<Rightarrow> (Err e, st)
      | Panic \<Rightarrow> (Panic, st))"

definition leave_group :: "LeaveGroupRequest \<Rightarrow> Server \<Rightarrow> LeaveGroupResponse res \<times> Server" where
  "leave_group req s =
     (case leave_members (lgq_GroupID req) (lgq_Members req) (s_groupStore s, s_groupOuts s) of
        (out, gs, outs) \<Rightarrow>
          (res_bind out (\<lambda>ms. Ok \<lparr>lgs_ThrottleTimeMs = 0, lgs_ErrorCode = 0, lgs_Members = ms\<rparr>),
           s\<lparr>s_groupStore := gs, s_groupOuts := outs\<rparr>))"

definition HandleLeaveGroupApi :: "RequestHeader \<Rightarrow> reader \<Rightarrow> conn \<Rightarrow> Server \<Rightarrow> unit res \<times> conn \<times> Server" where
  "HandleLeaveGroupApi header = handle LeaveGroupRequest_Decode leave_group LeaveGroupResponse_Encode (reply_header header)"

definition offset_commits :: "OffsetCommitRequest \<Rightarrow> CommitOffset list" where
  "offset_commits req =
     concat (map (\<lambda>t. map (\<lambda>p.
       \<lparr>co_TopicName = oct_Topic t, co_PartitionIdx = ocp_PartitionIndex p, co_Offset = ocp_CommittedOffset p,
        co_LeaderEpoch = ocp_CommittedLeaderEpoch p, co_Metadata = ocp_CommittedMetadata p\<rparr>) (oct_Partitions t))
       (ocq_Topics req))"

definition offset_commit :: "int \<Rightarrow> OffsetCommitRequest \<Rightarrow> GroupStore \<Rightarrow> OffsetCommitResponse res \<times> GroupStore" where
  "offset_commit now req gs =
     (Ok \<lparr>ocs_ThrottleTimeMs = 0,
          ocs_Topics = map (\<lambda>t. \<lparr>ocrt_Topic = oct_Topic t,
            ocrt_Partitions = map (\<lambda>p. \<lparr>ocrp_PartitionIndex = ocp_PartitionIndex p, ocrp_ErrorCode = 0\<rparr>)
              (oct_Partitions t)\<rparr>) (ocq_Topics req)\<rparr>,
      CommitOffsets now (ocq_GroupID req) (offset_commits req) gs)"

definition HandleOffsetCommitApi ::
  "int \<Rightarrow> RequestHeader \<Rightarrow> reader \<Rightarrow> conn \<Rightarrow> GroupStore \<Rightarrow> unit res \<times> conn \<times> GroupStore" where
  "HandleOffsetCommitApi now header =
     handle OffsetCommitRequest_Decode (offset_commit now) OffsetCommitResponse_Encode (reply_header header)"

text \<open>
  The results are collected by topic in a map; the order of its association list stands for the
  unspecified order in which the map is walked.
\<close>

definition add_result ::
  "FetchOffsetResult \<Rightarrow> (gostring \<times> OffsetFetchResponsePartition list) list \<Rightarrow>
     (gostring \<times> OffsetFetchResponsePartition list) list" where
  "add_result res topicMap =
     (let parts = (case map_of topicMap (fr_TopicName res) of Some ps \<Rightarrow> ps | None \<Rightarrow> [])
      in AList.update (fr_TopicName res) (parts @
           [\<lparr>ofrp_PartitionIndex = fr_PartitionIdx res, ofrp_CommittedOffset = fr_Offset res,
             ofrp_CommittedLeaderEpoch = fr_LeaderEpoch res, ofrp_Metadata = fr_Metadata res, ofrp_ErrorCode = 0\<rparr>]) topicMap)"

definition offset_queries :: "OffsetFetchGroup \<Rightarrow> FetchOffsetQuery list" where
  "offset_queries g =
     concat (map (\<lambda>t. map (\<lambda>partIdx. \<lparr>fq_TopicName = oft_Topic t, fq_PartitionIdx = partIdx\<rparr>) (oft_PartitionIndexes t))
       (ofg_Topics g))"

definition offset_fetch_group :: "GroupStore \<Rightarrow> OffsetFetchGroup \<Rightarrow> OffsetFetchResponseGroup" where
  "offset_fetch_group gs g =
     (let results = FetchOffsets (ofg_GroupID g) (offset_queries g) gs;
          topicMap = fold add_result results []
      in \<lparr>ofrg_GroupID = ofg_GroupID g,
          ofrg_Topics = map (\<lambda>(topic, parts). \<lparr>ofrt_Topic = topic, ofrt_Partitions = parts\<rparr>) topicMap,
          ofrg_ErrorCode = 0\<rparr>)"

definition offset_fetch :: "OffsetFetchRequest \<Rightarrow> GroupStore \<Rightarrow> OffsetFetchResponse res \<times> GroupStore" where
  "offset_fetch req gs =
     (Ok \<lparr>ofs_ThrottleTimeMs = 0, ofs_Groups = map (offset_fetch_group gs) (ofq_Groups req)\<rparr>, gs)"

definition HandleOffsetFetchApi :: "RequestHeader \<Rightarrow> reader \<Rightarrow> conn \<Rightarrow> GroupStore \<Rightarrow> unit res \<times> conn \<times> GroupStore" where
  "HandleOffsetFetchApi header =
     handle OffsetFetchRequest_Decode offset_fetch OffsetFetchResponse_Encode (reply_header header)"

text \<open>A request without coordinator keys panics.\<close>

definition find_coordinator :: "FindCoordinatorRequest \<Rightarrow> Server \<Rightarrow> FindCoordinatorResponse res \<times> Server" where
  "find_coordinator req s =
     (let (host, port) = GetBrokerAddr (s_brokerID s) (s_brokerRegistry s) in
      case fcq_CoordinatorKeys req of
        [] \<Rightarrow> (Panic, s)
      | k # _ \<Rightarrow>
          (Ok \<lparr>fcs_ThrottleTimeMs = 0,
               fcs_Coordinators = [\<lparr>co_Key = k, co_NodeID = s_brokerID s,
                 co_Host = (if host = [] then str ''localhost'' else host),
                 co_Port = (if port = 0 then 9092 else port), co_ErrorCode = 0, co_ErrorMessage = None\<rparr>]\<rparr>, s))"

definition HandleFindCoordinatorApi :: "RequestHeader \<Rightarrow> reader \<Rightarrow> conn \<Rightarrow> Server \<Rightarrow> unit res \<times> conn \<times> Server" where
  "HandleFindCoordinatorApi header =
     handle FindCoordinatorRequest_Decode find_coordinator FindCoordinatorResponse_Encode (reply_header header)"

section \<open>Handlers that wait\<close>

text \<open>
  Joining and syncing wait on a channel: what the call itself sends there is received at once,
  anything else comes from \<open>jin\<close> or \<open>sin\<close>, and \<open>None\<close> is waiting forever.
\<close>

definition received_join :: "(nat \<Rightarrow> joinResult option) \<Rightarrow> nat \<Rightarrow> g_out list \<Rightarrow> joinResult option" where
  "received_join jin ch outs =
     (case List.find (\<lambda>out. case out of JoinSend c _ \<Rightarrow> c = ch | _ \<Rightarrow> False) outs of
        Some (JoinSend _ r) \<Rightarrow> Some r
      | _ \<Rightarrow> jin ch)"

definition received_sync :: "(nat \<Rightarrow> SyncResult option) \<Rightarrow> nat \<Rightarrow> g_out list \<Rightarrow> SyncResult option" where
  "received_sync sin ch outs =
     (case List.find (\<lambda>out. case out of SyncSend c _ \<Rightarrow> c = ch | _ \<Rightarrow> False) outs of
        Some (SyncSend _ r) \<Rightarrow> Some r
      | _ \<Rightarrow> sin ch)"

definition GenerateMemberId :: "(bytes \<Rightarrow> gostring) \<Rightarrow> env \<Rightarrow> gostring \<Rightarrow> gostring" where
  "GenerateMemberId uuid_String e groupId = groupId @ str ''-'' @ uuid_String (e_newV7 e 0)"

definition empty_join :: JoinGroupResponse where
  "empty_join = \<lparr>jgs_ThrottleTimeMs = 0, jgs_ErrorCode = 0, jgs_GenerationID = 0, jgs_ProtocolType = None,
     jgs_ProtocolName = None, jgs_Leader = [], jgs_SkipAssignment = False, jgs_MemberID = [], jgs_Members = []\<rparr>"

definition join_answer :: "JoinGroupRequest \<Rightarrow> joinResult \<Rightarrow> JoinGroupResponse" where
  "join_answer req r =
     empty_join\<lparr>jgs_GenerationID := jr_GenerationId r, jgs_ProtocolName := Some (jr_ProtocolName r),
       jgs_Leader := jr_LeaderId r, jgs_MemberID := jgq_MemberID req,
       jgs_Members := map (\<lambda>m. \<lparr>jgm_MemberID = jm_MemberId m, jgm_GroupInstanceID = Some (jm_GroupInstanceId m),
         jgm_Metadata = jm_Metadata m\<rparr>) (jr_Members r)\<rparr>"

definition join_group ::
  "(bytes \<Rightarrow> gostring) \<Rightarrow> env \<Rightarrow> (nat \<Rightarrow> joinResult option) \<Rightarrow> JoinGroupRequest \<Rightarrow> Server \<Rightarrow>
     (JoinGroupResponse res \<times> Server) option" where
  "join_group uuid_String e jin req s =
     (if jgq_MemberID req = [] then
        Some (Ok (empty_join\<lparr>jgs_MemberID := GenerateMemberId uuid_String e (jgq_GroupID req),
          jgs_ErrorCode := ErrMemberIdRequired\<rparr>), s)
      else case jgq_Protocols req of
             [] \<Rightarrow> Some (Panic, s)
           | p # _ \<Rightarrow>
               let instanceId = (case jgq_GroupInstanceID req of Some i \<Rightarrow> i | None \<Rightarrow> []); ch = s_nextChan s in
               (case JoinGroup (jgq_GroupID req) (jgq_MemberID req) instanceId (jgp_Name p) (jgp_Metadata p)
                       (sint (jgq_SessionTimeoutMs req) * 1000000) (sint (jgq_RebalanceTimeoutMs req) * 1000000) ch
                       (s_groupStore s) of
                  Panic \<Rightarrow> Some (Panic, s)
                | Err err \<Rightarrow> Some (Err err, s)
                | Ok (out, outs, gs) \<Rightarrow>
                    let s = s\<lparr>s_groupStore := gs, s_nextChan := ch + 1, s_groupOuts := s_groupOuts s @ outs\<rparr> in
                    (case out of
                       Ok ch \<Rightarrow> map_option (\<lambda>r. (Ok (join_answer req r), s)) (received_join jin ch outs)
                     | Err err \<Rightarrow> Some (Ok (empty_join\<lparr>jgs_ErrorCode := err_id err\<rparr>), s)
                     | Panic \<Rightarrow> Some (Panic, s))))"

definition sync_assignments :: "SyncGroupAssignment list \<Rightarrow> (gostring \<times> bytes) list option" where
  "sync_assignments as =
     (if as = [] then None else Some (fold (\<lambda>a m. AList.update (sga_MemberID a) (sga_Assignment a) m) as []))"

definition sync_group ::
  "(nat \<Rightarrow> SyncResult option) \<Rightarrow> SyncGroupRequest \<Rightarrow> Server \<Rightarrow> (SyncGroupResponse res \<times> Server) option" where
  "sync_group sin req s =
     (let resp = \<lparr>sgs_ThrottleTimeMs = 0, sgs_ErrorCode = 0, sgs_ProtocolType = sgq_ProtocolType req,
                  sgs_ProtocolName = sgq_ProtocolName req, sgs_Assignment = []\<rparr>; ch = s_nextChan s
      in case SyncGroup (sgq_GroupID req) (sgq_MemberID req) (sgq_GenerationID req) (sync_assignments (sgq_Assignments req))
                ch (s_groupStore s) of
           (out, outs, gs) \<Rightarrow>
             let s = s\<lparr>s_groupStore := gs, s_nextChan := ch + 1, s_groupOuts := s_groupOuts s @ outs\<rparr> in
             (case out of
                Ok ch \<Rightarrow> map_option (\<lambda>r. (Ok (resp\<lparr>sgs_Assignment := r\<rparr>), s)) (received_sync sin ch outs)
              | Err err \<Rightarrow> Some (Ok (resp\<lparr>sgs_ErrorCode := err_id err\<rparr>), s)
              | Panic \<Rightarrow> Some (Panic, s)))"

definition handle_waiting ::
  "'q rd \<Rightarrow> ('q \<Rightarrow> 's \<Rightarrow> ('p res \<times> 's) option) \<Rightarrow> ('p \<Rightarrow> writer \<Rightarrow> writer) \<Rightarrow> ResponseHeader \<Rightarrow>
     reader \<Rightarrow> conn \<Rightarrow> 's \<Rightarrow> (unit res \<times> conn \<times> 's) option" where
  "handle_waiting dec body enc rh r c s =
     (case fst (dec r) of
        Err e \<Rightarrow> Some (Err e, c, s)
      | Panic \<Rightarrow> Some (Panic, c, s)
      | Ok req \<Rightarrow>
          (case body req s of
             None \<Rightarrow> None
           | Some (Ok resp, s) \<Rightarrow> (case WriteFraming rh (\<lambda>w. Ok (enc resp w)) c of (out, c) \<Rightarrow> Some (out, c, s))
           | Some (Err e, s) \<Rightarrow> Some (Err e, c, s)
           | Some (Panic, s) \<Rightarrow> Some (Panic, c, s)))"

definition HandleJoinGroupApi ::
  "(bytes \<Rightarrow> gostring) \<Rightarrow> env \<Rightarrow> (nat \<Rightarrow> joinResult option) \<Rightarrow> RequestHeader \<Rightarrow> reader \<Rightarrow> conn \<Rightarrow> Server \<Rightarrow>
     (unit res \<times> conn \<times> Server) option" where
  "HandleJoinGroupApi uuid_String e jin header =
     handle_waiting JoinGroupRequest_Decode (join_group uuid_String e jin) JoinGroupResponse_Encode (reply_header header)"

definition HandleSyncGroupApi ::
  "(nat \<Rightarrow> SyncResult option) \<Rightarrow> RequestHeader \<Rightarrow> reader \<Rightarrow> conn \<Rightarrow> Server \<Rightarrow> (unit res \<times> conn \<times> Server) option" where
  "HandleSyncGroupApi sin header =
     handle_waiting SyncGroupRequest_Decode (sync_group sin) SyncGroupResponse_Encode (reply_header header)"

section \<open>Dispatch\<close>

definition api_key :: "i16 \<Rightarrow> i16 \<Rightarrow> i16 \<Rightarrow> ApiKey" where
  "api_key k lo hi = \<lparr>ak_ApiKey = k, ak_MinVersion = lo, ak_MaxVersion = hi\<rparr>"

definition api_versions :: ApiVersionResponse where
  "api_versions =
     \<lparr>avs_ErrorCode = 0,
      avs_ApiKeys = [api_key 0 13 13, api_key 1 18 18, api_key 2 10 10, api_key 18 0 3, api_key 3 0 13, api_key 8 8 8,
        api_key 9 8 8, api_key 10 6 6, api_key 11 9 9, api_key 13 5 5, api_key 12 4 4, api_key 14 5 5, api_key 19 0 7,
        api_key 22 0 5, api_key 62 0 0, api_key 63 0 0],
      avs_ThrottleTimeMs = 0\<rparr>"

definition HandleApiVersionApi :: "RequestHeader \<Rightarrow> ResponseHeader \<times> ApiVersionResponse" where
  "HandleApiVersionApi header = (plain_header header, api_versions)"

text \<open>What surrounds one request, with what arrives for the calls that wait.\<close>

record request_env =
  q_env :: env
  q_joins :: "nat \<Rightarrow> joinResult option"
  q_syncs :: "nat \<Rightarrow> SyncResult option"
  q_isTCP :: bool

definition on_topics :: "(TopicStore \<Rightarrow> 'a \<times> 'b \<times> TopicStore) \<Rightarrow> Server \<Rightarrow> 'a \<times> 'b \<times> Server" where
  "on_topics f s = (case f (s_topicStore s) of (out, c, ts) \<Rightarrow> (out, c, s\<lparr>s_topicStore := ts\<rparr>))"

definition on_groups :: "(GroupStore \<Rightarrow> 'a \<times> 'b \<times> GroupStore) \<Rightarrow> Server \<Rightarrow> 'a \<times> 'b \<times> Server" where
  "on_groups f s = (case f (s_groupStore s) of (out, c, gs) \<Rightarrow> (out, c, s\<lparr>s_groupStore := gs\<rparr>))"

text \<open>Errors are only logged; the connection goes on with the next request.\<close>

definition HandleRequest ::
  "(bytes \<Rightarrow> gostring) \<Rightarrow> (bytes \<Rightarrow> bytes option) \<Rightarrow> request_env \<Rightarrow> i16 \<Rightarrow> RequestHeader \<Rightarrow> reader \<Rightarrow> conn \<Rightarrow> Server \<Rightarrow>
     (unit res \<times> conn \<times> Server) option" where
  "HandleRequest uuid_String snappy q apiKey header r c s =
     (let e = q_env q in
      if apiKey = 0 then Some (HandleProduceApiKeys uuid_String snappy e header r c s)
      else if apiKey = 1 then HandleFetchApiKeys uuid_String e (q_isTCP q) header r c s
      else if apiKey = 2 then Some (on_topics (HandleListOffsetsApi uuid_String header r c) s)
      else if apiKey = 8 then Some (on_groups (HandleOffsetCommitApi (e_now e) header r c) s)
      else if apiKey = 9 then Some (on_groups (HandleOffsetFetchApi header r c) s)
      else if apiKey = 10 then Some (HandleFindCoordinatorApi header r c s)
      else if apiKey = 11 then HandleJoinGroupApi uuid_String e (q_joins q) header r c s
      else if apiKey = 13 then Some (HandleLeaveGroupApi header r c s)
      else if apiKey = 12 then Some (on_groups (HandleHeartbeatApi header r c) s)
      else if apiKey = 14 then HandleSyncGroupApi (q_syncs q) header r c s
      else if apiKey = 18 then
        (case HandleApiVersionApi header of
           (rh, resp) \<Rightarrow> (case WriteFraming rh (\<lambda>w. Ok (ApiVersionResponse_Encode resp w)) c of (out, c) \<Rightarrow> Some (out, c, s)))
      else if apiKey = 3 then Some (HandleMetaData header r c s)
      else if apiKey = 19 then Some (HandleCreateTopics uuid_String e header r c s)
      else if apiKey = 22 then Some (HandleInitProducerIdApi uuid_String e header r c s)
      else if apiKey = 62 then Some (HandleBrokerRegistrationApi uuid_String e header r c s)
      else if apiKey = 63 then Some (HandleBrokerHeartbeatApi uuid_String e header r c s)
      else Some (Ok (), c, s))"

lemma ReadFraming_shorter: "ReadFraming inp = (Ok f, rest) \<Longrightarrow> length rest < length inp"
  by (auto simp: ReadFraming_def ReadFull_def Let_def split: if_splits prod.splits res.splits)

text \<open>
  The loop of a connection over the bytes the peer sends: it ends at the first frame or header
  that cannot be read, and a panic ends the whole process. \<open>qs\<close> gives the surroundings of each
  request in turn.
\<close>

function conn_handle ::
  "(bytes \<Rightarrow> gostring) \<Rightarrow> (bytes \<Rightarrow> bytes option) \<Rightarrow> (nat \<Rightarrow> request_env) \<Rightarrow> nat \<Rightarrow> bytes \<Rightarrow> conn \<Rightarrow> Server \<Rightarrow>
     (unit res \<times> conn \<times> Server) option" where
  "conn_handle uuid_String snappy qs k inp c s =
     (case ReadFraming inp of
        (Ok (Some framing), rest) \<Rightarrow>
          (case RequestHeader_Decode (NewReader framing) of
             (Ok header, r) \<Rightarrow>
               (case HandleRequest uuid_String snappy (qs k) (rqh_ApiKey header) header r c s of
                  None \<Rightarrow> None
                | Some (Panic, c, s) \<Rightarrow> Some (Panic, c, s)
                | Some (_, c, s) \<Rightarrow> conn_handle uuid_String snappy qs (k + 1) rest c s)
           | (Err _, _) \<Rightarrow> Some (Ok (), c, s)
           | (Panic, _) \<Rightarrow> Some (Panic, c, s))
      | (Panic, _) \<Rightarrow> Some (Panic, c, s)
      | _ \<Rightarrow> Some (Ok (), c, s))"
  by pat_completeness auto
termination
  by (relation "measure (\<lambda>(_, _, _, _, inp, _, _). length inp)")
     (auto dest: ReadFraming_shorter [OF sym])

declare conn_handle.simps [simp del]

section \<open>Clients of these handlers\<close>

interpretation heartbeat_rpc: rpc HeartbeatRequest_wire HeartbeatRequest_Decode "\<lambda>_. True" HeartbeatResponse_Encode HeartbeatResponse_read "\<lambda>_. True"
  by unfold_locales

interpretation leave_group_rpc: rpc LeaveGroupRequest_wire LeaveGroupRequest_Decode "\<lambda>_. True" LeaveGroupResponse_Encode LeaveGroupResponse_read "\<lambda>_. True"
  by unfold_locales

interpretation offset_commit_rpc: rpc OffsetCommitRequest_wire OffsetCommitRequest_Decode "\<lambda>_. True" OffsetCommitResponse_Encode OffsetCommitResponse_read "\<lambda>_. True"
  by unfold_locales

interpretation offset_fetch_rpc: rpc OffsetFetchRequest_wire OffsetFetchRequest_Decode "\<lambda>_. True" OffsetFetchResponse_Encode OffsetFetchResponse_read "\<lambda>_. True"
  by unfold_locales

interpretation find_coordinator_rpc: rpc FindCoordinatorRequest_wire FindCoordinatorRequest_Decode "\<lambda>_. True" FindCoordinatorResponse_Encode FindCoordinatorResponse_read "\<lambda>_. True"
  by unfold_locales

interpretation join_group_rpc: rpc JoinGroupRequest_wire JoinGroupRequest_Decode "\<lambda>_. True" JoinGroupResponse_Encode JoinGroupResponse_read "\<lambda>_. True"
  by unfold_locales

interpretation sync_group_rpc: rpc SyncGroupRequest_wire SyncGroupRequest_Decode "\<lambda>_. True" SyncGroupResponse_Encode SyncGroupResponse_read "\<lambda>_. True"
  by unfold_locales

section \<open>One request on a connection\<close>

lemma ReadFraming_end: "ReadFraming [] = (Err EOF, [])"
  by (simp add: ReadFraming_def ReadFull_def)

lemma conn_handle_end: "conn_handle S z qs k [] c s = Some (Ok (), c, s)"
  by (simp add: conn_handle.simps [of S z qs k "[]"] ReadFraming_end)

text \<open>A frame with a valid header is dispatched with the reader right behind the header.\<close>

lemma conn_handle_frame:
  assumes "request_header_valid h" "p = RequestHeader_Encode h [] @ body" "length p \<le> MaxPayloadSize"
  shows "conn_handle S z qs k (be_enc 4 (of_nat (length p) :: u32) @ p @ rest) c s =
    (case HandleRequest S z (qs k) (rqh_ApiKey h) h \<lparr>buff = p, pos = int (length (RequestHeader_Encode h []))\<rparr> c s of
       None \<Rightarrow> None
     | Some (Panic, c, s) \<Rightarrow> Some (Panic, c, s)
     | Some (_, c, s) \<Rightarrow> conn_handle S z qs (k + 1) rest c s)"
proof -
  have "p \<noteq> []" using request_header.wr_nonempty [OF assms(1)] by (simp add: assms(2))
  then have f: "ReadFraming (be_enc 4 (of_nat (length p) :: u32) @ p @ rest) = (Ok (Some p), rest)"
    using assms(3) by (rule ReadFraming_frame)
  have "RequestHeader_Decode (NewReader p) = (Ok h, \<lparr>buff = p, pos = int (length (RequestHeader_Encode h []))\<rparr>)"
    using decodesD [OF request_header.rd_wr [OF assms(1)], of "[]" body] assms(2,3) by (simp add: NewReader_def MaxPayloadSize_def)
  then show ?thesis
    by (subst conn_handle.simps) (simp add: f split: option.split res.split prod.split)
qed

end
