(* ===== verification/Kaf_Invariant.thy ===== *)
theory Kaf_Invariant
  imports Kaf_Conn
begin

text \<open>
  What every broker keeps, whatever its peers send: the topics, partitions, groups and brokers
  it stores stay well formed through every request handler, through the metadata records it
  applies and through the ticks of the ISR manager.
\<close>

section \<open>Well-formed stores\<close>

definition pss_ok :: "PartitionStateStore \<Rightarrow> bool" where
  "pss_ok p \<longleftrightarrow> (\<forall>(k, ps)\<in>set p. ps_inv ps \<and> partition_key (ps_TopicName ps) (ps_PartitionIndex ps) = k)"

definition registry_ok :: "BrokerRegistry \<Rightarrow> bool" where
  "registry_ok r \<longleftrightarrow> distinct (map fst r) \<and> (\<forall>(k, b)\<in>set r. bi_BrokerId b = k)"

definition server_ok :: "Server \<Rightarrow> bool" where
  "server_ok s \<longleftrightarrow> topics_ok (s_topicStore s) \<and> pss_ok (s_pss s) \<and> store_inv (s_groupStore s) \<and>
     registry_ok (s_brokerRegistry s)"

text \<open>What a call on one partition's state keeps of it.\<close>

definition ps_keeps :: "PartitionState \<Rightarrow> PartitionState \<Rightarrow> bool" where
  "ps_keeps ps ps' \<longleftrightarrow> (ps_inv ps \<longrightarrow> ps_inv ps') \<and> ps_TopicName ps' = ps_TopicName ps \<and>
     ps_PartitionIndex ps' = ps_PartitionIndex ps"

lemma ps_keeps_refl [simp]: "ps_keeps ps ps"
  by (simp add: ps_keeps_def)

lemma ps_keeps_trans: "ps_keeps a b \<Longrightarrow> ps_keeps b c \<Longrightarrow> ps_keeps a c"
  by (simp add: ps_keeps_def)

lemma ps_keeps_fields [simp]:
  "ps_keeps ps (ps'\<lparr>ps_Purgatory := p\<rparr>) = ps_keeps ps ps'"
  "ps_keeps ps (ps'\<lparr>ps_Idempotence := i\<rparr>) = ps_keeps ps ps'"
  "ps_keeps ps (ps'\<lparr>ps_LeaderBrokerID := l\<rparr>) = ps_keeps ps ps'"
  "ps_keeps ps (ps'\<lparr>ps_ISR := l'\<rparr>) = ps_keeps ps ps'"
  by (simp_all add: ps_keeps_def ps_inv_def)

lemma ps_keeps_AdvanceHWM: "ps_keeps ps (fst (AdvanceHWM ps))"
proof (cases "advance_locked ps")
  case (Pair ps' r)
  then have "ps_keeps ps ps'"
    by (auto simp: ps_keeps_def advance_locked_def ps_inv_def Let_def split: if_splits
        intro: order_trans [OF min_isr_le])
  then show ?thesis using Pair
    by (cases r) (auto simp: AdvanceHWM_def complete_waiters_def split: prod.splits)
qed

lemma ps_keeps_OnLeaderAppend: "ps_keeps ps (fst (OnLeaderAppend o' ps))"
  unfolding OnLeaderAppend_def
  by (rule ps_keeps_trans [OF _ ps_keeps_AdvanceHWM])
     (auto simp: ps_keeps_def append_locked_def ps_inv_def)

lemma ps_keeps_UpdateReplicaLEO: "ps_keeps ps (fst (UpdateReplicaLEO now f o' ps))"
  unfolding UpdateReplicaLEO_def
  by (rule ps_keeps_trans [OF _ ps_keeps_AdvanceHWM])
     (auto simp: ps_keeps_def replica_locked_def ps_inv_def Let_def)

lemma pss_ok_get: "pss_ok p \<Longrightarrow> map_of p k = Some ps \<Longrightarrow> ps_inv ps \<and> partition_key (ps_TopicName ps) (ps_PartitionIndex ps) = k"
  by (auto simp: pss_ok_def dest!: map_of_SomeD)

lemma pss_ok_new [intro]:
  "pss_ok p \<Longrightarrow> ps_inv ps \<Longrightarrow> partition_key (ps_TopicName ps) (ps_PartitionIndex ps) = k \<Longrightarrow> pss_ok (AList.update k ps p)"
  by (auto simp: pss_ok_def dest!: set_update_cases)

lemma pss_ok_step: "pss_ok p \<Longrightarrow> map_of p k = Some ps \<Longrightarrow> ps_keeps ps ps' \<Longrightarrow> pss_ok (AList.update k ps' p)"
  by (rule pss_ok_new) (auto simp: ps_keeps_def dest: pss_ok_get)

lemma new_partition_inv [simp]:
  "ps_inv (new_partition t i l e rs isr)" "ps_TopicName (new_partition t i l e rs isr) = t"
  "ps_PartitionIndex (new_partition t i l e rs isr) = i"
  by (simp_all add: new_partition_def ps_inv_def)

lemma pss_ok_SetPartitionState: "pss_ok p \<Longrightarrow> pss_ok (SetPartitionState t i l e rs isr p)"
  by (auto simp: SetPartitionState_def)

lemma pss_ok_SetLeader: "pss_ok p \<Longrightarrow> pss_ok (SetLeader t i b p)"
  by (auto simp: SetLeader_def Let_def intro: pss_ok_step split: option.splits)

lemma pss_ok_AssignReplicas: "pss_ok p \<Longrightarrow> AssignReplicas t n rf bs p = Ok p' \<Longrightarrow> pss_ok p'"
proof -
  have "pss_ok p \<Longrightarrow> assign_loop t rf bs ns p = Ok p' \<Longrightarrow> pss_ok p'" for ns p
  proof (induction ns arbitrary: p)
    case (Cons n ns)
    have "pss_ok (AList.update (partition_key t (of_nat n)) (new_partition t (of_nat n) l e rs isr) p)" for l e rs isr
      using Cons.prems(1) by auto
    then show ?case using Cons.prems(2) by (auto simp: Let_def split: if_splits dest!: Cons.IH [rotated])
  qed simp
  then show "pss_ok p \<Longrightarrow> AssignReplicas t n rf bs p = Ok p' \<Longrightarrow> pss_ok p'" by (simp add: AssignReplicas_def)
qed

lemma registry_ok_update: "registry_ok r \<Longrightarrow> bi_BrokerId b = k \<Longrightarrow> registry_ok (AList.update k b r)"
  by (auto simp: registry_ok_def distinct_update dest!: set_update_cases)

lemma registry_ok_RegisterBroker: "registry_ok r \<Longrightarrow> registry_ok (snd (RegisterBroker now i h p r))"
  by (simp add: RegisterBroker_def Let_def registry_ok_update)

lemma registry_ok_ValidateAndUpdate: "registry_ok r \<Longrightarrow> registry_ok (snd (ValidateAndUpdate now i e m r))"
  by (auto simp: ValidateAndUpdate_def registry_ok_def distinct_update dest!: set_update_cases map_of_SomeD split: option.splits)

text \<open>The parts of a server the invariant does not look at.\<close>

lemma server_ok_frame [simp]:
  "server_ok (s\<lparr>s_fetchers := f\<rparr>) = server_ok s" "server_ok (s\<lparr>s_brokerClients := b\<rparr>) = server_ok s"
  "server_ok (s\<lparr>s_metaInit := m\<rparr>) = server_ok s" "server_ok (s\<lparr>s_pidManager := pm\<rparr>) = server_ok s"
  "server_ok (s\<lparr>s_snapshotDirs := d\<rparr>) = server_ok s" "server_ok (s\<lparr>s_sent := c\<rparr>) = server_ok s"
  "server_ok (s\<lparr>s_nextChan := n\<rparr>) = server_ok s" "server_ok (s\<lparr>s_groupOuts := o'\<rparr>) = server_ok s"
  "server_ok (s\<lparr>s_brokerEpoch := ep\<rparr>) = server_ok s"
  by (simp_all add: server_ok_def)

lemma server_ok_parts [simp]:
  "server_ok (s\<lparr>s_topicStore := t\<rparr>) \<longleftrightarrow> topics_ok t \<and> pss_ok (s_pss s) \<and> store_inv (s_groupStore s) \<and> registry_ok (s_brokerRegistry s)"
  "server_ok (s\<lparr>s_pss := p\<rparr>) \<longleftrightarrow> topics_ok (s_topicStore s) \<and> pss_ok p \<and> store_inv (s_groupStore s) \<and> registry_ok (s_brokerRegistry s)"
  "server_ok (s\<lparr>s_groupStore := g\<rparr>) \<longleftrightarrow> topics_ok (s_topicStore s) \<and> pss_ok (s_pss s) \<and> store_inv g \<and> registry_ok (s_brokerRegistry s)"
  "server_ok (s\<lparr>s_brokerRegistry := r\<rparr>) \<longleftrightarrow> topics_ok (s_topicStore s) \<and> pss_ok (s_pss s) \<and> store_inv (s_groupStore s) \<and> registry_ok r"
  by (simp_all add: server_ok_def)

lemma server_okD:
  assumes "server_ok s"
  shows "topics_ok (s_topicStore s)" "pss_ok (s_pss s)" "store_inv (s_groupStore s)" "registry_ok (s_brokerRegistry s)"
  using assms by (auto simp: server_ok_def)

lemma server_ok_put_partition:
  "server_ok s \<Longrightarrow> GetPartitionState name i (s_pss s) = Some ps \<Longrightarrow> ps_keeps ps ps' \<Longrightarrow> server_ok (put_partition name i ps' s)"
  by (auto simp: put_partition_def GetPartitionState_def server_okD intro: pss_ok_step)

section \<open>The operations of a broker\<close>

lemma MetadataLog_Append_keeps:
  "MetadataLog_Append fl now nano v m = (r, m', d) \<Longrightarrow> ml_ps m' = Some ps' \<Longrightarrow>
     \<exists>ps. ml_ps m = Some ps \<and> ps_keeps ps ps'"
  using ps_keeps_OnLeaderAppend [of "the (ml_ps m)"]
  by (auto simp: MetadataLog_Append_def Let_def split: option.splits res.splits prod.splits)
     (metis fst_conv option.sel)+

lemma server_ok_metadata_append: "server_ok s \<Longrightarrow> server_ok (snd (metadata_append S e v s))"
proof -
  assume s: "server_ok s"
  obtain r m d where m: "MetadataLog_Append (e_faults e) (e_millis e) (e_now e) v (GetMetadataLog S s) = (r, m, d)"
    by (rule prod_cases3)
  have "pss_ok (AList.update (partition_key metadata_topic 0) ps' (s_pss s))" if "ml_ps m = Some ps'" for ps'
    using MetadataLog_Append_keeps [OF m that] server_okD(2) [OF s]
    by (auto simp: GetMetadataLog_def NewMetadataLog_def GetPartitionState_def intro: pss_ok_step split: if_splits)
  then show ?thesis
    using server_okD [OF s] by (auto simp: metadata_append_def m Let_def server_ok_def split: option.splits)
qed

lemma server_ok_dial: "server_ok s \<Longrightarrow> server_ok (snd (dialBrokerClientLocked e b s))"
  by (simp add: dialBrokerClientLocked_def Let_def)

lemma server_ok_AddFetcher: "server_ok s \<Longrightarrow> server_ok (AddFetcher e t i l s)"
  using server_ok_dial [of s e l] by (auto simp: AddFetcher_def Let_def split: prod.splits res.splits)

lemma server_ok_attach_log: "server_ok s \<Longrightarrow> server_ok (attach_log S e t i p l s)"
  by (auto simp: attach_log_def server_ok_def split: option.splits)

lemma server_ok_recover_producers: "server_ok s \<Longrightarrow> server_ok (recover_producers e t i l s)"
  by (auto simp: recover_producers_def GetPartitionState_def Let_def server_okD intro!: pss_ok_step split: option.splits)

lemma server_ok_createPartitionLog: "server_ok s \<Longrightarrow> server_ok (snd (createPartitionLog S e t i p s))"
  by (auto simp: createPartitionLog_def Let_def server_okD pss_ok_SetLeader split: res.splits
      intro!: server_ok_recover_producers server_ok_attach_log)

lemma server_ok_ApplyMetadataRecord: "server_ok s \<Longrightarrow> server_ok (snd (ApplyMetadataRecord S e v s))"
proof -
  assume s: "server_ok s"
  let ?set = "\<lambda>t i l e rs isr. s\<lparr>s_pss := SetPartitionState t i l e rs isr (s_pss s)\<rparr>"
  have set: "server_ok (?set t i l e' rs isr)" for t i l e' rs isr
    using server_okD [OF s] by (simp add: pss_ok_SetPartitionState)
  have c: "server_ok s'" if "createPartitionLog S e t u i (?set t i l e' rs isr) = (out, s')" for t u i l e' rs isr out s'
    using server_ok_createPartitionLog [OF set, of S e t u i t i l e' rs isr] that by simp
  have p: "server_ok (snd (ApplyMetadataRecord S e v s))" if "Decode v = Ok (Some (Partition_Record r))" for r
    using that s server_ok_AddFetcher [OF set]
    by (auto simp: ApplyMetadataRecord_def Let_def dest!: c split: res.splits prod.splits)
  show ?thesis
  proof (cases "Decode v")
    case (Ok m)
    then show ?thesis
      using s server_okD [OF s] p
      by (cases m) (auto simp: ApplyMetadataRecord_def Let_def registry_ok_RegisterBroker topics_ok_RegisterTopic
          split: meta_record.split)
  qed (use s in \<open>simp_all add: ApplyMetadataRecord_def\<close>)
qed

text \<open>Loops keep what their bodies keep.\<close>

lemma until_error_keeps: "(\<And>x s. P s \<Longrightarrow> P (snd (f x s))) \<Longrightarrow> P s \<Longrightarrow> P (snd (until_error f xs s))"
proof (induction xs arbitrary: s)
  case (Cons x xs)
  obtain r s' where r: "f x s = (r, s')" by (cases "f x s")
  then have "P s'" using Cons.prems(1) [OF Cons.prems(2), of x] by simp
  then show ?case using Cons.IH [OF Cons.prems(1)] by (simp add: r split: res.splits)
qed simp

lemma each_keeps: "(\<And>x s. P s \<Longrightarrow> P (snd (f x s))) \<Longrightarrow> P s \<Longrightarrow> P (snd (each f xs s))"
proof (induction xs arbitrary: s)
  case (Cons x xs)
  obtain r s' where r: "f x s = (r, s')" by (cases "f x s")
  then have "P s'" using Cons.prems(1) [OF Cons.prems(2), of x] by simp
  then show ?case using Cons.IH [OF Cons.prems(1)] by (simp add: r split: res.splits)
qed simp

lemma fold_keeps: "(\<And>x s. P s \<Longrightarrow> P (f x s)) \<Longrightarrow> P s \<Longrightarrow> P (fold f xs s)"
  by (induction xs arbitrary: s) auto

lemma collect_keeps: "(\<And>x s. P s \<Longrightarrow> P (snd (f x s))) \<Longrightarrow> P s \<Longrightarrow> P (snd (collect f xs s))"
proof (induction xs arbitrary: s)
  case (Cons x xs)
  have "P (snd (f x s))" by (rule Cons.prems(1) [OF Cons.prems(2)])
  then show ?case using Cons.IH [OF Cons.prems(1)] by (fastforce split: prod.splits res.splits)
qed simp

lemma collect_opt_keeps:
  "(\<And>x s r s'. P s \<Longrightarrow> f x s = Some (r, s') \<Longrightarrow> P s') \<Longrightarrow> P s \<Longrightarrow> collect_opt f xs s = Some (r, s') \<Longrightarrow> P s'"
proof (induction xs arbitrary: s r)
  case (Cons x xs)
  then obtain y s1 where y: "f x s = Some (y, s1)" by (auto split: option.splits)
  have "P s1" by (rule Cons.prems(1) [OF Cons.prems(2) y])
  then show ?case using Cons.IH [OF Cons.prems(1)] Cons.prems(3) y by (auto split: option.splits res.splits)
qed simp

section \<open>Request handlers\<close>

lemma handle_keeps:
  assumes "\<And>q s. P s \<Longrightarrow> P (snd (body q s))" "P s"
  shows "P (snd (snd (handle dec body enc rh r c s)))"
proof (cases "fst (dec r)")
  case (Ok q)
  obtain out s' where b: "body q s = (out, s')" by (cases "body q s")
  then have "P s'" using assms(1) [OF assms(2), of q] by simp
  then show ?thesis by (simp add: handle_def Ok b split: res.split prod.split)
qed (use assms(2) in \<open>simp_all add: handle_def\<close>)

lemma handle_waiting_keeps:
  assumes "\<And>q s out s'. P s \<Longrightarrow> body q s = Some (out, s') \<Longrightarrow> P s'" "P s"
    and h: "handle_waiting dec body enc rh r c s = Some (out, c', s')"
  shows "P s'"
proof (cases "fst (dec r)")
  case (Ok q)
  then obtain o' t where b: "body q s = Some (o', t)" using h by (auto simp: handle_waiting_def split: option.splits)
  then have "P t" by (rule assms(1) [OF assms(2)])
  then show ?thesis using h by (auto simp: handle_waiting_def Ok b split: res.splits prod.splits)
qed (use assms(2) h in \<open>simp_all add: handle_waiting_def\<close>)

lemma server_ok_broker_registration: "server_ok s \<Longrightarrow> server_ok (snd (broker_registration S e req s))"
proof -
  assume s: "server_ok s"
  obtain host port where hp: "(let (host, port) = plaintext_listener (brq_Listeners req) in
      if host = [] \<and> brq_Listeners req \<noteq> [] then (bl_Host (hd (brq_Listeners req)), bl_Port (hd (brq_Listeners req)))
      else (host, port)) = (host, port)" by (rule prod.exhaust)
  obtain ep reg where reg: "RegisterBroker (e_now e) (brq_BrokerId req) host port (s_brokerRegistry s) = (ep, reg)"
    by (rule prod.exhaust)
  let ?v = "BrokerRecord_Encode \<lparr>br_BrokerId = brq_BrokerId req, br_Host = host, br_Port = port, br_Epoch = ep\<rparr>"
  let ?s = "s\<lparr>s_brokerRegistry := reg\<rparr>"
  have "server_ok ?s"
    using registry_ok_RegisterBroker [OF server_okD(4) [OF s], of "e_now e" "brq_BrokerId req" host port] server_okD [OF s]
    by (simp add: reg)
  then have "server_ok (snd (metadata_append S e ?v ?s))" by (rule server_ok_metadata_append)
  then show ?thesis
    using s hp reg by (auto simp: broker_registration_def Let_def split: res.splits prod.splits if_splits)
qed

lemma server_ok_broker_heartbeat: "server_ok s \<Longrightarrow> server_ok (snd (broker_heartbeat S e req s))"
  using registry_ok_ValidateAndUpdate [of "s_brokerRegistry s" "e_now e" "bhq_BrokerId req" "bhq_BrokerEpoch req" "bhq_CurrentMetadataOffset req"]
  by (auto simp: broker_heartbeat_def Let_def server_okD split: res.splits prod.splits)

lemma leaseNextBlockLocked_keeps:
  assumes "\<And>v l. P l \<Longrightarrow> P (snd (append' v l))" "P l"
  shows "P (snd (snd (leaseNextBlockLocked append' m l)))"
  using assms(1) [OF assms(2)] assms(2)
  by (auto simp: leaseNextBlockLocked_def Let_def split: res.splits prod.splits) (metis snd_conv)+

lemma AllocateOne_keeps:
  assumes "\<And>v l. P l \<Longrightarrow> P (snd (append' v l))" "P l"
  shows "P (snd (snd (AllocateOne append' m l)))"
  using leaseNextBlockLocked_keeps [of P append' l m] assms
  by (auto simp: AllocateOne_def split: res.splits prod.splits)

lemma server_ok_init_producer_id: "server_ok s \<Longrightarrow> server_ok (snd (init_producer_id S e req s))"
  using AllocateOne_keeps [of server_ok "metadata_append S e" s "s_pidManager s"] server_ok_metadata_append
  by (auto simp: init_producer_id_def Let_def split: res.splits prod.splits)

lemma server_ok_create_partition_storage: "server_ok s \<Longrightarrow> server_ok (snd (create_partition_storage S e d n s))"
  by (auto simp: create_partition_storage_def server_ok_attach_log split: res.splits)

lemma server_ok_createTopicStorage: "server_ok s \<Longrightarrow> server_ok (snd (createTopicStorage S e d m s))"
  by (auto simp: createTopicStorage_def Let_def server_okD
      intro!: until_error_keeps [where P = server_ok] server_ok_create_partition_storage)

lemma server_ok_start_follower: "server_ok s \<Longrightarrow> server_ok (start_follower e n i s)"
  by (auto simp: start_follower_def StartFollowerFetch_def server_ok_AddFetcher split: option.splits)

lemma server_ok_publish_partition: "server_ok s \<Longrightarrow> server_ok (snd (publish_partition S e d i s))"
  by (auto simp: publish_partition_def server_ok_metadata_append split: option.splits)

lemma server_ok_create_topic: "server_ok s \<Longrightarrow> server_ok (snd (create_topic S e bs d s))"
proof -
  assume s: "server_ok s"
  let ?rf = "scast (ctr_ReplicationFactor d)"
  show ?thesis
  proof (cases "AssignReplicas (ctr_Name d) (ctr_NumPartitions d) ?rf bs (s_pss s)")
    case (Ok p)
    let ?m = "case parseTopicConfig (ctr_Configs d) of Ok n \<Rightarrow> n | _ \<Rightarrow> 1"
    let ?s = "s\<lparr>s_pss := p, s_topicStore := snd (AddTopic d (s_topicStore s))\<rparr>"
    obtain out1 s1 where 1: "createTopicStorage S e d ?m ?s = (out1, s1)" by (cases "createTopicStorage S e d ?m ?s")
    have "server_ok ?s"
      using server_okD [OF s] pss_ok_AssignReplicas [OF server_okD(2) [OF s] Ok] by (simp add: topics_ok_AddTopic)
    then have s1: "server_ok s1" using server_ok_createTopicStorage [of ?s S e d ?m] 1 by simp
    let ?ps = "partitions_of (ctr_NumPartitions d)"
    let ?r = "TopicRecord_Encode \<lparr>tr_TopicId = ctr_TopicId d, tr_Name = ctr_Name d, tr_NumPartitions = ctr_NumPartitions d,
      tr_MinInsyncReplicas = ?m\<rparr>"
    let ?s2 = "fold (start_follower e (ctr_Name d)) ?ps s1"
    obtain out3 s3 where 3: "metadata_append S e ?r ?s2 = (out3, s3)" by (cases "metadata_append S e ?r ?s2")
    have "server_ok ?s2" by (rule fold_keeps [where P = server_ok, OF server_ok_start_follower s1])
    then have s3: "server_ok s3" using server_ok_metadata_append [of ?s2 S e ?r] 3 by simp
    have "server_ok (snd (each (publish_partition S e d) ?ps s3))"
      by (rule each_keeps [where P = server_ok, OF server_ok_publish_partition s3])
    then show ?thesis using s s1 s3 by (simp add: create_topic_def Let_def Ok 1 3 split: res.split)
  qed (use s in \<open>simp_all add: create_topic_def Let_def\<close>)
qed

lemma server_ok_create_topics: "server_ok s \<Longrightarrow> server_ok (snd (create_topics S e req s))"
proof -
  assume s: "server_ok s"
  have "server_ok (snd (each (create_topic S e bs) ds s))" for bs ds
    by (rule each_keeps [where P = server_ok, OF server_ok_create_topic s])
  then show ?thesis by (auto simp: create_topics_def Let_def split: res.split prod.split) (metis snd_conv)+
qed

text \<open>Producing and fetching work on the states of the partitions the request names.\<close>

lemma server_ok_run_roll_hook [simp]:
  "server_ok (run_roll_hook e n i ps r s) = server_ok s" "s_pss (run_roll_hook e n i ps r s) = s_pss s"
  by (auto simp: run_roll_hook_def Let_def split: option.splits)

lemma await_replicas_keeps [simp]:
  "ps_keeps ps0 (fst (snd (await_replicas e o' pr ps s))) = ps_keeps ps0 ps"
  "server_ok (snd (snd (await_replicas e o' pr ps s))) = server_ok s"
  "s_pss (snd (snd (await_replicas e o' pr ps s))) = s_pss s"
  by (simp_all add: await_replicas_def Let_def complete_waiters_def split_beta)

lemma server_ok_produce_append:
  assumes s: "server_ok s" "GetPartitionState n (pt_index pr) (s_pss s) = Some ps0" "ps_keeps ps0 ps"
  shows "server_ok (snd (produce_append S e acks u n pr recs b ps s))"
proof -
  have put: "server_ok (put_partition n (pt_index pr) ps' s')"
    if "server_ok s'" "s_pss s' = s_pss s" "ps_keeps ps ps'" for ps' s'
    using server_ok_put_partition [OF that(1), of n "pt_index pr" ps0 ps'] ps_keeps_trans [OF s(3) that(3)] that(2) s(2) by simp
  have lead: "ps_keeps ps (fst (OnLeaderAppend o' (ps\<lparr>ps_Idempotence := i\<rparr>)))" "ps_keeps ps (fst (OnLeaderAppend o' ps))" for o' i
    by (rule ps_keeps_trans [OF _ ps_keeps_OnLeaderAppend], simp)+
  show ?thesis
    using s(1) server_okD [OF s(1)] lead
    by (auto simp: produce_append_def Let_def split_beta intro!: put
        split: option.split res.split)
qed

lemma server_ok_produce_batch:
  assumes s: "server_ok s" "GetPartitionState n (pt_index pr) (s_pss s) = Some ps"
  shows "server_ok (snd (produce_batch S e acks u n pr recs b ps s))"
proof -
  let ?put = "\<lambda>st. put_partition n (pt_index pr) (ps\<lparr>ps_Idempotence := Some st\<rparr>) s"
  have put: "server_ok (?put st)" for st by (rule server_ok_put_partition [OF s]) simp
  have get: "GetPartitionState n (pt_index pr) (s_pss (?put st)) = Some (ps\<lparr>ps_Idempotence := Some st\<rparr>)" for st
    by (simp add: put_partition_def GetPartitionState_def update_conv')
  show ?thesis
    using server_ok_produce_append [OF s ps_keeps_refl] server_ok_produce_append [OF put get ps_keeps_refl] put
    by (auto simp: produce_batch_def Let_def split: option.split res.split prod.split)
qed

lemma server_ok_produce_partition: "server_ok s \<Longrightarrow> server_ok (snd (produce_partition S z e acks u n part s))"
  by (auto simp: produce_partition_def Let_def intro!: server_ok_produce_batch split: option.split res.split)

lemma server_ok_produce_topics: "server_ok s \<Longrightarrow> server_ok (snd (produce_topics S z e acks ts s))"
proof (induction ts arbitrary: s)
  case (Cons t ts)
  have "server_ok (snd (collect (produce_partition S z e acks u n) ps s))" for u n ps
    by (rule collect_keeps [where P = server_ok, OF server_ok_produce_partition Cons.prems])
  then have "server_ok s'" if "collect (produce_partition S z e acks u n) ps s = (out, s')" for u n ps out s'
    using that by (metis snd_conv)
  then show ?case using Cons.IH Cons.prems by (fastforce split: res.splits prod.splits)
qed simp

lemma server_ok_HandleProduce: "server_ok s \<Longrightarrow> server_ok (snd (snd (HandleProduceApiKeys S z e h r c s)))"
  using server_ok_produce_topics [of s S z e]
  by (auto simp: HandleProduceApiKeys_def split: res.split prod.split) (metis snd_conv)+

lemma server_ok_fetch_partition:
  assumes s: "server_ok s" and f: "fetch_partition S e rep u part s = Some (out, s')"
  shows "server_ok s'"
proof -
  have "server_ok (put_partition n i (fst (case rep of Some rid \<Rightarrow> UpdateReplicaLEO now rid o' ps | None \<Rightarrow> (ps, []))) s)"
    if "GetPartitionState n i (s_pss s) = Some ps" for n i ps now o'
    using ps_keeps_UpdateReplicaLEO by (auto intro!: server_ok_put_partition [OF s that] split: option.split)
  then have "server_ok (put_partition n i ps' s)"
    if "GetPartitionState n i (s_pss s) = Some ps"
      "(case rep of Some rid \<Rightarrow> UpdateReplicaLEO now rid o' ps | None \<Rightarrow> (ps, [])) = (ps', d)" for n i ps now o' ps' d
    using that by (metis fst_conv)
  then show ?thesis
    using s f by (auto simp: fetch_partition_def Let_def split: res.splits option.splits prod.splits if_splits)
qed

lemma server_ok_HandleFetch:
  assumes s: "server_ok s" and f: "HandleFetchApiKeys S e tcp h r c s = Some (out, c', s')"
  shows "server_ok s'"
proof -
  have t: "server_ok t'" if "server_ok t" "fetch_topic S e rep ft t = Some (out, t')" for rep ft t out t'
    using that collect_opt_keeps [where P = server_ok, OF server_ok_fetch_partition that(1)]
    by (auto simp: fetch_topic_def split: option.splits res.splits)
  have "server_ok t'" if "fetch_topics S e q s = Some (out, t')" for q out t'
    using collect_opt_keeps [where P = server_ok, OF t s] that by (auto simp: fetch_topics_def)
  then show ?thesis
    using s f by (auto simp: HandleFetchApiKeys_def Let_def split: res.splits option.splits prod.splits)
qed

text \<open>The group handlers.\<close>

lemma leave_members_inv: "store_inv (fst st) \<Longrightarrow> store_inv (fst (snd (leave_members g ms st)))"
proof (induction ms arbitrary: st)
  case (Cons m ms)
  obtain r outs gs' where l: "LeaveGroup g (lgm_MemberID m) (fst st) = Ok (r, outs, gs')" "store_inv gs'"
    using LeaveGroup_inv [OF Cons.prems] by blast
  then show ?case using Cons.IH [of "(gs', snd st @ outs)"] by (auto split: res.splits prod.splits)
qed simp

lemma server_ok_leave_group: "server_ok s \<Longrightarrow> server_ok (snd (leave_group req s))"
  using leave_members_inv [of "(s_groupStore s, s_groupOuts s)" "lgq_GroupID req" "lgq_Members req"]
  by (auto simp: leave_group_def server_ok_def split: prod.splits)

lemma server_ok_join_group: "server_ok s \<Longrightarrow> join_group S e jin req s = Some (out, s') \<Longrightarrow> server_ok s'"
proof -
  assume s: "server_ok s" and j: "join_group S e jin req s = Some (out, s')"
  have "store_inv gs'" if "JoinGroup g m i pn md st rt ch (s_groupStore s) = Ok (r, outs, gs')" for g m i pn md st rt ch r outs gs'
    using JoinGroup_inv [OF server_okD(3) [OF s], of g m i pn md st rt ch] that by auto
  then show ?thesis
    using s j server_okD [OF s] by (auto simp: join_group_def Let_def split: if_splits list.splits res.splits)
qed

lemma server_ok_sync_group: "server_ok s \<Longrightarrow> sync_group sin req s = Some (out, s') \<Longrightarrow> server_ok s'"
  by (auto simp: sync_group_def Let_def server_okD dest: SyncGroup_inv [OF server_okD(3)] split: prod.splits res.splits)

lemma server_ok_on_topics: "topics_ok (snd (snd (f (s_topicStore s)))) \<Longrightarrow> server_ok s \<Longrightarrow> server_ok (snd (snd (on_topics f s)))"
  by (auto simp: on_topics_def server_ok_def split: prod.splits)

lemma server_ok_on_groups: "store_inv (snd (snd (f (s_groupStore s)))) \<Longrightarrow> server_ok s \<Longrightarrow> server_ok (snd (snd (on_groups f s)))"
  by (auto simp: on_groups_def server_ok_def split: prod.splits)

lemma server_ok_handlers:
  assumes s: "server_ok s"
  shows "server_ok (snd (snd (HandleBrokerRegistrationApi S e h r c s)))"
    "server_ok (snd (snd (HandleBrokerHeartbeatApi S e h r c s)))"
    "server_ok (snd (snd (HandleInitProducerIdApi S e h r c s)))"
    "server_ok (snd (snd (HandleCreateTopics S e h r c s)))"
    "server_ok (snd (snd (HandleLeaveGroupApi h r c s)))"
    "server_ok (snd (snd (HandleMetaData h r c s)))"
    "server_ok (snd (snd (HandleFindCoordinatorApi h r c s)))"
proof -
  have keep: "server_ok (snd (meta_data q t))" "server_ok (snd (find_coordinator q' t))" if "server_ok t" for q q' t
    using that by (simp_all add: meta_data_def find_coordinator_def Let_def split_beta split: list.split)
  note k = handle_keeps [where P = server_ok, OF _ s]
  show "server_ok (snd (snd (HandleBrokerRegistrationApi S e h r c s)))"
    "server_ok (snd (snd (HandleBrokerHeartbeatApi S e h r c s)))"
    "server_ok (snd (snd (HandleInitProducerIdApi S e h r c s)))"
    "server_ok (snd (snd (HandleCreateTopics S e h r c s)))"
    unfolding HandleBrokerRegistrationApi_def HandleBrokerHeartbeatApi_def HandleInitProducerIdApi_def HandleCreateTopics_def
    by (rule k, rule server_ok_broker_registration server_ok_broker_heartbeat server_ok_init_producer_id
        server_ok_create_topics, assumption)+
  show "server_ok (snd (snd (HandleLeaveGroupApi h r c s)))"
    "server_ok (snd (snd (HandleMetaData h r c s)))"
    "server_ok (snd (snd (HandleFindCoordinatorApi h r c s)))"
    unfolding HandleLeaveGroupApi_def HandleMetaData_def HandleFindCoordinatorApi_def
    by (rule k, rule server_ok_leave_group keep, assumption)+
qed

lemma server_ok_store_handlers:
  assumes s: "server_ok s"
  shows "server_ok (snd (snd (on_topics (HandleListOffsetsApi S h r c) s)))"
    "server_ok (snd (snd (on_groups (HandleOffsetCommitApi now h r c) s)))"
    "server_ok (snd (snd (on_groups (HandleOffsetFetchApi h r c) s)))"
    "server_ok (snd (snd (on_groups (HandleHeartbeatApi h r c) s)))"
proof -
  show "server_ok (snd (snd (on_topics (HandleListOffsetsApi S h r c) s)))"
    unfolding HandleListOffsetsApi_def
    by (rule server_ok_on_topics [OF _ s], rule handle_keeps [where P = topics_ok])
       (simp_all add: list_offsets_def server_okD s)
  show "server_ok (snd (snd (on_groups (HandleOffsetCommitApi now h r c) s)))"
    "server_ok (snd (snd (on_groups (HandleOffsetFetchApi h r c) s)))"
    unfolding HandleOffsetCommitApi_def HandleOffsetFetchApi_def
    by (rule server_ok_on_groups [OF _ s], rule handle_keeps [where P = store_inv],
        simp_all add: offset_commit_def offset_fetch_def commit_inv server_okD s)+
  show "server_ok (snd (snd (on_groups (HandleHeartbeatApi h r c) s)))"
    unfolding HandleHeartbeatApi_def
    by (rule server_ok_on_groups [OF _ s], rule handle_keeps [where P = store_inv])
       (auto simp: heartbeat_api_def server_okD s intro: Heartbeat_inv split: prod.splits)
qed

lemma server_ok_HandleRequest:
  assumes s: "server_ok s" and h: "HandleRequest S z q key h r c s = Some (out, c', s')"
  shows "server_ok s'"
proof -
  have j: "server_ok s'" if "HandleJoinGroupApi S e jin h r c s = Some (out, c', s')" for e jin
    using that unfolding HandleJoinGroupApi_def
    by (rule handle_waiting_keeps [where P = server_ok, rotated 2]) (erule server_ok_join_group, assumption, rule s)
  have y: "server_ok s'" if "HandleSyncGroupApi sin h r c s = Some (out, c', s')" for sin
    using that unfolding HandleSyncGroupApi_def
    by (rule handle_waiting_keeps [where P = server_ok, rotated 2]) (erule server_ok_sync_group, assumption, rule s)
  have f: "server_ok s'" if "HandleFetchApiKeys S e tcp h r c s = Some (out, c', s')" for e tcp
    by (rule server_ok_HandleFetch [OF s that])
  have eq: "server_ok s'" if "server_ok (snd (snd p))" "p = (out, c', s')" for p
    using that by simp
  have "server_ok s'" if "Some p = Some (out, c', s')" "server_ok (snd (snd p))" for p using that by simp
  then show ?thesis
    using h s j y f server_ok_HandleProduce [OF s] server_ok_handlers [OF s] server_ok_store_handlers [OF s]
    unfolding HandleRequest_def Let_def
    by (auto simp del: option.inject split: if_splits prod.splits)
qed

lemma server_ok_conn_handle:
  "server_ok s \<Longrightarrow> conn_handle S z qs k inp c s = Some (out, c', s') \<Longrightarrow> server_ok s'"
proof (induction S z qs k inp c s rule: conn_handle.induct)
  case (1 S z qs k inp c s)
  note s = "1.prems"(1) and h = "1.prems"(2) [unfolded conn_handle.simps [of S z qs k inp c s]]
  show ?case
  proof (cases "\<exists>f rest hdr r. ReadFraming inp = (Ok (Some f), rest) \<and> RequestHeader_Decode (NewReader f) = (Ok hdr, r)")
    case True
    then obtain f rest hdr r where rd: "ReadFraming inp = (Ok (Some f), rest)" "RequestHeader_Decode (NewReader f) = (Ok hdr, r)"
      by blast
    then obtain o' c1 s1 where q: "HandleRequest S z (qs k) (rqh_ApiKey hdr) hdr r c s = Some (o', c1, s1)"
      using h by (auto split: option.splits)
    note s1 = server_ok_HandleRequest [OF s q]
    show ?thesis using h s1 "1.IH"
      by (auto simp: rd q split: res.splits)
  qed (use s h in \<open>auto split: prod.splits res.splits option.splits\<close>)
qed

section \<open>Background work and start-up\<close>

lemma isr_keeps: "ps_keeps ps (fst (isr_shrink now snap (ps, b)))" "ps_keeps ps (fst (isr_expand snap (ps, b)))"
proof -
  have "ps_keeps ps (fst p) \<Longrightarrow> ps_keeps ps (fst (isr_shrink now snap p))"
    "ps_keeps ps (fst p) \<Longrightarrow> ps_keeps ps (fst (isr_expand snap p))" for p
    unfolding isr_shrink_def isr_expand_def
    by (rule fold_keeps [where P = "\<lambda>p. ps_keeps ps (fst p)"];
        auto simp: RemoveFromISR_def AddToISR_def split: option.splits)+
  from this [of "(ps, b)"]
  show "ps_keeps ps (fst (isr_shrink now snap (ps, b)))" "ps_keeps ps (fst (isr_expand snap (ps, b)))" by simp_all
qed

lemma server_ok_publish: "server_ok s \<Longrightarrow> server_ok (snd (publishPartitionRecord S e ps s))"
  by (auto simp: publishPartitionRecord_def Let_def server_ok_metadata_append split: res.splits)

lemma server_ok_tick_partition: "server_ok s \<Longrightarrow> server_ok (snd (tick_partition S e key s))"
proof (cases "map_of (s_pss s) key")
  case (Some ps)
  assume s: "server_ok s"
  let ?snap = "PartitionState_Snapshot ps"
  obtain ps1 ch1 where 1: "isr_shrink (e_now e) ?snap (ps, False) = (ps1, ch1)" by (rule prod.exhaust)
  obtain ps2 ch2 where 2: "isr_expand ?snap (ps1, ch1) = (ps2, ch2)" by (rule prod.exhaust)
  have "ps_keeps ps ps2"
    using ps_keeps_trans [of ps ps1 ps2] isr_keeps(1) [of ps "e_now e" ?snap False] isr_keeps(2) [of ps1 ?snap ch1] 1 2 by simp
  then have s2: "server_ok (s\<lparr>s_pss := AList.update key ps2 (s_pss s)\<rparr>)"
    using server_okD [OF s] pss_ok_step [OF server_okD(2) [OF s] Some] by simp
  obtain out s3 where 3: "publishPartitionRecord S e ps2 (s\<lparr>s_pss := AList.update key ps2 (s_pss s)\<rparr>) = (out, s3)"
    by (rule prod.exhaust)
  then have s3: "server_ok s3" using server_ok_publish [OF s2, of S e ps2] by simp
  have "ps_keeps p (fst (checkMinISR (fst (AdvanceHWM p)) s3))" for p
    using ps_keeps_AdvanceHWM [of p] by (auto simp: checkMinISR_def FailAll_def split: res.splits)
  then have "pss_ok (AList.update key (fst (checkMinISR (fst (AdvanceHWM p)) s3)) (s_pss s3))" if "map_of (s_pss s3) key = Some p" for p
    using pss_ok_step [OF server_okD(2) [OF s3] that] by blast
  then show ?thesis
    using s2 s3 server_okD [OF s3] by (auto simp: tick_partition_def Let_def Some 1 2 3 split_beta split: res.splits option.splits)
qed (simp add: tick_partition_def)

lemma server_ok_metadata_apply: "server_ok (snd m) \<Longrightarrow> server_ok (snd (snd (metadata_apply S e part m)))"
proof -
  assume s: "server_ok (snd m)"
  have "server_ok (snd (each (ApplyMetadataRecord S e) vs (snd m)))" for vs
    by (rule each_keeps [where P = server_ok, OF server_ok_ApplyMetadataRecord s])
  then show ?thesis using s
    by (auto simp: metadata_apply_def Let_def split_beta split: option.splits res.splits prod.splits)
qed

lemma server_ok_metadata_round:
  assumes s: "server_ok s" and r: "metadata_round S e peer bc mf s = (out, bc', mf', s')"
  shows "server_ok s'"
proof -
  have "server_ok (snd (snd (each (metadata_apply S e) ps (mf, s))))" for ps
    by (rule each_keeps [where P = "\<lambda>m. server_ok (snd m)", OF server_ok_metadata_apply]) (use s in simp_all)
  then have "server_ok t" if "each (metadata_apply S e) ps (mf, s) = (o', m, t)" for ps o' m t
    using that by (metis snd_conv)
  then show ?thesis using s r by (auto simp: metadata_round_def split: prod.splits res.splits)
qed

lemma server_ok_recoverTopic: "server_ok s \<Longrightarrow> server_ok (snd (recoverTopic S F e entries s))"
proof -
  assume s: "server_ok s"
  have part: "server_ok (snd (recover_partition S F e m p t))" if "server_ok t" for e m p t
    using that by (auto simp: recover_partition_def Let_def split_beta server_okD pss_ok_SetLeader
        intro!: server_ok_recover_producers server_ok_attach_log split: res.splits option.splits)
  have parts: "server_ok (snd (until_error (recover_partition S F e m) ps t))" if "server_ok t" for e m ps t
    by (rule until_error_keeps [where P = server_ok, OF part that])
  have dir: "server_ok (snd (recover_topic_dir S F e d t))" if "server_ok t" for e d t
    using that parts server_okD [OF that] topics_ok_AddTopicMetadata [OF server_okD(1) [OF that]]
    by (auto simp: recover_topic_dir_def Let_def split_beta split: option.splits res.splits) 
  show ?thesis
    using s until_error_keeps [where P = server_ok and f = "recover_topic_dir S F e", OF dir s]
    by (auto simp: recoverTopic_def split: res.splits)
qed

lemma server_ok_Start:
  "server_ok s \<Longrightarrow> server_Start S F e entries s = Some (out, s') \<Longrightarrow> server_ok s'"
proof -
  assume s: "server_ok s" and st: "server_Start S F e entries s = Some (out, s')"
  have init: "server_ok (snd (initMetadataLog S e t))" if "server_ok t" for t
    using server_okD [OF that] that
    by (auto simp: initMetadataLog_def Let_def topics_ok_RegisterTopic pss_ok_SetPartitionState server_ok_def split: res.splits)
  show ?thesis
    using st server_ok_recoverTopic [OF s, of S F e entries] init
    by (fastforce simp: server_Start_def split: prod.splits res.splits option.splits)
qed

lemma server_ok_NewServer: "server_ok (NewServer e b host port)"
  by (simp add: NewServer_def server_ok_def topics_ok_new pss_ok_def NewPartitionStateStore_def store_inv_def NewGroupStore_def
      RegisterBroker_def NewBrokerRegistry_def registry_ok_def Let_def)

section \<open>A running broker\<close>

text \<open>
  What changes a broker once it has started, one request, tick, round or timer callback at a
  time: a request of any connection with any bytes, the ISR manager, the rounds of the metadata
  and replica fetchers with any answers of the peers, and the timers of the group coordinator.
\<close>

inductive server_step :: "(bytes \<Rightarrow> gostring) \<Rightarrow> (bytes \<Rightarrow> bytes option) \<Rightarrow> Server \<Rightarrow> Server \<Rightarrow> bool" for S z where
  st_request: "HandleRequest S z q key h r c s = Some (out, c', s') \<Longrightarrow> server_step S z s s'"
| st_tick: "server_step S z s (snd (isr_tick S e s))"
| st_metadata: "metadata_round S e peer bc mf s = (out, bc', mf', s') \<Longrightarrow> server_step S z s s'"
| st_replica: "map_of (s_fetchers s) key = Some rf \<Longrightarrow> replica_round e peer bc rf = (out, bc', rf') \<Longrightarrow>
    server_step S z s (s\<lparr>s_fetchers := AList.update key rf' (s_fetchers s)\<rparr>)"
| st_timer: "gstep (s_groupStore s) gs \<Longrightarrow> server_step S z s (s\<lparr>s_groupStore := gs\<rparr>)"

lemma server_ok_step: "server_step S z s s' \<Longrightarrow> server_ok s \<Longrightarrow> server_ok s'"
proof (induction rule: server_step.induct)
  case (st_tick s e)
  show ?case
    using each_keeps [where P = server_ok and f = "tick_partition S e", OF server_ok_tick_partition st_tick]
    by (simp add: isr_tick_def)
next
  case (st_timer s gs)
  then show ?case using server_okD [of s] gstep_inv [of "s_groupStore s" gs] by simp
qed (auto intro: server_ok_HandleRequest server_ok_metadata_round)

lemma start_empty:
  "\<exists>s. server_Start S F sample_env (Ok []) (NewServer sample_env b host port) = Some (Ok (), s) \<and>
     s_groupStore s = NewGroupStore"
proof -
  obtain cl where cl: "NewCommitLog no_cl_faults defaultCommitLogConfig [] = Ok cl" "log_rep cl []"
    using new_metadata_log [of 104857600] by (auto simp: defaultCommitLogConfig_def)
  have "FindRecords False 0 n cl = Some (Ok None)" for n
    using cl(2) log_rep_offsets [OF cl(2)] by (simp add: FindRecords_def log_rep_def)
  then show ?thesis
    using cl by (simp add: server_Start_def recoverTopic_def initMetadataLog_def NewServer_def sample_env_def
        recoverPidManager_def Replay_def GetMetadataLog_def GetCommitLog_def AddCommitLog_def no_cl_faults_def
        RegisterTopic_def Let_def NewTopicStore_def split: option.split)
qed

text \<open>
  C12. A broker that has started stays well formed whatever clients and peers send it. Every topic
  is stored under its own identifier and every name leads to a topic of that name; every partition
  is stored under its own name and number with 0 <= HWM <= LEO; the groups satisfy the
  coordinator's invariant; every registered broker is stored once, under its own id.
\<close>

theorem server_well_formed:
  assumes "server_Start S F e entries (NewServer e b host port) = Some (Ok (), s0)" "(server_step S z)\<^sup>*\<^sup>* s0 s"
  shows "topics_ok (s_topicStore s) \<and> store_inv (s_groupStore s) \<and> registry_ok (s_brokerRegistry s) \<and>
    (\<forall>(k, ps)\<in>set (s_pss s). k = partition_key (ps_TopicName ps) (ps_PartitionIndex ps) \<and>
       0 \<le> ps_HWM ps \<and> ps_HWM ps \<le> ps_LEO ps)"
proof -
  have "server_ok s"
    using assms(2)
  proof (induction rule: rtranclp_induct)
    case base
    show ?case by (rule server_ok_Start [OF server_ok_NewServer assms(1)])
  qed (rule server_ok_step)
  then show ?thesis by (auto simp: server_ok_def pss_ok_def ps_inv_def)
qed

theorem server_well_formed_witness:
  "\<exists>s0 s. server_Start (\<lambda>_. []) (\<lambda>_. None) sample_env (Ok []) (NewServer sample_env 1 [] 9092) = Some (Ok (), s0) \<and>
     (server_step (\<lambda>_. []) (\<lambda>_. None))\<^sup>*\<^sup>* s0 s \<and> s_groupStore s = CommitOffsets 5 (str ''g'') [] NewGroupStore \<and>
     topics_ok (s_topicStore s) \<and> registry_ok (s_brokerRegistry s)"
proof -
  obtain s0 where s0: "server_Start (\<lambda>_. []) (\<lambda>_. None) sample_env (Ok []) (NewServer sample_env 1 [] 9092) = Some (Ok (), s0)"
    "s_groupStore s0 = NewGroupStore" using start_empty by blast
  let ?s = "s0\<lparr>s_groupStore := CommitOffsets 5 (str ''g'') [] NewGroupStore\<rparr>"
  have "server_step (\<lambda>_. []) (\<lambda>_. None) s0 ?s"
    using st_timer [of s0 "CommitOffsets 5 (str ''g'') [] NewGroupStore"] g_commit [of NewGroupStore] by (simp add: s0(2))
  then have r: "(server_step (\<lambda>_. []) (\<lambda>_. None))\<^sup>*\<^sup>* s0 ?s" by blast
  show ?thesis using s0(1) r server_well_formed [OF s0(1) r] by (intro exI [of _ s0] exI [of _ ?s]) simp
qed

end
