(* ===== verification/Kaf_Registrar.thy ===== *)
theory Kaf_Registrar
  imports Kaf_Invariant
begin

text \<open>
  How a broker joins the cluster (\<^verbatim>\<open>server/broker_register.go\<close>): it dials the controller,
  registers, keeps the epoch it is given and sends heartbeats with it. \<open>peer\<close> is the other end of
  the connection: what it answers to the bytes of one request.
\<close>

section \<open>The registrar\<close>

text \<open>The address the server listens on and the host it advertises come from the command line.\<close>

record BrokerRegistrar =
  br_addr :: gostring
  br_advertisedHost :: gostring
  br_controllerAddr :: gostring
  br_connected :: bool
  br_correlationId :: i32

definition NewBrokerRegistrar :: "gostring \<Rightarrow> gostring \<Rightarrow> gostring \<Rightarrow> BrokerRegistrar" where
  "NewBrokerRegistrar addr advertisedHost controllerAddr =
     \<lparr>br_addr = addr, br_advertisedHost = advertisedHost, br_controllerAddr = controllerAddr, br_connected = False,
      br_correlationId = 0\<rparr>"

definition AdvertisedHost :: "BrokerRegistrar \<Rightarrow> gostring" where
  "AdvertisedHost br = (if br_advertisedHost br \<noteq> [] then br_advertisedHost br else str ''localhost'')"

text \<open>\<^verbatim>\<open>strings.SplitN(addr, ":", 2)\<close>: what is before the first colon, and what is after it.\<close>

definition SplitN_colon :: "gostring \<Rightarrow> gostring \<times> gostring option" where
  "SplitN_colon addr =
     (takeWhile (\<lambda>c. c \<noteq> 58) addr,
      case dropWhile (\<lambda>c. c \<noteq> 58) addr of [] \<Rightarrow> None | _ # rest \<Rightarrow> Some rest)"

definition ownHostPort :: "BrokerRegistrar \<Rightarrow> gostring \<times> i32" where
  "ownHostPort br =
     (case SplitN_colon (br_addr br) of
        (host, rest) \<Rightarrow>
          (if host = [] \<or> host = str ''0.0.0.0'' then AdvertisedHost br else host,
           case rest of
             None \<Rightarrow> 9092
           | Some portStr \<Rightarrow> (case ParseInt portStr of Ok p \<Rightarrow> word_of_int p | _ \<Rightarrow> 9092)))"

definition registrar_header :: "i16 \<Rightarrow> i32 \<Rightarrow> RequestHeader" where
  "registrar_header apiKey cid =
     \<lparr>rqh_ApiKey = apiKey, rqh_ApiVersion = 0, rqh_CorrelationId = cid, rqh_ClientId = Some (str ''broker-registrar'')\<rparr>"

definition sendRequest ::
  "(bytes \<Rightarrow> bytes) \<Rightarrow> i16 \<Rightarrow> (writer \<Rightarrow> writer) \<Rightarrow> 'p rd \<Rightarrow> BrokerRegistrar \<Rightarrow> 'p res \<times> BrokerRegistrar" where
  "sendRequest peer apiKey req_Encode respBody_Decode br =
     (let cid = br_correlationId br + 1;
          payload = req_Encode (RequestHeader_Encode (registrar_header apiKey cid) (NewWriter 256))
      in (case fst (ReadFraming (peer (be_enc 4 (of_nat (length payload) :: u32) @ payload))) of
            Ok framing \<Rightarrow>
              fst (rbind (ResponseHeader_Decode \<lparr>rsh_CorrelationId = 0, rsh_ApiVersion = 0, rsh_ApiKey = 0\<rparr>)
                     (\<lambda>_. respBody_Decode) (NewReader (case framing of Some b \<Rightarrow> b | None \<Rightarrow> [])))
          | Err e \<Rightarrow> Err e
          | Panic \<Rightarrow> Panic,
          br\<lparr>br_correlationId := cid\<rparr>))"

text \<open>Nothing sets the cluster id of a server, so it is the empty string.\<close>

definition registration_request :: "bytes \<Rightarrow> BrokerRegistrar \<Rightarrow> Server \<Rightarrow> BrokerRegistrationRequest" where
  "registration_request incarnationId br s =
     (case ownHostPort br of
        (host, port) \<Rightarrow>
          \<lparr>brq_BrokerId = s_brokerID s, brq_ClusterId = [], brq_IncarnationId = incarnationId,
           brq_Listeners = [\<lparr>bl_Name = str ''PLAINTEXT'', bl_Host = host, bl_Port = port, bl_SecurityProtocol = 0\<rparr>],
           brq_Features = [], brq_Rack = None\<rparr>)"

definition register :: "(bytes \<Rightarrow> bytes) option \<Rightarrow> bytes \<Rightarrow> BrokerRegistrar \<Rightarrow> Server \<Rightarrow> unit res \<times> BrokerRegistrar \<times> Server" where
  "register dial incarnationId br s =
     (case dial of
        None \<Rightarrow> (Err OSErr, br, s)
      | Some peer \<Rightarrow>
          (case sendRequest peer 62 (BrokerRegistrationRequest_Encode (registration_request incarnationId br s))
                  BrokerRegistrationResponse_Decode (br\<lparr>br_connected := True\<rparr>) of
             (Ok regResp, br) \<Rightarrow>
               if brs_ErrorCode regResp \<noteq> 0 then (Err (KafErr (brs_ErrorCode regResp)), br, s)
               else (Ok (), br, s\<lparr>s_brokerEpoch := brs_BrokerEpoch regResp\<rparr>)
           | (Err e, br) \<Rightarrow> (Err e, br, s)
           | (Panic, br) \<Rightarrow> (Panic, br, s)))"

text \<open>
  Registration is tried until it succeeds or the registrar is stopped. The list has what each
  dial meets and ends where the registrar is stopped; the result has the waits in seconds and
  whether the heartbeats are started.
\<close>

fun RegisterWithRetry ::
  "((bytes \<Rightarrow> bytes) option \<times> bytes) list \<Rightarrow> nat \<Rightarrow> BrokerRegistrar \<Rightarrow> Server \<Rightarrow> (nat list \<times> bool) res \<times> BrokerRegistrar \<times> Server" where
  "RegisterWithRetry [] backoff br s = (Ok ([], False), br, s)"
| "RegisterWithRetry ((dial, incarnationId) # attempts) backoff br s =
     (case register dial incarnationId br s of
        (Ok _, br, s) \<Rightarrow> (Ok ([], True), br, s)
      | (Panic, br, s) \<Rightarrow> (Panic, br, s)
      | (Err _, br, s) \<Rightarrow>
          (case RegisterWithRetry attempts (if backoff < 30 then backoff * 2 else backoff) br s of
             (Ok (waits, started), br, s) \<Rightarrow> (Ok (backoff # waits, started), br, s)
           | (Err e, br, s) \<Rightarrow> (Err e, br, s)
           | (Panic, br, s) \<Rightarrow> (Panic, br, s)))"

text \<open>A heartbeat; the flag tells whether the controller asked for a shutdown.\<close>

definition heartbeat_request :: "MetadataFetcher option \<Rightarrow> Server \<Rightarrow> BrokerHeartbeatRequest" where
  "heartbeat_request metadataFetcher s =
     \<lparr>bhq_BrokerId = s_brokerID s, bhq_BrokerEpoch = s_brokerEpoch s,
      bhq_CurrentMetadataOffset = (case metadataFetcher of Some mf \<Rightarrow> word_of_int (mf_currentOffset mf) | None \<Rightarrow> 0),
      bhq_WantFence = False, bhq_WantShutDown = False\<rparr>"

definition sendHeartbeat :: "(bytes \<Rightarrow> bytes) \<Rightarrow> MetadataFetcher option \<Rightarrow> Server \<Rightarrow> BrokerRegistrar \<Rightarrow> bool res \<times> BrokerRegistrar" where
  "sendHeartbeat peer metadataFetcher s br =
     (case sendRequest peer 63 (BrokerHeartbeatRequest_Encode (heartbeat_request metadataFetcher s)) BrokerHeartbeatResponse_Decode br of
        (Ok hbResp, br) \<Rightarrow>
          (if bhs_ErrorCode hbResp \<noteq> 0 then (Err (KafErr (bhs_ErrorCode hbResp)), br) else (Ok (bhs_ShouldShutDown hbResp), br))
      | (Err e, br) \<Rightarrow> (Err e, br)
      | (Panic, br) \<Rightarrow> (Panic, br))"

section \<open>Registration at a controller\<close>

text \<open>The controller at the other end: its connection loop on the bytes it is sent, and the state it is left in.\<close>

definition controller_peer ::
  "(bytes \<Rightarrow> gostring) \<Rightarrow> (bytes \<Rightarrow> bytes option) \<Rightarrow> request_env \<Rightarrow> Server \<Rightarrow> bytes \<Rightarrow> bytes" where
  "controller_peer S z q sc inp =
     (case conn_handle S z (\<lambda>_. q) 0 inp \<lparr>sent = [], budget = None\<rparr> sc of Some (_, c, _) \<Rightarrow> sent c | None \<Rightarrow> [])"

lemma registrar_header_valid [simp]: "request_header_valid (registrar_header k cid)"
  by (simp add: registrar_header_def request_header_valid_def str_def)

lemma plain_registrar [simp]:
  "(plain_header h)\<lparr>rsh_CorrelationId := 0\<rparr> = \<lparr>rsh_CorrelationId = 0, rsh_ApiVersion = 0, rsh_ApiKey = 0\<rparr>"
  by (simp add: plain_header_def)

lemma rbind_drop_header:
  "fst (rbind m (\<lambda>h. rbind n (\<lambda>p. rret (h, p))) r) = Ok (h, p) \<Longrightarrow> fst (rbind m (\<lambda>_. n) r) = Ok p"
  by (auto simp: rbind_def rret_def split: prod.splits res.splits)

text \<open>One exchange between the registrar and a handler that answers with a plain header.\<close>

context rpc
begin

lemma exchanged:
  assumes h: "h = registrar_header k (br_correlationId br + 1)"
    and req: "valid_q q" "length (RequestHeader_Encode h [] @ wr_q q []) \<le> MaxPayloadSize"
    and served: "\<And>r c. HandleRequest S z env k h r c sc = Some (handle rd_q body wr_p (plain_header h) r c sc)" "body q sc = (Ok p, sc')"
    and resp: "valid_p p" "length (reply wr_p (plain_header h) p) \<le> MaxPayloadSize"
  shows "sendRequest (controller_peer S z env sc) k (wr_q q) rd_p br = (Ok p, br\<lparr>br_correlationId := br_correlationId br + 1\<rparr>)"
proof -
  let ?p = "RequestHeader_Encode h [] @ wr_q q []" and ?r = "reply wr_p (plain_header h) p"
  have hv: "request_header_valid h" "rqh_ApiKey h = k" by (simp_all add: h) (simp add: registrar_header_def)
  have "HandleRequest S z env k h \<lparr>buff = ?p, pos = int (length (RequestHeader_Encode h []))\<rparr> \<lparr>sent = [], budget = None\<rparr> sc =
      Some (Ok (), \<lparr>sent = be_enc 4 (of_nat (length ?r) :: u32) @ ?r, budget = None\<rparr>, sc')"
    using answered [OF req(1), of "RequestHeader_Encode h []" "[]" body sc p sc' "\<lparr>sent = [], budget = None\<rparr>" "plain_header h"]
      served req(2)
    by (simp add: MaxPayloadSize_def)
  then have peer: "controller_peer S z env sc (be_enc 4 (of_nat (length ?p) :: u32) @ ?p) = be_enc 4 (of_nat (length ?r) :: u32) @ ?r @ []"
    using conn_handle_frame [OF hv(1) refl req(2), of S z "\<lambda>_. env" 0 "[]" "\<lparr>sent = [], budget = None\<rparr>" sc] hv(2)
    by (simp add: controller_peer_def conn_handle_end)
  have "wr_q q (RequestHeader_Encode h (NewWriter 256)) = ?p" unfolding NewWriter_def by (rule req.wr_append)
  then have "fst (sendRequest (controller_peer S z env sc) k (wr_q q) rd_p br) = Ok p"
    using peer received(1) [OF resp, of "[]"] rbind_drop_header [OF received(2) [OF resp, of 0]]
    by (simp add: sendRequest_def Let_def h)
  then show ?thesis by (simp add: sendRequest_def Let_def prod_eq_iff)
qed

end

lemma metadata_append_registry [simp]:
  "s_brokerRegistry (snd (metadata_append S e v s)) = s_brokerRegistry s" "s_brokerID (snd (metadata_append S e v s)) = s_brokerID s"
  by (auto simp: metadata_append_def Let_def split: prod.splits option.splits)

lemma plain_replies:
  "length (reply BrokerRegistrationResponse_Encode (plain_header h) p) \<le> MaxPayloadSize"
  "length (reply BrokerHeartbeatResponse_Encode (plain_header h) p') \<le> MaxPayloadSize"
  by (auto simp: reply_def plain_header_def ResponseHeader_Encode_def BrokerRegistrationResponse_Encode_def
      BrokerHeartbeatResponse_Encode_def MaxPayloadSize_def WriteInt64_def WriteInt32_def WriteInt16_def WriteBool_def WriteInt8_def
      WriteEmptyTaggedFields_def Let_def)

lemma heartbeat_frame:
  "length (RequestHeader_Encode (registrar_header k cid) [] @ BrokerHeartbeatRequest_Encode m []) \<le> MaxPayloadSize"
  by (auto simp: registrar_header_def RequestHeader_Encode_def BrokerHeartbeatRequest_Encode_def MaxPayloadSize_def WriteInt64_def
      WriteInt32_def WriteInt16_def WriteBool_def WriteInt8_def WriteNullableString_def WriteString_def WriteEmptyTaggedFields_def str_def Let_def)

text \<open>A broker with a higher id than the controller's does not take its place.\<close>

definition lower :: "i32 \<Rightarrow> i32 \<Rightarrow> i32" where
  "lower ident low = (if sint ident < sint low then ident else low)"

lemma sint_lower: "sint (lower a b) = min (sint a) (sint b)"
  by (simp add: lower_def)

lemma sint_lowest: "sint (fold lower ids low) = Min (insert (sint low) (sint ` set ids))"
proof (induction ids arbitrary: low)
  case (Cons a ids)
  show ?case by (cases "ids = []") (simp_all add: Cons.IH sint_lower min.commute min.left_commute)
qed simp

lemma Lowest_eq: "LowestBrokerID r = (let l = fold lower (map fst r) MaxInt32 in if l = MaxInt32 then -1 else l)"
  by (simp add: LowestBrokerID_def lower_def [abs_def])

lemma IsController_register:
  assumes "IsController s" "0 \<le> sint (s_brokerID s)" "sint (s_brokerID s) < sint ident"
  shows "s_brokerID s = LowestBrokerID (snd (RegisterBroker now ident host port (s_brokerRegistry s)))"
proof -
  let ?l = "fold lower (map fst (s_brokerRegistry s)) MaxInt32"
  let ?r = "snd (RegisterBroker now ident host port (s_brokerRegistry s))"
  have "?l \<noteq> MaxInt32 \<and> ?l = s_brokerID s"
    using assms(1,2) by (auto simp: IsController_def Lowest_eq Let_def split: if_splits)
  then have l: "?l \<noteq> MaxInt32" "?l = s_brokerID s" by auto
  have "set (map fst ?r) = insert ident (set (map fst (s_brokerRegistry s)))"
    by (simp add: RegisterBroker_def Let_def dom_update)
  then have "sint (fold lower (map fst ?r) MaxInt32) = Min (insert (sint MaxInt32) (sint ` insert ident (set (map fst (s_brokerRegistry s)))))"
    unfolding sint_lowest by simp
  also have "\<dots> = min (sint ident) (sint ?l)"
    unfolding sint_lowest by (simp add: insert_commute [of "sint MaxInt32" "sint ident"])
  also have "\<dots> = sint ?l" using l(2) assms(3) by simp
  finally have "fold lower (map fst ?r) MaxInt32 = ?l" by (rule signed_word_eqI)
  then show ?thesis using l by (simp add: Lowest_eq Let_def)
qed

text \<open>
  C11. A broker that registers with the controller over the wire is a member of the cluster. The
  registration succeeds, the broker keeps the epoch that the controller has on record for it, the
  controller stays the controller, and the next heartbeat, sent with that epoch, is accepted and
  leaves the broker's metadata offset in the controller's registry.
\<close>

theorem register_then_heartbeat:
  assumes ctl: "IsController sc" "0 \<le> sint (s_brokerID sc)" "sint (s_brokerID sc) < sint (s_brokerID s)"
    and req: "req = registration_request inc br s" "length inc = 16"
      "length (RequestHeader_Encode (registrar_header 62 (br_correlationId br + 1)) [] @ BrokerRegistrationRequest_Encode req []) \<le> MaxPayloadSize"
    and served: "broker_registration S (q_env q) req sc = (out, sc')" "out \<noteq> Panic"
  shows "\<exists>s' br'. register (Some (controller_peer S z q sc)) inc br s = (Ok (), br', s') \<and>
    IsController sc' \<and> map_option bi_Epoch (map_of (s_brokerRegistry sc') (s_brokerID s)) = Some (s_brokerEpoch s') \<and>
    fst (sendHeartbeat (controller_peer S z q' sc') mf s' br') = Ok False \<and>
    GetMetadataOffset (s_brokerID s) (s_brokerRegistry (snd (broker_heartbeat S (q_env q') (heartbeat_request mf s') sc'))) =
      bhq_CurrentMetadataOffset (heartbeat_request mf s')"
proof -
  obtain host port where hp: "ownHostPort br = (host, port)" by (rule prod.exhaust)
  obtain ep reg where reg: "RegisterBroker (e_now (q_env q)) (s_brokerID s) host port (s_brokerRegistry sc) = (ep, reg)"
    by (rule prod.exhaust)
  obtain mo sm where app: "metadata_append S (q_env q)
      (BrokerRecord_Encode \<lparr>br_BrokerId = s_brokerID s, br_Host = host, br_Port = port, br_Epoch = ep\<rparr>) (sc\<lparr>s_brokerRegistry := reg\<rparr>) = (mo, sm)"
    by (rule prod.exhaust)
  have out: "out = Ok (registration_response 0 ep)" "sc' = sm"
    using served ctl reg app hp
    by (auto simp: broker_registration_def req(1) registration_request_def Let_def split: res.splits if_splits)
  have sc': "s_brokerRegistry sc' = reg" "s_brokerID sc' = s_brokerID sc"
    using metadata_append_registry [of S "q_env q" "BrokerRecord_Encode \<lparr>br_BrokerId = s_brokerID s, br_Host = host, br_Port = port, br_Epoch = ep\<rparr>"
        "sc\<lparr>s_brokerRegistry := reg\<rparr>"] app out(2) by simp_all
  have ctl': "IsController sc'"
    using IsController_register [OF ctl, of "e_now (q_env q)" host port] reg sc' by (simp add: IsController_def)
  obtain b where b: "map_of reg (s_brokerID s) = Some b" "bi_Epoch b = ep"
    using reg by (auto simp: RegisterBroker_def Let_def update_conv')
  let ?br = "br\<lparr>br_connected := True\<rparr>" and ?s' = "s\<lparr>s_brokerEpoch := ep\<rparr>"
  let ?br' = "?br\<lparr>br_correlationId := br_correlationId br + 1\<rparr>"
  have "sendRequest (controller_peer S z q sc) 62 (BrokerRegistrationRequest_Encode req) BrokerRegistrationResponse_Decode ?br =
      (Ok (registration_response 0 ep), ?br\<lparr>br_correlationId := br_correlationId ?br + 1\<rparr>)"
    using req served out
    by (intro registration_rpc.exchanged [OF refl, where body = "broker_registration S (q_env q)" and sc' = sc'])
       (auto simp: HandleRequest_def HandleBrokerRegistrationApi_def Let_def BrokerRegistrationRequest_valid_def registration_request_def
         hp intro: plain_replies)
  then have r: "register (Some (controller_peer S z q sc)) inc br s = (Ok (), ?br', ?s')"
    by (simp add: register_def req(1) [symmetric] registration_response_def)
  obtain resp sc2 where hb: "broker_heartbeat S (q_env q') (heartbeat_request mf ?s') sc' = (Ok resp, sc2)" "bhs_ErrorCode resp = 0"
    "bhs_ShouldShutDown resp = False"
    "GetMetadataOffset (s_brokerID s) (s_brokerRegistry sc2) = bhq_CurrentMetadataOffset (heartbeat_request mf ?s')"
    using ctl' b sc'(1)
    by (auto simp: broker_heartbeat_def heartbeat_request_def ValidateAndUpdate_def Let_def GetMetadataOffset_def update_conv')
  have "sendRequest (controller_peer S z q' sc') 63 (BrokerHeartbeatRequest_Encode (heartbeat_request mf ?s')) BrokerHeartbeatResponse_Decode ?br' =
      (Ok resp, ?br'\<lparr>br_correlationId := br_correlationId ?br' + 1\<rparr>)"
    using hb by (intro broker_heartbeat_rpc.exchanged [OF refl, where body = "broker_heartbeat S (q_env q')" and sc' = sc2])
      (auto simp: HandleRequest_def HandleBrokerHeartbeatApi_def Let_def intro: plain_replies heartbeat_frame simp del: length_append)
  then have "fst (sendHeartbeat (controller_peer S z q' sc') mf ?s' ?br') = Ok False"
    using hb by (simp add: sendHeartbeat_def)
  then show ?thesis using r ctl' sc'(1) b hb by (intro exI [of _ ?s'] exI [of _ ?br']) simp
qed

text \<open>A broker that joins a controller which has just been created.\<close>

definition sample_registrar :: BrokerRegistrar where
  "sample_registrar = NewBrokerRegistrar (str '':9093'') [] (str ''localhost:9092'')"

theorem register_then_heartbeat_witness:
  "let q = \<lparr>q_env = sample_env, q_joins = (\<lambda>_. None), q_syncs = (\<lambda>_. None), q_isTCP = True\<rparr>;
       sc = NewServer sample_env 1 [] 9092; s = NewServer sample_env 2 [] 9093;
       sc' = snd (broker_registration (\<lambda>_. []) sample_env (registration_request (replicate 16 5) sample_registrar s) sc)
   in \<exists>s' br'. register (Some (controller_peer (\<lambda>_. []) (\<lambda>_. None) q sc)) (replicate 16 5) sample_registrar s = (Ok (), br', s') \<and>
     fst (sendHeartbeat (controller_peer (\<lambda>_. []) (\<lambda>_. None) q sc') None s' br') = Ok False"
proof -
  let ?q = "\<lparr>q_env = sample_env, q_joins = (\<lambda>_. None), q_syncs = (\<lambda>_. None), q_isTCP = True\<rparr>"
  let ?sc = "NewServer sample_env 1 [] 9092" and ?s = "NewServer sample_env 2 [] 9093"
  let ?req = "registration_request (replicate 16 5) sample_registrar ?s"
  obtain out sc' where b: "broker_registration (\<lambda>_. []) sample_env ?req ?sc = (out, sc')" by (rule prod.exhaust)
  have c: "IsController ?sc" "s_brokerID ?sc = 1" "s_brokerID ?s = 2"
    by (simp_all add: IsController_def NewServer_def RegisterBroker_def NewBrokerRegistry_def LowestBrokerID_def MaxInt32_def Let_def)
  have "ownHostPort sample_registrar = (str ''localhost'', 9093)"
    by (simp add: ownHostPort_def sample_registrar_def NewBrokerRegistrar_def AdvertisedHost_def SplitN_colon_def str_def ParseInt_def Let_def)
  then have r: "?req = \<lparr>brq_BrokerId = 2, brq_ClusterId = [], brq_IncarnationId = replicate 16 5,
      brq_Listeners = [\<lparr>bl_Name = str ''PLAINTEXT'', bl_Host = str ''localhost'', bl_Port = 9093, bl_SecurityProtocol = 0\<rparr>],
      brq_Features = [], brq_Rack = None\<rparr>"
    by (simp add: registration_request_def c)
  have len: "length (RequestHeader_Encode (registrar_header 62 1) [] @ BrokerRegistrationRequest_Encode ?req []) \<le> 1000"
    unfolding r by code_simp
  have "metadata_append (\<lambda>_. []) sample_env v (?sc\<lparr>s_brokerRegistry := x\<rparr>) \<noteq> (Panic, y)" for v x y
    by (simp add: metadata_append_def NewServer_def GetMetadataLog_def MetadataLog_Append_def NewMetadataLog_def Let_def)
  then have "out \<noteq> Panic"
    using b by (auto simp: broker_registration_def Let_def split: if_splits prod.splits res.splits)
  from register_then_heartbeat [OF c(1) _ _ refl _ _ _ this, of ?s "replicate 16 5" sample_registrar "\<lambda>_. []" ?q sc' "\<lambda>_. None" ?q None] b c len
  show ?thesis by (auto simp: Let_def sample_registrar_def NewBrokerRegistrar_def MaxPayloadSize_def)
qed

text \<open>The waits between attempts double from a second up to 32 seconds and stay there.\<close>

lemma retry_waits:
  "RegisterWithRetry attempts (min (2 ^ j) 32) br s = (Ok (waits, started), r) \<Longrightarrow> k < length waits \<Longrightarrow> waits ! k = min (2 ^ (j + k)) 32"
proof (induction attempts arbitrary: j br s waits started r k)
  case (Cons a attempts)
  obtain dial inc where a: "a = (dial, inc)" by (rule prod.exhaust)
  obtain out br1 s1 where reg: "register dial inc br s = (out, br1, s1)" by (rule prod_cases3)
  have step: "(if min (2 ^ j) 32 < (30 :: nat) then min (2 ^ j) 32 * 2 else min (2 ^ j) 32) = min (2 ^ Suc j) (32 :: nat)"
  proof (cases "j < 5")
    case True
    then have "j \<in> {0, 1, 2, 3, 4}" by auto
    then show ?thesis by auto
  next
    case False
    then have "(2 :: nat) ^ 5 \<le> 2 ^ j" by (intro power_increasing) auto
    then show ?thesis by simp
  qed
  show ?case
  proof (cases out)
    case (Err e)
    obtain o2 r2 where rec: "RegisterWithRetry attempts (min (2 ^ Suc j) 32) br1 s1 = (o2, r2)" by (rule prod.exhaust)
    then obtain ws st where ws: "o2 = Ok (ws, st)" "waits = min (2 ^ j) 32 # ws"
      using Cons.prems(1) a reg Err step by (cases r2) (auto split: res.splits)
    then show ?thesis using Cons.IH [of "Suc j" br1 s1 ws st r2] Cons.prems(2) rec by (cases k) auto
  qed (use Cons.prems a reg in auto)
qed simp

end
