(* ===== verification/Kaf_Boot.thy ===== *)
theory Kaf_Boot
  imports Kaf_Registrar
begin

text \<open>
  How a broker process comes up (\<^verbatim>\<open>broker/main.go\<close> and the rest of \<^verbatim>\<open>server/server.go\<close>): the
  command line names the other brokers, each of them is put into the registry and dialled, and a
  broker that is not the controller gets a registrar and a metadata fetcher
  (\<^verbatim>\<open>server/metadata_fetcher.go\<close>), whose loops are here too. A Go map is iterated in any order: the
  peers are a list in the order of the iteration.
\<close>

section \<open>Strings\<close>

definition is_space :: "byte \<Rightarrow> bool" where
  "is_space c \<longleftrightarrow> c = 32 \<or> (9 \<le> c \<and> c \<le> 13)"

text \<open>\<^verbatim>\<open>strings.TrimSpace\<close> on ASCII.\<close>

definition TrimSpace :: "gostring \<Rightarrow> gostring" where
  "TrimSpace s = rev (dropWhile is_space (rev (dropWhile is_space s)))"

fun Split :: "byte \<Rightarrow> gostring \<Rightarrow> gostring list" where
  "Split sep [] = [[]]"
| "Split sep (c # cs) =
     (if c = sep then [] # Split sep cs else (case Split sep cs of p # ps \<Rightarrow> (c # p) # ps | [] \<Rightarrow> [[c]]))"

definition SplitN2 :: "byte \<Rightarrow> gostring \<Rightarrow> gostring list" where
  "SplitN2 sep s =
     takeWhile (\<lambda>c. c \<noteq> sep) s # (case dropWhile (\<lambda>c. c \<noteq> sep) s of [] \<Rightarrow> [] | _ # rest \<Rightarrow> [rest])"

text \<open>\<^verbatim>\<open>net.SplitHostPort\<close>: the port follows the last colon; a host in brackets may have colons.\<close>

definition SplitHostPort :: "gostring \<Rightarrow> (gostring \<times> gostring) res" where
  "SplitHostPort hostport =
     (if 58 \<notin> set hostport then Err (GoErr ''missing port in address'')
      else let port = rev (takeWhile (\<lambda>c. c \<noteq> 58) (rev hostport));
               before = take (length hostport - length port - 1) hostport
           in if hd hostport = 91
              then (if 93 \<notin> set hostport then Err (GoErr ''missing bracket in address'')
                    else let host = takeWhile (\<lambda>c. c \<noteq> 93) (tl hostport);
                             rest = drop (length host + 2) hostport
                         in if rest \<noteq> 58 # port then Err (GoErr ''missing port in address'')
                            else if 91 \<in> set (tl hostport) then Err (GoErr ''unexpected bracket in address'')
                            else if 93 \<in> set rest then Err (GoErr ''unexpected bracket in address'')
                            else Ok (host, port))
              else if 58 \<in> set before then Err (GoErr ''too many colons in address'')
              else if 91 \<in> set hostport \<or> 93 \<in> set hostport then Err (GoErr ''unexpected bracket in address'')
              else Ok (before, port))"

text \<open>The number \<^verbatim>\<open>strconv.Atoi\<close> returns next to an error that is ignored: 0, or the nearest number.\<close>

definition Atoi_value :: "gostring \<Rightarrow> int" where
  "Atoi_value s =
     (case ParseInt s of
        Ok n \<Rightarrow> n
      | Err e \<Rightarrow> if e = GoErr ''value out of range'' then (if hd s = 45 then - (2 ^ 63) else 2 ^ 63 - 1) else 0
      | Panic \<Rightarrow> 0)"

definition parsePort :: "gostring \<Rightarrow> i32" where
  "parsePort addr =
     (case SplitHostPort addr of Ok (_, portStr) \<Rightarrow> word_of_int (Atoi_value portStr) | _ \<Rightarrow> 9092)"

section \<open>Peers\<close>

text \<open>A pair that does not parse ends the process: an error here.\<close>

fun parse_pairs :: "gostring list \<Rightarrow> (i32 \<times> gostring) list \<Rightarrow> (i32 \<times> gostring) list res" where
  "parse_pairs [] result = Ok result"
| "parse_pairs (pair # pairs) result =
     (case SplitN2 61 (TrimSpace pair) of
        [ident, addr] \<Rightarrow>
          res_bind (ParseInt (TrimSpace ident)) (\<lambda>n. parse_pairs pairs (AList.update (word_of_int n) (TrimSpace addr) result))
      | _ \<Rightarrow> Err (GoErr ''invalid peer format''))"

definition parsePeers :: "gostring \<Rightarrow> (i32 \<times> gostring) list res" where
  "parsePeers s = (if s = [] then Ok [] else parse_pairs (Split 44 s) [])"

definition set_peer :: "env \<Rightarrow> i32 \<times> gostring \<Rightarrow> Server \<Rightarrow> Server" where
  "set_peer e = (\<lambda>(ident, addr) s.
     if ident = s_brokerID s then s
     else case SplitHostPort addr of
            Ok (host, portStr) \<Rightarrow>
              (case ParseInt portStr of
                 Ok port \<Rightarrow>
                   snd (RegisterBrokerClient e ident addr
                     (s\<lparr>s_brokerRegistry := snd (RegisterBroker (e_now e) ident host (word_of_int port) (s_brokerRegistry s))\<rparr>))
               | _ \<Rightarrow> s)
          | _ \<Rightarrow> s)"

definition NewMetadataFetcher :: MetadataFetcher where
  "NewMetadataFetcher = \<lparr>mf_fetchOffset = 0, mf_currentOffset = 0\<rparr>"

definition SetPeers ::
  "env \<Rightarrow> gostring \<Rightarrow> gostring \<Rightarrow> (i32 \<times> gostring) list \<Rightarrow> Server \<Rightarrow> Server \<times> (BrokerRegistrar \<times> MetadataFetcher) option" where
  "SetPeers e addr advertisedHost peers s =
     (let s = fold (set_peer e) peers s in
      (s, if IsController s then None
          else Some (NewBrokerRegistrar addr advertisedHost (registry_Addr (LowestBrokerID (s_brokerRegistry s)) (s_brokerRegistry s)),
                     NewMetadataFetcher)))"

text \<open>
  What \<^verbatim>\<open>main\<close> does before it starts the server; \<^verbatim>\<open>iter\<close> is the order in which the runtime
  iterates the map of peers.
\<close>

definition broker_main ::
  "env \<Rightarrow> ((i32 \<times> gostring) list \<Rightarrow> (i32 \<times> gostring) list) \<Rightarrow> int \<Rightarrow> int \<Rightarrow> gostring \<Rightarrow> gostring \<Rightarrow>
     (Server \<times> (BrokerRegistrar \<times> MetadataFetcher) option) res" where
  "broker_main e iter brokerId port peersFlag advertisedHost =
     res_bind (parsePeers peersFlag) (\<lambda>peers.
       let addr = 58 # fmt_d port in
       Ok (SetPeers e addr advertisedHost (iter peers) (NewServer e (word_of_int brokerId) advertisedHost (parsePort addr))))"

section \<open>The loops of the metadata fetcher\<close>

text \<open>
  One connection: rounds until a fetch fails or the fetcher is stopped (where the list of what the
  peer answers ends); then one connection after the other.
\<close>

fun fetchLoop ::
  "(bytes \<Rightarrow> gostring) \<Rightarrow> (env \<times> (bytes \<Rightarrow> bytes)) list \<Rightarrow> BrokerClient \<Rightarrow> MetadataFetcher \<Rightarrow> Server \<Rightarrow>
     unit res \<times> MetadataFetcher \<times> Server" where
  "fetchLoop uuid_String [] bc mf s = (Ok (), mf, s)"
| "fetchLoop uuid_String ((e, peer) # rounds) bc mf s =
     (case metadata_round uuid_String e peer bc mf s of
        (Ok _, bc, mf, s) \<Rightarrow> fetchLoop uuid_String rounds bc mf s
      | (Err _, bc, mf, s) \<Rightarrow> (Ok (), mf, s)
      | (Panic, bc, mf, s) \<Rightarrow> (Panic, mf, s))"

fun metadata_Run ::
  "(bytes \<Rightarrow> gostring) \<Rightarrow> gostring \<Rightarrow> (env \<times> (bytes \<Rightarrow> bytes)) list option list \<Rightarrow> MetadataFetcher \<Rightarrow> Server \<Rightarrow>
     unit res \<times> MetadataFetcher \<times> Server" where
  "metadata_Run uuid_String controllerAddr [] mf s = (Ok (), mf, s)"
| "metadata_Run uuid_String controllerAddr (None # dials) mf s = metadata_Run uuid_String controllerAddr dials mf s"
| "metadata_Run uuid_String controllerAddr (Some rounds # dials) mf s =
     (case fetchLoop uuid_String rounds (NewBrokerClient 0 controllerAddr) mf s of
        (Panic, mf, s) \<Rightarrow> (Panic, mf, s)
      | (_, mf, s) \<Rightarrow> metadata_Run uuid_String controllerAddr dials mf s)"

section \<open>One controller\<close>

definition peer_ok :: "gostring \<Rightarrow> bool" where
  "peer_ok addr \<longleftrightarrow> (case SplitHostPort addr of Ok (_, p) \<Rightarrow> (case ParseInt p of Ok _ \<Rightarrow> True | _ \<Rightarrow> False) | _ \<Rightarrow> False)"

lemma RegisterBrokerClient_fields [simp]:
  "s_brokerRegistry (snd (RegisterBrokerClient e i a s)) = s_brokerRegistry s" "s_brokerID (snd (RegisterBrokerClient e i a s)) = s_brokerID s"
  by (simp_all add: RegisterBrokerClient_def)

lemma peer_okE:
  assumes "peer_ok addr"
  obtains h p n where "SplitHostPort addr = Ok (h, p)" "ParseInt p = Ok n"
proof (cases "SplitHostPort addr")
  case (Ok hp)
  then show ?thesis using assms that by (cases hp; cases "ParseInt (snd hp)") (auto simp: peer_ok_def)
qed (use assms in \<open>simp_all add: peer_ok_def\<close>)

lemma set_peer_fields:
  "s_brokerID (set_peer e p s) = s_brokerID s"
  "peer_ok (snd p) \<Longrightarrow> s_brokerID s \<in> set (map fst (s_brokerRegistry s)) \<Longrightarrow>
     set (map fst (s_brokerRegistry (set_peer e p s))) = insert (fst p) (set (map fst (s_brokerRegistry s)))"
proof -
  show "s_brokerID (set_peer e p s) = s_brokerID s"
    by (auto simp: set_peer_def split: prod.splits res.splits)
  assume ok: "peer_ok (snd p)" and me: "s_brokerID s \<in> set (map fst (s_brokerRegistry s))"
  obtain h q n where "SplitHostPort (snd p) = Ok (h, q)" "ParseInt q = Ok n" using ok by (rule peer_okE)
  then show "set (map fst (s_brokerRegistry (set_peer e p s))) = insert (fst p) (set (map fst (s_brokerRegistry s)))"
    using me by (cases p) (auto simp: set_peer_def RegisterBroker_def dom_update Let_def)
qed

lemma peers_fields:
  assumes "\<forall>(i, a)\<in>set peers. peer_ok a" "s_brokerID s \<in> set (map fst (s_brokerRegistry s))"
  shows "s_brokerID (fold (set_peer e) peers s) = s_brokerID s \<and>
    set (map fst (s_brokerRegistry (fold (set_peer e) peers s))) = set (map fst peers) \<union> set (map fst (s_brokerRegistry s))"
  using assms
proof (induction peers arbitrary: s)
  case (Cons p peers)
  have "peer_ok (snd p)" using Cons.prems(1) by (cases p) simp
  note f = set_peer_fields(1) [of e p s] set_peer_fields(2) [OF this Cons.prems(2), of e]
  have "s_brokerID (set_peer e p s) \<in> set (map fst (s_brokerRegistry (set_peer e p s)))" using f Cons.prems(2) by simp
  from Cons.IH [OF _ this] Cons.prems(1) f show ?case by simp
qed simp

lemma IsController_least:
  assumes me: "s_brokerID s \<in> set (map fst (s_brokerRegistry s))"
    and range: "\<forall>i\<in>set (map fst (s_brokerRegistry s)). 0 \<le> sint i \<and> sint i < 2 ^ 31 - 1"
  shows "sint (LowestBrokerID (s_brokerRegistry s)) = Min (sint ` set (map fst (s_brokerRegistry s)))"
    and "LowestBrokerID (s_brokerRegistry s) \<in> set (map fst (s_brokerRegistry s))"
    and "IsController s \<longleftrightarrow> (\<forall>i\<in>set (map fst (s_brokerRegistry s)). sint (s_brokerID s) \<le> sint i)"
proof -
  let ?ids = "set (map fst (s_brokerRegistry s))" and ?l = "fold lower (map fst (s_brokerRegistry s)) MaxInt32"
  have max: "sint MaxInt32 = 2 ^ 31 - 1" by (simp add: MaxInt32_def)
  have ne: "finite (sint ` ?ids)" "sint ` ?ids \<noteq> {}" using me by auto
  have in': "Min (sint ` ?ids) \<in> sint ` ?ids" using ne by (rule Min_in)
  have "sint ?l = min (sint MaxInt32) (Min (sint ` ?ids))" unfolding sint_lowest using ne by (subst Min_insert) auto
  also have "\<dots> = Min (sint ` ?ids)" using in' range max by auto
  finally have l: "sint ?l = Min (sint ` ?ids)" .
  then have "?l \<noteq> MaxInt32" using in' range max by auto
  then have low: "LowestBrokerID (s_brokerRegistry s) = ?l" by (simp add: Lowest_eq Let_def)
  show 1: "sint (LowestBrokerID (s_brokerRegistry s)) = Min (sint ` ?ids)" using l low by simp
  show 2: "LowestBrokerID (s_brokerRegistry s) \<in> ?ids"
  proof -
    obtain i where i: "i \<in> ?ids" "Min (sint ` ?ids) = sint i" using in' by blast
    have "LowestBrokerID (s_brokerRegistry s) = i" using 1 i(2) by (intro signed_word_eqI) simp
    then show ?thesis using i(1) by simp
  qed
  show "IsController s \<longleftrightarrow> (\<forall>i\<in>?ids. sint (s_brokerID s) \<le> sint i)"
  proof
    assume "IsController s"
    then have "sint (s_brokerID s) = Min (sint ` ?ids)" using 1 by (simp add: IsController_def)
    then show "\<forall>i\<in>?ids. sint (s_brokerID s) \<le> sint i" using ne(1) by simp
  next
    assume "\<forall>i\<in>?ids. sint (s_brokerID s) \<le> sint i"
    then have "Min (sint ` ?ids) = sint (s_brokerID s)" using me ne(1) by (intro Min_eqI) auto
    then have "sint (s_brokerID s) = sint (LowestBrokerID (s_brokerRegistry s))" using 1 by simp
    then have "s_brokerID s = LowestBrokerID (s_brokerRegistry s)" by (rule signed_word_eqI)
    then show "IsController s" by (simp add: IsController_def)
  qed
qed

lemma SetPeers_controller:
  assumes ids: "insert me (set (map fst peers)) = ids" "\<forall>(i, a)\<in>set peers. peer_ok a"
    and range: "\<forall>i\<in>ids. 0 \<le> sint i \<and> sint i < 2 ^ 31 - 1"
    and boot: "SetPeers e addr host peers (NewServer e me host port) = (s, clients)"
  shows "set (map fst (s_brokerRegistry s)) = ids \<and> (IsController s \<longleftrightarrow> (\<forall>i\<in>ids. sint me \<le> sint i)) \<and>
    (clients = None \<longleftrightarrow> IsController s) \<and>
    (\<forall>br mf. clients = Some (br, mf) \<longrightarrow> (\<exists>low\<in>ids. (\<forall>i\<in>ids. sint low \<le> sint i) \<and> low \<noteq> me \<and>
       br_controllerAddr br = registry_Addr low (s_brokerRegistry s)))"
proof -
  let ?s0 = "NewServer e me host port"
  have s0: "s_brokerID ?s0 = me" "set (map fst (s_brokerRegistry ?s0)) = {me}"
    by (simp_all add: NewServer_def RegisterBroker_def NewBrokerRegistry_def Let_def)
  have s: "s = fold (set_peer e) peers ?s0" using boot by (simp add: SetPeers_def Let_def)
  have k: "s_brokerID s = me" "set (map fst (s_brokerRegistry s)) = ids"
    using peers_fields [OF ids(2), of ?s0 e] s0 ids(1) s by auto
  have me: "s_brokerID s \<in> set (map fst (s_brokerRegistry s))" using k ids(1) by auto
  note least = IsController_least [OF me]
  let ?low = "LowestBrokerID (s_brokerRegistry s)"
  have low: "?low \<in> ids" "\<forall>i\<in>ids. sint ?low \<le> sint i"
    using least(1,2) range unfolding k(2) by (auto intro!: Min_le imageI)
  have clients: "clients = (if IsController s then None
      else Some (NewBrokerRegistrar addr host (registry_Addr ?low (s_brokerRegistry s)), NewMetadataFetcher))"
    using boot unfolding SetPeers_def Let_def s [symmetric] by (auto simp: prod_eq_iff)
  have "IsController s \<longleftrightarrow> (\<forall>i\<in>ids. sint me \<le> sint i)" using least(3) range unfolding k by blast
  moreover have "\<not> IsController s \<Longrightarrow> ?low \<noteq> me" using k(1) by (auto simp: IsController_def)
  ultimately show ?thesis using k(2) low clients by (auto simp: NewBrokerRegistrar_def split: if_splits)
qed

section \<open>The list of peers on the command line\<close>

fun print_peers :: "(i32 \<times> gostring) list \<Rightarrow> gostring" where
  "print_peers [] = []"
| "print_peers [(i, a)] = fmt_d (sint i) @ 61 # a"
| "print_peers ((i, a) # ps) = fmt_d (sint i) @ 61 # a @ 44 # print_peers ps"

definition plain :: "gostring \<Rightarrow> bool" where
  "plain s \<longleftrightarrow> (\<forall>c\<in>set s. \<not> is_space c \<and> c \<noteq> 44)"

lemma TrimSpace_plain: "plain s \<Longrightarrow> TrimSpace s = s"
proof -
  assume p: "plain s"
  have "dropWhile is_space xs = xs" if "set xs \<subseteq> set s" for xs
    using that p by (cases xs) (auto simp: plain_def)
  from this [of s] this [of "rev s"] show ?thesis by (simp add: TrimSpace_def)
qed

lemma fmt_d_chars: "c \<in> set (fmt_d n) \<Longrightarrow> c = 45 \<or> is_digit c"
  using dec_digits_all by (auto simp: fmt_d_def split: if_splits)

lemma fmt_d_plain: "plain (fmt_d n)" "61 \<notin> set (fmt_d n)"
  using fmt_d_chars [of _ n] by (fastforce simp: plain_def is_space_def is_digit_def word_le_nat_alt)+

lemma SplitN2_once: "sep \<notin> set a \<Longrightarrow> SplitN2 sep (a @ sep # b) = [a, b]"
  by (simp add: SplitN2_def takeWhile_append dropWhile_append)

lemma Split_none: "sep \<notin> set a \<Longrightarrow> Split sep a = [a]"
  by (induction a) auto

lemma Split_once: "sep \<notin> set a \<Longrightarrow> Split sep (a @ sep # b) = a # Split sep b"
  by (induction a) auto

lemma Split_print_peers:
  assumes "\<forall>(i, a)\<in>set peers. plain a" "peers \<noteq> []"
  shows "Split 44 (print_peers peers) = map (\<lambda>(i, a). fmt_d (sint i) @ 61 # a) peers"
  using assms
proof (induction peers rule: print_peers.induct)
  case (2 i a)
  have "44 \<notin> set (fmt_d (sint i) @ 61 # a)" using 2 fmt_d_plain(1) [of "sint i"] by (auto simp: plain_def)
  then show ?case by (simp add: Split_none)
next
  case (3 i a p ps)
  have "44 \<notin> set (fmt_d (sint i) @ 61 # a)" using 3(2) fmt_d_plain(1) [of "sint i"] by (auto simp: plain_def)
  from Split_once [OF this, of "print_peers (p # ps)"] 3 show ?case by simp
qed simp

lemma parse_pairs_print:
  assumes "\<forall>(i, a)\<in>set peers. plain a" "distinct (map fst (result @ peers))"
  shows "parse_pairs (map (\<lambda>(i, a). fmt_d (sint i) @ 61 # a) peers) result = Ok (result @ peers)"
  using assms
proof (induction peers arbitrary: result)
  case (Cons p peers)
  obtain i a where p: "p = (i, a)" by (rule prod.exhaust)
  have a: "plain a" using Cons.prems(1) p by simp
  have whole: "plain (fmt_d (sint i) @ 61 # a)"
    using a fmt_d_plain(1) [of "sint i"] by (auto simp: plain_def is_space_def word_le_nat_alt)
  have n: "ParseInt (fmt_d (sint i)) = Ok (sint i)"
    using sint_greater_eq [of i] sint_less [of i] by (intro ParseInt_fmt_d) auto
  have up: "AList.update i a result = result @ [(i, a)]" using Cons.prems(2) p by (intro update_fresh) auto
  show ?case
    using Cons.IH [of "result @ [(i, a)]"] Cons.prems
    by (simp add: p TrimSpace_plain [OF whole] TrimSpace_plain [OF a] TrimSpace_plain [OF fmt_d_plain(1)]
        SplitN2_once [OF fmt_d_plain(2)] n up)
qed simp

lemma parsePeers_print:
  assumes "\<forall>(i, a)\<in>set peers. plain a" "distinct (map fst peers)"
  shows "parsePeers (print_peers peers) = Ok peers"
proof (cases "peers = []")
  case False
  have "print_peers peers \<noteq> []" using False by (cases peers rule: print_peers.cases) auto
  then show ?thesis
    using Split_print_peers [OF assms(1) False] parse_pairs_print [of peers "[]"] assms by (simp add: parsePeers_def)
qed (simp add: parsePeers_def)

text \<open>
  C18. Brokers that are started with the same cluster on their command lines agree on one controller.
  The flag that lists the peers as \<^verbatim>\<open>id=host:port\<close>, separated by commas, is read back; however the
  map of peers is iterated, the broker then knows exactly the brokers of the cluster, takes itself
  for the controller exactly when its id is the lowest, and otherwise gets a registrar that dials
  the broker with the lowest id.
\<close>

theorem cluster_has_one_controller:
  assumes peers: "\<forall>(i, a)\<in>set peers. peer_ok a \<and> plain a" "distinct (map fst peers)"
    and iter: "set (iter peers) = set peers"
    and ids: "insert (word_of_int brokerId) (set (map fst peers)) = ids" "\<forall>i\<in>ids. 0 \<le> sint i \<and> sint i < 2 ^ 31 - 1"
  shows "\<exists>s clients. broker_main e iter brokerId port (print_peers peers) host = Ok (s, clients) \<and>
    set (map fst (s_brokerRegistry s)) = ids \<and>
    (IsController s \<longleftrightarrow> (\<forall>i\<in>ids. sint (word_of_int brokerId :: i32) \<le> sint i)) \<and>
    (clients = None \<longleftrightarrow> IsController s) \<and>
    (\<forall>br mf. clients = Some (br, mf) \<longrightarrow> (\<exists>low\<in>ids. (\<forall>i\<in>ids. sint low \<le> sint i) \<and> low \<noteq> word_of_int brokerId \<and>
       br_controllerAddr br = registry_Addr low (s_brokerRegistry s)))"
proof -
  let ?addr = "58 # fmt_d port"
  obtain s clients where b: "SetPeers e ?addr host (iter peers) (NewServer e (word_of_int brokerId) host (parsePort ?addr)) = (s, clients)"
    by (rule prod.exhaust)
  have i: "insert (word_of_int brokerId) (set (map fst (iter peers))) = ids" "\<forall>(i, a)\<in>set (iter peers). peer_ok a"
    using ids(1) peers(1) by (auto simp: iter)
  have "parsePeers (print_peers peers) = Ok peers" using peers by (intro parsePeers_print) auto
  then have "broker_main e iter brokerId port (print_peers peers) host = Ok (s, clients)"
    using b by (simp add: broker_main_def Let_def)
  with SetPeers_controller [OF i ids(2) b] show ?thesis by blast
qed

theorem cluster_has_one_controller_witness:
  "let peers = [(1, str ''a:9092''), (3, str ''[::1]:9094'')] in
     \<exists>s clients. broker_main sample_env rev 2 9093 (print_peers peers) [] = Ok (s, clients) \<and> \<not> IsController s \<and>
       clients \<noteq> None \<and> set (map fst (s_brokerRegistry s)) = {1, 2, 3}"
proof -
  let ?peers = "[(1, str ''a:9092''), (3, str ''[::1]:9094'')] :: (i32 \<times> gostring) list"
  have ok: "\<forall>(i, a)\<in>set ?peers. peer_ok a \<and> plain a"
    by (simp add: peer_ok_def plain_def is_space_def SplitHostPort_def str_def ParseInt_def Let_def)
  have ids: "insert (word_of_int 2) (set (map fst ?peers)) = {1, 2, 3}" by auto
  have r: "set (rev ?peers) = set ?peers" by (rule set_rev)
  from cluster_has_one_controller [where iter = rev, OF ok _ r ids, where e = sample_env and port = 9093 and host = "[]"]
  obtain s clients where "broker_main sample_env rev 2 9093 (print_peers ?peers) [] = Ok (s, clients)"
      "set (map fst (s_brokerRegistry s)) = {1, 2, 3}" "\<not> IsController s" "clients \<noteq> None"
    by auto
  then show ?thesis unfolding Let_def by blast
qed

end
