(* ===== verification/Spec2Isabelle.thy ===== *)
theory Spec2Isabelle
  imports Kaf_Boot
begin

text \<open>
  Verification of kaf-go, a message broker that speaks the Kafka protocol.

  \<^bold>\<open>The program.\<close> A broker process (\<^verbatim>\<open>broker/main.go\<close>, \<^verbatim>\<open>server/server.go\<close>) accepts connections
  (\<^verbatim>\<open>server/conn.go\<close>), reads one framed request after the other, dispatches it by its API key to a
  handler (\<^verbatim>\<open>api\<close>), and writes the response back as a frame. Handlers work on the state of the
  server: topics and their commit logs (\<^verbatim>\<open>storage\<close>), the state of the partitions, of consumer groups
  and of producers (\<^verbatim>\<open>coordinator\<close>), and the registry of brokers (\<^verbatim>\<open>server/broker_registry.go\<close>). The
  broker with the lowest id is the controller. It keeps a metadata log; the other brokers register
  with it, send heartbeats, and fetch and apply its records, which makes them leaders or followers of
  partitions. A follower copies the log of the leader by fetch requests, whose offsets tell the
  leader how far the copy is; the leader's high watermark is what all in-sync replicas have, and
  \<^verbatim>\<open>acks=-1\<close> requests wait until the watermark passes their records.

  \<^bold>\<open>How the model reads.\<close> A Go call that can fail returns a \<open>res\<close>: \<open>Ok\<close>, \<open>Err\<close> or \<open>Panic\<close>, and with it
  the state as the call leaves it, also on an error. Fixed-width integers are words (\<open>i16\<close>, \<open>i32\<close>,
  \<open>i64\<close>, \<open>u32\<close>, \<open>u64\<close>) wherever the width can be observed: on the wire, in sequence numbers, epochs
  and record counts; log offsets inside the storage layer are \<open>int\<close>, with their bounds as hypotheses.
  Strings and byte slices are lists of bytes. A Go map is an association list or a partial function;
  where the order of iteration can be seen it is an argument. A file is the list of its bytes. The
  clock, failing system calls, failing dials, new identifiers and what a \<^verbatim>\<open>select\<close> sees are inputs: the
  record \<open>env\<close> of \<open>Kaf_Broker\<close> and the fault records of the storage theories. Libraries outside the
  repository are arguments: the text of a UUID (\<open>uuid_String\<close>, \<open>S\<close> in statements) and snappy
  (\<open>snappy\<close>, \<open>z\<close>).

  \<^bold>\<open>The theories\<close>, in the order of their imports:

  \<^item> \<open>Kaf_Prelude\<close>: machine integers, \<open>res\<close>, big-endian integers, slices, and the lemma collections
    \<open>kaf_defs\<close>, \<open>decodes_intros\<close> and \<open>appends_simps\<close>.
  \<^item> \<open>Kaf_Reader\<close>, \<open>Kaf_Writer\<close> (\<^verbatim>\<open>protocol/reader.go\<close>, \<^verbatim>\<open>protocol/writer.go\<close>): every Read and Write
    method. A reader is a buffer and a cursor that wraps at 64 bits.
  \<^item> \<open>Kaf_Codec\<close>: the contract between the two as the locale \<open>wire_codec\<close> (a writer appends, and the
    reader reads the value back wherever the bytes stand), its closure under arrays, and an
    interpretation for the primitives the messages use. The message theories interpret it for the
    messages and their parts.
  \<^item> \<open>Kaf_Header\<close> (\<^verbatim>\<open>protocol/header.go\<close>, \<^verbatim>\<open>protocol/wireframe.go\<close>, \<^verbatim>\<open>common/version.go\<close>): headers and
    length-prefixed frames over a connection that may break after any number of bytes.
  \<^item> \<open>Kaf_Handler\<close>: the shape all request handlers share, and the locale \<open>rpc\<close>: from the bytes of a
    request to what the client reads. Every handler of that shape interprets it.
  \<^item> \<open>Kaf_Index\<close>, \<open>Kaf_Segment\<close>, \<open>Kaf_CommitLog\<close> (\<^verbatim>\<open>storage/commitlog\<close>): memory-mapped indexes, segments
    and the log of a partition. The abstraction is a list of batches per segment (\<open>seg_rep\<close>,
    \<open>cl_rep\<close>): append extends it, whether or not the segment rolls, a search returns a run of whole
    batches, closing and recovering keeps it, clipping cuts it at the watermark.
  \<^item> \<open>Kaf_Idempotence\<close>, \<open>Kaf_Snapshot\<close> (\<^verbatim>\<open>coordinator/idempotence_state.go\<close>, \<^verbatim>\<open>producer_snapshot.go\<close>,
    \<^verbatim>\<open>producer_state_manager.go\<close>): duplicate detection per producer against an abstract specification,
    and the snapshot files it is recovered from, with every step of writing one able to fail.
  \<^item> \<open>Kaf_Partition\<close> (\<^verbatim>\<open>coordinator/partition_state.go\<close>, \<^verbatim>\<open>partition_purgatory.go\<close>): log end, watermark,
    in-sync replicas and waiting requests. The step relation \<open>pstep\<close> interleaves the locked sections
    of the code; its invariant gives that no wake-up is lost and no acknowledgement is early.
  \<^item> \<open>Kaf_RecordBatch\<close> (\<^verbatim>\<open>protocol/producer/record_batch.go\<close>, \<^verbatim>\<open>common/compress.go\<close>, \<^verbatim>\<open>common/error.go\<close>).
  \<^item> \<open>Kaf_Message\<close> (\<^verbatim>\<open>storage/commitlog/message.go\<close> and the operations on single messages of
    \<^verbatim>\<open>segment.go\<close> and \<^verbatim>\<open>commitlog.go\<close>): the format of a message, and that what was appended is read back.
  \<^item> \<open>Kaf_Metadata\<close>, \<open>Kaf_MetaLog\<close> (\<^verbatim>\<open>protocol/metadata\<close>, \<^verbatim>\<open>coordinator/metadata_log.go\<close>,
    \<^verbatim>\<open>coordinator/pid_manager.go\<close>): metadata records and their log, and the allocator of producer ids
    over the locale \<open>metadata_appender\<close>, interpreted on the metadata log.
  \<^item> \<open>Kaf_Group\<close> (\<^verbatim>\<open>coordinator/group_store.go\<close>): every call and every timer callback of the group
    coordinator, the step relation \<open>gstep\<close>, its invariant, and the committed offsets.
  \<^item> \<open>Kaf_AdminMsg\<close>, \<open>Kaf_ProduceMsg\<close>, \<open>Kaf_GroupMsg\<close>, \<open>Kaf_FetchMsg\<close>: the messages of \<^verbatim>\<open>protocol/broker\<close>,
    \<^verbatim>\<open>protocol/admin\<close>, \<^verbatim>\<open>protocol/topic\<close>, \<^verbatim>\<open>protocol/producer\<close>, \<^verbatim>\<open>protocol/consumer\<close> and \<^verbatim>\<open>protocol/fetch\<close>.
    Where the repository has one direction of a message only, the other one (\<open>_wire\<close>, \<open>_read\<close>) is
    what a client does, written down to state that the broker reads and answers it correctly.
  \<^item> \<open>Kaf_TopicStore\<close> (\<^verbatim>\<open>storage/topic.go\<close>), \<open>Kaf_Broker\<close> (\<^verbatim>\<open>server/broker_registry.go\<close>, the state of
    \<^verbatim>\<open>server/server.go\<close> and the handlers for brokers, offsets, metadata and producer ids),
    \<open>Kaf_Cluster\<close> (\<^verbatim>\<open>api/create_topics_api.go\<close>, metadata records and start-up of the server).
  \<^item> \<open>Kaf_Produce\<close>, \<open>Kaf_Fetch\<close> (\<^verbatim>\<open>api/produce_api.go\<close>, \<^verbatim>\<open>api/fetch_api.go\<close>, \<^verbatim>\<open>server/broker_client.go\<close>,
    \<^verbatim>\<open>server/replica_fetcher.go\<close>, \<^verbatim>\<open>server/metadata_fetcher.go\<close>, \<^verbatim>\<open>server/isr_manager.go\<close>): the two data
    paths and the rounds of the fetchers; \<open>Kaf_Replica\<close> has the properties of replication.
  \<^item> \<open>Kaf_Conn\<close> (\<^verbatim>\<open>server/conn.go\<close> and the group handlers of \<^verbatim>\<open>api\<close>): dispatch and the loop of a connection.
  \<^item> \<open>Kaf_Invariant\<close>: \<open>server_step\<close>, any handler call, metadata record, timer or tick, and what every
    broker keeps through all of them.
  \<^item> \<open>Kaf_Registrar\<close> (\<^verbatim>\<open>server/broker_register.go\<close>): how a broker joins, against the controller's handlers.
  \<^item> \<open>Kaf_Boot\<close> (\<^verbatim>\<open>broker/main.go\<close>, the rest of \<^verbatim>\<open>server/server.go\<close>, the loops of
    \<^verbatim>\<open>server/metadata_fetcher.go\<close>): from the command line to one controller.
  \<^item> This theory: what is produced can be fetched, and fetching and committing offsets over the wire,
    from the bytes of the client through the connection loop to the bytes of the answer.

  \<^bold>\<open>Termination and bounds.\<close> There is no fuel. Loops over files have a termination proof, except the
  two of \<^verbatim>\<open>FindRawRegion\<close>, which trust a length from the file and need not end: \<open>find_start\<close> and
  \<open>accumulate\<close> are partial functions with \<open>None\<close> for a run that does not end. On well-formed batches
  the search returns (\<open>segment_region_whole_batches\<close>); on a batch with length -12 it does not
  (\<open>segment_scan_diverges\<close>). Loops over a socket or
  a ticker recurse on the list of what arrives. Bounds in hypotheses are those of the formats: 2 ^ 31
  for lengths on the wire, 2 ^ 32 for offsets relative to a segment and for positions in its file,
  2 ^ 63 for offsets, and the largest frame a reader accepts.

  \<^bold>\<open>Not modelled.\<close> Sockets, goroutines and shutdown: the accept loop, \<^verbatim>\<open>Stop\<close> methods, tickers and
  delays (a tick, a round or a heartbeat is a definition; when it runs is up to the caller).
  Handlers run one at a time; interleaving inside a handler is modelled where the code splits its
  locked sections, in the steps of \<open>Kaf_Partition\<close> and \<open>Kaf_Group\<close>. The hook of a rolled segment, a goroutine in the
  code, runs at once. \<^verbatim>\<open>metrics\<close> and logging, which no other code reads. The encoding of
  \<^verbatim>\<open>meta.json\<close> by the standard library: the parsed file is an input of the recovery and writing it is an
  operation that can fail. Flags and signals in \<^verbatim>\<open>broker/main.go\<close>. The programs under \<^verbatim>\<open>cmd\<close> and
  \<^verbatim>\<open>load-test\<close>, which drive a broker through a third-party client and print statistics. Types and
  one-line helpers appear where they are used. Trimming spaces is modelled for ASCII.
\<close>

section \<open>Producing and fetching\<close>

text \<open>What an append with \<^verbatim>\<open>acks=1\<close> leaves behind.\<close>

lemma produce_append_leader:
  assumes "GetCommitLog S u (pt_index pr) (s_topicStore s) = Some cl"
    "commitLog_AppendRaw (e_faults e) (e_now e) recs (of_nat (length (rb_Records b))) cl = (Ok base, cl', r)"
  obtains pr' s' st where "produce_append S e AckAtLeastOnce u n pr recs b ps s = (Ok pr', s')"
    "pt_errorCode pr' = pt_errorCode pr" "pt_baseOffset pr' = word_of_int base"
    "s_topicStore s' = AddCommitLog S u (pt_index pr) cl' (s_topicStore s)" "s_brokerID s' = s_brokerID s"
    "GetPartitionState n (pt_index pr) (s_pss s') =
       Some (fst (OnLeaderAppend (base + int (length (rb_Records b)) - 1) (ps\<lparr>ps_Idempotence := st\<rparr>)))"
proof -
  let ?ps = "case ps_Idempotence ps of
      Some st \<Rightarrow> if 0 \<le> sint (rb_ProducerId b)
        then ps\<lparr>ps_Idempotence := Some (Record (sint (e_millis e)) (rb_ProducerId b) (rb_ProducerEpoch b) (rb_BaseSequence b)
          (rb_BaseSequence b + of_nat (length (rb_Records b)) - 1) (word_of_int base) st)\<rparr> else ps
    | None \<Rightarrow> ps"
  obtain st where st: "?ps = ps\<lparr>ps_Idempotence := st\<rparr>"
    by (cases "ps_Idempotence ps"; cases "0 \<le> sint (rb_ProducerId b)") (auto intro: that [of "ps_Idempotence ps"])
  let ?i = "pt_index pr"
  let ?out = "OnLeaderAppend (base + int (length (rb_Records b)) - 1) (ps\<lparr>ps_Idempotence := st\<rparr>)"
  let ?s = "run_roll_hook e n ?i ps r (s\<lparr>s_topicStore := AddCommitLog S u ?i cl' (s_topicStore s)\<rparr>)"
  have "produce_append S e AckAtLeastOnce u n pr recs b ps s =
    (Ok (pr\<lparr>pt_recordsAppended := length (rb_Records b), pt_bytesAppended := length recs, pt_baseOffset := word_of_int base\<rparr>),
     put_partition n ?i (fst ?out) (?s\<lparr>s_sent := s_sent ?s @ snd ?out\<rparr>))"
    using assms st by (simp add: produce_append_def Let_def split_beta AckAtMostOnce_def AckAtLeastOnce_def)
  then show ?thesis by (rule that) simp_all
qed

lemma OnLeaderAppend_LEO:
  "ps_LEO (fst (OnLeaderAppend o' ps)) = max (ps_LEO ps) (o' + 1)"
  by (auto simp: OnLeaderAppend_def AdvanceHWM_def advance_locked_def append_locked_def complete_waiters_def Let_def
      split: prod.split option.split)

lemma OnLeaderAppend_HWM_alone:
  assumes "set (ps_ISR ps) \<subseteq> {ps_LeaderBrokerID ps}"
  shows "o' + 1 \<le> ps_HWM (fst (OnLeaderAppend o' ps))"
proof -
  have "isr_followers (append_locked o' ps) = {}" using assms by (auto simp: isr_followers_def append_locked_def)
  then have "ps_HWM (fst (OnLeaderAppend o' ps)) = max (ps_HWM (append_locked o' ps)) (ps_LEO (append_locked o' ps))"
    unfolding OnLeaderAppend_def AdvanceHWM_watermark by simp
  then show ?thesis by (auto simp: append_locked_def)
qed

lemma UpdateReplicaLEO_LEO: "ps_LEO (fst (UpdateReplicaLEO now rid o' ps)) = ps_LEO ps"
  by (auto simp: UpdateReplicaLEO_def AdvanceHWM_def advance_locked_def replica_locked_def complete_waiters_def Let_def
      split: prod.split option.split)

lemma contiguous_before:
  assumes cont: "contiguous o' (bs @ [d])" and b: "b \<in> set bs"
  shows "batch_last b < batch_base d \<and> batch_base b < batch_base d"
proof -
  obtain i where i: "i < length bs" "b = bs ! i" using b by (auto simp: in_set_conv_nth)
  have "batch_last b < batch_base d" using contiguous_mono [OF cont, of i "length bs"] i by (simp add: nth_append)
  moreover have "batch_base b \<le> batch_last b" using b by (intro wf_batch_last contiguous_wf [OF cont]) simp
  ultimately show ?thesis by simp
qed

text \<open>Reading at the first offset of the last batch.\<close>

lemma region_of_last:
  assumes cont: "contiguous o' (bs @ [d])" and f: "batch_base d = f"
    and cs: "bs @ [d] = as @ cs @ ds" "cs \<noteq> []" "f \<le> batch_last (hd cs) + 1" "found_at mb f (bs @ [d]) cs"
  shows "cs = [d] \<or> bs \<noteq> [] \<and> (cs = [last bs, d] \<or>
    cs = [last bs] \<and> 0 < mb \<and> mb < int (length (last bs)) + int (length d))"
proof (cases "length as < length bs")
  case True
  let ?L = "bs @ [d]" and ?a = "length as"
  have L: "?L ! i = bs ! i" if "i < length bs" for i using that by (simp add: nth_append)
  note before = contiguous_before [OF cont, unfolded f]
  have hd: "hd cs = bs ! ?a" using cs(1,2) L [OF True] by (metis hd_append2 hd_conv_nth list.size(3) nth_append_length_plus add_0_right append_is_Nil_conv length_greater_0_conv)
  have a: "Suc ?a = length bs"
  proof (rule ccontr)
    assume "Suc ?a \<noteq> length bs"
    then have s: "Suc ?a < length bs" using True by simp
    have "batch_last (bs ! ?a) < batch_base (bs ! Suc ?a)" using contiguous_mono [OF cont, of ?a "Suc ?a"] s by (simp add: nth_append)
    then show False using before [OF nth_mem [OF s]] cs(3) hd by simp
  qed
  have "cs @ ds = drop ?a (bs @ [d])" using cs(1) by simp
  also have "\<dots> = [last bs, d]" using a True by (cases bs rule: rev_cases) auto
  finally have two: "cs = [last bs, d] \<or> cs = [last bs]" using cs(2) by (auto simp: append_eq_Cons_conv)
  have ne: "bs \<noteq> []" using True by auto
  show ?thesis
  proof (cases "cs = [last bs]")
    case True
    then have "\<not> (\<exists>b\<in>set cs. batch_base b \<le> f \<and> f \<le> batch_last b)" using before [of "last bs"] ne by auto
    then have "0 < mb \<and> mb < int (length (last bs)) + int (length d)" using cs(4) before True by (auto simp: found_at_def)
    then show ?thesis using True ne by simp
  qed (use two ne in blast)
next
  case False
  have "length bs + 1 = length as + length cs + length ds" using arg_cong [OF cs(1), of length] by simp
  then have l: "length as = length bs" "length cs = 1" "ds = []" using False cs(2) by (cases cs; cases ds; simp)+
  then show ?thesis using cs(1) by auto
qed

lemma cl_rep_next: "cl_rep c bss \<Longrightarrow> 0 \<le> cl_nextOffset c" "cl_rep c bss \<Longrightarrow> OldestOffset c \<le> cl_nextOffset c"
    "cl_rep c bss \<Longrightarrow> contiguous (OldestOffset c) (concat bss)"
proof -
  assume r: "cl_rep c bss"
  have ch: "chained (cl_segments c) bss" "cl_segments c \<noteq> []" using r by (auto simp: cl_rep_def)
  have o: "OldestOffset c = seg_BaseOffset (hd (cl_segments c))" using ch(2) by (simp add: OldestOffset_def hd_conv_nth)
  have "seg_rep (hd (cl_segments c)) (bss ! 0)" using chained_rep [OF ch(1), of 0] ch(2) by (simp add: hd_conv_nth)
  then have z: "0 \<le> OldestOffset c" by (simp add: o seg_rep_def)
  have n: "cl_nextOffset c = log_end (OldestOffset c) (concat bss)" using chained_contiguous(2) [OF ch] r by (simp add: o cl_rep_def)
  show c: "contiguous (OldestOffset c) (concat bss)" using chained_contiguous(1) [OF ch] by (simp add: o)
  show "OldestOffset c \<le> cl_nextOffset c" using contiguous_log_end [OF c] n by simp
  with z show "0 \<le> cl_nextOffset c" by simp
qed

lemma last_batch_visible:
  assumes rep: "cl_rep cl bss" "\<not> cl_isClosed cl" and d: "concat bss = bs @ [d]" "batch_base d = f" "f < cl_nextOffset cl" "batch_last d < mv"
    and e: "\<not> clf_stat (e_faults e)"
  obtains cs r where "visible_region e f mb mv cl = Some (Ok (OldestOffset cl, Some r))" "region_bytes r = concat cs"
    "cs = [d] \<or> bs \<noteq> [] \<and> (cs = [last bs, d] \<or> cs = [last bs] \<and> 0 < mb \<and> mb < int (length (last bs)) + int (length d))"
proof -
  have cont: "contiguous (OldestOffset cl) (bs @ [d])" using cl_rep_next(3) [OF rep(1)] d(1) by simp
  have old: "OldestOffset cl \<le> f" using cont contiguous_log_end [of "OldestOffset cl" bs] d(2) by simp
  obtain as cs ds region where v: "concat bss = as @ cs @ ds" "cs \<noteq> []" "f \<le> batch_last (hd cs) + 1"
    "visible_region e f mb mv cl = Some (Ok (OldestOffset cl, region))"
    "case region of None \<Rightarrow> mv \<le> batch_last (hd cs)
       | Some r \<Rightarrow> region_ok r \<and> batch_last (hd cs) < mv \<and> region_bytes r = concat (takeWhile (\<lambda>b. batch_last b < mv) cs)"
    "found_at mb f (concat bss) cs"
    by (rule visible_region_batches [OF rep old d(3) e, where mb = mb and mv = mv])
  have dl: "f \<le> batch_last d" using wf_batch_last [OF contiguous_wf [OF cont, of d]] d(2) by simp
  have lt: "\<forall>b\<in>set cs. batch_last b < mv"
  proof
    fix b assume "b \<in> set cs"
    then have "b \<in> set (as @ cs @ ds)" by simp
    then have "b = d \<or> b \<in> set bs" unfolding v(1) [symmetric] d(1) by auto
    then show "batch_last b < mv" using contiguous_before [OF cont, of b] d(2,4) dl by auto
  qed
  then have "batch_last (hd cs) < mv" using v(2) by simp
  then obtain r where r: "region = Some r" "region_bytes r = concat cs"
    using v(5) lt by (auto simp: takeWhile_eq_all_conv [THEN iffD2] split: option.splits)
  show ?thesis
    by (rule that [OF v(4) [unfolded r(1)] r(2) region_of_last [OF cont d(2) v(1) [unfolded d(1)] v(2,3) v(6) [unfolded d(1)]]])
qed

lemma produce_new_batch:
  assumes "GetPartitionState n i (s_pss s) = Some ps" "ps_LeaderBrokerID ps = s_brokerID s"
    "GetCommitLog S u i (s_topicStore s) = Some cl" "DecodeRecordBatch z recs = Ok b"
    and app: "commitLog_AppendRaw (e_faults e) (e_now e) recs (of_nat (length (rb_Records b))) cl = (Ok base, cl', r)"
    and fresh: "\<forall>st. ps_Idempotence ps = Some st \<and> 0 \<le> sint (rb_ProducerId b) \<longrightarrow>
      (\<exists>c st'. Validate (sint (e_millis e)) (rb_ProducerId b) (rb_ProducerEpoch b) (rb_BaseSequence b)
         (rb_BaseSequence b + of_nat (length (rb_Records b)) - 1) st = (Ok (c, False), st'))"
  obtains pr s' st where "produce_partition S z e AckAtLeastOnce u n \<lparr>ppd_Index = i, ppd_Records = Some recs\<rparr> s = (Ok pr, s')"
    "pt_errorCode pr = 0" "pt_baseOffset pr = word_of_int base"
    "s_topicStore s' = AddCommitLog S u i cl' (s_topicStore s)" "s_brokerID s' = s_brokerID s"
    "GetPartitionState n i (s_pss s') =
       Some (fst (OnLeaderAppend (base + int (length (rb_Records b)) - 1) (ps\<lparr>ps_Idempotence := st\<rparr>)))"
proof -
  let ?pr = "\<lparr>pt_index = i, pt_baseOffset = 0, pt_errorCode = 0, pt_suppressed = False, pt_recordsAppended = 0, pt_bytesAppended = 0\<rparr>"
  let ?part = "\<lparr>ppd_Index = i, ppd_Records = Some recs\<rparr>"
  have run: "produce_partition S z e AckAtLeastOnce u n ?part s = produce_batch S e AckAtLeastOnce u n ?pr recs b ps s"
    using assms(1,2,4)
    by (simp add: produce_partition_def Let_def validateValidAcks_def AckAtMostOnce_def AckAtLeastOnce_def AckExactlyOnce_def)
  obtain st0 s0 where s0: "produce_batch S e AckAtLeastOnce u n ?pr recs b ps s =
      produce_append S e AckAtLeastOnce u n ?pr recs b (ps\<lparr>ps_Idempotence := st0\<rparr>) s0"
    "s_topicStore s0 = s_topicStore s" "s_brokerID s0 = s_brokerID s"
  proof (cases "\<exists>st. ps_Idempotence ps = Some st \<and> 0 \<le> sint (rb_ProducerId b)")
    case True
    then obtain st c st' where "ps_Idempotence ps = Some st" "0 \<le> sint (rb_ProducerId b)"
      "Validate (sint (e_millis e)) (rb_ProducerId b) (rb_ProducerEpoch b) (rb_BaseSequence b)
         (rb_BaseSequence b + of_nat (length (rb_Records b)) - 1) st = (Ok (c, False), st')" using fresh by blast
    then show ?thesis
      using that [of "Some st'" "put_partition n i (ps\<lparr>ps_Idempotence := Some st'\<rparr>) s"] by (simp add: produce_batch_def Let_def)
  next
    case False
    then have "produce_batch S e AckAtLeastOnce u n ?pr recs b ps s =
      produce_append S e AckAtLeastOnce u n ?pr recs b (ps\<lparr>ps_Idempotence := ps_Idempotence ps\<rparr>) s"
      by (auto simp: produce_batch_def Let_def split: option.split)
    then show ?thesis using that [of "ps_Idempotence ps" s] by simp
  qed
  show ?thesis
    by (rule produce_append_leader [of S u ?pr s0 cl e recs b base cl' r n "ps\<lparr>ps_Idempotence := st0\<rparr>"])
       (use assms(3) app s0 run that in auto)
qed

lemma fetch_partition_visible:
  assumes "GetTopic u (s_topicStore s) = Ok topicMeta" "GetPartitionState (ctr_Name topicMeta) (fp_Partition part) (s_pss s) = Some ps"
    "ps_LeaderBrokerID ps = s_brokerID s" "GetCommitLog S u (fp_Partition part) (s_topicStore s) = Some cl"
    and "sint (fp_FetchOffset part) = f" "sint (fp_PartitionMaxBytes part) = mb"
      "ps' = (case replica of Some rid \<Rightarrow> fst (UpdateReplicaLEO (e_now e) rid f ps) | None \<Rightarrow> ps)"
      "visible_region e f mb (if replica = None then ps_HWM ps' else ps_LEO ps') cl = Some (Ok (start, region))"
  shows "\<exists>ans s'. fetch_partition S e replica u part s = Some (Ok (ans, region), s') \<and> fpr_ErrorCode ans = 0"
  using assms by (cases replica) (auto simp: fetch_partition_def Let_def split_beta fetch_error_def)

text \<open>
  C7. What a producer writes can be read. When the leader of a partition accepts a new batch with
  \<^verbatim>\<open>acks=1\<close>, it answers with the offset the log had reached, and a fetch at that offset serves the
  batch, stamped with it: to a follower at once, and to a consumer at once when no follower is in
  sync. The fetch may carry the batch before it as well; it misses the new batch only when the two
  do not fit into the byte limit of the request.
\<close>

theorem produced_batch_is_served:
  assumes topic: "GetTopic u (s_topicStore s) = Ok topicMeta" "ctr_Name topicMeta = n" "GetPartitionState n i (s_pss s) = Some ps"
    and leads: "ps_LeaderBrokerID ps = s_brokerID s" "GetCommitLog S u i (s_topicStore s) = Some cl"
    and log: "cl_rep cl bss" "\<not> cl_isClosed cl" "cl_nextOffset cl + batch_count recs < 2 ^ 63"
      "cl_nextOffset cl - ActiveSegmentBaseOffset cl < 2 ^ 32" "seg_maxBytes (cl_activeSegment cl) \<le> 2 ^ 32"
    and batch: "DecodeRecordBatch z recs = Ok b" "wf_batch recs" "batch_count recs = int (length (rb_Records b))" "batch_count recs < 2 ^ 31"
    and fresh: "\<forall>st. ps_Idempotence ps = Some st \<and> 0 \<le> sint (rb_ProducerId b) \<longrightarrow>
      (\<exists>c st'. Validate (sint (e_millis e)) (rb_ProducerId b) (rb_ProducerEpoch b) (rb_BaseSequence b)
         (rb_BaseSequence b + of_nat (length (rb_Records b)) - 1) st = (Ok (c, False), st'))"
    and env: "e_faults e = no_cl_faults" "\<not> clf_stat (e_faults e')"
    and reader: "replica = None \<longrightarrow> set (ps_ISR ps) \<subseteq> {ps_LeaderBrokerID ps}"
    and fetch: "fp_Partition part = i" "fp_FetchOffset part = word_of_int (cl_nextOffset cl)" "sint (fp_PartitionMaxBytes part) = mb"
  shows "\<exists>pr s' ans r s''.
    produce_partition S z e AckAtLeastOnce u n \<lparr>ppd_Index = i, ppd_Records = Some recs\<rparr> s = (Ok pr, s') \<and>
    pt_errorCode pr = 0 \<and> pt_baseOffset pr = word_of_int (cl_nextOffset cl) \<and>
    fetch_partition S e' replica u part s' = Some (Ok (ans, Some r), s'') \<and> fpr_ErrorCode ans = 0 \<and>
    (let d = patch_base (cl_nextOffset cl) recs; prev = last (concat bss) in
     region_bytes r = d \<or> concat bss \<noteq> [] \<and> (region_bytes r = prev @ d \<or>
       region_bytes r = prev \<and> 0 < mb \<and> mb < int (length prev) + int (length d)))"
proof -
  let ?next = "cl_nextOffset cl" and ?d = "patch_base (cl_nextOffset cl) recs" and ?c = "batch_count recs"
  let ?pr = "\<lparr>pt_index = i, pt_baseOffset = 0, pt_errorCode = 0, pt_suppressed = False, pt_recordsAppended = 0, pt_bytesAppended = 0\<rparr>"
  have c: "1 \<le> ?c" using batch(2) by (simp add: wf_batch_def)
  have z: "0 \<le> ?next" "?next < 2 ^ 63" using cl_rep_next(1) [OF log(1)] log(3) c by simp_all
  have cnt: "sint (of_nat (length (rb_Records b)) :: i32) = ?c"
    using batch(3,4) by (simp add: signed_of_nat signed_take_bit_int_eq_self)
  obtain cl' h bss' where a: "commitLog_AppendRaw no_cl_faults (e_now e) recs (of_nat (length (rb_Records b))) cl = (Ok ?next, cl', h)"
    "cl_rep cl' bss'" "concat bss' = concat bss @ [?d]" "cl_nextOffset cl' = ?next + ?c" "\<not> cl_isClosed cl'"
    using AppendRaw_rep [OF log(1,2) batch(2) cnt z(2) log(4,5)] cnt by metis
  obtain pr s' st where p: "produce_partition S z e AckAtLeastOnce u n \<lparr>ppd_Index = i, ppd_Records = Some recs\<rparr> s = (Ok pr, s')"
    "pt_errorCode pr = 0" "pt_baseOffset pr = word_of_int ?next" "s_topicStore s' = AddCommitLog S u i cl' (s_topicStore s)"
    "s_brokerID s' = s_brokerID s"
    "GetPartitionState n i (s_pss s') = Some (fst (OnLeaderAppend (?next + int (length (rb_Records b)) - 1) (ps\<lparr>ps_Idempotence := st\<rparr>)))"
    by (rule produce_new_batch [OF topic(3) leads batch(1) a(1) [folded env(1)] fresh])
  let ?ps = "fst (OnLeaderAppend (?next + int (length (rb_Records b)) - 1) (ps\<lparr>ps_Idempotence := st\<rparr>))"
  define ps' where "ps' = (case replica of Some rid \<Rightarrow> fst (UpdateReplicaLEO (e_now e') rid ?next ?ps) | None \<Rightarrow> ?ps)"
  define mv where "mv = (if replica = None then ps_HWM ps' else ps_LEO ps')"
  have mv: "?next + ?c \<le> mv"
    using OnLeaderAppend_HWM_alone [of "ps\<lparr>ps_Idempotence := st\<rparr>" "?next + int (length (rb_Records b)) - 1"] reader batch(3)
    by (cases replica) (auto simp: mv_def ps'_def UpdateReplicaLEO_LEO OnLeaderAppend_LEO)
  have off: "sint (fp_FetchOffset part) = ?next" using z by (simp add: fetch(2) sint_sbintrunc' signed_take_bit_int_eq_self)
  have d: "batch_base ?d = ?next" "batch_last ?d < mv"
    using z batch(2) patch_base_last [OF batch(2) z] mv by (auto simp: patch_base_fields wf_batch_def)
  obtain cs r where v: "visible_region e' ?next mb mv cl' = Some (Ok (OldestOffset cl', Some r))" "region_bytes r = concat cs"
    "cs = [?d] \<or> concat bss \<noteq> [] \<and> (cs = [last (concat bss), ?d] \<or>
      cs = [last (concat bss)] \<and> 0 < mb \<and> mb < int (length (last (concat bss))) + int (length ?d))"
    by (rule last_batch_visible [OF a(2,5,3) d(1) _ d(2) env(2), where mb = mb]) (use a(4) c in auto)
  have g: "GetTopic u (s_topicStore s') = Ok topicMeta" "GetCommitLog S u i (s_topicStore s') = Some cl'"
    using topic(1) by (simp_all add: p(4) GetTopic_def GetCommitLog_def AddCommitLog_def update_conv')
  obtain ans s'' where f: "fetch_partition S e' replica u part s' = Some (Ok (ans, Some r), s'')" "fpr_ErrorCode ans = 0"
    using fetch_partition_visible [OF g(1) _ _ _ off fetch(3) ps'_def v(1) [unfolded mv_def], where S = S] g(2) topic(2) leads(1) p(5,6) fetch(1)
    by auto
  show ?thesis using p(1-3) f v(2,3) by (intro exI conjI) (auto simp: Let_def)
qed

definition sample_consumer :: FetchPartition where
  "sample_consumer = \<lparr>fp_Partition = 0, fp_CurrentLeaderEpoch = -1, fp_FetchOffset = 0, fp_LastFetchedEpoch = -1, fp_LogStartOffset = 0,
     fp_PartitionMaxBytes = 1024, fp_ReplicaDirectoryId = None, fp_HighWatermark = None\<rparr>"

theorem produced_batch_is_served_witness:
  "\<exists>cl pr s' ans r s''. produce_partition (\<lambda>_. []) (\<lambda>_. None) sample_env AckAtLeastOnce (replicate 16 9) (str ''t'')
      \<lparr>ppd_Index = 0, ppd_Records = Some retry_batch\<rparr> (leader_of sample_partition cl) = (Ok pr, s') \<and> pt_errorCode pr = 0 \<and>
    fetch_partition (\<lambda>_. []) sample_env None (replicate 16 9) sample_consumer s' = Some (Ok (ans, Some r), s'') \<and>
    region_bytes r = retry_batch"
proof -
  obtain c where c: "cl_rep c [[]]" "\<not> cl_isClosed c" "cl_nextOffset c = 0"
    "ActiveSegmentBaseOffset c = 0" "seg_maxBytes (cl_activeSegment c) = 1048576"
    using empty_log by blast
  obtain b where b: "DecodeRecordBatch (\<lambda>_. None) retry_batch = Ok b" "rb_ProducerId b = 7" "rb_BaseSequence b = 0"
    "length (rb_Records b) = 1" using retry_batch_decodes by blast
  let ?s = "leader_of sample_partition c" and ?u = "replicate 16 9 :: bytes"
  have same: "patch_base 0 retry_batch = retry_batch" by code_simp
  have st: "GetTopic ?u (s_topicStore ?s) = Ok (topic_data (str ''t'') ?u 1 1)"
    "GetPartitionState (str ''t'') 0 (s_pss ?s) = Some sample_partition" "ps_LeaderBrokerID sample_partition = s_brokerID ?s"
    "GetCommitLog (\<lambda>_. []) ?u 0 (s_topicStore ?s) = Some c"
    by (simp_all add: leader_of_def GetTopic_def AddCommitLog_def RegisterTopic_def NewTopicStore_def topic_data_def
        GetPartitionState_def sample_partition_def new_partition_def NewServer_def GetCommitLog_def)
  show ?thesis
    using produced_batch_is_served [OF st(1) _ st(2-4) c(1,2) _ _ _ b(1) retry_batch_wf(1), where e = sample_env and e' = sample_env and replica = None
        and part = sample_consumer and mb = 1024] c(3-5) b(2-4)
    by (simp add: retry_batch_wf topic_data_def sample_env_def sample_consumer_def same sample_partition_def new_partition_def
        NewIdempotenceState_def Validate_def expire_def no_cl_faults_def) blast
qed

section \<open>Fetching over a connection\<close>

text \<open>A consumer reads the one batch of a log through the leader.\<close>

definition sample_fetch :: FetchRequest where
  "sample_fetch = \<lparr>fq_MaxWaitMs = 500, fq_MinBytes = 1, fq_MaxBytes = 4096, fq_IsolationLevel = 0, fq_SessionId = 0, fq_SessionEpoch = 0,
     fq_Topics = [\<lparr>ft_TopicId = replicate 16 9, ft_Partitions = [\<lparr>fp_Partition = 0, fp_CurrentLeaderEpoch = -1, fp_FetchOffset = 0,
       fp_LastFetchedEpoch = -1, fp_LogStartOffset = 0, fp_PartitionMaxBytes = 1024, fp_ReplicaDirectoryId = None,
       fp_HighWatermark = None\<rparr>]\<rparr>],
     fq_ForgottenTopics = [], fq_RackId = [], fq_ClusterId = None, fq_ReplicaState = None\<rparr>"

definition sample_answer :: FetchPartitionResponse where
  "sample_answer = (fetch_error 0 0)\<lparr>fpr_HighWatermark := 1, fpr_LastStableOffset := 1, fpr_LogStartOffset := 0\<rparr>"

definition one_record_partition :: PartitionState where
  "one_record_partition = sample_partition\<lparr>ps_LEO := 1, ps_HWM := 1\<rparr>"

lemma sample_fetch_served:
  "\<exists>cl r. fetch_topics (\<lambda>_. []) sample_env sample_fetch (leader_of one_record_partition cl) =
     Some (Ok [(replicate 16 9, [(sample_answer, Some r)])], leader_of one_record_partition cl) \<and>
     region_ok r \<and> region_bytes r = sample_batch"
proof -
  obtain cl bss where cl: "cl_rep cl bss" "\<not> cl_isClosed cl" "concat bss = [sample_batch]" "cl_nextOffset cl = 1" "OldestOffset cl = 0"
    using one_batch_log by blast
  have b: "batch_last sample_batch = 0" by code_simp
  obtain as cs ds region where v: "concat bss = as @ cs @ ds" "cs \<noteq> []" "visible_region sample_env 0 1024 1 cl = Some (Ok (0, region))"
    "case region of None \<Rightarrow> 1 \<le> batch_last (hd cs)
       | Some r \<Rightarrow> region_ok r \<and> batch_last (hd cs) < 1 \<and> region_bytes r = concat (takeWhile (\<lambda>b. batch_last b < 1) cs)"
    by (rule visible_region_batches [OF cl(1,2), of 0 sample_env, where mb = 1024 and mv = 1])
       (auto simp: cl sample_env_def no_cl_faults_def)
  have "cs = [sample_batch]" using v(1,2) cl(3) by (auto simp: Cons_eq_append_conv append_eq_Cons_conv)
  then obtain r where r: "region = Some r" "region_ok r" "region_bytes r = sample_batch"
    using v(4) b by (auto split: option.splits)
  let ?s = "leader_of one_record_partition cl"
  have get: "GetPartitionState (str ''t'') 0 (s_pss ?s) = Some one_record_partition"
    by (simp add: leader_of_def GetPartitionState_def)
  have "fetch_topics (\<lambda>_. []) sample_env sample_fetch ?s = Some (Ok [(replicate 16 9, [(sample_answer, Some r)])], ?s)"
    using v(3) r(1) put_partition_same [OF get] get
    by (simp add: fetch_topics_def sample_fetch_def is_replica_def fetch_topic_def fetch_partition_def Let_def sample_answer_def
        one_record_partition_def leader_of_def GetTopic_def AddCommitLog_def RegisterTopic_def NewTopicStore_def topic_data_def
        GetPartitionState_def sample_partition_def new_partition_def NewServer_def GetCommitLog_def)
  then show ?thesis using r by blast
qed

text \<open>
  C10. A replica that fetches over the wire gets what the leader decided to serve. The bytes the
  broker client sends, fed to the connection loop of the leader, produce one frame, streamed from
  memory and from the log files, and the client reads that frame as the response with the records
  of every region in place.
\<close>

theorem fetch_over_the_wire:
  assumes req: "FetchRequest_valid req" "length (client_request bc req) \<le> MaxPayloadSize"
    and served: "fetch_topics S (q_env (qs k)) req s = Some (Ok results, s')" "regions_ok results"
    and size: "length (ResponseHeader_Encode (reply_header (fetch_request_header bc)) [] @
      FetchResponse_Encode (fetch_response (fq_SessionId req) results) []) \<le> MaxPayloadSize"
  shows "\<exists>out. conn_handle S z qs k (client_request bc req) \<lparr>sent = [], budget = None\<rparr> s =
      Some (Ok (), \<lparr>sent = out, budget = None\<rparr>, s') \<and>
    client_response out = Ok (fetch_response (fq_SessionId req) results)"
proof -
  let ?h = "fetch_request_header bc"
  let ?p = "RequestHeader_Encode ?h [] @ FetchRequest_Encode req []"
  let ?r = "ResponseHeader_Encode (reply_header ?h) [] @ FetchResponse_Encode (fetch_response (fq_SessionId req) results) []"
  have hv: "request_header_valid ?h" by (simp add: fetch_request_header_def request_header_valid_def str_def)
  have cr: "client_request bc req = be_enc 4 (of_nat (length ?p) :: u32) @ ?p @ []"
    using fetchRequest.wr_append [of req "RequestHeader_Encode ?h []"] by (simp add: client_request_def Let_def NewWriter_def)
  have len: "length ?p \<le> MaxPayloadSize" using req(2) by (simp add: cr)
  have dec: "fst (FetchRequest_Decode \<lparr>buff = ?p, pos = int (length (RequestHeader_Encode ?h []))\<rparr>) = Ok req"
    using decodesD [OF fetchRequest.rd_wr [OF req(1)], of "RequestHeader_Encode ?h []" "[]"] len by (simp add: MaxPayloadSize_def)
  have key: "rqh_ApiKey ?h = 1" "rqh_ApiVersion ?h = 18" by (simp_all add: fetch_request_header_def)
  have "conn_handle S z qs k (client_request bc req) \<lparr>sent = [], budget = None\<rparr> s =
      Some (Ok (), \<lparr>sent = be_enc 4 (of_nat (length ?r) :: u32) @ ?r, budget = None\<rparr>, s')"
    unfolding cr conn_handle_frame [OF hv refl len]
    using HandleFetch_sends [OF dec served, of "\<lparr>sent = [], budget = None\<rparr>"]
    by (simp add: HandleRequest_def key Let_def conn_handle_end)
  then show ?thesis
    using client_reads_fetch [OF served(1) req(1) key refl size] by blast
qed

theorem fetch_over_the_wire_witness:
  "\<exists>cl out. conn_handle (\<lambda>_. []) (\<lambda>_. None) (\<lambda>_. \<lparr>q_env = sample_env, q_joins = (\<lambda>_. None), q_syncs = (\<lambda>_. None), q_isTCP = True\<rparr>) 0
      (client_request (NewBrokerClient 1 []) sample_fetch) \<lparr>sent = [], budget = None\<rparr> (leader_of one_record_partition cl) =
      Some (Ok (), \<lparr>sent = out, budget = None\<rparr>, leader_of one_record_partition cl) \<and>
    client_response out = Ok ((fetch_header 0)\<lparr>frs_Responses := [\<lparr>ftr_TopicId = replicate 16 9,
      ftr_Partitions = [sample_answer\<lparr>fpr_Records := Some sample_batch\<rparr>]\<rparr>]\<rparr>)"
proof -
  let ?q = "\<lambda>_ :: nat. \<lparr>q_env = sample_env, q_joins = (\<lambda>_. None), q_syncs = (\<lambda>_. None), q_isTCP = True\<rparr>"
  let ?bc = "NewBrokerClient 1 []"
  obtain cl r where f: "fetch_topics (\<lambda>_. []) (q_env (?q 0)) sample_fetch (leader_of one_record_partition cl) =
     Some (Ok [(replicate 16 9, [(sample_answer, Some r)])], leader_of one_record_partition cl)"
     "region_ok r" "region_bytes r = sample_batch"
    using sample_fetch_served by auto
  have v: "FetchRequest_valid sample_fetch"
    by (simp add: sample_fetch_def FetchRequest_valid_def FetchTopic_valid_def FetchPartition_valid_def)
  have l1: "length (client_request ?bc sample_fetch) \<le> 1000" by code_simp
  have resp: "fetch_response (fq_SessionId sample_fetch) [(replicate 16 9, [(sample_answer, Some r)])] =
      (fetch_header 0)\<lparr>frs_Responses := [\<lparr>ftr_TopicId = replicate 16 9,
        ftr_Partitions = [sample_answer\<lparr>fpr_Records := Some sample_batch\<rparr>]\<rparr>]\<rparr>"
    using f(3) by (simp add: fetch_response_def sample_fetch_def)
  have l2: "length (ResponseHeader_Encode (reply_header (fetch_request_header ?bc)) [] @
      FetchResponse_Encode ((fetch_header 0)\<lparr>frs_Responses := [\<lparr>ftr_TopicId = replicate 16 9,
        ftr_Partitions = [sample_answer\<lparr>fpr_Records := Some sample_batch\<rparr>]\<rparr>]\<rparr>) []) \<le> 1000" by code_simp
  have ok: "regions_ok [(replicate 16 9, [(sample_answer, Some r)])]" using f(2) by (simp add: regions_ok_def)
  show ?thesis
    using fetch_over_the_wire [where qs = ?q and k = 0, OF v _ f(1) ok, where bc = ?bc and z = "\<lambda>_. None"] l1 l2
    by (simp add: resp MaxPayloadSize_def) blast
qed

section \<open>Committed offsets over a connection\<close>

text \<open>A request frame, as a client writes it.\<close>

definition request_frame :: "RequestHeader \<Rightarrow> bytes \<Rightarrow> bytes" where
  "request_frame h body =
     be_enc 4 (of_nat (length (RequestHeader_Encode h [] @ body)) :: u32) @ RequestHeader_Encode h [] @ body"

definition reply_frame :: "bytes \<Rightarrow> bytes" where
  "reply_frame p = be_enc 4 (of_nat (length p) :: u32) @ p"

text \<open>
  C13. Offsets committed over a connection are read back over it. A client that sends an offset
  commit and then an offset fetch for a partition of the same group gets two frames; the second
  one reads as the offset, leader epoch and metadata that the last entry of the commit for that
  partition had.
\<close>

theorem commit_then_fetch_over_the_wire:
  assumes h1: "request_header_valid h1" "rqh_ApiKey h1 = 8" and h2: "request_header_valid h2" "rqh_ApiKey h2 = 9"
    and fq: "fq = \<lparr>ofq_Groups = [\<lparr>ofg_GroupID = ocq_GroupID cq, ofg_Topics = [\<lparr>oft_Topic = t, oft_PartitionIndexes = [i]\<rparr>]\<rparr>],
      ofq_RequireStable = st\<rparr>"
    and len: "length (RequestHeader_Encode h1 [] @ OffsetCommitRequest_wire cq []) \<le> MaxPayloadSize"
      "length (RequestHeader_Encode h2 [] @ OffsetFetchRequest_wire fq []) \<le> MaxPayloadSize"
    and co: "last_commit (offset_commits cq) t i = Some co"
    and resp: "resp = \<lparr>ofs_ThrottleTimeMs = 0, ofs_Groups = [\<lparr>ofrg_GroupID = ocq_GroupID cq,
      ofrg_Topics = [\<lparr>ofrt_Topic = t, ofrt_Partitions = [\<lparr>ofrp_PartitionIndex = i, ofrp_CommittedOffset = co_Offset co,
        ofrp_CommittedLeaderEpoch = co_LeaderEpoch co, ofrp_Metadata = co_Metadata co, ofrp_ErrorCode = 0\<rparr>]\<rparr>],
      ofrg_ErrorCode = 0\<rparr>]\<rparr>"
    and size: "length (reply OffsetFetchResponse_Encode (reply_header h2) resp) \<le> MaxPayloadSize"
  shows "\<exists>a b s'. conn_handle S z qs 0
      (request_frame h1 (OffsetCommitRequest_wire cq []) @ request_frame h2 (OffsetFetchRequest_wire fq []))
      \<lparr>sent = [], budget = None\<rparr> s = Some (Ok (), \<lparr>sent = reply_frame a @ reply_frame b, budget = None\<rparr>, s') \<and>
    fst (rbind (ResponseHeader_Decode ((reply_header h2)\<lparr>rsh_CorrelationId := 0\<rparr>))
      (\<lambda>h. rbind OffsetFetchResponse_read (\<lambda>p. rret (h, p))) (NewReader b)) = Ok (reply_header h2, resp)"
proof -
  let ?p1 = "RequestHeader_Encode h1 [] @ OffsetCommitRequest_wire cq []" and ?p2 = "RequestHeader_Encode h2 [] @ OffsetFetchRequest_wire fq []"
  let ?gs = "CommitOffsets (e_now (q_env (qs 0))) (ocq_GroupID cq) (offset_commits cq) (s_groupStore s)"
  let ?s = "s\<lparr>s_groupStore := ?gs\<rparr>"
  obtain cr where cr: "offset_commit (e_now (q_env (qs 0))) cq (s_groupStore s) = (Ok cr, ?gs)" by (simp add: offset_commit_def)
  let ?a = "reply OffsetCommitResponse_Encode (reply_header h1) cr" and ?b = "reply OffsetFetchResponse_Encode (reply_header h2) resp"
  have "offset_fetch_group ?gs \<lparr>ofg_GroupID = ocq_GroupID cq, ofg_Topics = [\<lparr>oft_Topic = t, oft_PartitionIndexes = [i]\<rparr>]\<rparr> = hd (ofs_Groups resp)"
    using FetchOffsets_commit [of "ocq_GroupID cq" t i "e_now (q_env (qs 0))" "ocq_GroupID cq" "offset_commits cq" "s_groupStore s"] co
    by (simp add: offset_fetch_group_def offset_queries_def resp add_result_def Let_def)
  then have fr: "offset_fetch fq ?gs = (Ok resp, ?gs)" by (simp add: offset_fetch_def fq resp)
  have 1: "HandleRequest S z (qs 0) 8 h1 \<lparr>buff = ?p1, pos = int (length (RequestHeader_Encode h1 []))\<rparr> \<lparr>sent = [], budget = None\<rparr> s =
      Some (Ok (), \<lparr>sent = reply_frame ?a, budget = None\<rparr>, ?s)"
    using offset_commit_rpc.answered [OF TrueI, of "RequestHeader_Encode h1 []" cq "[]" "offset_commit (e_now (q_env (qs 0)))"
        "s_groupStore s" cr ?gs "\<lparr>sent = [], budget = None\<rparr>" "reply_header h1"] cr len(1)
    by (simp add: HandleRequest_def on_groups_def HandleOffsetCommitApi_def Let_def reply_frame_def MaxPayloadSize_def)
  have 2: "HandleRequest S z (qs 1) 9 h2 \<lparr>buff = ?p2, pos = int (length (RequestHeader_Encode h2 []))\<rparr>
      \<lparr>sent = reply_frame ?a, budget = None\<rparr> ?s = Some (Ok (), \<lparr>sent = reply_frame ?a @ reply_frame ?b, budget = None\<rparr>, ?s)"
    using offset_fetch_rpc.answered [OF TrueI, of "RequestHeader_Encode h2 []" fq "[]" offset_fetch ?gs resp ?gs
        "\<lparr>sent = reply_frame ?a, budget = None\<rparr>" "reply_header h2"] fr len(2)
    by (simp add: HandleRequest_def on_groups_def HandleOffsetFetchApi_def Let_def reply_frame_def MaxPayloadSize_def)
  have "conn_handle S z qs 0 (request_frame h1 (OffsetCommitRequest_wire cq []) @ request_frame h2 (OffsetFetchRequest_wire fq []))
      \<lparr>sent = [], budget = None\<rparr> s = Some (Ok (), \<lparr>sent = reply_frame ?a @ reply_frame ?b, budget = None\<rparr>, ?s)"
    using conn_handle_frame [OF h1(1) refl len(1), of S z qs 0 "request_frame h2 (OffsetFetchRequest_wire fq [])" "\<lparr>sent = [], budget = None\<rparr>" s]
      conn_handle_frame [OF h2(1) refl len(2), of S z qs 1 "[]" "\<lparr>sent = reply_frame ?a, budget = None\<rparr>" ?s] 1 2 h1(2) h2(2)
    by (simp add: request_frame_def conn_handle_end)
  then show ?thesis using offset_fetch_rpc.received(2) [OF TrueI size, of 0] by blast
qed

definition offsets_header :: "i16 \<Rightarrow> RequestHeader" where
  "offsets_header key = \<lparr>rqh_ApiKey = key, rqh_ApiVersion = 8, rqh_CorrelationId = 5, rqh_ClientId = Some (str ''c'')\<rparr>"

definition sample_commit :: OffsetCommitRequest where
  "sample_commit = \<lparr>ocq_GroupID = str ''g'', ocq_GenerationIDOrMemberEpoch = 1, ocq_MemberID = str ''m'', ocq_GroupInstanceID = None,
     ocq_Topics = [\<lparr>oct_Topic = str ''t'', oct_Partitions = [\<lparr>ocp_PartitionIndex = 0, ocp_CommittedOffset = 41,
       ocp_CommittedLeaderEpoch = 2, ocp_CommittedMetadata = None\<rparr>]\<rparr>]\<rparr>"

theorem commit_then_fetch_over_the_wire_witness:
  "let fq = \<lparr>ofq_Groups = [\<lparr>ofg_GroupID = str ''g'', ofg_Topics = [\<lparr>oft_Topic = str ''t'', oft_PartitionIndexes = [0]\<rparr>]\<rparr>],
         ofq_RequireStable = False\<rparr>;
       resp = \<lparr>ofs_ThrottleTimeMs = 0, ofs_Groups = [\<lparr>ofrg_GroupID = str ''g'',
         ofrg_Topics = [\<lparr>ofrt_Topic = str ''t'', ofrt_Partitions = [\<lparr>ofrp_PartitionIndex = 0, ofrp_CommittedOffset = 41,
           ofrp_CommittedLeaderEpoch = 2, ofrp_Metadata = None, ofrp_ErrorCode = 0\<rparr>]\<rparr>], ofrg_ErrorCode = 0\<rparr>]\<rparr>
   in \<exists>a b s'. conn_handle (\<lambda>_. []) (\<lambda>_. None)
        (\<lambda>_. \<lparr>q_env = sample_env, q_joins = (\<lambda>_. None), q_syncs = (\<lambda>_. None), q_isTCP = True\<rparr>) 0
        (request_frame (offsets_header 8) (OffsetCommitRequest_wire sample_commit []) @
         request_frame (offsets_header 9) (OffsetFetchRequest_wire fq []))
        \<lparr>sent = [], budget = None\<rparr> (NewServer sample_env 1 [] 9092) =
          Some (Ok (), \<lparr>sent = reply_frame a @ reply_frame b, budget = None\<rparr>, s') \<and>
      fst (rbind (ResponseHeader_Decode ((reply_header (offsets_header 9))\<lparr>rsh_CorrelationId := 0\<rparr>))
        (\<lambda>h. rbind OffsetFetchResponse_read (\<lambda>p. rret (h, p))) (NewReader b)) = Ok (reply_header (offsets_header 9), resp)"
proof -
  let ?fq = "\<lparr>ofq_Groups = [\<lparr>ofg_GroupID = str ''g'', ofg_Topics = [\<lparr>oft_Topic = str ''t'', oft_PartitionIndexes = [0]\<rparr>]\<rparr>],
         ofq_RequireStable = False\<rparr>"
  let ?resp = "\<lparr>ofs_ThrottleTimeMs = 0, ofs_Groups = [\<lparr>ofrg_GroupID = str ''g'',
         ofrg_Topics = [\<lparr>ofrt_Topic = str ''t'', ofrt_Partitions = [\<lparr>ofrp_PartitionIndex = 0, ofrp_CommittedOffset = 41,
           ofrp_CommittedLeaderEpoch = 2, ofrp_Metadata = None, ofrp_ErrorCode = 0\<rparr>]\<rparr>], ofrg_ErrorCode = 0\<rparr>]\<rparr>"
  have l: "length (RequestHeader_Encode (offsets_header 8) [] @ OffsetCommitRequest_wire sample_commit []) \<le> 1000"
    "length (RequestHeader_Encode (offsets_header 9) [] @ OffsetFetchRequest_wire ?fq []) \<le> 1000"
    "length (reply OffsetFetchResponse_Encode (reply_header (offsets_header 9)) ?resp) \<le> 1000"
    by code_simp+
  show ?thesis
    unfolding Let_def
    by (rule commit_then_fetch_over_the_wire [where cq = sample_commit and t = "str ''t''" and i = 0 and st = False and
          co = "\<lparr>co_TopicName = str ''t'', co_PartitionIdx = 0, co_Offset = 41, co_LeaderEpoch = 2, co_Metadata = None\<rparr>"])
       (use l in \<open>simp_all add: MaxPayloadSize_def offsets_header_def request_header_valid_def sample_commit_def last_commit_def
         offset_commits_def str_def\<close>)
qed

end
